(* ===== verification/Prelude.thy ===== *)
theory Prelude
  imports Main "HOL-Library.Word" "HOL-Library.Sublist"
begin

text \<open>
  The shared base of the development: fixed-width integers with Rust's saturating
  operations, the result type and Rust's \<open>?\<close> operator, strings as UTF-8 bytes with the
  standard library operations the sources call, and tables of rows with the SQL
  operations the repositories issue.
\<close>

unbundle bit_operations_syntax

named_theorems res_simps \<open>rules that run the result type\<close>
named_theorems tbl_simps \<open>rules for tables of rows\<close>

subsection \<open>Fixed-width integers\<close>

type_synonym u8 = "8 word"
type_synonym u32 = "32 word"
type_synonym u64 = "64 word"
type_synonym uuid = "128 word"

text \<open>Rust's \<open>u64::saturating_add\<close> and \<open>u64::saturating_sub\<close>.\<close>

definition saturating_add :: "u64 \<Rightarrow> u64 \<Rightarrow> u64" where
  "saturating_add a b = (if unat a + unat b < 2 ^ 64 then a + b else - 1)"

definition saturating_sub :: "u64 \<Rightarrow> u64 \<Rightarrow> u64" where
  "saturating_sub a b = (if a < b then 0 else a - b)"

text \<open>
  An \<open>i32\<close> is an \<open>int\<close>; \<open>wrap_i32\<close> is where two's complement arithmetic brings a
  value that leaves the range.
\<close>

definition wrap_i32 :: "int \<Rightarrow> int" where
  "wrap_i32 x = (x + 2 ^ 31) mod 2 ^ 32 - 2 ^ 31"

lemma unat_saturating_sub: "unat (saturating_sub a b) = unat a - unat b"
  by (auto simp: saturating_sub_def word_less_nat_alt unat_sub word_le_nat_alt)

lemma unat_saturating_add: "unat (saturating_add a b) = min (unat a + unat b) (2 ^ 64 - 1)"
proof (cases "unat a + unat b < 2 ^ 64")
  case True
  then show ?thesis
    by (simp add: saturating_add_def unat_word_ariths min_def)
next
  case False
  have "(- 1 :: u64) = 18446744073709551615"
    by simp
  then have "unat (- 1 :: u64) = unat (18446744073709551615 :: u64)"
    by (rule arg_cong)
  with False show ?thesis
    by (simp add: saturating_add_def min_def)
qed

lemma wrap_i32_id [simp]: "- (2 ^ 31) \<le> x \<Longrightarrow> x < 2 ^ 31 \<Longrightarrow> wrap_i32 x = x"
  by (simp add: wrap_i32_def)

lemma wrap_i32_range: "- (2 ^ 31) \<le> wrap_i32 x \<and> wrap_i32 x < 2 ^ 31"
  using pos_mod_bound [of "2 ^ 32" "x + 2 ^ 31"] pos_mod_sign [of "2 ^ 32" "x + 2 ^ 31"]
  by (simp add: wrap_i32_def)

subsection \<open>Results\<close>

text \<open>
  A \<open>Result<T, E>\<close> is \<open>'e + 'a\<close> with \<open>Inl\<close> for \<open>Err\<close>. \<open>try_res r k\<close> is
  \<open>let x = r?; k x\<close>; \<open>try_st r s k\<close> is the same inside a function that owns the state
  \<open>s\<close>: an early return leaves \<open>s\<close> as it is.
\<close>

definition try_res :: "'e + 'a \<Rightarrow> ('a \<Rightarrow> 'e + 'b) \<Rightarrow> 'e + 'b" where
  "try_res r k = (case r of Inl e \<Rightarrow> Inl e | Inr x \<Rightarrow> k x)"

definition try_st :: "'e + 'a \<Rightarrow> 's \<Rightarrow> ('a \<Rightarrow> ('e + 'b) \<times> 's) \<Rightarrow> ('e + 'b) \<times> 's" where
  "try_st r s k = (case r of Inl e \<Rightarrow> (Inl e, s) | Inr x \<Rightarrow> k x)"

definition map_err :: "('e \<Rightarrow> 'f) \<Rightarrow> 'e + 'a \<Rightarrow> 'f + 'a" where
  "map_err f r = (case r of Inl e \<Rightarrow> Inl (f e) | Inr x \<Rightarrow> Inr x)"

definition ok_or :: "'e \<Rightarrow> 'a option \<Rightarrow> 'e + 'a" where
  "ok_or e m = (case m of None \<Rightarrow> Inl e | Some x \<Rightarrow> Inr x)"

definition unwrap_or :: "'a \<Rightarrow> 'a option \<Rightarrow> 'a" where
  "unwrap_or d m = (case m of None \<Rightarrow> d | Some x \<Rightarrow> x)"

text \<open>A loop that applies a fallible body to every element and stops at the first error.\<close>

fun map_res :: "('a \<Rightarrow> 'e + 'b) \<Rightarrow> 'a list \<Rightarrow> 'e + 'b list" where
  "map_res f [] = Inr []"
| "map_res f (x # xs) = try_res (f x) (\<lambda>y. try_res (map_res f xs) (\<lambda>ys. Inr (y # ys)))"

definition is_ok :: "'e + 'a \<Rightarrow> bool" where
  "is_ok r = (case r of Inl _ \<Rightarrow> False | Inr _ \<Rightarrow> True)"

lemma try_res_simps [simp, res_simps]:
  "try_res (Inl e) k = Inl e" "try_res (Inr x) k = k x"
  by (simp_all add: try_res_def)

lemma try_st_simps [simp, res_simps]:
  "try_st (Inl e) s k = (Inl e, s)" "try_st (Inr x) s k' = k' x"
  by (simp_all add: try_st_def)

lemma map_err_simps [simp, res_simps]:
  "map_err f (Inl e) = Inl (f e)" "map_err f (Inr x) = Inr x"
  by (simp_all add: map_err_def)

lemma map_err_Inr [simp]: "map_err f r = Inr y \<longleftrightarrow> r = Inr y"
  by (cases r) (simp_all add: map_err_def)

lemma ok_or_simps [simp, res_simps]: "ok_or e None = Inl e" "ok_or e (Some x) = Inr x"
  by (simp_all add: ok_or_def)

lemma unwrap_or_simps [simp, res_simps]: "unwrap_or d None = d" "unwrap_or d (Some x) = x"
  by (simp_all add: unwrap_or_def)

lemma is_ok_simps [simp, res_simps]: "\<not> is_ok (Inl e)" "is_ok (Inr x)"
  by (simp_all add: is_ok_def)

lemma is_ok_iff: "is_ok r \<longleftrightarrow> (\<exists>x. r = Inr x)"
  by (cases r) auto

lemma try_res_Inr: "try_res r k = Inr y \<longleftrightarrow> (\<exists>x. r = Inr x \<and> k x = Inr y)"
  by (cases r) auto

lemma try_res_Inl: "try_res r k = Inl e \<longleftrightarrow> r = Inl e \<or> (\<exists>x. r = Inr x \<and> k x = Inl e)"
  by (cases r) auto

lemma ok_or_Inr: "ok_or e m = Inr x \<longleftrightarrow> m = Some x"
  by (cases m) auto

lemma try_st_Inr:
  "try_st r s k = (Inr y, s') \<longleftrightarrow> (\<exists>x. r = Inr x \<and> k x = (Inr y, s'))"
  by (cases r) auto

lemmas res_invert = try_res_Inr ok_or_Inr try_st_Inr

lemma map_res_Inr:
  "map_res f xs = Inr ys \<longleftrightarrow> length ys = length xs \<and> (\<forall>i < length xs. f (xs ! i) = Inr (ys ! i))"
proof (induction xs arbitrary: ys)
  case Nil
  then show ?case by auto
next
  case (Cons x xs)
  show ?case
    by (cases ys) (auto simp: try_res_Inr Cons.IH nth_Cons split: nat.splits)
qed

lemma map_res_ok: "is_ok (map_res f xs) \<longleftrightarrow> list_all (\<lambda>x. is_ok (f x)) xs"
proof (induction xs)
  case Nil
  then show ?case by simp
next
  case (Cons x xs)
  then show ?case
    by (cases "f x"; cases "map_res f xs") auto
qed

lemma map_res_total: "(\<And>x. x \<in> set xs \<Longrightarrow> f x = Inr (g x)) \<Longrightarrow> map_res f xs = Inr (map g xs)"
  by (induction xs) auto

lemma map_res_cong [fundef_cong]:
  "xs = ys \<Longrightarrow> (\<And>x. x \<in> set ys \<Longrightarrow> f x = g x) \<Longrightarrow> map_res f xs = map_res g ys"
  by (induction xs arbitrary: ys) auto

subsection \<open>Strings\<close>

text \<open>
  A Rust \<open>str\<close> is its UTF-8 byte sequence, one \<open>char\<close> per byte, so \<open>length\<close> is
  \<open>str::len\<close>. \<open>chars_count\<close> is \<open>s.chars().count()\<close>: the bytes that are not
  continuation bytes.
\<close>

definition is_cont :: "char \<Rightarrow> bool" where
  "is_cont c \<longleftrightarrow> 128 \<le> (of_char c :: nat) \<and> (of_char c :: nat) < 192"

definition chars_count :: "string \<Rightarrow> nat" where
  "chars_count s = length (filter (\<lambda>c. \<not> is_cont c) s)"

text \<open>The UTF-8 encodings of the characters \<open>char::is_whitespace\<close> accepts.\<close>

definition ws_encodings :: "string list" where
  "ws_encodings =
     [[CHR 0x09], [CHR 0x0A], [CHR 0x0B], [CHR 0x0C], [CHR 0x0D], [CHR 0x20],
      [CHR 0xC2, CHR 0x85], [CHR 0xC2, CHR 0xA0], [CHR 0xE1, CHR 0x9A, CHR 0x80],
      [CHR 0xE2, CHR 0x80, CHR 0x80], [CHR 0xE2, CHR 0x80, CHR 0x81],
      [CHR 0xE2, CHR 0x80, CHR 0x82], [CHR 0xE2, CHR 0x80, CHR 0x83],
      [CHR 0xE2, CHR 0x80, CHR 0x84], [CHR 0xE2, CHR 0x80, CHR 0x85],
      [CHR 0xE2, CHR 0x80, CHR 0x86], [CHR 0xE2, CHR 0x80, CHR 0x87],
      [CHR 0xE2, CHR 0x80, CHR 0x88], [CHR 0xE2, CHR 0x80, CHR 0x89],
      [CHR 0xE2, CHR 0x80, CHR 0x8A], [CHR 0xE2, CHR 0x80, CHR 0xA8],
      [CHR 0xE2, CHR 0x80, CHR 0xA9], [CHR 0xE2, CHR 0x80, CHR 0xAF],
      [CHR 0xE2, CHR 0x81, CHR 0x9F], [CHR 0xE3, CHR 0x80, CHR 0x80]]"

text \<open>
  \<open>strip_all ws s\<close> removes from the front of \<open>s\<close> as long as one of the (non-empty)
  strings \<open>ws\<close> is a prefix; \<open>trim\<close> does so at both ends.
\<close>

function strip_all :: "string list \<Rightarrow> string \<Rightarrow> string" where
  "strip_all ws s =
     (case find (\<lambda>w. w \<noteq> [] \<and> prefix w s) ws of
        None \<Rightarrow> s
      | Some w \<Rightarrow> strip_all ws (drop (length w) s))"
  by pat_completeness auto
termination
proof (relation "measure (\<lambda>(ws, s). length s)")
  fix ws s w
  assume "find (\<lambda>w. w \<noteq> [] \<and> prefix w s) ws = Some w"
  then have "w \<noteq> []" "prefix w s"
    by (auto simp: find_Some_iff)
  then have "0 < length w" "0 < length s"
    by auto
  then show "((ws, drop (length w) s), (ws, s)) \<in> measure (\<lambda>(ws, s). length s)"
    by simp
qed simp

declare strip_all.simps [simp del]

definition trim :: "string \<Rightarrow> string" where
  "trim s = rev (strip_all (map rev ws_encodings) (rev (strip_all ws_encodings s)))"

lemma strip_all_suffix: "suffix (strip_all ws s) s"
proof (induction ws s rule: strip_all.induct)
  case (1 ws s)
  show ?case
  proof (cases "find (\<lambda>w. w \<noteq> [] \<and> prefix w s) ws")
    case None
    then show ?thesis by (simp add: strip_all.simps [of ws s])
  next
    case (Some w)
    with "1.IH" [OF Some] show ?thesis
      by (simp add: strip_all.simps [of ws s]) (metis suffix_drop suffix_order.trans)
  qed
qed

lemma strip_all_done: "find (\<lambda>w. w \<noteq> [] \<and> prefix w (strip_all ws s)) ws = None"
proof (induction ws s rule: strip_all.induct)
  case (1 ws s)
  show ?case
  proof (cases "find (\<lambda>w. w \<noteq> [] \<and> prefix w s) ws")
    case None
    then show ?thesis by (simp add: strip_all.simps [of ws s])
  next
    case (Some w)
    with "1.IH" [OF Some] show ?thesis
      by (simp add: strip_all.simps [of ws s])
  qed
qed

lemma strip_all_fixed: "find (\<lambda>w. w \<noteq> [] \<and> prefix w s) ws = None \<Longrightarrow> strip_all ws s = s"
  by (simp add: strip_all.simps)

lemma trim_trim [simp]: "trim (trim s) = trim s"
proof -
  let ?a = "strip_all ws_encodings s"
  let ?b = "strip_all (map rev ws_encodings) (rev ?a)"
  have "prefix (rev ?b) ?a"
    using strip_all_suffix [of "map rev ws_encodings" "rev ?a"] by (simp add: suffix_to_prefix)
  then have "find (\<lambda>w. w \<noteq> [] \<and> prefix w (rev ?b)) ws_encodings = None"
    using strip_all_done [of ws_encodings s]
    by (auto simp: find_None_iff)
  then have "strip_all ws_encodings (rev ?b) = rev ?b"
    by (rule strip_all_fixed)
  moreover have "strip_all (map rev ws_encodings) ?b = ?b"
    by (rule strip_all_fixed [OF strip_all_done])
  ultimately show ?thesis
    by (simp add: trim_def)
qed

text \<open>\<open>str::split\<close> and \<open>str::split_once\<close> on a character, and joining with a separator.\<close>

fun split_on :: "char \<Rightarrow> string \<Rightarrow> string list" where
  "split_on c [] = [[]]"
| "split_on c (x # xs) =
     (if x = c then [] # split_on c xs
      else case split_on c xs of [] \<Rightarrow> [[x]] | p # ps \<Rightarrow> (x # p) # ps)"

fun split_once :: "char \<Rightarrow> string \<Rightarrow> (string \<times> string) option" where
  "split_once c [] = None"
| "split_once c (x # xs) =
     (if x = c then Some ([], xs)
      else case split_once c xs of None \<Rightarrow> None | Some (a, b) \<Rightarrow> Some (x # a, b))"

fun join :: "string \<Rightarrow> string list \<Rightarrow> string" where
  "join sep [] = []"
| "join sep [s] = s"
| "join sep (s # t # ts) = s @ sep @ join sep (t # ts)"

lemma split_on_no_sep: "c \<notin> set s \<Longrightarrow> split_on c s = [s]"
  by (induction s) auto

lemma split_on_append: "c \<notin> set s \<Longrightarrow> split_on c (s @ c # t) = s # split_on c t"
  by (induction s) auto

lemma split_on_join:
  "ss \<noteq> [] \<Longrightarrow> (\<And>s. s \<in> set ss \<Longrightarrow> c \<notin> set s) \<Longrightarrow> split_on c (join [c] ss) = ss"
  by (induction "[c]" ss rule: join.induct) (auto simp: split_on_no_sep split_on_append)

lemma split_once_append: "c \<notin> set s \<Longrightarrow> split_once c (s @ c # t) = Some (s, t)"
  by (induction s) auto

lemma split_once_Some: "split_once c s = Some (a, b) \<longleftrightarrow> s = a @ c # b \<and> c \<notin> set a"
proof (induction s arbitrary: a)
  case Nil
  then show ?case by simp
next
  case (Cons x xs)
  show ?case
  proof (cases "split_once c xs")
    case None
    with Cons.IH show ?thesis by (cases a) auto
  next
    case (Some ab)
    with Cons.IH show ?thesis by (cases a; cases ab) auto
  qed
qed

lemma split_once_None: "split_once c s = None \<longleftrightarrow> c \<notin> set s"
  by (induction s) (auto split: option.splits)

lemma set_split_on: "p \<in> set (split_on c s) \<Longrightarrow> c \<notin> set p \<and> set p \<subseteq> set s"
  by (induction s arbitrary: p) (fastforce split: if_splits list.splits)+

subsection \<open>Tables\<close>

text \<open>
  A Postgres table is the list of its rows. \<open>lookup key k t\<close> is a \<open>SELECT\<close> of the row
  with key \<open>k\<close>, \<open>insert_row\<close> an \<open>INSERT\<close> that fails on a duplicate primary key,
  \<open>update_row\<close> and \<open>delete_row\<close> an \<open>UPDATE\<close> and a \<open>DELETE\<close> of one key.
\<close>

definition lookup :: "('r \<Rightarrow> 'k) \<Rightarrow> 'k \<Rightarrow> 'r list \<Rightarrow> 'r option" where
  "lookup key k t = find (\<lambda>r. key r = k) t"

definition insert_row :: "('r \<Rightarrow> 'k) \<Rightarrow> 'e \<Rightarrow> 'r \<Rightarrow> 'r list \<Rightarrow> 'e + 'r list" where
  "insert_row key e r t = (if key r \<in> key ` set t then Inl e else Inr (t @ [r]))"

definition update_row :: "('r \<Rightarrow> 'k) \<Rightarrow> 'k \<Rightarrow> ('r \<Rightarrow> 'r) \<Rightarrow> 'r list \<Rightarrow> 'r list" where
  "update_row key k f t = map (\<lambda>r. if key r = k then f r else r) t"

definition delete_row :: "('r \<Rightarrow> 'k) \<Rightarrow> 'k \<Rightarrow> 'r list \<Rightarrow> 'r list" where
  "delete_row key k t = filter (\<lambda>r. key r \<noteq> k) t"

definition pk :: "('r \<Rightarrow> 'k) \<Rightarrow> 'r list \<Rightarrow> bool" where
  "pk key t \<longleftrightarrow> distinct (map key t)"

lemma lookup_Nil [simp, tbl_simps]: "lookup key k [] = None"
  by (simp add: lookup_def)

lemma lookup_Cons: "lookup key k (r # t) = (if key r = k then Some r else lookup key k t)"
  by (simp add: lookup_def)

lemma lookup_append:
  "lookup key k (t @ u) = (case lookup key k t of None \<Rightarrow> lookup key k u | Some r \<Rightarrow> Some r)"
  by (induction t) (auto simp: lookup_Cons)

lemma lookup_None [tbl_simps]: "lookup key k t = None \<longleftrightarrow> k \<notin> key ` set t"
  by (induction t) (auto simp: lookup_Cons)

lemma lookup_SomeD: "lookup key k t = Some r \<Longrightarrow> r \<in> set t \<and> key r = k"
  by (induction t) (auto simp: lookup_Cons split: if_splits)

lemma lookup_pk: "pk key t \<Longrightarrow> r \<in> set t \<Longrightarrow> lookup key (key r) t = Some r"
  by (induction t) (auto simp: pk_def lookup_Cons image_iff dest: sym)

lemma insert_row_Inr:
  "insert_row key e r t = Inr t' \<longleftrightarrow> lookup key (key r) t = None \<and> t' = t @ [r]"
  by (auto simp: insert_row_def lookup_None)

lemma insert_row_fresh [simp, tbl_simps]:
  "lookup key (key r) t = None \<Longrightarrow> insert_row key e r t = Inr (t @ [r])"
  by (simp add: insert_row_Inr)

lemma insert_row_clash [tbl_simps]:
  "lookup key (key r) t = Some r' \<Longrightarrow> insert_row key e r t = Inl e"
  by (metis insert_row_def lookup_None option.distinct(1))

lemma lookup_snoc [tbl_simps]:
  "lookup key (key r) t = None \<Longrightarrow>
   lookup key k (t @ [r]) = (if k = key r then Some r else lookup key k t)"
  by (auto simp: lookup_append lookup_Cons split: option.splits)

lemma lookup_update_row [tbl_simps]:
  "(\<And>r. key (f r) = key r) \<Longrightarrow>
   lookup key k (update_row key k' f t) =
     (if k = k' then map_option f (lookup key k t) else lookup key k t)"
  by (induction t) (auto simp: lookup_Cons update_row_def)

lemma lookup_delete_row [simp, tbl_simps]:
  "lookup key k (delete_row key k' t) = (if k = k' then None else lookup key k t)"
  by (induction t) (auto simp: lookup_Cons delete_row_def)

lemma pk_Nil [simp]: "pk key []"
  by (simp add: pk_def)

lemma pk_snoc: "pk key t \<Longrightarrow> lookup key (key r) t = None \<Longrightarrow> pk key (t @ [r])"
  by (auto simp: pk_def lookup_None)

lemma pk_update_row: "(\<And>r. key (f r) = key r) \<Longrightarrow> pk key (update_row key k f t) = pk key t"
  by (simp add: pk_def update_row_def comp_def if_distrib cong: if_cong)

lemma pk_delete_row: "pk key t \<Longrightarrow> pk key (delete_row key k t)"
  by (simp add: pk_def delete_row_def distinct_map_filter)

lemmas pk_intros = pk_snoc pk_delete_row

end
