(* ===== verification/Tso_Value.thy ===== *)
theory Tso_Value
  imports Prelude
begin

text \<open>
  The timestamp value of \<open>headlines-core/src/tso.rs\<close>: a 64-bit token whose high 46 bits
  are milliseconds and whose low 18 bits are a logical counter. The lemmas give the
  layout, its inverse, and the order of the tokens in terms of the two fields.
\<close>

subsection \<open>The value type\<close>

definition LOGICAL_BITS :: nat where
  "LOGICAL_BITS = 18"

definition LOGICAL_MASK :: u64 where
  "LOGICAL_MASK = push_bit LOGICAL_BITS 1 - 1"

datatype tso = Tso (as_u64: u64)

definition from_raw :: "u64 \<Rightarrow> tso" where
  "from_raw raw = Tso raw"

definition ZERO :: tso where
  "ZERO = Tso 0"

definition from_parts :: "u64 \<Rightarrow> u32 \<Rightarrow> tso" where
  "from_parts physical_ms logical =
     (let p = push_bit LOGICAL_BITS physical_ms;
          l = ucast logical AND LOGICAL_MASK
      in Tso (p OR l))"

definition parts :: "tso \<Rightarrow> u64 \<times> u32" where
  "parts t = (drop_bit LOGICAL_BITS (as_u64 t), ucast (as_u64 t AND LOGICAL_MASK))"

definition physical_ms :: "tso \<Rightarrow> u64" where
  "physical_ms t = fst (parts t)"

definition logical :: "tso \<Rightarrow> u32" where
  "logical t = snd (parts t)"

text \<open>\<open>#[derive(PartialOrd, Ord)]\<close> on the one-field struct: the comparisons of the raw
  integers, which the type class instance below takes as \<open>\<le>\<close> and \<open><\<close>.\<close>

definition tso_le :: "tso \<Rightarrow> tso \<Rightarrow> bool" where
  "tso_le a b \<longleftrightarrow> as_u64 a \<le> as_u64 b"

definition tso_lt :: "tso \<Rightarrow> tso \<Rightarrow> bool" where
  "tso_lt a b \<longleftrightarrow> as_u64 a < as_u64 b"

instantiation tso :: linorder
begin

definition less_eq_tso :: "tso \<Rightarrow> tso \<Rightarrow> bool" where
  "less_eq_tso = tso_le"

definition less_tso :: "tso \<Rightarrow> tso \<Rightarrow> bool" where
  "less_tso = tso_lt"

instance
  by standard (auto simp: less_eq_tso_def less_tso_def tso_le_def tso_lt_def tso.expand)

end

lemma tso_less_iff: "a < b \<longleftrightarrow> as_u64 a < as_u64 b" for a b :: tso
  by (simp add: less_tso_def tso_lt_def)

subsection \<open>Layout\<close>

lemma LOGICAL_MASK_mask: "LOGICAL_MASK = mask 18"
  by (simp add: LOGICAL_MASK_def LOGICAL_BITS_def mask_eq_decr_exp)

lemma and_LOGICAL_MASK: "w AND LOGICAL_MASK = take_bit 18 w"
  by (simp add: LOGICAL_MASK_mask take_bit_eq_mask)

lemma physical_ms_alt: "physical_ms t = drop_bit 18 (as_u64 t)"
  by (simp add: physical_ms_def parts_def LOGICAL_BITS_def)

lemma logical_alt: "logical t = ucast (take_bit 18 (as_u64 t))"
  by (simp add: logical_def parts_def and_LOGICAL_MASK)

lemma from_parts_alt: "from_parts p l = Tso (push_bit 18 p OR take_bit 18 (ucast l))"
  by (simp add: from_parts_def Let_def and_LOGICAL_MASK LOGICAL_BITS_def)

lemma unat_physical_ms: "unat (physical_ms t) = unat (as_u64 t) div 2 ^ 18"
  by (simp add: physical_ms_alt unat_drop_bit_eq) (simp add: drop_bit_eq_div)

lemma unat_logical: "unat (logical t) = unat (as_u64 t) mod 2 ^ 18"
proof -
  have "unat (take_bit 18 (as_u64 t)) = unat (as_u64 t) mod 2 ^ 18"
    by (simp add: unsigned_take_bit_eq) (simp add: take_bit_eq_mod)
  moreover have "unat (as_u64 t) mod 2 ^ 18 < 2 ^ 32"
    by (rule less_le_trans [OF mod_less_divisor]) auto
  ultimately show ?thesis
    by (simp add: logical_alt unsigned_ucast_eq take_bit_nat_eq_self)
qed

lemma unat_as_u64: "unat (as_u64 t) = unat (physical_ms t) * 2 ^ 18 + unat (logical t)"
  by (simp add: unat_physical_ms unat_logical)

lemma unat_physical_ms_less: "unat (physical_ms t) < 2 ^ 46"
proof -
  have "unat (as_u64 t) < 2 ^ 64"
    using unsigned_less [of "as_u64 t"] by simp
  then show ?thesis
    by (simp add: unat_physical_ms)
qed

lemma unat_logical_less: "unat (logical t) < 2 ^ 18"
  by (simp add: unat_logical)

lemma physical_ms_from_parts: "physical_ms (from_parts p l) = take_bit 46 p"
  by (rule bit_word_eqI) (auto simp: physical_ms_alt from_parts_alt bit_simps)

lemma logical_from_parts: "logical (from_parts p l) = take_bit 18 l"
  by (rule bit_word_eqI) (auto simp: logical_alt from_parts_alt bit_simps)

lemma from_parts_of_parts: "from_parts (physical_ms t) (logical t) = t"
proof (cases t)
  case (Tso x)
  have "bit (push_bit 18 (drop_bit 18 x) OR take_bit 18 (ucast (ucast (take_bit 18 x) :: u32))) n =
    bit x n" if "n < 64" for n
    using that by (cases "n < 18") (auto simp: bit_simps)
  then have "push_bit 18 (drop_bit 18 x) OR take_bit 18 (ucast (ucast (take_bit 18 x) :: u32)) = x"
    by (intro bit_word_eqI) simp
  with Tso show ?thesis
    by (simp add: from_parts_alt physical_ms_alt logical_alt)
qed

lemma take_bit_u64_id: "unat p < 2 ^ n \<Longrightarrow> n < 64 \<Longrightarrow> take_bit n (p :: u64) = p"
  by (simp add: word_unat_eq_iff unsigned_take_bit_eq take_bit_nat_eq_self)

subsection \<open>Properties\<close>

text \<open>
  Composing a timestamp from milliseconds and a counter and taking it apart again
  gives the two values back, each truncated to the width of its field (46 and 18 bits);
  and every 64-bit token is the composition of its own parts.
\<close>

theorem tso_parts_roundtrip:
  "parts (from_parts p l) = (take_bit 46 p, take_bit 18 l) \<and>
   from_parts (fst (parts t)) (snd (parts t)) = t"
  using physical_ms_from_parts [of p l] logical_from_parts [of p l] from_parts_of_parts [of t]
  by (simp add: physical_ms_def logical_def prod_eq_iff)

text \<open>
  The derived order of the raw tokens is the lexicographic order of
  (milliseconds, logical counter).
\<close>

theorem tso_order_lexicographic:
  "t < u \<longleftrightarrow> physical_ms t < physical_ms u \<or>
     (physical_ms t = physical_ms u \<and> logical t < logical u)"
proof -
  let ?p = "unat (physical_ms t)" and ?q = "unat (physical_ms u)"
  let ?l = "unat (logical t)" and ?m = "unat (logical u)"
  have "?l < 2 ^ 18" "?m < 2 ^ 18"
    by (rule unat_logical_less)+
  then have "?p * 2 ^ 18 + ?l < ?q * 2 ^ 18 + ?m \<longleftrightarrow> ?p < ?q \<or> ?p = ?q \<and> ?l < ?m"
    by auto
  then show ?thesis
    by (simp add: tso_less_iff word_less_nat_alt unat_as_u64 word_unat_eq_iff)
qed

end
