(* ===== verification/Errors.thy ===== *)
theory Errors
  imports Prelude
begin

text \<open>
  The error type of \<open>headlines-core/src/error.rs\<close>, its status code and reason, its
  metadata and the conversion to a gRPC status. Decimal printing and parsing of the
  standard library are here as well, since the metadata and the signed canonical string
  both print numbers.
\<close>

subsection \<open>Decimal numbers\<close>

fun show_nat :: "nat \<Rightarrow> string" where
  "show_nat n =
     (if n < 10 then [char_of (48 + n)] else show_nat (n div 10) @ [char_of (48 + n mod 10)])"

declare show_nat.simps [simp del]

definition show_int :: "int \<Rightarrow> string" where
  "show_int i = (if i < 0 then CHR ''-'' # show_nat (nat (- i)) else show_nat (nat i))"

definition digit_of :: "char \<Rightarrow> nat option" where
  "digit_of c =
     (let n = (of_char c :: nat) in if 48 \<le> n \<and> n \<le> 57 then Some (n - 48) else None)"

text \<open>
  \<open>u64::from_str\<close>: an optional \<open>+\<close>, then decimal digits; the first bad digit or the
  first overflow ends it.
\<close>

fun parse_digits :: "nat \<Rightarrow> string \<Rightarrow> string + nat" where
  "parse_digits acc [] = Inr acc"
| "parse_digits acc (c # cs) =
     (case digit_of c of
        None \<Rightarrow> Inl ''invalid digit found in string''
      | Some d \<Rightarrow>
          if acc * 10 + d < 2 ^ 64 then parse_digits (acc * 10 + d) cs
          else Inl ''number too large to fit in target type'')"

definition parse_u64 :: "string \<Rightarrow> string + u64" where
  "parse_u64 s =
     (case s of
        [] \<Rightarrow> Inl ''cannot parse integer from empty string''
      | [c] \<Rightarrow>
          if c = CHR ''+'' \<or> c = CHR ''-'' then Inl ''invalid digit found in string''
          else map_sum id of_nat (parse_digits 0 [c])
      | c # cs \<Rightarrow>
          map_sum id of_nat (parse_digits 0 (if c = CHR ''+'' then cs else c # cs)))"

lemma digit_of_char_of [simp]: "d < 10 \<Longrightarrow> digit_of (char_of (48 + d)) = Some d"
  by (simp add: digit_of_def)

lemma show_nat_ne [simp]: "show_nat n \<noteq> []"
  by (subst show_nat.simps) simp

lemma show_nat_digits: "c \<in> set (show_nat n) \<Longrightarrow> \<exists>d < 10. c = char_of (48 + d :: nat)"
proof (induction n rule: show_nat.induct)
  case (1 n)
  show ?case
  proof (cases "n < 10")
    case True
    with "1.prems" show ?thesis by (auto simp: show_nat.simps [of n])
  next
    case False
    with "1.prems" have "c \<in> set (show_nat (n div 10)) \<or> c = char_of (48 + n mod 10)"
      by (auto simp: show_nat.simps [of n])
    with "1.IH" [OF False] show ?thesis
      by (metis mod_less_divisor zero_less_numeral)
  qed
qed

lemma digit_char_range: "d < 10 \<Longrightarrow> 48 \<le> (of_char (char_of (48 + d :: nat)) :: nat) \<and>
   (of_char (char_of (48 + d :: nat)) :: nat) \<le> 57"
  by simp

lemma show_nat_char_range:
  "c \<in> set (show_nat n) \<Longrightarrow> 48 \<le> (of_char c :: nat) \<and> (of_char c :: nat) \<le> 57"
  using show_nat_digits [of c n] digit_char_range by blast

lemma parse_digits_append:
  "parse_digits a (s @ t) = try_res (parse_digits a s) (\<lambda>b. parse_digits b t)"
  by (induction s arbitrary: a) (auto split: option.splits)

lemma parse_digits_show_nat: "n < 2 ^ 64 \<Longrightarrow> parse_digits 0 (show_nat n) = Inr n"
proof (induction n rule: show_nat.induct)
  case (1 n)
  show ?case
  proof (cases "n < 10")
    case True
    then show ?thesis by (simp add: show_nat.simps [of n])
  next
    case False
    have "n div 10 < 2 ^ 64"
      using "1.prems" by (meson div_le_dividend le_less_trans)
    with "1.IH" [OF False] have "parse_digits 0 (show_nat (n div 10)) = Inr (n div 10)"
      by simp
    with False "1.prems" show ?thesis
      by (simp add: show_nat.simps [of n] parse_digits_append)
  qed
qed

lemma show_nat_inj: "m < 2 ^ 64 \<Longrightarrow> n < 2 ^ 64 \<Longrightarrow> show_nat m = show_nat n \<Longrightarrow> m = n"
  by (metis parse_digits_show_nat sum.inject(2))

lemma parse_u64_show_nat: "parse_u64 (show_nat (unat w)) = Inr w"
proof -
  have "unat w < 2 ^ 64"
    using unsigned_less [of w] by simp
  then have p: "parse_digits 0 (show_nat (unat w)) = Inr (unat w)"
    by (rule parse_digits_show_nat)
  obtain c cs where s: "show_nat (unat w) = c # cs"
    by (cases "show_nat (unat w)") auto
  have "48 \<le> (of_char c :: nat)"
    using show_nat_char_range [of c "unat w"] s by simp
  then have "c \<noteq> CHR ''+''" "c \<noteq> CHR ''-''"
    by auto
  with p s show ?thesis
    by (cases cs) (simp_all add: parse_u64_def)
qed

subsection \<open>The error enum\<close>

datatype headlines_error =
    AccountNotFound uuid
  | AccountDeleted uuid
  | UserNotFound uuid
  | UserDeleted uuid
  | ArticleNotFound uuid
  | ArticleTombstoned uuid
  | DraftNotFound uuid
  | DraftNotPublishable uuid string
  | FollowNotFound uuid uuid
  | SelfFollowForbidden
  | KeyNotFound uuid
  | KeyAlreadyRevoked uuid
  | LastActiveKey
  | InvalidPublicKey string
  | UnsupportedAlgorithm string
  | RegistrationDisabled string
  | ContentTooLarge nat nat
  | InvalidNodeTag string
  | InvalidNodeAttr string string
  | EmptyUpdateMask
  | UnallowedMaskPath string
  | VersionNotFound uuid int
  | VersionAlreadyRedacted uuid int
  | FeedTooLarge nat nat
  | DuplicateArticleId uuid
  | InvalidCursor string
  | EventTypeMismatch string string
  | EventTimestampOutOfRange int
  | BatchTooLarge nat nat
  | UnauthorizedUserId uuid uuid
  | IdempotencyKeyMismatch string
  | NotImplementedInV1 string
  | InvalidArgument string string
  | Unauthenticated string
  | Internal string

type_synonym 'a res = "headlines_error + 'a"

text \<open>The gRPC codes of \<open>tonic::Code\<close> that the server uses.\<close>

datatype code =
    Code_NotFound
  | Code_FailedPrecondition
  | Code_AlreadyExists
  | Code_InvalidArgument
  | Code_ResourceExhausted
  | Code_PermissionDenied
  | Code_Unauthenticated
  | Code_Unimplemented
  | Code_Internal

fun code_and_reason :: "headlines_error \<Rightarrow> code \<times> string" where
  "code_and_reason (AccountNotFound _) = (Code_NotFound, ''ACCOUNT_NOT_FOUND'')"
| "code_and_reason (UserNotFound _) = (Code_NotFound, ''USER_NOT_FOUND'')"
| "code_and_reason (ArticleNotFound _) = (Code_NotFound, ''ARTICLE_NOT_FOUND'')"
| "code_and_reason (DraftNotFound _) = (Code_NotFound, ''DRAFT_NOT_FOUND'')"
| "code_and_reason (FollowNotFound _ _) = (Code_NotFound, ''FOLLOW_NOT_FOUND'')"
| "code_and_reason (KeyNotFound _) = (Code_NotFound, ''KEY_NOT_FOUND'')"
| "code_and_reason (VersionNotFound _ _) = (Code_NotFound, ''VERSION_NOT_FOUND'')"
| "code_and_reason (AccountDeleted _) = (Code_FailedPrecondition, ''ACCOUNT_DELETED'')"
| "code_and_reason (UserDeleted _) = (Code_FailedPrecondition, ''USER_DELETED'')"
| "code_and_reason (ArticleTombstoned _) = (Code_FailedPrecondition, ''ARTICLE_TOMBSTONED'')"
| "code_and_reason (DraftNotPublishable _ _) = (Code_FailedPrecondition, ''DRAFT_NOT_PUBLISHABLE'')"
| "code_and_reason LastActiveKey = (Code_FailedPrecondition, ''LAST_ACTIVE_KEY'')"
| "code_and_reason (KeyAlreadyRevoked _) = (Code_AlreadyExists, ''KEY_ALREADY_REVOKED'')"
| "code_and_reason (VersionAlreadyRedacted _ _) = (Code_AlreadyExists, ''VERSION_ALREADY_REDACTED'')"
| "code_and_reason (InvalidPublicKey _) = (Code_InvalidArgument, ''INVALID_PUBLIC_KEY'')"
| "code_and_reason (UnsupportedAlgorithm _) = (Code_InvalidArgument, ''UNSUPPORTED_ALGORITHM'')"
| "code_and_reason (InvalidNodeTag _) = (Code_InvalidArgument, ''INVALID_NODE_TAG'')"
| "code_and_reason (InvalidNodeAttr _ _) = (Code_InvalidArgument, ''INVALID_NODE_ATTR'')"
| "code_and_reason EmptyUpdateMask = (Code_InvalidArgument, ''EMPTY_UPDATE_MASK'')"
| "code_and_reason (UnallowedMaskPath _) = (Code_InvalidArgument, ''UNALLOWED_MASK_PATH'')"
| "code_and_reason (DuplicateArticleId _) = (Code_InvalidArgument, ''DUPLICATE_ARTICLE_ID'')"
| "code_and_reason (InvalidCursor _) = (Code_InvalidArgument, ''INVALID_CURSOR'')"
| "code_and_reason (EventTypeMismatch _ _) = (Code_InvalidArgument, ''EVENT_TYPE_MISMATCH'')"
| "code_and_reason (EventTimestampOutOfRange _) =
     (Code_InvalidArgument, ''EVENT_TIMESTAMP_OUT_OF_RANGE'')"
| "code_and_reason SelfFollowForbidden = (Code_InvalidArgument, ''SELF_FOLLOW_FORBIDDEN'')"
| "code_and_reason (IdempotencyKeyMismatch _) = (Code_InvalidArgument, ''IDEMPOTENCY_KEY_MISMATCH'')"
| "code_and_reason (InvalidArgument _ _) = (Code_InvalidArgument, ''INVALID_ARGUMENT'')"
| "code_and_reason (ContentTooLarge _ _) = (Code_ResourceExhausted, ''CONTENT_TOO_LARGE'')"
| "code_and_reason (FeedTooLarge _ _) = (Code_ResourceExhausted, ''FEED_TOO_LARGE'')"
| "code_and_reason (BatchTooLarge _ _) = (Code_ResourceExhausted, ''BATCH_TOO_LARGE'')"
| "code_and_reason (RegistrationDisabled _) = (Code_PermissionDenied, ''REGISTRATION_DISABLED'')"
| "code_and_reason (UnauthorizedUserId _ _) = (Code_PermissionDenied, ''UNAUTHORIZED_USER_ID'')"
| "code_and_reason (Unauthenticated _) = (Code_Unauthenticated, ''UNAUTHENTICATED'')"
| "code_and_reason (NotImplementedInV1 _) = (Code_Unimplemented, ''NOT_IMPLEMENTED_IN_V1'')"
| "code_and_reason (Internal _) = (Code_Internal, ''INTERNAL'')"

definition reason :: "headlines_error \<Rightarrow> string" where
  "reason e = snd (code_and_reason e)"

definition error_code :: "headlines_error \<Rightarrow> code" where
  "error_code e = fst (code_and_reason e)"

text \<open>
  The metadata map, as the key/value pairs in insertion order. \<open>us\<close> prints a UUID and
  \<open>rfc\<close> a timestamp (both are library functions).
\<close>

fun metadata ::
  "(uuid \<Rightarrow> string) \<Rightarrow> (int \<Rightarrow> string) \<Rightarrow> headlines_error \<Rightarrow> (string \<times> string) list" where
  "metadata us rfc (AccountNotFound i) = [(''account_id'', us i)]"
| "metadata us rfc (AccountDeleted i) = [(''account_id'', us i)]"
| "metadata us rfc (UserNotFound i) = [(''user_id'', us i)]"
| "metadata us rfc (UserDeleted i) = [(''user_id'', us i)]"
| "metadata us rfc (ArticleNotFound i) = [(''article_id'', us i)]"
| "metadata us rfc (ArticleTombstoned i) = [(''article_id'', us i)]"
| "metadata us rfc (DuplicateArticleId i) = [(''article_id'', us i)]"
| "metadata us rfc (DraftNotFound i) = [(''draft_id'', us i)]"
| "metadata us rfc (DraftNotPublishable i r) = [(''draft_id'', us i), (''reason'', r)]"
| "metadata us rfc (FollowNotFound u a) = [(''user_id'', us u), (''account_id'', us a)]"
| "metadata us rfc (KeyNotFound k) = [(''key_id'', us k)]"
| "metadata us rfc (KeyAlreadyRevoked k) = [(''key_id'', us k)]"
| "metadata us rfc (InvalidPublicKey r) = [(''reason'', r)]"
| "metadata us rfc (UnsupportedAlgorithm a) = [(''algo'', a)]"
| "metadata us rfc (RegistrationDisabled s) = [(''surface'', s)]"
| "metadata us rfc (ContentTooLarge n m) = [(''actual'', show_nat n), (''max'', show_nat m)]"
| "metadata us rfc (FeedTooLarge n m) = [(''actual'', show_nat n), (''max'', show_nat m)]"
| "metadata us rfc (BatchTooLarge n m) = [(''actual'', show_nat n), (''max'', show_nat m)]"
| "metadata us rfc (InvalidNodeTag t) = [(''tag'', t)]"
| "metadata us rfc (InvalidNodeAttr t a) = [(''tag'', t), (''attr'', a)]"
| "metadata us rfc (UnallowedMaskPath p) = [(''path'', p)]"
| "metadata us rfc (VersionNotFound a v) = [(''article_id'', us a), (''version'', show_int v)]"
| "metadata us rfc (VersionAlreadyRedacted a v) =
     [(''article_id'', us a), (''version'', show_int v)]"
| "metadata us rfc (InvalidCursor r) = [(''reason'', r)]"
| "metadata us rfc (EventTypeMismatch t p) = [(''type'', t), (''properties'', p)]"
| "metadata us rfc (EventTimestampOutOfRange o') = [(''occurred_at'', rfc o')]"
| "metadata us rfc (UnauthorizedUserId e g) =
     [(''expected_user_id'', us e), (''got_user_id'', us g)]"
| "metadata us rfc (IdempotencyKeyMismatch k) = [(''idempotency_key'', k)]"
| "metadata us rfc (NotImplementedInV1 r) = [(''rpc'', r)]"
| "metadata us rfc (InvalidArgument f r) = [(''field'', f), (''reason'', r)]"
| "metadata us rfc (Unauthenticated r) = [(''reason'', r)]"
| "metadata us rfc SelfFollowForbidden = []"
| "metadata us rfc EmptyUpdateMask = []"
| "metadata us rfc LastActiveKey = []"
| "metadata us rfc (Internal _) = []"

text \<open>
  A \<open>tonic::Status\<close> with its \<open>ErrorInfo\<close> detail. A handler may also answer with a bare
  status (\<open>Status::permission_denied\<close>), which carries no detail. The message of a
  domain error is in \<open>Rest_Error\<close>, where it reaches a client.
\<close>

datatype status =
    DomainStatus (status_code: code) (status_reason: string) (status_domain: string)
      (status_metadata: "(string \<times> string) list")
  | BareStatus (status_code: code) (status_message: string)

definition ERROR_DOMAIN :: string where
  "ERROR_DOMAIN = ''headlines.v1''"

definition status_from ::
  "(uuid \<Rightarrow> string) \<Rightarrow> (int \<Rightarrow> string) \<Rightarrow> headlines_error \<Rightarrow> status" where
  "status_from us rfc e =
     DomainStatus (error_code e) (reason e) ERROR_DOMAIN (metadata us rfc e)"

subsection \<open>The published reason table\<close>

text \<open>
  What a client may rely on when it dispatches on \<open>ErrorInfo.reason\<close>: the status code
  and the metadata keys that come with each reason.
\<close>

definition reason_table :: "(string \<times> code \<times> string list) list" where
  "reason_table =
    [(''ACCOUNT_NOT_FOUND'', Code_NotFound, [''account_id'']),
     (''USER_NOT_FOUND'', Code_NotFound, [''user_id'']),
     (''ARTICLE_NOT_FOUND'', Code_NotFound, [''article_id'']),
     (''DRAFT_NOT_FOUND'', Code_NotFound, [''draft_id'']),
     (''FOLLOW_NOT_FOUND'', Code_NotFound, [''user_id'', ''account_id'']),
     (''KEY_NOT_FOUND'', Code_NotFound, [''key_id'']),
     (''VERSION_NOT_FOUND'', Code_NotFound, [''article_id'', ''version'']),
     (''ACCOUNT_DELETED'', Code_FailedPrecondition, [''account_id'']),
     (''USER_DELETED'', Code_FailedPrecondition, [''user_id'']),
     (''ARTICLE_TOMBSTONED'', Code_FailedPrecondition, [''article_id'']),
     (''DRAFT_NOT_PUBLISHABLE'', Code_FailedPrecondition, [''draft_id'', ''reason'']),
     (''LAST_ACTIVE_KEY'', Code_FailedPrecondition, []),
     (''KEY_ALREADY_REVOKED'', Code_AlreadyExists, [''key_id'']),
     (''VERSION_ALREADY_REDACTED'', Code_AlreadyExists, [''article_id'', ''version'']),
     (''INVALID_PUBLIC_KEY'', Code_InvalidArgument, [''reason'']),
     (''UNSUPPORTED_ALGORITHM'', Code_InvalidArgument, [''algo'']),
     (''INVALID_NODE_TAG'', Code_InvalidArgument, [''tag'']),
     (''INVALID_NODE_ATTR'', Code_InvalidArgument, [''tag'', ''attr'']),
     (''EMPTY_UPDATE_MASK'', Code_InvalidArgument, []),
     (''UNALLOWED_MASK_PATH'', Code_InvalidArgument, [''path'']),
     (''DUPLICATE_ARTICLE_ID'', Code_InvalidArgument, [''article_id'']),
     (''INVALID_CURSOR'', Code_InvalidArgument, [''reason'']),
     (''EVENT_TYPE_MISMATCH'', Code_InvalidArgument, [''type'', ''properties'']),
     (''EVENT_TIMESTAMP_OUT_OF_RANGE'', Code_InvalidArgument, [''occurred_at'']),
     (''SELF_FOLLOW_FORBIDDEN'', Code_InvalidArgument, []),
     (''IDEMPOTENCY_KEY_MISMATCH'', Code_InvalidArgument, [''idempotency_key'']),
     (''INVALID_ARGUMENT'', Code_InvalidArgument, [''field'', ''reason'']),
     (''CONTENT_TOO_LARGE'', Code_ResourceExhausted, [''actual'', ''max'']),
     (''FEED_TOO_LARGE'', Code_ResourceExhausted, [''actual'', ''max'']),
     (''BATCH_TOO_LARGE'', Code_ResourceExhausted, [''actual'', ''max'']),
     (''REGISTRATION_DISABLED'', Code_PermissionDenied, [''surface'']),
     (''UNAUTHORIZED_USER_ID'', Code_PermissionDenied, [''expected_user_id'', ''got_user_id'']),
     (''UNAUTHENTICATED'', Code_Unauthenticated, [''reason'']),
     (''NOT_IMPLEMENTED_IN_V1'', Code_Unimplemented, [''rpc'']),
     (''INTERNAL'', Code_Internal, [])]"

lemma reason_table_lookup:
  "map_of reason_table (reason e) = Some (error_code e, map fst (metadata us rfc e))"
  by (cases e) (simp_all add: reason_table_def reason_def error_code_def)

text \<open>
  The reason string of a status determines its code and its metadata keys: two
  errors a client cannot tell apart by \<open>ErrorInfo.reason\<close> carry the same code and the
  same keys, and every status carries the package domain.
\<close>

theorem status_determined_by_reason:
  "status_reason (status_from us rfc e) = status_reason (status_from us rfc e') \<Longrightarrow>
   status_code (status_from us rfc e) = status_code (status_from us rfc e') \<and>
   map fst (status_metadata (status_from us rfc e)) =
     map fst (status_metadata (status_from us rfc e')) \<and>
   status_domain (status_from us rfc e) = ''headlines.v1''"
  using reason_table_lookup [of e us rfc] reason_table_lookup [of e' us rfc]
  by (simp add: status_from_def ERROR_DOMAIN_def)

theorem status_determined_by_reason_witness:
  "status_code (status_from (\<lambda>_. ''u'') (\<lambda>_. ''t'') (AccountNotFound 1)) =
   status_code (status_from (\<lambda>_. ''u'') (\<lambda>_. ''t'') (AccountNotFound 2))"
  using status_determined_by_reason
    [of "\<lambda>_. ''u''" "\<lambda>_. ''t''" "AccountNotFound 1" "AccountNotFound 2"]
  by (simp add: status_from_def reason_def)

end
