(* ===== verification/Canonical.thy ===== *)
theory Canonical
  imports Tso_Value Errors "HOL-Library.Multiset" "HOL-Library.Char_ord" "HOL-Library.List_Lexorder"
begin

text \<open>
  The wire formats of a signed request, \<open>headlines-auth/src/strategy.rs\<close>: the canonical
  query string, the canonical string that is signed, and the \<open>Authorization\<close> header.
  UUID text and base64 come from third-party crates and are parameters; the locale
  \<open>token_codec\<close> states what is relied on of such a text encoding.
\<close>

subsection \<open>Signed request parts\<close>

record signed_request_parts =
  srp_method :: string
  srp_path :: string
  srp_canonical_query :: string
  srp_request_hash :: "u8 list"
  srp_key_id :: uuid
  srp_algo :: string
  srp_ts :: tso
  srp_nonce :: "u8 list"
  srp_signature :: "u8 list"

text \<open>The text encodings of the crates \<open>uuid\<close> and \<open>base64\<close>.\<close>

record text_ext =
  uuid_show :: "uuid \<Rightarrow> string"
  uuid_parse :: "string \<Rightarrow> uuid option"
  b64_encode :: "u8 list \<Rightarrow> string"
  b64_decode :: "string \<Rightarrow> u8 list option"

definition HEX :: string where
  "HEX = ''0123456789abcdef''"

definition hex_encode :: "u8 list \<Rightarrow> string" where
  "hex_encode bytes =
     concat (map (\<lambda>b. [HEX ! unat (drop_bit 4 b), HEX ! unat (b AND 0x0F)]) bytes)"

definition build_canonical_string :: "text_ext \<Rightarrow> signed_request_parts \<Rightarrow> string" where
  "build_canonical_string x p =
     (let hash_hex = hex_encode (srp_request_hash p);
          nonce_b64 = b64_encode x (srp_nonce p);
          nl = [CHR 0x0A]
      in ''HEADLINES-SIGN-V1'' @ nl @ srp_method p @ nl @ srp_path p @ nl @
         srp_canonical_query p @ nl @ hash_hex @ nl @ uuid_show x (srp_key_id p) @ nl @
         show_nat (unat (as_u64 (srp_ts p))) @ nl @ nonce_b64)"

subsection \<open>The canonical query\<close>

fun query_pairs :: "string list \<Rightarrow> (string \<times> string) list" where
  "query_pairs [] = []"
| "query_pairs (raw_pair # rest) =
     (if raw_pair = [] then query_pairs rest
      else (case split_once (CHR ''='') raw_pair of
              Some (k, v) \<Rightarrow> (k, v)
            | None \<Rightarrow> (raw_pair, [])) # query_pairs rest)"

definition render_pair :: "string \<times> string \<Rightarrow> string" where
  "render_pair p = fst p @ CHR ''='' # snd p"

definition canonicalize_query :: "string \<Rightarrow> string" where
  "canonicalize_query raw =
     (if raw = [] then []
      else join ''&'' (map render_pair
             (sort_key fst (query_pairs (split_on (CHR ''&'') raw)))))"

subsection \<open>The authorization header\<close>

record parsed_auth_header =
  pah_key_id :: uuid
  pah_algo :: string
  pah_ts :: tso
  pah_nonce :: "u8 list"
  pah_signature :: "u8 list"

text \<open>The texts of the crates' own error messages are not kept.\<close>

datatype parse_error =
    MissingScheme
  | MalformedPair string
  | UnknownField string
  | MissingField string
  | MalformedKeyId
  | MalformedTs
  | MalformedBase64 string
  | NonUtf8

definition KNOWN_FIELDS :: "string list" where
  "KNOWN_FIELDS = [''key_id'', ''algo'', ''ts'', ''nonce'', ''sig'']"

record header_acc =
  acc_key_id :: "uuid option"
  acc_algo :: "string option"
  acc_ts :: "tso option"
  acc_nonce :: "u8 list option"
  acc_sig :: "u8 list option"

definition parse_pair :: "text_ext \<Rightarrow> string \<Rightarrow> header_acc \<Rightarrow> parse_error + header_acc" where
  "parse_pair x raw acc =
     (let pair = trim raw
      in if pair = [] then Inl (MalformedPair ''empty pair'')
         else try_res (ok_or (MalformedPair pair) (split_once (CHR ''='') pair)) (\<lambda>(k0, v0).
           let k = trim k0; v = trim v0
           in if k \<notin> set KNOWN_FIELDS then Inl (UnknownField k)
              else if k = ''key_id'' then
                try_res (ok_or MalformedKeyId (uuid_parse x v)) (\<lambda>u. Inr (acc\<lparr>acc_key_id := Some u\<rparr>))
              else if k = ''algo'' then Inr (acc\<lparr>acc_algo := Some v\<rparr>)
              else if k = ''ts'' then
                try_res (map_err (\<lambda>_. MalformedTs) (parse_u64 v))
                  (\<lambda>w. Inr (acc\<lparr>acc_ts := Some (from_raw w)\<rparr>))
              else if k = ''nonce'' then
                try_res (ok_or (MalformedBase64 ''nonce'') (b64_decode x v))
                  (\<lambda>bs. Inr (acc\<lparr>acc_nonce := Some bs\<rparr>))
              else
                try_res (ok_or (MalformedBase64 ''sig'') (b64_decode x v))
                  (\<lambda>bs. Inr (acc\<lparr>acc_sig := Some bs\<rparr>))))"

fun parse_pairs :: "text_ext \<Rightarrow> string list \<Rightarrow> header_acc \<Rightarrow> parse_error + header_acc" where
  "parse_pairs x [] acc = Inr acc"
| "parse_pairs x (raw # rest) acc = try_res (parse_pair x raw acc) (parse_pairs x rest)"

definition strip_prefix :: "string \<Rightarrow> string \<Rightarrow> string option" where
  "strip_prefix p s = (if prefix p s then Some (drop (length p) s) else None)"

definition is_ascii :: "string \<Rightarrow> bool" where
  "is_ascii s \<longleftrightarrow> list_all (\<lambda>c. (of_char c :: nat) < 128) s"

definition no_fields :: header_acc where
  "no_fields = \<lparr>acc_key_id = None, acc_algo = None, acc_ts = None, acc_nonce = None, acc_sig = None\<rparr>"

definition parse_authorization_header :: "text_ext \<Rightarrow> string \<Rightarrow> parse_error + parsed_auth_header" where
  "parse_authorization_header x value =
     (if \<not> is_ascii value then Inl NonUtf8
      else try_res (ok_or MissingScheme (strip_prefix ''Signature '' value)) (\<lambda>body.
        try_res (parse_pairs x (split_on (CHR '','') body) no_fields) (\<lambda>acc.
        try_res (ok_or (MissingField ''key_id'') (acc_key_id acc)) (\<lambda>key_id.
        try_res (ok_or (MissingField ''algo'') (acc_algo acc)) (\<lambda>algo.
        try_res (ok_or (MissingField ''ts'') (acc_ts acc)) (\<lambda>ts.
        try_res (ok_or (MissingField ''nonce'') (acc_nonce acc)) (\<lambda>nonce.
        try_res (ok_or (MissingField ''sig'') (acc_sig acc)) (\<lambda>sig.
          Inr \<lparr>pah_key_id = key_id, pah_algo = algo, pah_ts = ts, pah_nonce = nonce,
               pah_signature = sig\<rparr>))))))))"

subsection \<open>Text encodings\<close>

text \<open>
  The characters of header values: visible ASCII without the comma that separates fields.
  A text encoding relied on decodes what it encodes and stays within them.
\<close>

definition token_char :: "char \<Rightarrow> bool" where
  "token_char c \<longleftrightarrow> 33 \<le> (of_char c :: nat) \<and> (of_char c :: nat) < 127 \<and> c \<noteq> CHR '',''"

locale token_codec =
  fixes enc :: "'a \<Rightarrow> string" and dec :: "string \<Rightarrow> 'a option"
  assumes dec_enc: "dec (enc a) = Some a"
    and enc_chars: "c \<in> set (enc a) \<Longrightarrow> token_char c"
begin

lemma enc_inj: "enc a = enc b \<longleftrightarrow> a = b"
  by (metis dec_enc option.inject)

lemma enc_no_newline: "CHR 0x0A \<notin> set (enc a)"
  using enc_chars [of "CHR 0x0A" a] by (auto simp: token_char_def)

end

interpretation ts_codec: token_codec "\<lambda>t. show_nat (unat (as_u64 t))"
  "\<lambda>s. case parse_u64 s of Inl _ \<Rightarrow> None | Inr w \<Rightarrow> Some (from_raw w)"
proof
  show "token_char c" if "c \<in> set (show_nat (unat (as_u64 a)))" for c a
    using show_nat_char_range [OF that] by (auto simp: token_char_def)
qed (simp add: parse_u64_show_nat from_raw_def)

definition text_ext_ok :: "text_ext \<Rightarrow> bool" where
  "text_ext_ok x \<longleftrightarrow> token_codec (uuid_show x) (uuid_parse x) \<and> token_codec (b64_encode x) (b64_decode x)"

subsection \<open>Lemmas on the query\<close>

definition good_pair :: "string \<times> string \<Rightarrow> bool" where
  "good_pair p \<longleftrightarrow> CHR ''='' \<notin> set (fst p) \<and> CHR ''&'' \<notin> set (fst p) \<and> CHR ''&'' \<notin> set (snd p)"

lemma query_pairs_good:
  "(\<And>s. s \<in> set ss \<Longrightarrow> CHR ''&'' \<notin> set s) \<Longrightarrow> p \<in> set (query_pairs ss) \<Longrightarrow> good_pair p"
proof (induction ss)
  case Nil
  then show ?case by simp
next
  case (Cons s ss)
  have s: "CHR ''&'' \<notin> set s"
    using Cons.prems(1) by simp
  consider "p \<in> set (query_pairs ss)" | a b where "p = (a, b)" "s = a @ CHR ''='' # b" "CHR ''='' \<notin> set a"
    | "p = (s, [])" "CHR ''='' \<notin> set s"
    using Cons.prems(2)
    by (auto simp: split_once_Some split_once_None split: if_splits option.splits)
  then show ?case
    using s Cons by cases (auto simp: good_pair_def)
qed

lemma query_pairs_render: "(\<And>p. p \<in> set ps \<Longrightarrow> good_pair p) \<Longrightarrow> query_pairs (map render_pair ps) = ps"
proof (induction ps)
  case Nil
  then show ?case by simp
next
  case (Cons p ps)
  then have "good_pair p"
    by simp
  then have "split_once (CHR ''='') (render_pair p) = Some p" "render_pair p \<noteq> []"
    by (auto simp: render_pair_def good_pair_def split_once_append)
  with Cons show ?case
    by simp
qed

lemma query_pairs_join:
  assumes "\<And>p. p \<in> set ps \<Longrightarrow> good_pair p"
  shows "query_pairs (split_on (CHR ''&'') (join ''&'' (map render_pair ps))) = ps"
proof (cases "ps = []")
  case True
  then show ?thesis by simp
next
  case False
  have "CHR ''&'' \<notin> set (render_pair p)" if "p \<in> set ps" for p
    using assms [OF that] by (simp add: good_pair_def render_pair_def)
  then have "split_on (CHR ''&'') (join ''&'' (map render_pair ps)) = map render_pair ps"
    using False by (intro split_on_join) auto
  then show ?thesis
    using assms by (simp add: query_pairs_render)
qed

text \<open>The pairs of a query string, and the values of one key in their order.\<close>

definition pairs_of :: "string \<Rightarrow> (string \<times> string) list" where
  "pairs_of q = query_pairs (split_on (CHR ''&'') q)"

definition values_of :: "string \<Rightarrow> string \<Rightarrow> string list" where
  "values_of k q = map snd (filter (\<lambda>p. fst p = k) (pairs_of q))"

lemma pairs_of_good: "p \<in> set (pairs_of q) \<Longrightarrow> good_pair p"
  unfolding pairs_of_def by (rule query_pairs_good) (use set_split_on in blast)+

lemma canonicalize_query_alt:
  "canonicalize_query q = join ''&'' (map render_pair (sort_key fst (pairs_of q)))"
  by (simp add: canonicalize_query_def pairs_of_def)

lemma pairs_of_canonical: "pairs_of (canonicalize_query q) = sort_key fst (pairs_of q)"
  unfolding canonicalize_query_alt
  by (subst pairs_of_def, rule query_pairs_join) (auto dest: pairs_of_good)

lemma filter_fst_of_values:
  "filter (\<lambda>p. fst p = k) ps = map (Pair k) (map snd (filter (\<lambda>p. fst p = k) ps))"
  by (induction ps) auto

lemma sort_key_by_values:
  assumes "\<And>k. filter (\<lambda>p. fst p = k) ps = filter (\<lambda>p. fst p = k) qs"
  shows "sort_key fst ps = sort_key (fst :: 'k :: linorder \<times> 'v \<Rightarrow> 'k) qs"
proof (rule sym, rule properties_for_sort_key)
  have "count (mset ps) p = count (mset qs) p" for p
  proof -
    have "filter ((=) p) ps = filter ((=) p) (filter (\<lambda>q. fst q = fst p) ps)"
      by (auto intro: filter_cong)
    also have "\<dots> = filter ((=) p) (filter (\<lambda>q. fst q = fst p) qs)"
      by (simp add: assms)
    also have "\<dots> = filter ((=) p) qs"
      by (auto intro: filter_cong)
    finally show ?thesis
      by (simp add: count_mset count_list_eq_length_filter)
  qed
  then show "mset (sort_key fst ps) = mset qs"
    by (simp add: multiset_eq_iff)
  show "filter (\<lambda>q. fst p = fst q) (sort_key fst ps) = filter (\<lambda>q. fst p = fst q) qs" for p
    using sort_key_stable [of "fst" "fst p" ps] assms [of "fst p"] by (simp add: eq_commute)
qed simp

subsection \<open>Lemmas on the canonical string\<close>

lemma hex_digit: "i < 16 \<Longrightarrow> HEX ! i \<in> set HEX"
  by (rule nth_mem) (simp add: HEX_def)

lemma HEX_tokens: "c \<in> set HEX \<Longrightarrow> token_char c"
  by (auto simp: HEX_def token_char_def)

lemma HEX_inj: "i < 16 \<Longrightarrow> j < 16 \<Longrightarrow> HEX ! i = HEX ! j \<longleftrightarrow> i = j"
  by (rule nth_eq_iff_index_eq) (simp_all add: HEX_def)

lemma u8_nibbles:
  "unat (drop_bit 4 (b :: u8)) = unat b div 16" "unat (b AND 0x0F) = unat b mod 16"
proof -
  show "unat (drop_bit 4 b) = unat b div 16"
    by (simp add: unat_drop_bit_eq) (simp add: drop_bit_eq_div)
  have "b AND 0x0F = take_bit 4 b"
    by (simp add: take_bit_eq_mask mask_eq_decr_exp)
  then show "unat (b AND 0x0F) = unat b mod 16"
    by (simp add: unsigned_take_bit_eq) (simp add: take_bit_eq_mod)
qed

lemma u8_nibbles_less: "unat (drop_bit 4 (b :: u8)) < 16" "unat (b AND 0x0F) < 16"
proof -
  have "unat b < 256"
    using unsigned_less [of b] by simp
  then show "unat (drop_bit 4 (b :: u8)) < 16"
    by (simp add: u8_nibbles)
qed (simp add: u8_nibbles)

lemma hex_encode_Cons: "hex_encode (b # bs) =
    HEX ! unat (drop_bit 4 b) # HEX ! unat (b AND 0x0F) # hex_encode bs"
  by (simp add: hex_encode_def)

lemma hex_encode_Nil [simp]: "hex_encode [] = []"
  by (simp add: hex_encode_def)

lemma hex_encode_inj: "hex_encode xs = hex_encode ys \<longleftrightarrow> xs = ys"
proof (induction xs arbitrary: ys)
  case Nil
  then show ?case by (cases ys) (simp_all add: hex_encode_Cons)
next
  case (Cons x xs)
  have "x = y" if "unat x div 16 = unat y div 16" "unat x mod 16 = unat y mod 16" for y
    using that by (metis div_mult_mod_eq word_unat_eq_iff)
  then have eq: "unat (drop_bit 4 x) = unat (drop_bit 4 y) \<and> unat (x AND 0x0F) = unat (y AND 0x0F) \<longleftrightarrow> x = y" for y
    unfolding u8_nibbles by blast
  show ?case
  proof (cases ys)
    case Nil
    then show ?thesis by (simp add: hex_encode_Cons)
  next
    case (Cons y ys')
    then show ?thesis
      using eq [of y] local.Cons.IH [of ys'] by (simp only: hex_encode_Cons list.inject HEX_inj [OF u8_nibbles_less(1) u8_nibbles_less(1)]
          HEX_inj [OF u8_nibbles_less(2) u8_nibbles_less(2)]) blast
  qed
qed

lemma hex_encode_tokens: "c \<in> set (hex_encode bs) \<Longrightarrow> token_char c"
  by (induction bs) (auto simp: hex_encode_Cons intro: HEX_tokens hex_digit [OF u8_nibbles_less(1)]
      hex_digit [OF u8_nibbles_less(2)])

lemma newline_not_token: "(\<And>c. c \<in> set s \<Longrightarrow> token_char c) \<Longrightarrow> CHR 0x0A \<notin> set s"
  by (force simp: token_char_def)

lemma build_canonical_string_join:
  "build_canonical_string x p = join [CHR 0x0A]
     [''HEADLINES-SIGN-V1'', srp_method p, srp_path p, srp_canonical_query p,
      hex_encode (srp_request_hash p), uuid_show x (srp_key_id p),
      show_nat (unat (as_u64 (srp_ts p))), b64_encode x (srp_nonce p)]"
  by (simp add: build_canonical_string_def Let_def)

text \<open>Trimming leaves a string alone whose first and last characters are tokens.\<close>

lemma strip_all_head:
  assumes "\<And>w. w \<in> set ws \<Longrightarrow> w \<noteq> [] \<Longrightarrow> \<not> token_char (hd w)" "s = [] \<or> token_char (hd s)"
  shows "strip_all ws s = s"
proof (rule strip_all_fixed)
  have "\<not> (w \<noteq> [] \<and> prefix w s)" if "w \<in> set ws" for w
    using assms(1) [OF that] assms(2) by (cases w; cases s) auto
  then show "find (\<lambda>w. w \<noteq> [] \<and> prefix w s) ws = None"
    by (auto simp: find_None_iff)
qed

lemma ws_not_token:
  "w \<in> set ws_encodings \<Longrightarrow> \<not> token_char (hd w)"
  "w \<in> set (map rev ws_encodings) \<Longrightarrow> \<not> token_char (hd w)"
  by (auto simp: ws_encodings_def token_char_def)

lemma trim_tokens: "(\<And>c. c \<in> set s \<Longrightarrow> token_char c) \<Longrightarrow> trim s = s"
proof -
  assume s: "\<And>c. c \<in> set s \<Longrightarrow> token_char c"
  have "s = [] \<or> token_char (hd s)" "rev s = [] \<or> token_char (hd (rev s))"
    using s [of "hd s"] s [of "last s"] by (cases "s = []"; simp add: hd_rev)+
  then have "strip_all ws_encodings s = s" "strip_all (map rev ws_encodings) (rev s) = rev s"
    by (simp_all only: strip_all_head ws_not_token not_False_eq_True)
  then show ?thesis
    by (simp add: trim_def)
qed

lemma trim_space_tokens:
  assumes "\<And>c. c \<in> set s \<Longrightarrow> token_char c"
  shows "trim (CHR '' '' # s) = s"
proof -
  have "find (\<lambda>w. w \<noteq> [] \<and> prefix w (CHR '' '' # s)) ws_encodings = Some [CHR '' '']"
    by (simp add: ws_encodings_def)
  then have "strip_all ws_encodings (CHR '' '' # s) = strip_all ws_encodings s"
    by (subst strip_all.simps) simp
  then show ?thesis
    using trim_tokens [OF assms] by (simp add: trim_def)
qed

text \<open>One field of a header, as a client writes it after the comma.\<close>

lemma parse_pair_field:
  assumes "k \<in> set KNOWN_FIELDS" "\<And>c. c \<in> set v \<Longrightarrow> token_char c"
  shows "parse_pair x (k @ CHR ''='' # v) acc = parse_pair x (CHR '' '' # k @ CHR ''='' # v) acc"
    and "split_once (CHR ''='') (trim (CHR '' '' # k @ CHR ''='' # v)) = Some (k, v)"
    and "trim (CHR '' '' # k @ CHR ''='' # v) = k @ CHR ''='' # v" and "trim k = k" and "trim v = v"
proof -
  have k: "token_char c" if "c \<in> set k" for c
    using assms(1) that by (auto simp: KNOWN_FIELDS_def token_char_def)
  have kv: "token_char c" if "c \<in> set (k @ CHR ''='' # v)" for c
    using that k assms(2) by (auto simp: token_char_def)
  show t: "trim (CHR '' '' # k @ CHR ''='' # v) = k @ CHR ''='' # v"
    by (rule trim_space_tokens) (rule kv)
  have t': "trim (k @ CHR ''='' # v) = k @ CHR ''='' # v"
    by (rule trim_tokens) (rule kv)
  show "parse_pair x (k @ CHR ''='' # v) acc = parse_pair x (CHR '' '' # k @ CHR ''='' # v) acc"
    by (simp only: parse_pair_def t t')
  have "CHR ''='' \<notin> set k"
    using assms(1) by (auto simp: KNOWN_FIELDS_def)
  then show "split_once (CHR ''='') (trim (CHR '' '' # k @ CHR ''='' # v)) = Some (k, v)"
    by (simp add: t split_once_append)
  show "trim k = k" "trim v = v"
    by (simp_all add: trim_tokens k assms(2))
qed

text \<open>The header a client sends for a signed request.\<close>

definition auth_fields :: "text_ext \<Rightarrow> parsed_auth_header \<Rightarrow> string list" where
  "auth_fields x h =
     [''key_id='' @ uuid_show x (pah_key_id h), '' algo='' @ pah_algo h,
      '' ts='' @ show_nat (unat (as_u64 (pah_ts h))), '' nonce='' @ b64_encode x (pah_nonce h),
      '' sig='' @ b64_encode x (pah_signature h)]"

definition render_header :: "text_ext \<Rightarrow> parsed_auth_header \<Rightarrow> string" where
  "render_header x h = ''Signature '' @ join '','' (auth_fields x h)"

lemma parse_fields:
  assumes "text_ext_ok x" "\<And>c. c \<in> set a \<Longrightarrow> token_char c"
  shows "parse_pair x (''key_id='' @ uuid_show x k) acc = Inr (acc\<lparr>acc_key_id := Some k\<rparr>)"
    and "parse_pair x ('' algo='' @ a) acc = Inr (acc\<lparr>acc_algo := Some a\<rparr>)"
    and "parse_pair x ('' ts='' @ show_nat (unat (as_u64 t))) acc = Inr (acc\<lparr>acc_ts := Some t\<rparr>)"
    and "parse_pair x ('' nonce='' @ b64_encode x n) acc = Inr (acc\<lparr>acc_nonce := Some n\<rparr>)"
    and "parse_pair x ('' sig='' @ b64_encode x n) acc = Inr (acc\<lparr>acc_sig := Some n\<rparr>)"
proof -
  have u: "token_codec (uuid_show x) (uuid_parse x)" and b: "token_codec (b64_encode x) (b64_decode x)"
    using assms(1) by (auto simp: text_ext_ok_def)
  note f = parse_pair_field
  note enc = token_codec.enc_chars [OF u] token_codec.enc_chars [OF b] ts_codec.enc_chars
  have uv: "\<And>c. c \<in> set (uuid_show x k) \<Longrightarrow> token_char c" by (rule enc)
  show "parse_pair x (''key_id='' @ uuid_show x k) acc = Inr (acc\<lparr>acc_key_id := Some k\<rparr>)"
    using f(1) [of "''key_id''", OF _ uv] f(2-5) [of "''key_id''", OF _ uv]
    by (simp add: parse_pair_def KNOWN_FIELDS_def Let_def token_codec.dec_enc [OF u])
  show "parse_pair x ('' algo='' @ a) acc = Inr (acc\<lparr>acc_algo := Some a\<rparr>)"
    using f(2-5) [of "''algo''", OF _ assms(2)]
    by (simp add: parse_pair_def KNOWN_FIELDS_def Let_def)
  show "parse_pair x ('' ts='' @ show_nat (unat (as_u64 t))) acc = Inr (acc\<lparr>acc_ts := Some t\<rparr>)"
    using f(2-5) [of "''ts''", OF _ ts_codec.enc_chars [of _ t]]
    by (simp add: parse_pair_def KNOWN_FIELDS_def Let_def parse_u64_show_nat from_raw_def)
  show "parse_pair x ('' nonce='' @ b64_encode x n) acc = Inr (acc\<lparr>acc_nonce := Some n\<rparr>)"
    using f(2-5) [of "''nonce''", OF _ token_codec.enc_chars [OF b, of _ n]]
    by (simp add: parse_pair_def KNOWN_FIELDS_def Let_def token_codec.dec_enc [OF b])
  show "parse_pair x ('' sig='' @ b64_encode x n) acc = Inr (acc\<lparr>acc_sig := Some n\<rparr>)"
    using f(2-5) [of "''sig''", OF _ token_codec.enc_chars [OF b, of _ n]]
    by (simp add: parse_pair_def KNOWN_FIELDS_def Let_def token_codec.dec_enc [OF b])
qed


lemma auth_fields_no_comma:
  assumes "text_ext_ok x" "\<And>c. c \<in> set (pah_algo h) \<Longrightarrow> token_char c" "s \<in> set (auth_fields x h)"
  shows "CHR '','' \<notin> set s" and "c \<in> set s \<Longrightarrow> (of_char c :: nat) < 128"
proof -
  have u: "token_codec (uuid_show x) (uuid_parse x)" and b: "token_codec (b64_encode x) (b64_decode x)"
    using assms(1) by (auto simp: text_ext_ok_def)
  let ?tok = "list_all (\<lambda>c. token_char c \<or> c = CHR '' '')"
  have "?tok ''key_id=''" "?tok '' algo=''" "?tok '' ts=''" "?tok '' nonce=''" "?tok '' sig=''"
    by (simp_all add: token_char_def)
  moreover have "?tok (uuid_show x k)" "?tok (b64_encode x bs)" "?tok (pah_algo h)"
    "?tok (show_nat (unat (as_u64 t)))" for k bs t
    using token_codec.enc_chars [OF u] token_codec.enc_chars [OF b] assms(2) ts_codec.enc_chars
    by (simp_all add: list_all_iff)
  ultimately have "list_all ?tok (auth_fields x h)"
    by (simp only: auth_fields_def list.pred_inject list_all_append simp_thms)
  then have tok: "token_char c \<or> c = CHR '' ''" if "c \<in> set s" for c
    using assms(3) that by (auto simp: list_all_iff)
  show "CHR '','' \<notin> set s" and "c \<in> set s \<Longrightarrow> (of_char c :: nat) < 128"
    using tok by (force simp: token_char_def)+
qed

lemma set_join: "set (join sep ss) \<subseteq> set sep \<union> \<Union> (set ` set ss)"
  by (induction sep ss rule: join.induct) auto

subsection \<open>A concrete text encoding\<close>

text \<open>Hexadecimal for bytes and unary for identifiers, an instance of the assumed laws.\<close>

fun nibble_of :: "char \<Rightarrow> nat" where
  "nibble_of c = length (takeWhile (\<lambda>d. d \<noteq> c) HEX)"

fun hex_decode :: "string \<Rightarrow> u8 list option" where
  "hex_decode [] = Some []"
| "hex_decode [c] = None"
| "hex_decode (c # d # s) =
     (case hex_decode s of None \<Rightarrow> None
      | Some bs \<Rightarrow> Some (of_nat (16 * nibble_of c + nibble_of d) # bs))"

definition demo_text :: text_ext where
  "demo_text = \<lparr>uuid_show = (\<lambda>u. replicate (unat u) CHR ''a''), uuid_parse = (\<lambda>s. Some (of_nat (length s))),
     b64_encode = hex_encode, b64_decode = hex_decode\<rparr>"

lemma nibble_of_HEX: "i < 16 \<Longrightarrow> nibble_of (HEX ! i) = i"
proof -
  assume "i < 16"
  then have "i \<in> set [0..<16]"
    by simp
  moreover have "list_all (\<lambda>i. nibble_of (HEX ! i) = i) [0..<16]"
    by (simp add: HEX_def upt_conv_Cons)
  ultimately show ?thesis
    by (simp only: list_all_iff)
qed

lemma hex_decode_encode: "hex_decode (hex_encode bs) = Some bs"
proof (induction bs)
  case (Cons b bs)
  have "hex_decode (hex_encode (b # bs)) =
      Some (of_nat (16 * unat (drop_bit 4 b) + unat (b AND 0x0F)) # bs)"
    by (simp only: hex_encode_Cons hex_decode.simps Cons.IH nibble_of_HEX u8_nibbles_less option.case)
  also have "16 * unat (drop_bit 4 b) + unat (b AND 0x0F) = unat b"
    by (simp only: u8_nibbles mult_div_mod_eq)
  finally show ?case
    by simp
qed simp

interpretation demo_uuid: token_codec "uuid_show demo_text" "uuid_parse demo_text"
  by unfold_locales (auto simp: demo_text_def token_char_def)

interpretation hex_codec: token_codec hex_encode hex_decode
  by unfold_locales (auto simp: hex_decode_encode intro: hex_encode_tokens)

lemma demo_text_ok: "text_ext_ok demo_text"
  using demo_uuid.token_codec_axioms hex_codec.token_codec_axioms
  by (simp add: text_ext_ok_def demo_text_def)

subsection \<open>Properties\<close>

text \<open>The canonical query is a canonical form: canonicalizing keeps, for every key, the
  values in their order and sorts the keys, so two query strings have the same canonical
  form exactly when they give every key the same list of values; and canonicalizing twice
  changes nothing.
\<close>

theorem canonicalize_query_canonical:
  "(canonicalize_query q = canonicalize_query r \<longleftrightarrow> (\<forall>k. values_of k q = values_of k r)) \<and>
   sorted (map fst (pairs_of (canonicalize_query q))) \<and>
   canonicalize_query (canonicalize_query q) = canonicalize_query q"
proof (intro conjI iffI allI)
  have v: "values_of k q = values_of k (canonicalize_query q)" for k q
    using sort_key_stable [of fst k "pairs_of q"] by (simp add: values_of_def pairs_of_canonical)
  then show "values_of k q = values_of k r" if "canonicalize_query q = canonicalize_query r" for k
    using that by metis
  show "canonicalize_query q = canonicalize_query r" if "\<forall>k. values_of k q = values_of k r"
  proof -
    have "filter (\<lambda>p. fst p = k) (pairs_of q) = filter (\<lambda>p. fst p = k) (pairs_of r)" for k
      using that by (subst (1 2) filter_fst_of_values) (simp add: values_of_def)
    then show ?thesis
      unfolding canonicalize_query_alt by (simp add: sort_key_by_values [of "pairs_of q" "pairs_of r"])
  qed
  show "sorted (map fst (pairs_of (canonicalize_query q)))"
    by (simp add: pairs_of_canonical)
  show "canonicalize_query (canonicalize_query q) = canonicalize_query q"
    unfolding canonicalize_query_alt [of "canonicalize_query q"] pairs_of_canonical
    by (simp add: canonicalize_query_alt sort_key_id_if_sorted)
qed

text \<open>C17. The signed string determines what was signed: two requests whose method, path and
  query hold no line feed have the same canonical string exactly when they agree on
  method, path, query, body hash, key id, timestamp and nonce.
\<close>

theorem canonical_string_injective:
  assumes "text_ext_ok x"
    and "CHR 0x0A \<notin> set (srp_method p @ srp_path p @ srp_canonical_query p)"
    and "CHR 0x0A \<notin> set (srp_method q @ srp_path q @ srp_canonical_query q)"
  shows "build_canonical_string x p = build_canonical_string x q \<longleftrightarrow>
    srp_method p = srp_method q \<and> srp_path p = srp_path q \<and>
    srp_canonical_query p = srp_canonical_query q \<and>
    srp_request_hash p = srp_request_hash q \<and> srp_key_id p = srp_key_id q \<and>
    srp_ts p = srp_ts q \<and> srp_nonce p = srp_nonce q"
proof -
  let ?L = "\<lambda>p. [''HEADLINES-SIGN-V1'', srp_method p, srp_path p, srp_canonical_query p,
      hex_encode (srp_request_hash p), uuid_show x (srp_key_id p),
      show_nat (unat (as_u64 (srp_ts p))), b64_encode x (srp_nonce p)]"
  have u: "token_codec (uuid_show x) (uuid_parse x)" and b: "token_codec (b64_encode x) (b64_decode x)"
    using assms(1) by (auto simp: text_ext_ok_def)
  have split: "split_on (CHR 0x0A) (build_canonical_string x r) = ?L r"
    if "CHR 0x0A \<notin> set (srp_method r @ srp_path r @ srp_canonical_query r)" for r
    unfolding build_canonical_string_join
    using that token_codec.enc_no_newline [OF u] token_codec.enc_no_newline [OF b]
      ts_codec.enc_no_newline hex_codec.enc_no_newline
    by (intro split_on_join) auto
  have "build_canonical_string x p = build_canonical_string x q \<longleftrightarrow> ?L p = ?L q"
    using split [OF assms(2)] split [OF assms(3)] build_canonical_string_join by metis
  also have "\<dots> \<longleftrightarrow> srp_method p = srp_method q \<and> srp_path p = srp_path q \<and>
    srp_canonical_query p = srp_canonical_query q \<and>
    srp_request_hash p = srp_request_hash q \<and> srp_key_id p = srp_key_id q \<and>
    srp_ts p = srp_ts q \<and> srp_nonce p = srp_nonce q"
    by (simp add: hex_encode_inj token_codec.enc_inj [OF u] token_codec.enc_inj [OF b]
        ts_codec.enc_inj)
  finally show ?thesis .
qed

definition demo_parts :: signed_request_parts where
  "demo_parts = \<lparr>srp_method = ''POST'', srp_path = ''/headlines.v1.ArticleService/PublishArticle'',
     srp_canonical_query = [], srp_request_hash = [0xAB, 0x01], srp_key_id = 3,
     srp_algo = ''ed25519'', srp_ts = from_parts 1000 0, srp_nonce = [1], srp_signature = [9]\<rparr>"

theorem canonical_string_injective_witness:
  "build_canonical_string demo_text demo_parts \<noteq>
   build_canonical_string demo_text (demo_parts\<lparr>srp_nonce := [2]\<rparr>)"
  using canonical_string_injective [OF demo_text_ok, of demo_parts "demo_parts\<lparr>srp_nonce := [2]\<rparr>"]
  by (simp add: demo_parts_def)

lemma parse_render_header:
  assumes "text_ext_ok x" "\<And>c. c \<in> set (pah_algo h) \<Longrightarrow> token_char c"
  shows "parse_authorization_header x (render_header x h) = Inr h"
proof -
  note nc = auth_fields_no_comma [OF assms]
  have "is_ascii (render_header x h)"
    using set_join [of "'',''" "auth_fields x h"] nc(2)
    by (fastforce simp: is_ascii_def list_all_iff render_header_def)
  moreover have "strip_prefix ''Signature '' (render_header x h) = Some (join '','' (auth_fields x h))"
    by (simp add: strip_prefix_def render_header_def)
  moreover have "split_on (CHR '','') (join '','' (auth_fields x h)) = auth_fields x h"
    by (rule split_on_join) (use nc(1) in \<open>auto simp: auth_fields_def\<close>)
  moreover have "parse_pairs x (auth_fields x h) no_fields = Inr \<lparr>acc_key_id = Some (pah_key_id h),
      acc_algo = Some (pah_algo h), acc_ts = Some (pah_ts h), acc_nonce = Some (pah_nonce h),
      acc_sig = Some (pah_signature h)\<rparr>"
    by (simp only: auth_fields_def parse_pairs.simps parse_fields [OF assms] try_res_simps no_fields_def)
      simp
  ultimately show ?thesis
    by (simp add: parse_authorization_header_def)
qed

text \<open>Parsing the header a client renders from its key id, algorithm, timestamp, nonce
  and signature gives those five values back.
\<close>

theorem header_roundtrip:
  assumes "text_ext_ok x" "\<And>c. c \<in> set (pah_algo h) \<Longrightarrow> token_char c"
  shows "parse_authorization_header x (render_header x h) = Inr h"
  using assms by (rule parse_render_header)

theorem header_roundtrip_witness:
  "parse_authorization_header demo_text (render_header demo_text
     \<lparr>pah_key_id = 2, pah_algo = ''ed25519'', pah_ts = from_parts 1000 0, pah_nonce = [1, 2],
      pah_signature = [255]\<rparr>) =
   Inr \<lparr>pah_key_id = 2, pah_algo = ''ed25519'', pah_ts = from_parts 1000 0, pah_nonce = [1, 2],
      pah_signature = [255]\<rparr>"
  by (rule header_roundtrip [OF demo_text_ok]) (auto simp: token_char_def)

end
