(* ===== verification/Subject.thy ===== *)
theory Subject
  imports Prelude
begin

text \<open>
  Authenticated identities and the scope language of \<open>headlines-core/src/subject.rs\<close>.
  The lemmas give a declarative reading of the wildcard matcher and the self and scope
  checks that every handler uses.
\<close>

datatype subject =
    User (user_id: uuid) (key_id: uuid)
  | Account (account_id: uuid) (key_id: uuid)
  | System (system_id: uuid) (key_id: uuid) (scopes: "string list")
  | Anonymous

datatype subject_class =
    AnonymousClass
  | UserSelf
  | AccountSelf
  | AccountOwnsResource
  | SystemClass

fun class_of :: "subject \<Rightarrow> subject_class" where
  "class_of Anonymous = AnonymousClass"
| "class_of (User _ _) = UserSelf"
| "class_of (Account _ _) = AccountSelf"
| "class_of (System _ _ _) = SystemClass"

fun is_self_for :: "subject \<Rightarrow> uuid option \<Rightarrow> uuid option \<Rightarrow> bool" where
  "is_self_for (User uid _) target_user_id target_account_id \<longleftrightarrow> target_user_id = Some uid"
| "is_self_for (Account aid _) target_user_id target_account_id \<longleftrightarrow> target_account_id = Some aid"
| "is_self_for (System _ _ _) _ _ \<longleftrightarrow> False"
| "is_self_for Anonymous _ _ \<longleftrightarrow> False"

text \<open>\<open>str::strip_suffix\<close>.\<close>

definition strip_suffix :: "string \<Rightarrow> string \<Rightarrow> string option" where
  "strip_suffix suf s =
     (if suffix suf s then Some (take (length s - length suf) s) else None)"

definition scope_matches :: "string \<Rightarrow> string \<Rightarrow> bool" where
  "scope_matches granted target =
     (if granted = ''*'' then True
      else if granted = target then True
      else case strip_suffix ''.*'' granted of
        Some prfx \<Rightarrow>
          length target > length prfx \<and> prefix prfx target \<and> target ! length prfx = CHR ''.''
      | None \<Rightarrow> False)"

fun has_scope :: "subject \<Rightarrow> string \<Rightarrow> bool" where
  "has_scope (System _ _ scps) scope =
     (if scope = [] then ''*'' \<in> set scps
      else list_ex (\<lambda>granted. scope_matches granted scope) scps)"
| "has_scope _ _ = False"

definition subject_class_try_from :: "int \<Rightarrow> int + subject_class" where
  "subject_class_try_from v =
     (if v = 1 then Inr AnonymousClass
      else if v = 2 then Inr UserSelf
      else if v = 3 then Inr AccountSelf
      else if v = 4 then Inr AccountOwnsResource
      else if v = 5 then Inr SystemClass
      else Inl v)"

subsection \<open>Lemmas\<close>

lemma strip_suffix_Some: "strip_suffix suf s = Some p \<longleftrightarrow> s = p @ suf"
  by (auto simp: strip_suffix_def suffix_def)

lemma strip_suffix_None: "strip_suffix suf s = None \<longleftrightarrow> \<not> suffix suf s"
  by (simp add: strip_suffix_def)

lemma dotted_prefix:
  "length t > length p \<and> prefix p t \<and> t ! length p = c \<longleftrightarrow> (\<exists>rest. t = p @ c # rest)"
proof
  assume "length t > length p \<and> prefix p t \<and> t ! length p = c"
  then obtain u where "t = p @ u" "u \<noteq> []" "hd u = c"
    by (auto simp: prefix_def hd_conv_nth nth_append)
  then have "t = p @ c # tl u"
    by (cases u) auto
  then show "\<exists>rest. t = p @ c # rest" ..
qed auto

lemma has_scope_iff_system:
  "has_scope s scope \<Longrightarrow> \<exists>i k scps. s = System i k scps"
  by (cases s) auto

subsection \<open>Properties\<close>

text \<open>
  Wildcards: a granted scope covers a target exactly when it is the blanket
  \<open>*\<close>, equals the target, or has the form \<open>prefix.*\<close> with the target strictly below
  that dotted prefix.
\<close>

theorem scope_matches_spec:
  "scope_matches granted target \<longleftrightarrow>
     granted = ''*'' \<or> granted = target \<or>
     (\<exists>prfx rest. granted = prfx @ ''.*'' \<and> target = prfx @ CHR ''.'' # rest)"
proof (cases "strip_suffix ''.*'' granted")
  case None
  then have "\<not> (\<exists>prfx. granted = prfx @ ''.*'')"
    by (auto simp: strip_suffix_None suffix_def)
  with None show ?thesis
    by (auto simp: scope_matches_def)
next
  case (Some p)
  then have g: "granted = p @ ''.*''"
    by (simp add: strip_suffix_Some)
  have "(\<exists>prfx rest. granted = prfx @ ''.*'' \<and> target = prfx @ CHR ''.'' # rest) \<longleftrightarrow>
        (\<exists>rest. target = p @ CHR ''.'' # rest)"
    using g by auto
  then show ?thesis
    unfolding scope_matches_def Some option.case dotted_prefix by auto
qed

text \<open>
  A scope is held only by system subjects, and what a system holds is decided by
  its granted scopes alone: the empty scope needs a literal \<open>*\<close>, any other scope one
  grant that covers it.
\<close>

theorem has_scope_spec:
  "has_scope s scope \<longleftrightarrow>
     (\<exists>i k scps. s = System i k scps \<and>
        (if scope = [] then ''*'' \<in> set scps
         else \<exists>g \<in> set scps. scope_matches g scope))"
  by (cases s) (auto simp: list_ex_iff)

end
