(* ===== verification/Time_Source.thy ===== *)
theory Time_Source
  imports Tso_Value
begin

text \<open>
  The timestamp oracle of \<open>headlines-auth/src/time\<close>: the in-process hybrid clock
  (\<open>tso.rs\<close>), the wall-clock source (\<open>local_clock.rs\<close>) and the two high-water stores
  (\<open>postgres_store.rs\<close>). The compare-and-swap loop of \<open>issue\<close> is a step relation over
  any number of threads; boot waits for the clock in a loop that may not end.
\<close>

datatype time_error =
    OutsideHorizon
  | NonMonotonic
  | TimeInternal string

subsection \<open>Issuing a timestamp\<close>

record tso_config =
  horizon_ms :: u64
  flush_interval_ms :: u64

definition default_tso_config :: tso_config where
  "default_tso_config = \<lparr>horizon_ms = 30000, flush_interval_ms = 100\<rparr>"

text \<open>One iteration of the loop in \<open>issue\<close>: the timestamp proposed after \<open>prev\<close>.\<close>

definition next_tso :: "u64 \<Rightarrow> u64 \<Rightarrow> time_error + tso" where
  "next_tso wall_now_ms prev =
     (let prev_tso = from_raw prev;
          prev_ms = physical_ms prev_tso;
          prev_logical = logical prev_tso
      in if wall_now_ms > prev_ms then Inr (from_parts wall_now_ms 0)
         else if prev_logical = push_bit 18 1 - 1
         then Inl (TimeInternal ''logical counter exhausted within the same physical_ms'')
         else Inr (from_parts prev_ms (prev_logical + 1)))"

text \<open>\<open>issue\<close> run by one thread alone: the compare-and-swap succeeds at once.\<close>

definition issue :: "u64 \<Rightarrow> u64 \<Rightarrow> (time_error + tso) \<times> u64" where
  "issue wall_now_ms lst =
     (case next_tso wall_now_ms lst of
        Inl e \<Rightarrow> (Inl e, lst)
      | Inr t \<Rightarrow> (Inr t, as_u64 t))"

definition validate_sync :: "u64 \<Rightarrow> u64 \<Rightarrow> u64 \<Rightarrow> tso \<Rightarrow> time_error + unit" where
  "validate_sync horizon wall_ms lst ts =
     (let stored_ms = physical_ms (from_raw lst);
          now_ms = max wall_ms stored_ms;
          ts_ms = physical_ms ts
      in if ts_ms > now_ms then Inl NonMonotonic
         else if saturating_sub now_ms ts_ms > horizon then Inl OutsideHorizon
         else Inr ())"

text \<open>\<open>LocalClock\<close>, the source for development.\<close>

definition local_now :: "u64 \<Rightarrow> time_error + tso" where
  "local_now ms = Inr (from_parts ms 0)"

definition local_validate :: "u64 \<Rightarrow> u64 \<Rightarrow> tso \<Rightarrow> time_error + unit" where
  "local_validate horizon now_ms ts =
     (let ts_ms = physical_ms ts
      in if ts_ms > saturating_add now_ms horizon then Inl NonMonotonic
         else if saturating_sub now_ms ts_ms > horizon then Inl OutsideHorizon
         else Inr ())"

subsection \<open>The high-water row\<close>

text \<open>
  The singleton row of \<open>tso_high_water\<close>, as the value of its \<open>bigint\<close> column; \<open>None\<close>
  before it is seeded. Reading seeds it, writing overwrites it.
\<close>

definition pg_tso_read :: "int option \<Rightarrow> u64 \<times> int option" where
  "pg_tso_read row =
     (let row' = (case row of None \<Rightarrow> Some 0 | Some v \<Rightarrow> Some v);
          v = unwrap_or 0 row'
      in (of_int (max v 0), row'))"

definition pg_tso_write :: "u64 \<Rightarrow> int option \<Rightarrow> int option" where
  "pg_tso_write last_physical_ms row =
     (let target = min (uint last_physical_ms) (2 ^ 63 - 1) in Some target)"

text \<open>What the flush task writes at a tick.\<close>

definition flush_value :: "u64 \<Rightarrow> u64" where
  "flush_value lst = physical_ms (from_raw lst)"

subsection \<open>Boot\<close>

text \<open>
  \<open>clk i\<close> is the \<open>i\<close>-th reading of the wall clock. The loop reads until the clock has
  passed the floor and returns the number of readings it took; \<open>None\<close> is a loop that
  never ends.
\<close>

partial_function (option) wait_clock :: "(nat \<Rightarrow> u64) \<Rightarrow> u64 \<Rightarrow> nat \<Rightarrow> nat option" where
  "wait_clock clk flr i = (if clk i > flr then Some (Suc i) else wait_clock clk flr (Suc i))"

definition new_with_clock :: "u64 \<Rightarrow> tso_config \<Rightarrow> (nat \<Rightarrow> u64) \<Rightarrow> u64 option" where
  "new_with_clock stored config clk =
     (let crash_floor = saturating_add stored (flush_interval_ms config)
      in case (if crash_floor > 0 then wait_clock clk crash_floor 0 else Some 0) of
           None \<Rightarrow> None
         | Some i \<Rightarrow>
             let seed_ms = max crash_floor (clk i)
             in Some (as_u64 (from_parts seed_ms 0)))"

subsection \<open>Concurrent issuing\<close>

text \<open>
  Each thread that calls \<open>issue\<close> is idle, in the loop with its clock reading, has loaded
  \<open>last\<close>, or has returned. \<open>issued\<close> and \<open>seen\<close> are ghosts: the timestamps handed out
  so far, and how many there were when a thread loaded \<open>last\<close>.
\<close>

datatype issue_pc =
    Idle
  | Looping u64
  | Loaded u64 u64
  | Returned "time_error + tso"

record issue_sys =
  last_ts :: u64
  thread :: "nat \<Rightarrow> issue_pc"
  issued :: "tso list"
  seen :: "nat \<Rightarrow> nat"

definition issue_init :: "u64 \<Rightarrow> issue_sys" where
  "issue_init seed = \<lparr>last_ts = seed, thread = (\<lambda>_. Idle), issued = [], seen = (\<lambda>_. 0)\<rparr>"

inductive issue_step :: "issue_sys \<Rightarrow> issue_sys \<Rightarrow> bool" where
  call: "thread s i = Idle \<Longrightarrow> unat wall < 2 ^ 46 \<Longrightarrow>
     issue_step s (s\<lparr>thread := (thread s)(i := Looping wall)\<rparr>)"
| load: "thread s i = Looping wall \<Longrightarrow>
     issue_step s (s\<lparr>thread := (thread s)(i := Loaded wall (last_ts s)),
                     seen := (seen s)(i := length (issued s))\<rparr>)"
| exhausted: "thread s i = Loaded wall prev \<Longrightarrow> next_tso wall prev = Inl e \<Longrightarrow>
     issue_step s (s\<lparr>thread := (thread s)(i := Returned (Inl e))\<rparr>)"
| cas_ok: "thread s i = Loaded wall prev \<Longrightarrow> next_tso wall prev = Inr t \<Longrightarrow> last_ts s = prev \<Longrightarrow>
     issue_step s (s\<lparr>last_ts := as_u64 t, thread := (thread s)(i := Returned (Inr t)),
                     issued := issued s @ [t]\<rparr>)"
| cas_fail: "thread s i = Loaded wall prev \<Longrightarrow> next_tso wall prev = Inr t \<Longrightarrow> last_ts s \<noteq> prev \<Longrightarrow>
     issue_step s (s\<lparr>thread := (thread s)(i := Looping wall)\<rparr>)"
| return: "thread s i = Returned r \<Longrightarrow>
     issue_step s (s\<lparr>thread := (thread s)(i := Idle)\<rparr>)"

inductive issue_reach :: "u64 \<Rightarrow> issue_sys \<Rightarrow> bool" for seed where
  start: "issue_reach seed (issue_init seed)"
| step: "issue_reach seed s \<Longrightarrow> issue_step s s' \<Longrightarrow> issue_reach seed s'"

inductive_cases issue_stepE: "issue_step s s'"

subsection \<open>Lemmas\<close>

lemma u64_46: "unat (w :: u64) < 2 ^ 46 \<Longrightarrow> take_bit 46 w = w"
  by (rule take_bit_u64_id) auto

lemma max_u64_46: "unat (v :: u64) < 2 ^ 46 \<Longrightarrow> unat (w :: u64) < 2 ^ 46 \<Longrightarrow>
    unat (max v w) < 2 ^ 46"
  by (simp add: max_def)

lemma physical_less_imp_less: "physical_ms t < physical_ms u \<Longrightarrow> t < u"
proof -
  assume "physical_ms t < physical_ms u"
  then have "unat (as_u64 t) div 2 ^ 18 < unat (as_u64 u) div 2 ^ 18"
    by (simp add: word_less_nat_alt unat_physical_ms)
  then have "unat (as_u64 t) < unat (as_u64 u)"
    by (metis div_le_mono not_le)
  then show "t < u"
    by (simp add: tso_less_iff word_less_nat_alt)
qed

lemma next_tso_greater:
  assumes "unat wall < 2 ^ 46" "next_tso wall prev = Inr t"
  shows "from_raw prev < t"
proof (cases "wall > physical_ms (from_raw prev)")
  case True
  with assms have t: "t = from_parts wall 0"
    by (simp add: next_tso_def)
  then have "physical_ms t = wall"
    by (simp only: physical_ms_from_parts u64_46 [OF assms(1)])
  with True show ?thesis
    by (simp add: physical_less_imp_less)
next
  case False
  let ?p = "from_raw prev"
  from False assms have nl: "logical ?p \<noteq> push_bit 18 1 - 1"
    and t: "t = from_parts (physical_ms ?p) (logical ?p + 1)"
    by (auto simp: next_tso_def Let_def split: if_splits)
  have l: "unat (logical ?p) < 2 ^ 18"
    by (rule unat_logical_less)
  have "unat (logical ?p) \<noteq> 2 ^ 18 - 1"
  proof
    assume "unat (logical ?p) = 2 ^ 18 - 1"
    then have "logical ?p = push_bit 18 1 - 1"
      by (simp add: word_unat_eq_iff)
    with nl show False ..
  qed
  with l have "unat (logical ?p) + 1 < 2 ^ 18"
    by simp
  moreover from this have "unat (logical ?p + 1) = unat (logical ?p) + 1"
    by (simp add: unat_word_ariths)
  ultimately have "unat (take_bit 18 (logical ?p + 1)) = unat (logical ?p) + 1"
    by (simp add: unsigned_take_bit_eq take_bit_nat_eq_self)
  moreover have "unat (take_bit 46 (physical_ms ?p)) = unat (physical_ms ?p)"
    by (simp only: u64_46 [OF unat_physical_ms_less])
  ultimately have "unat (as_u64 t) = unat (as_u64 ?p) + 1"
    unfolding unat_as_u64 t physical_ms_from_parts logical_from_parts by simp
  then show ?thesis
    by (simp add: tso_less_iff word_less_nat_alt)
qed


lemma from_raw_as_u64 [simp]: "from_raw (as_u64 t) = t" "as_u64 (from_raw w) = w"
  by (simp_all add: from_raw_def)

text \<open>The invariant of the concurrent system: what \<open>last\<close> holds and what threads remember.\<close>

definition issue_hist :: "u64 \<Rightarrow> issue_sys \<Rightarrow> tso list" where
  "issue_hist seed s = from_raw seed # issued s"

definition issue_inv :: "u64 \<Rightarrow> issue_sys \<Rightarrow> bool" where
  "issue_inv seed s \<longleftrightarrow>
     sorted_wrt (<) (issue_hist seed s) \<and>
     last_ts s = as_u64 (last (issue_hist seed s)) \<and>
     (\<forall>i wall. thread s i = Looping wall \<longrightarrow> unat wall < 2 ^ 46) \<and>
     (\<forall>i wall prev. thread s i = Loaded wall prev \<longrightarrow>
        unat wall < 2 ^ 46 \<and> seen s i \<le> length (issued s) \<and>
        prev = as_u64 (issue_hist seed s ! seen s i))"

lemma sorted_wrt_snoc_less:
  "sorted_wrt (<) xs \<Longrightarrow> xs \<noteq> [] \<Longrightarrow> last xs < (y :: 'a :: order) \<Longrightarrow> sorted_wrt (<) (xs @ [y])"
proof (induction xs)
  case Nil
  then show ?case by simp
next
  case (Cons x xs)
  then show ?case
    by (cases "xs = []") (auto intro: less_trans)
qed

lemma issue_hist_simps [simp]:
  "length (issue_hist seed s) = Suc (length (issued s))" "issue_hist seed s \<noteq> []"
  "issue_hist seed (s\<lparr>thread := f\<rparr>) = issue_hist seed s"
  "issue_hist seed (s\<lparr>seen := g\<rparr>) = issue_hist seed s"
  "issue_hist seed (s\<lparr>issued := issued s @ [t]\<rparr>) = issue_hist seed s @ [t]"
  "issue_hist seed (s\<lparr>last_ts := w\<rparr>) = issue_hist seed s"
  by (simp_all add: issue_hist_def)

lemma issue_hist_snoc [simp]:
  "issue_hist seed (s\<lparr>last_ts := w, thread := f, issued := issued s @ [t]\<rparr>) =
   issue_hist seed s @ [t]"
  by (simp add: issue_hist_def)

lemma issue_inv_init: "issue_inv seed (issue_init seed)"
  by (simp add: issue_inv_def issue_init_def issue_hist_def)

lemma issue_inv_cas_ok:
  assumes inv: "issue_inv seed s" and "thread s i = Loaded wall prev"
    and "next_tso wall prev = Inr t" "last_ts s = prev"
  shows "issue_inv seed (s\<lparr>last_ts := as_u64 t, thread := (thread s)(i := Returned (Inr t)),
                           issued := issued s @ [t]\<rparr>)"
proof -
  from assms have "unat wall < 2 ^ 46" "prev = as_u64 (last (issue_hist seed s))"
    by (auto simp: issue_inv_def)
  with assms(3) have "last (issue_hist seed s) < t"
    using next_tso_greater [of wall prev t] by simp
  with inv have "sorted_wrt (<) (issue_hist seed s @ [t])"
    by (intro sorted_wrt_snoc_less) (auto simp: issue_inv_def)
  with inv show ?thesis
    by (fastforce simp: issue_inv_def nth_append)
qed

lemma issue_inv_step: "issue_step s s' \<Longrightarrow> issue_inv seed s \<Longrightarrow> issue_inv seed s'"
proof (induction rule: issue_step.induct)
  case (load s i wall)
  then show ?case
    by (auto simp: issue_inv_def last_conv_nth)
next
  case (cas_ok s i wall prev t)
  then show ?case by (intro issue_inv_cas_ok)
qed (auto simp: issue_inv_def)

lemma issue_reach_inv: "issue_reach seed s \<Longrightarrow> issue_inv seed s"
  by (induction rule: issue_reach.induct) (auto intro: issue_inv_init issue_inv_step)

lemma sorted_wrt_less_nth_eq:
  "sorted_wrt (<) (xs :: tso list) \<Longrightarrow> i < length xs \<Longrightarrow> j < length xs \<Longrightarrow>
   xs ! i = xs ! j \<longleftrightarrow> i = j"
  using nth_eq_iff_index_eq [of xs i j] by (simp add: strict_sorted_iff)

lemma wait_clock_finds:
  "clk n > flr \<Longrightarrow> i \<le> n \<Longrightarrow> \<exists>j. wait_clock clk flr i = Some (Suc j) \<and> i \<le> j \<and> clk j > flr"
proof (induction "n - i" arbitrary: i)
  case 0
  then show ?case
    by (subst wait_clock.simps) auto
next
  case (Suc k)
  show ?case
  proof (cases "clk i > flr")
    case True
    then show ?thesis by (subst wait_clock.simps) auto
  next
    case False
    with Suc have "i < n" by (cases "i = n") auto
    with Suc have "\<exists>j. wait_clock clk flr (Suc i) = Some (Suc j) \<and> Suc i \<le> j \<and> clk j > flr"
      by (intro Suc.hyps) auto
    with False show ?thesis by (subst wait_clock.simps) auto
  qed
qed

lemma wait_clock_Some: "wait_clock clk flr i = Some k \<Longrightarrow> \<exists>j. k = Suc j \<and> i \<le> j \<and> clk j > flr"
proof (rule wait_clock.raw_induct [rotated, where P =
    "\<lambda>c f i k. \<exists>j. k = Suc j \<and> i \<le> j \<and> c j > f"])
  fix wc and c :: "nat \<Rightarrow> u64" and f i k
  assume "\<And>c f i k. wc c f i = Some k \<Longrightarrow> \<exists>j. k = Suc j \<and> i \<le> j \<and> c j > f"
    and "(if c i > f then Some (Suc i) else wc c f (Suc i)) = Some k"
  then show "\<exists>j. k = Suc j \<and> i \<le> j \<and> c j > f"
    by (cases "c i > f") (force dest: Suc_leD)+
qed

lemma boot_seed_above_floor:
  assumes "new_with_clock stored config clk = Some seed"
    and flr: "0 < saturating_add stored (flush_interval_ms config)"
    and mono: "\<And>i. clk i \<le> clk (Suc i)" and small: "\<And>i. unat (clk i) < 2 ^ 46"
  shows "saturating_add stored (flush_interval_ms config) < physical_ms (from_raw seed)"
proof -
  let ?f = "saturating_add stored (flush_interval_ms config)"
  obtain i where i: "wait_clock clk ?f 0 = Some i"
    and seed: "seed = as_u64 (from_parts (max ?f (clk i)) 0)"
    using assms(1) flr by (auto simp: new_with_clock_def Let_def split: option.splits)
  from wait_clock_Some [OF i] obtain j where "i = Suc j" "?f < clk j"
    by auto
  with mono [of j] have "?f < clk i"
    by simp
  moreover from this have "max ?f (clk i) = clk i"
    by (intro max_absorb2 less_imp_le)
  with seed have "physical_ms (from_raw seed) = clk i"
    by (simp only: from_raw_as_u64 physical_ms_from_parts u64_46 [OF small])
  ultimately show ?thesis
    by simp
qed

lemma next_tso_physical:
  assumes "unat wall < 2 ^ 46" "next_tso wall lst = Inr t"
  shows "physical_ms t = max wall (physical_ms (from_raw lst))"
proof (cases "wall > physical_ms (from_raw lst)")
  case True
  with assms(2) have "t = from_parts wall 0"
    by (simp add: next_tso_def)
  with True show ?thesis
    by (simp add: physical_ms_from_parts u64_46 [OF assms(1)])
next
  case False
  with assms(2) have "t = from_parts (physical_ms (from_raw lst)) (logical (from_raw lst) + 1)"
    by (auto simp: next_tso_def Let_def split: if_splits)
  with False show ?thesis
    by (simp add: physical_ms_from_parts u64_46 [OF unat_physical_ms_less] max_absorb2 not_less)
qed

text \<open>
  A run for the witnesses: thread 0 has loaded the seed, thread 1 issues a timestamp
  before it swaps.
\<close>

definition demo_seed :: u64 where
  "demo_seed = as_u64 (from_parts 2000 0)"

definition demo_race :: issue_sys where
  "demo_race = \<lparr>last_ts = as_u64 (from_parts 2001 0),
     thread = (\<lambda>_. Idle)(0 := Loaded 2000 demo_seed, 1 := Returned (Inr (from_parts 2001 0))),
     issued = [from_parts 2001 0], seen = (\<lambda>_. 0)\<rparr>"

lemma demo_next: "next_tso 2001 demo_seed = Inr (from_parts 2001 0)"
  by (simp add: next_tso_def demo_seed_def physical_ms_from_parts Let_def take_bit_u64_id)

lemma demo_race_reach: "issue_reach demo_seed demo_race"
proof -
  let ?S = "\<lambda>th. \<lparr>last_ts = demo_seed, thread = th, issued = [], seen = (\<lambda>_. 0)\<rparr>"
  have s0: "issue_reach demo_seed (?S (\<lambda>_. Idle))"
    using issue_reach.start [of demo_seed] by (simp add: issue_init_def)
  have s1: "issue_reach demo_seed (?S ((\<lambda>_. Idle)(0 := Looping 2000)))"
    using issue_reach.step [OF s0 issue_step.call [of _ 0 2000]] by simp
  have s2: "issue_reach demo_seed (?S ((\<lambda>_. Idle)(0 := Loaded 2000 demo_seed)))"
    using issue_reach.step [OF s1 issue_step.load [of _ 0 2000]] by (simp add: fun_upd_idem)
  have s3: "issue_reach demo_seed
      (?S ((\<lambda>_. Idle)(0 := Loaded 2000 demo_seed, 1 := Looping 2001)))"
    using issue_reach.step [OF s2 issue_step.call [of _ 1 2001]] by simp
  have s4: "issue_reach demo_seed
      (?S ((\<lambda>_. Idle)(0 := Loaded 2000 demo_seed, 1 := Loaded 2001 demo_seed)))"
    using issue_reach.step [OF s3 issue_step.load [of _ 1 2001]] by (simp add: fun_upd_idem)
  show ?thesis
    using issue_reach.step [OF s4 issue_step.cas_ok [of _ 1 2001 demo_seed "from_parts 2001 0"]]
    by (simp add: demo_race_def demo_next)
qed

subsection \<open>Properties\<close>

text \<open>C1. However the calls of any number of threads interleave, the timestamps handed out so
  far are strictly increasing in the order of their compare-and-swaps, the first of them is
  above the seed, and \<open>last\<close> is the newest one: no timestamp is issued twice. (Wall-clock
  readings are below 2 to the 46 milliseconds, the width of the physical field.)
\<close>

theorem issued_strictly_increasing:
  assumes "issue_reach seed s"
  shows "sorted_wrt (<) (from_raw seed # issued s) \<and>
    last_ts s = as_u64 (last (from_raw seed # issued s))"
  using issue_reach_inv [OF assms] by (simp add: issue_inv_def issue_hist_def)

theorem issued_strictly_increasing_witness:
  "sorted_wrt (<) (from_raw demo_seed # issued demo_race) \<and> issued demo_race \<noteq> []"
  using issued_strictly_increasing [OF demo_race_reach] by (simp add: demo_race_def)

text \<open>A thread's compare-and-swap succeeds exactly when no other thread has issued a
  timestamp since it loaded \<open>last\<close>: a retry is always paid for by another thread's
  success (lock-freedom), and no stale value is ever swapped in (there is no ABA).
\<close>

theorem cas_fails_only_on_progress:
  assumes "issue_reach seed s" "thread s i = Loaded wall prev"
  shows "seen s i \<le> length (issued s) \<and> (last_ts s = prev \<longleftrightarrow> seen s i = length (issued s))"
proof -
  let ?h = "issue_hist seed s"
  from issue_reach_inv [OF assms(1)] have inv: "issue_inv seed s" .
  with assms(2) have le: "seen s i \<le> length (issued s)" and p: "prev = as_u64 (?h ! seen s i)"
    by (auto simp: issue_inv_def)
  from inv have "last_ts s = as_u64 (?h ! length (issued s))"
    by (simp add: issue_inv_def last_conv_nth)
  with p have "last_ts s = prev \<longleftrightarrow> ?h ! length (issued s) = ?h ! seen s i"
    by (auto intro: tso.expand)
  also have "\<dots> \<longleftrightarrow> length (issued s) = seen s i"
    using inv le by (intro sorted_wrt_less_nth_eq) (auto simp: issue_inv_def)
  finally show ?thesis
    using le by auto
qed

theorem cas_fails_only_on_progress_witness:
  "thread demo_race 0 = Loaded 2000 demo_seed \<and> last_ts demo_race \<noteq> demo_seed"
  using cas_fails_only_on_progress [OF demo_race_reach, of 0 2000 demo_seed]
  by (simp add: demo_race_def)



text \<open>Boot returns exactly when there is nothing to wait for or the wall clock passes the
  crash-recovery floor at some reading; otherwise it waits forever.
\<close>

theorem boot_returns_iff:
  "(\<exists>seed. new_with_clock stored config clk = Some seed) \<longleftrightarrow>
     saturating_add stored (flush_interval_ms config) = 0 \<or>
     (\<exists>n. clk n > saturating_add stored (flush_interval_ms config))"
proof -
  let ?f = "saturating_add stored (flush_interval_ms config)"
  have "(\<exists>k. wait_clock clk ?f 0 = Some k) \<longleftrightarrow> (\<exists>n. clk n > ?f)"
  proof
    assume "\<exists>k. wait_clock clk ?f 0 = Some k"
    then show "\<exists>n. clk n > ?f"
      by (auto dest: wait_clock_Some)
  next
    assume "\<exists>n. clk n > ?f"
    then show "\<exists>k. wait_clock clk ?f 0 = Some k"
      by (auto dest: wait_clock_finds [of ?f clk _ 0])
  qed
  moreover have "?f > 0 \<longleftrightarrow> ?f \<noteq> 0"
    by (simp add: word_neq_0_conv)
  ultimately show ?thesis
    by (cases "wait_clock clk ?f 0") (auto simp: new_with_clock_def Let_def simp del: word_neq_0_conv)
qed


text \<open>
  A timestamp that was just issued validates, and goes on validating for as long as
  the clock and the newest timestamp are at most the horizon past it.
\<close>

theorem issued_token_validates:
  assumes "unat wall < 2 ^ 46" "issue wall lst = (Inr t, lst')"
    and "physical_ms t \<le> physical_ms (from_raw lst'')"
    and "max (unat wall') (unat (physical_ms (from_raw lst''))) \<le> unat (physical_ms t) + unat h"
  shows "validate_sync h wall lst' t = Inr () \<and> validate_sync h wall' lst'' t = Inr ()"
proof -
  from assms(2) have n: "next_tso wall lst = Inr t" and l: "lst' = as_u64 t"
    by (auto simp: issue_def split: sum.splits)
  have "physical_ms (from_raw lst') \<ge> wall"
    using next_tso_physical [OF assms(1) n] by (simp add: l)
  then have "validate_sync h wall lst' t = Inr ()"
    by (simp add: validate_sync_def Let_def l max_absorb2 saturating_sub_def)
  moreover have "validate_sync h wall' lst'' t = Inr ()"
    using assms(3,4)
    by (auto simp: validate_sync_def Let_def word_less_nat_alt word_le_nat_alt unat_saturating_sub
        max_def split: if_splits)
  ultimately show ?thesis ..
qed

theorem issued_token_validates_witness:
  "validate_sync 30000 2001 (as_u64 (from_parts 2001 0)) (from_parts 2001 0) = Inr () \<and>
   validate_sync 30000 32001 (as_u64 (from_parts 2001 0)) (from_parts 2001 0) = Inr ()"
proof (rule issued_token_validates [of 2001 demo_seed])
  show "issue 2001 demo_seed = (Inr (from_parts 2001 0), as_u64 (from_parts 2001 0))"
    by (simp add: issue_def demo_next)
qed (simp_all add: physical_ms_from_parts take_bit_u64_id)

text \<open>
  What boot reads back is the last value flushed (clipped to the positive range of
  the \<open>bigint\<close> column), whatever the row held before: a flush replaces the mark even
  when it is lower.
\<close>

theorem high_water_roundtrip:
  "pg_tso_read (pg_tso_write v row) =
     (if unat v < 2 ^ 63 then v else 2 ^ 63 - 1, pg_tso_write v row)"
proof (cases "unat v < 2 ^ 63")
  case True
  then have "uint v < 2 ^ 63"
    by (metis of_nat_less_iff of_nat_numeral of_nat_power of_nat_unat)
  moreover have "of_int (max (uint v) 0) = v"
    by (simp add: max_absorb1)
  ultimately show ?thesis
    using True by (simp add: pg_tso_read_def pg_tso_write_def Let_def min_absorb1)
next
  case False
  then have "2 ^ 63 \<le> uint v"
    by (metis not_less of_nat_less_iff of_nat_numeral of_nat_power of_nat_unat)
  with False show ?thesis
    by (simp add: pg_tso_read_def pg_tso_write_def Let_def max_def min_def)
qed

end
