(* ===== verification/Nonce.thy ===== *)
theory Nonce
  imports Tso_Value
begin

text \<open>
  Replay protection, \<open>headlines-auth/src/nonce.rs\<close>. The LRU cache is a third-party
  crate: \<open>lru_ops\<close> names the operations the store calls and the locale \<open>lru_cache\<close> the
  documented laws of those operations. The lemmas inside the locale give the behaviour of
  \<open>record\<close>; a list-backed cache interprets it.
\<close>

record nonce_key =
  nk_key_id :: uuid
  nk_nonce :: "u8 list"

datatype nonce_error =
    Replay
  | Capacity
  | NonceInternal string

text \<open>
  \<open>lru_iter\<close> lists the entries, \<open>lru_get\<close> promotes the entry it finds and so returns
  the cache too, \<open>lru_put\<close> may evict when the cache is full.
\<close>

record 'c lru_ops =
  lru_new :: "nat \<Rightarrow> 'c"
  lru_iter :: "'c \<Rightarrow> (nonce_key \<times> tso) list"
  lru_pop :: "nonce_key \<Rightarrow> 'c \<Rightarrow> 'c"
  lru_get :: "nonce_key \<Rightarrow> 'c \<Rightarrow> tso option \<times> 'c"
  lru_len :: "'c \<Rightarrow> nat"
  lru_cap :: "'c \<Rightarrow> nat"
  lru_put :: "nonce_key \<Rightarrow> tso \<Rightarrow> 'c \<Rightarrow> 'c"

subsection \<open>The store\<close>

text \<open>\<open>InMemoryNonceStore::with_config\<close>; \<open>None\<close> is the panic on a zero capacity.\<close>

definition with_config :: "'c lru_ops \<Rightarrow> nat \<Rightarrow> 'c option" where
  "with_config ops capacity = (if capacity = 0 then None else Some (lru_new ops capacity))"

definition expired :: "u64 \<Rightarrow> tso \<Rightarrow> tso \<Rightarrow> bool" where
  "expired horizon now ts \<longleftrightarrow> saturating_sub (physical_ms now) (physical_ms ts) > horizon"

definition evict_expired :: "'c lru_ops \<Rightarrow> u64 \<Rightarrow> tso \<Rightarrow> 'c \<Rightarrow> 'c" where
  "evict_expired ops horizon now cache =
     (let to_drop = map fst (filter (\<lambda>(k, ts). expired horizon now ts) (lru_iter ops cache))
      in fold (lru_pop ops) to_drop cache)"

definition record_nonce ::
  "'c lru_ops \<Rightarrow> u64 \<Rightarrow> uuid \<Rightarrow> u8 list \<Rightarrow> tso \<Rightarrow> 'c \<Rightarrow> (nonce_error + unit) \<times> 'c" where
  "record_nonce ops horizon key_id nonce ts cache0 =
     (let key = \<lparr>nk_key_id = key_id, nk_nonce = nonce\<rparr>;
          cache1 = evict_expired ops horizon ts cache0;
          (hit, cache) = lru_get ops key cache1
      in if hit \<noteq> None then (Inl Replay, cache)
         else if lru_len ops cache \<ge> lru_cap ops cache then (Inl Capacity, cache)
         else (Inr (), lru_put ops key ts cache))"

subsection \<open>What the store relies on\<close>

text \<open>The entries of a cache as a map.\<close>

definition entries :: "'c lru_ops \<Rightarrow> 'c \<Rightarrow> nonce_key \<rightharpoonup> tso" where
  "entries ops c = map_of (lru_iter ops c)"

definition live :: "u64 \<Rightarrow> tso \<Rightarrow> (nonce_key \<rightharpoonup> tso) \<Rightarrow> nonce_key \<rightharpoonup> tso" where
  "live horizon now m k =
     (case m k of None \<Rightarrow> None | Some t \<Rightarrow> if expired horizon now t then None else Some t)"

locale lru_cache =
  fixes ops :: "'c lru_ops" and good :: "'c \<Rightarrow> bool"
  assumes new_good: "0 < n \<Longrightarrow> good (lru_new ops n)"
    and new_entries: "entries ops (lru_new ops n) = Map.empty"
    and new_cap: "lru_cap ops (lru_new ops n) = n"
    and iter_distinct: "good c \<Longrightarrow> distinct (map fst (lru_iter ops c))"
    and len_iter: "good c \<Longrightarrow> lru_len ops c = length (lru_iter ops c)"
    and pop_good: "good c \<Longrightarrow> good (lru_pop ops k c)"
    and pop_entries: "good c \<Longrightarrow> entries ops (lru_pop ops k c) = (entries ops c)(k := None)"
    and pop_cap: "lru_cap ops (lru_pop ops k c) = lru_cap ops c"
    and get_good: "good c \<Longrightarrow> good (snd (lru_get ops k c))"
    and get_hit: "good c \<Longrightarrow> fst (lru_get ops k c) = entries ops c k"
    and get_entries: "good c \<Longrightarrow> entries ops (snd (lru_get ops k c)) = entries ops c"
    and get_cap: "lru_cap ops (snd (lru_get ops k c)) = lru_cap ops c"
    and put_good: "good c \<Longrightarrow> good (lru_put ops k v c)"
    and put_entries: "good c \<Longrightarrow> lru_len ops c < lru_cap ops c \<Longrightarrow>
      entries ops (lru_put ops k v c) = (entries ops c)(k \<mapsto> v)"
    and put_cap: "lru_cap ops (lru_put ops k v c) = lru_cap ops c"
begin

lemma dom_entries: "dom (entries ops c) = fst ` set (lru_iter ops c)"
  by (simp add: entries_def dom_map_of_conv_image_fst)

lemma len_card: "good c \<Longrightarrow> lru_len ops c = card (dom (entries ops c))"
  using distinct_card [OF iter_distinct, of c] by (simp add: dom_entries len_iter)

lemma fold_pop:
  "good c \<Longrightarrow> good (fold (lru_pop ops) ks c) \<and>
     lru_cap ops (fold (lru_pop ops) ks c) = lru_cap ops c \<and>
     entries ops (fold (lru_pop ops) ks c) = (entries ops c) |` (- set ks)"
proof (induction ks arbitrary: c)
  case Nil
  then show ?case by (simp add: restrict_map_def)
next
  case (Cons k ks)
  then show ?case
    by (auto simp: pop_good pop_cap pop_entries restrict_map_def fun_eq_iff)
qed

lemma expired_keys:
  "good c \<Longrightarrow> k \<in> fst ` set (filter (\<lambda>(k, ts). expired h now ts) (lru_iter ops c)) \<longleftrightarrow>
     (\<exists>t. entries ops c k = Some t \<and> expired h now t)"
  using iter_distinct [of c] by (force simp: entries_def)

lemma evict_expired_spec:
  assumes "good c"
  shows "good (evict_expired ops h now c)"
    and "lru_cap ops (evict_expired ops h now c) = lru_cap ops c"
    and "entries ops (evict_expired ops h now c) = live h now (entries ops c)"
proof -
  let ?ks = "map fst (filter (\<lambda>(k, ts). expired h now ts) (lru_iter ops c))"
  note f = fold_pop [OF assms, of ?ks]
  from f show "good (evict_expired ops h now c)"
    and "lru_cap ops (evict_expired ops h now c) = lru_cap ops c"
    by (simp_all add: evict_expired_def)
  have "entries ops (evict_expired ops h now c) k = live h now (entries ops c) k" for k
    using f expired_keys [OF assms, of k h now]
    by (auto simp: evict_expired_def restrict_map_def live_def split: option.splits)
  then show "entries ops (evict_expired ops h now c) = live h now (entries ops c)"
    by (rule ext)
qed

lemma record_nonce_cases:
  fixes h ts k n
  assumes "good c"
  defines "m \<equiv> live h ts (entries ops c)" and "key \<equiv> \<lparr>nk_key_id = k, nk_nonce = n\<rparr>"
  defines "r \<equiv> record_nonce ops h k n ts c"
  shows "fst r = (if m key \<noteq> None then Inl Replay
                  else if card (dom m) \<ge> lru_cap ops c then Inl Capacity else Inr ())"
    and "entries ops (snd r) = (if fst r = Inr () then m(key \<mapsto> ts) else m)"
    and "good (snd r)" and "lru_cap ops (snd r) = lru_cap ops c"
proof -
  let ?c1 = "evict_expired ops h ts c"
  let ?c2 = "snd (lru_get ops key ?c1)"
  note e = evict_expired_spec [OF assms(1), of h ts]
  have g: "good ?c2" and cap: "lru_cap ops ?c2 = lru_cap ops c" and m: "entries ops ?c2 = m"
    and hit: "fst (lru_get ops key ?c1) = m key"
    by (simp_all add: get_good get_cap get_entries get_hit e m_def)
  have len: "lru_len ops ?c2 = card (dom m)"
    using len_card [OF g] m by simp
  have r: "r = (if m key \<noteq> None then (Inl Replay, ?c2)
      else if card (dom m) \<ge> lru_cap ops c then (Inl Capacity, ?c2)
      else (Inr (), lru_put ops key ts ?c2))"
    by (simp add: r_def record_nonce_def key_def [symmetric] Let_def case_prod_beta hit len cap)
  show "fst r = (if m key \<noteq> None then Inl Replay
      else if card (dom m) \<ge> lru_cap ops c then Inl Capacity else Inr ())"
    by (simp add: r)
  show "entries ops (snd r) = (if fst r = Inr () then m(key \<mapsto> ts) else m)"
    using put_entries [OF g, of key ts] by (simp add: r m len cap)
  show "good (snd r)" "lru_cap ops (snd r) = lru_cap ops c"
    by (simp_all add: r g cap put_good put_cap)
qed

text \<open>The store never holds more entries than its capacity.\<close>

lemma record_nonce_bounded:
  assumes "good c" "card (dom (entries ops c)) \<le> lru_cap ops c"
  shows "card (dom (entries ops (snd (record_nonce ops h k n ts c)))) \<le> lru_cap ops c"
proof -
  let ?m = "live h ts (entries ops c)"
  let ?key = "\<lparr>nk_key_id = k, nk_nonce = n\<rparr>"
  have fin: "finite (dom (entries ops c))"
    by (simp add: dom_entries)
  have sub: "dom ?m \<subseteq> dom (entries ops c)"
    by (auto simp: live_def split: option.splits if_splits)
  have le: "card (dom ?m) \<le> lru_cap ops c"
    using card_mono [OF fin sub] assms(2) by simp
  have "card (dom (?m(?key \<mapsto> ts))) \<le> Suc (card (dom ?m))"
    using card_insert_le_m1 [of "Suc (card (dom ?m))" "dom ?m" ?key] by (simp add: card_insert_if
        finite_subset [OF sub fin])
  then show ?thesis
    using le by (auto simp: record_nonce_cases [OF assms(1)] split: if_splits)
qed

end

subsection \<open>A list-backed cache\<close>

text \<open>
  A cache that keeps its entries in order of use, most recent first. It satisfies the
  laws, so the laws are consistent, and the witnesses run on it.
\<close>

type_synonym list_lru = "nat \<times> (nonce_key \<times> tso) list"

definition list_lru_ops :: "list_lru lru_ops" where
  "list_lru_ops = \<lparr>
     lru_new = (\<lambda>n. (n, [])),
     lru_iter = snd,
     lru_pop = (\<lambda>k (n, es). (n, filter (\<lambda>e. fst e \<noteq> k) es)),
     lru_get = (\<lambda>k (n, es). case map_of es k of
        None \<Rightarrow> (None, (n, es))
      | Some v \<Rightarrow> (Some v, (n, (k, v) # filter (\<lambda>e. fst e \<noteq> k) es))),
     lru_len = (\<lambda>(n, es). length es),
     lru_cap = fst,
     lru_put = (\<lambda>k v (n, es).
        let rest = filter (\<lambda>e. fst e \<noteq> k) es
        in (n, (k, v) # (if length rest < n then rest else butlast rest)))\<rparr>"

definition list_lru_good :: "list_lru \<Rightarrow> bool" where
  "list_lru_good c \<longleftrightarrow> distinct (map fst (snd c))"

lemma map_of_filter_key: "map_of (filter (\<lambda>e. fst e \<noteq> k) es) = (map_of es)(k := None)"
  by (induction es) auto

lemma distinct_filter_key: "distinct (map fst es) \<Longrightarrow> distinct (map fst (filter P es))"
  by (simp add: distinct_map_filter)

interpretation list_lru: lru_cache list_lru_ops list_lru_good
proof unfold_locales
  show "list_lru_good (lru_put list_lru_ops k v c)" if "list_lru_good c" for k v c
  proof (cases c)
    case (Pair n es)
    let ?r = "filter (\<lambda>e. fst e \<noteq> k) es"
    have "distinct (map fst ?r)" "k \<notin> fst ` set ?r"
      using that Pair by (auto simp: list_lru_good_def distinct_filter_key)
    then have "distinct (map fst (butlast ?r))" "k \<notin> fst ` set (butlast ?r)"
      by (auto simp: map_butlast distinct_butlast dest: in_set_butlastD)
    with \<open>distinct (map fst ?r)\<close> \<open>k \<notin> fst ` set ?r\<close> Pair show ?thesis
      by (auto simp: list_lru_good_def list_lru_ops_def Let_def)
  qed
  show "entries list_lru_ops (lru_put list_lru_ops k v c) = (entries list_lru_ops c)(k \<mapsto> v)"
    if "list_lru_good c" "lru_len list_lru_ops c < lru_cap list_lru_ops c" for k v c
  proof (cases c)
    case (Pair n es)
    with that(2) have "length (filter (\<lambda>e. fst e \<noteq> k) es) < n"
      by (simp add: list_lru_ops_def le_less_trans [OF length_filter_le])
    with Pair show ?thesis
      by (simp add: list_lru_ops_def entries_def Let_def map_of_filter_key)
  qed
qed (auto simp: list_lru_good_def list_lru_ops_def entries_def map_of_filter_key
    distinct_filter_key Let_def split: option.splits prod.splits)

subsection \<open>Properties\<close>

text \<open>Recording a nonce, on every branch: it is refused as a replay exactly when the
  same key and nonce are held with a timestamp the new one has not outlived, refused for
  capacity exactly when it is new and the entries still inside the horizon fill the store,
  and accepted otherwise. Afterwards the store holds exactly the unexpired entries, plus
  the new one when it was accepted; nothing inside the horizon is ever evicted, and the
  capacity bound is kept.
\<close>

theorem nonce_record_spec:
  fixes h ts k n
  assumes "lru_cache ops good" "good c" "card (dom (entries ops c)) \<le> lru_cap ops c"
  defines "m \<equiv> live h ts (entries ops c)" and "key \<equiv> \<lparr>nk_key_id = k, nk_nonce = n\<rparr>"
  shows "fst (record_nonce ops h k n ts c) =
      (if m key \<noteq> None then Inl Replay
       else if card (dom m) \<ge> lru_cap ops c then Inl Capacity else Inr ()) \<and>
    entries ops (snd (record_nonce ops h k n ts c)) =
      (if fst (record_nonce ops h k n ts c) = Inr () then m(key \<mapsto> ts) else m) \<and>
    good (snd (record_nonce ops h k n ts c)) \<and>
    card (dom (entries ops (snd (record_nonce ops h k n ts c)))) \<le> lru_cap ops c"
  unfolding m_def key_def
  using lru_cache.record_nonce_cases [OF assms(1,2), where h = h and ts = ts and k = k and n = n]
    lru_cache.record_nonce_bounded [OF assms(1-3), of h k n ts]
  by blast

definition demo_cache :: list_lru where
  "demo_cache = snd (record_nonce list_lru_ops 30000 7 [1] (from_parts 1000 0)
     (lru_new list_lru_ops 2))"

theorem nonce_record_spec_witness:
  "fst (record_nonce list_lru_ops 30000 7 [1] (from_parts 31000 0) demo_cache) = Inl Replay \<and>
   fst (record_nonce list_lru_ops 30000 7 [1] (from_parts 31001 0) demo_cache) = Inr ()"
proof -
  have c: "demo_cache = (2, [(\<lparr>nk_key_id = 7, nk_nonce = [1]\<rparr>, from_parts 1000 0)])"
    by (simp add: demo_cache_def record_nonce_def evict_expired_def list_lru_ops_def Let_def)
  have e: "entries list_lru_ops demo_cache =
      [\<lparr>nk_key_id = 7, nk_nonce = [1]\<rparr> \<mapsto> from_parts 1000 0]"
    by (simp add: c entries_def list_lru_ops_def)
  have "list_lru_good demo_cache" "lru_cap list_lru_ops demo_cache = 2"
    by (simp_all add: c list_lru_good_def list_lru_ops_def)
  then show ?thesis
    using nonce_record_spec [OF list_lru.lru_cache_axioms, of demo_cache,
        where h = 30000 and ts = "from_parts 31000 0" and k = 7 and n = "[1]"]
      nonce_record_spec [OF list_lru.lru_cache_axioms, of demo_cache,
        where h = 30000 and ts = "from_parts 31001 0" and k = 7 and n = "[1]"]
    by (simp add: e live_def expired_def physical_ms_from_parts take_bit_u64_id saturating_sub_def
        dom_def)
qed

end
