(* ===== verification/Strategy.thy ===== *)
theory Strategy
  imports Canonical Subject Time_Source Nonce
begin

text \<open>
  The signed-request strategy of \<open>headlines-auth\<close>: signature algorithms and their registry
  (\<open>algo/mod.rs\<close>), the in-memory key resolver and \<open>authenticate_inner\<close>
  (\<open>strategy.rs\<close>), and the labels of its outcomes (\<open>metrics.rs\<close>). The locale
  \<open>replay_guard\<close> joins the window a time source promises with the laws of the nonce
  cache; its lemma says that no request is accepted twice.
\<close>

subsection \<open>Signature algorithms\<close>

datatype verify_error =
    MalformedKey string
  | MalformedSignature
  | BadSignature

type_synonym algorithm = "u8 list \<Rightarrow> string \<Rightarrow> u8 list \<Rightarrow> verify_error + unit"

text \<open>\<open>ed25519_dalek\<close>: decoding a verifying key, and verification.\<close>

record 'k ed_ext =
  vk_from_bytes :: "u8 list \<Rightarrow> string + 'k"
  vk_verify :: "'k \<Rightarrow> string \<Rightarrow> u8 list \<Rightarrow> bool"

definition ed25519_verify :: "'k ed_ext \<Rightarrow> algorithm" where
  "ed25519_verify ed public_key canonical signature =
     (if length public_key \<noteq> 32
      then Inl (MalformedKey (''expected 32 bytes, got '' @ show_nat (length public_key)))
      else try_res (map_err MalformedKey (vk_from_bytes ed public_key)) (\<lambda>verifying_key.
        if length signature \<noteq> 64 then Inl MalformedSignature
        else if vk_verify ed verifying_key canonical signature then Inr ()
        else Inl BadSignature))"

type_synonym registry = "string \<rightharpoonup> algorithm"

definition registry_new :: registry where
  "registry_new = Map.empty"

definition with_default :: "'k ed_ext \<Rightarrow> registry \<Rightarrow> registry" where
  "with_default ed r = r(''ed25519'' \<mapsto> ed25519_verify ed)"

definition with_algo :: "string \<Rightarrow> algorithm \<Rightarrow> registry \<Rightarrow> registry" where
  "with_algo name alg r = r(name \<mapsto> alg)"

subsection \<open>Key resolution\<close>

record resolved_key =
  rk_algo :: string
  rk_public_key :: "u8 list"
  rk_subject :: subject

datatype resolve_error =
    NotFound
  | Revoked
  | ResolveInternal string

type_synonym resolver = "uuid \<Rightarrow> resolve_error + resolved_key"

record key_entry =
  ke_algo :: string
  ke_public_key :: "u8 list"
  ke_subject :: subject
  ke_revoked :: bool

definition insert_key ::
  "uuid \<Rightarrow> string \<Rightarrow> u8 list \<Rightarrow> subject \<Rightarrow> (uuid \<rightharpoonup> key_entry) \<Rightarrow> uuid \<rightharpoonup> key_entry" where
  "insert_key kid algo pub subj keys =
     keys(kid \<mapsto> \<lparr>ke_algo = algo, ke_public_key = pub, ke_subject = subj, ke_revoked = False\<rparr>)"

definition insert_revoked ::
  "uuid \<Rightarrow> string \<Rightarrow> u8 list \<Rightarrow> subject \<Rightarrow> (uuid \<rightharpoonup> key_entry) \<Rightarrow> uuid \<rightharpoonup> key_entry" where
  "insert_revoked kid algo pub subj keys =
     keys(kid \<mapsto> \<lparr>ke_algo = algo, ke_public_key = pub, ke_subject = subj, ke_revoked = True\<rparr>)"

definition in_memory_resolve :: "(uuid \<rightharpoonup> key_entry) \<Rightarrow> resolver" where
  "in_memory_resolve keys kid =
     try_res (ok_or NotFound (keys kid)) (\<lambda>e.
       if ke_revoked e then Inl Revoked
       else Inr \<lparr>rk_algo = ke_algo e, rk_public_key = ke_public_key e, rk_subject = ke_subject e\<rparr>)"

subsection \<open>The strategy\<close>

datatype auth_error =
    Unauthenticated string
  | Verify verify_error
  | Time time_error
  | Nonce nonce_error

type_synonym 'c recorder = "uuid \<Rightarrow> u8 list \<Rightarrow> tso \<Rightarrow> 'c \<Rightarrow> (nonce_error + unit) \<times> 'c"

fun of_resolve_error :: "resolve_error \<Rightarrow> auth_error" where
  "of_resolve_error NotFound = Unauthenticated ''unknown_key''"
| "of_resolve_error Revoked = Unauthenticated ''key revoked''"
| "of_resolve_error (ResolveInternal e) = Unauthenticated (''resolver: '' @ e)"

fun of_verify_error :: "verify_error \<Rightarrow> auth_error" where
  "of_verify_error BadSignature = Unauthenticated ''bad_signature''"
| "of_verify_error (MalformedKey _) = Unauthenticated ''malformed_key''"
| "of_verify_error MalformedSignature = Unauthenticated ''malformed_signature''"

fun of_time_error :: "time_error \<Rightarrow> auth_error" where
  "of_time_error OutsideHorizon = Unauthenticated ''expired''"
| "of_time_error NonMonotonic = Unauthenticated ''future_ts''"
| "of_time_error (TimeInternal s) = Unauthenticated (''time: '' @ s)"

fun of_nonce_error :: "nonce_error \<Rightarrow> auth_error" where
  "of_nonce_error Replay = Unauthenticated ''replay''"
| "of_nonce_error Capacity = Unauthenticated ''nonce_store_full''"
| "of_nonce_error (NonceInternal s) = Unauthenticated (''nonce: '' @ s)"

definition authenticate_inner ::
  "text_ext \<Rightarrow> resolver \<Rightarrow> registry \<Rightarrow> (tso \<Rightarrow> time_error + unit) \<Rightarrow> 'c recorder \<Rightarrow>
   signed_request_parts \<Rightarrow> 'c \<Rightarrow> (auth_error + subject) \<times> 'c" where
  "authenticate_inner x resolve algos validate recd prts c =
     try_st (map_err of_resolve_error (resolve (srp_key_id prts))) c (\<lambda>resolved.
       if srp_algo prts \<noteq> rk_algo resolved then (Inl (Unauthenticated ''algo_mismatch''), c)
       else try_st (ok_or (Unauthenticated ''unsupported_algo'') (algos (srp_algo prts))) c (\<lambda>algo.
         let canonical = build_canonical_string x prts
         in try_st (map_err of_verify_error
              (algo (rk_public_key resolved) canonical (srp_signature prts))) c (\<lambda>_.
            try_st (map_err of_time_error (validate (srp_ts prts))) c (\<lambda>_.
            let (r, c') = recd (srp_key_id prts) (srp_nonce prts) (srp_ts prts) c
            in try_st (map_err of_nonce_error r) c' (\<lambda>_. (Inr (rk_subject resolved), c'))))))"

text \<open>
  A run of the strategy over a sequence of requests: each comes with the reading of the
  time source and the resolver (the key tables) at that moment.
\<close>

fun run_auth ::
  "text_ext \<Rightarrow> registry \<Rightarrow> ('t \<Rightarrow> tso \<Rightarrow> time_error + unit) \<Rightarrow> 'c recorder \<Rightarrow>
   ('t \<times> resolver \<times> signed_request_parts) list \<Rightarrow> 'c \<Rightarrow> (auth_error + subject) list" where
  "run_auth x algos validate recd [] c = []"
| "run_auth x algos validate recd ((t, resolve, prts) # rest) c =
     (let (r, c') = authenticate_inner x resolve algos (validate t) recd prts c
      in r # run_auth x algos validate recd rest c')"

subsection \<open>Outcome labels\<close>

definition classify_auth_error :: "auth_error \<Rightarrow> string" where
  "classify_auth_error err =
     (case err of
        Unauthenticated s \<Rightarrow>
          if sublist ''unknown key'' s \<or> sublist ''unknown_key'' s then ''unknown_key''
          else if sublist ''algo'' s then ''algo_mismatch''
          else if sublist ''subject'' s then ''subject_mismatch''
          else if sublist ''nonce_store_full'' s then ''nonce_store_full''
          else ''unauthenticated_other''
      | Verify BadSignature \<Rightarrow> ''bad_signature''
      | Verify (MalformedKey _) \<Rightarrow> ''malformed_key''
      | Verify MalformedSignature \<Rightarrow> ''malformed_signature''
      | Time OutsideHorizon \<Rightarrow> ''expired''
      | Time NonMonotonic \<Rightarrow> ''non_monotonic''
      | Time (TimeInternal _) \<Rightarrow> ''internal_time''
      | Nonce Replay \<Rightarrow> ''replay''
      | Nonce Capacity \<Rightarrow> ''nonce_store_full''
      | Nonce (NonceInternal _) \<Rightarrow> ''internal_nonce'')"

text \<open>The \<open>Display\<close> of the error enums (\<open>headlines-core/src/auth.rs\<close>).\<close>

fun show_verify_error :: "verify_error \<Rightarrow> string" where
  "show_verify_error (MalformedKey s) = ''malformed key: '' @ s"
| "show_verify_error MalformedSignature = ''malformed signature''"
| "show_verify_error BadSignature = ''verification failed''"

fun show_time_error :: "time_error \<Rightarrow> string" where
  "show_time_error OutsideHorizon = ''timestamp out of horizon''"
| "show_time_error NonMonotonic = ''timestamp not monotonic''"
| "show_time_error (TimeInternal s) = ''internal time source error: '' @ s"

fun show_nonce_error :: "nonce_error \<Rightarrow> string" where
  "show_nonce_error Replay = ''replay detected''"
| "show_nonce_error Capacity = ''nonce store at capacity within horizon''"
| "show_nonce_error (NonceInternal s) = ''internal nonce store error: '' @ s"

fun show_auth_error :: "auth_error \<Rightarrow> string" where
  "show_auth_error (Unauthenticated s) = ''unauthenticated: '' @ s"
| "show_auth_error (Verify e) = ''verify error: '' @ show_verify_error e"
| "show_auth_error (Time e) = ''time error: '' @ show_time_error e"
| "show_auth_error (Nonce e) = ''nonce error: '' @ show_nonce_error e"

subsection \<open>Lemmas\<close>

lemma authenticate_inner_ok:
  "authenticate_inner x resolve algos validate recd prts c = (Inr s, c') \<longleftrightarrow>
   (\<exists>rk alg. resolve (srp_key_id prts) = Inr rk \<and> srp_algo prts = rk_algo rk \<and>
      algos (srp_algo prts) = Some alg \<and>
      alg (rk_public_key rk) (build_canonical_string x prts) (srp_signature prts) = Inr () \<and>
      validate (srp_ts prts) = Inr () \<and>
      recd (srp_key_id prts) (srp_nonce prts) (srp_ts prts) c = (Inr (), c') \<and>
      s = rk_subject rk)"
  by (cases "recd (srp_key_id prts) (srp_nonce prts) (srp_ts prts) c")
    (auto simp: authenticate_inner_def try_st_Inr map_err_Inr ok_or_Inr Let_def split: if_splits)

text \<open>Only a request whose signature and timestamp are good reaches the nonce store.\<close>

lemma authenticate_inner_store:
  "snd (authenticate_inner x resolve algos validate recd prts c) = c \<or>
   (\<exists>rk alg. resolve (srp_key_id prts) = Inr rk \<and> algos (srp_algo prts) = Some alg \<and>
      alg (rk_public_key rk) (build_canonical_string x prts) (srp_signature prts) = Inr () \<and>
      validate (srp_ts prts) = Inr () \<and>
      snd (authenticate_inner x resolve algos validate recd prts c) =
        snd (recd (srp_key_id prts) (srp_nonce prts) (srp_ts prts) c))"
  by (auto simp: authenticate_inner_def try_st_def Let_def map_err_def ok_or_def
      split: sum.splits option.splits prod.splits)

subsection \<open>No request is accepted twice\<close>

text \<open>
  What replay protection needs of a time source: at every reading \<open>t\<close> it accepts only
  timestamps of the last \<open>h\<close> milliseconds before \<open>now t\<close>, and none from the future.
\<close>

locale replay_window =
  fixes validate :: "'t \<Rightarrow> tso \<Rightarrow> time_error + unit" and now :: "'t \<Rightarrow> nat" and h :: u64
  assumes window: "validate t ts = Inr () \<Longrightarrow>
    unat (physical_ms ts) \<le> now t \<and> now t \<le> unat (physical_ms ts) + unat h"

definition in_process_now :: "u64 \<times> u64 \<Rightarrow> nat" where
  "in_process_now r = max (unat (fst r)) (unat (physical_ms (from_raw (snd r))))"

interpretation in_process: replay_window "\<lambda>r. validate_sync h (fst r) (snd r)" in_process_now h for h
proof
  fix t ts
  assume "validate_sync h (fst t) (snd t) ts = Inr ()"
  moreover have "unat (max a b) = max (unat a) (unat b)" for a b :: u64
    by (simp add: max_def word_le_nat_alt)
  ultimately show "unat (physical_ms ts) \<le> in_process_now t \<and>
      in_process_now t \<le> unat (physical_ms ts) + unat h"
    by (auto simp: validate_sync_def in_process_now_def Let_def word_less_nat_alt
        unat_saturating_sub split: if_splits)
qed

locale replay_guard = lru_cache ops good + replay_window validate now h
  for ops :: "'c lru_ops" and good and validate :: "'t \<Rightarrow> tso \<Rightarrow> time_error + unit" and now and h
begin

text \<open>
  The invariant: the store holds every accepted request, unless the time source has
  already moved past its window.
\<close>

definition guarded :: "(uuid \<times> u8 list \<times> tso) set \<Rightarrow> nat \<Rightarrow> 'c \<Rightarrow> bool" where
  "guarded acc n c \<longleftrightarrow> good c \<and>
     (\<forall>(k, nc, ts) \<in> acc. entries ops c \<lparr>nk_key_id = k, nk_nonce = nc\<rparr> = Some ts \<or>
        unat (physical_ms ts) + unat h < n)"

lemma guarded_mono: "guarded acc n c \<Longrightarrow> n \<le> n' \<Longrightarrow> guarded acc n' c"
  by (fastforce simp: guarded_def)

lemma expired_past: "expired h t' ts \<Longrightarrow> unat (physical_ms ts) + unat h < unat (physical_ms t')"
  by (auto simp: expired_def word_less_nat_alt unat_saturating_sub)

text \<open>Entries leave the store only when their window has closed.\<close>

lemma guarded_live:
  assumes "guarded acc n c" "(k, nc, ts) \<in> acc" "unat (physical_ms t') \<le> n"
  shows "live h t' (entries ops c) \<lparr>nk_key_id = k, nk_nonce = nc\<rparr> = Some ts \<or>
    unat (physical_ms ts) + unat h < n"
proof -
  have "entries ops c \<lparr>nk_key_id = k, nk_nonce = nc\<rparr> = Some ts \<or> unat (physical_ms ts) + unat h < n"
    using assms(1,2) by (auto simp: guarded_def)
  then show ?thesis
    using expired_past [of t' ts] assms(3) by (auto simp: live_def)
qed

lemma record_guarded:
  assumes g: "guarded acc n c" and t: "unat (physical_ms ts) \<le> n"
  shows "guarded acc n (snd (record_nonce ops h k nc ts c))"
    and "fst (record_nonce ops h k nc ts c) = Inr () \<Longrightarrow>
      guarded (insert (k, nc, ts) acc) n (snd (record_nonce ops h k nc ts c)) \<and>
      (\<forall>ts'. (k, nc, ts') \<in> acc \<longrightarrow> unat (physical_ms ts') + unat h < n)"
proof -
  from g have good: "good c"
    by (simp add: guarded_def)
  note r = record_nonce_cases [OF good, where h = h and ts = ts and k = k and n = nc]
  show A: "guarded acc n (snd (record_nonce ops h k nc ts c))"
    unfolding guarded_def
  proof (intro conjI ballI, goal_cases)
    case 1
    show ?case by (rule r(3))
  next
    case (2 a)
    obtain k' nc' ts' where a: "a = (k', nc', ts')"
      by (cases a)
    from guarded_live [OF g _ t, of k' nc' ts'] 2 a show ?case
      by (auto simp: r(2) r(1) split: if_splits)
  qed
  assume ok: "fst (record_nonce ops h k nc ts c) = Inr ()"
  then have "live h ts (entries ops c) \<lparr>nk_key_id = k, nk_nonce = nc\<rparr> = None"
    by (auto simp: r(1) split: if_splits)
  then have "\<forall>ts'. (k, nc, ts') \<in> acc \<longrightarrow> unat (physical_ms ts') + unat h < n"
    using guarded_live [OF g _ t, of k nc] by fastforce
  moreover have "guarded (insert (k, nc, ts) acc) n (snd (record_nonce ops h k nc ts c))"
    using A ok by (auto simp: guarded_def r(2))
  ultimately show "guarded (insert (k, nc, ts) acc) n (snd (record_nonce ops h k nc ts c)) \<and>
      (\<forall>ts'. (k, nc, ts') \<in> acc \<longrightarrow> unat (physical_ms ts') + unat h < n)"
    by blast
qed

lemma authenticate_guarded:
  assumes "guarded acc n c" "n \<le> now t"
    and "authenticate_inner x resolve algos (validate t) (record_nonce ops h) p c = (r, c')"
  shows "guarded acc (now t) c'"
    and "r = Inr s \<Longrightarrow> guarded (insert (srp_key_id p, srp_nonce p, srp_ts p) acc) (now t) c' \<and>
      (\<forall>ts. (srp_key_id p, srp_nonce p, ts) \<in> acc \<longrightarrow> unat (physical_ms ts) + unat h < now t) \<and>
      now t \<le> unat (physical_ms (srp_ts p)) + unat h"
proof -
  have g: "guarded acc (now t) c"
    using guarded_mono [OF assms(1,2)] .
  show "guarded acc (now t) c'"
    using authenticate_inner_store [of x resolve algos "validate t" "record_nonce ops h" p c] assms(3)
      record_guarded(1) [OF g] g window [of t "srp_ts p"] by auto
  assume "r = Inr s"
  with assms(3) have "authenticate_inner x resolve algos (validate t) (record_nonce ops h) p c = (Inr s, c')"
    by simp
  then have v: "validate t (srp_ts p) = Inr ()"
    and rec: "record_nonce ops h (srp_key_id p) (srp_nonce p) (srp_ts p) c = (Inr (), c')"
    unfolding authenticate_inner_ok by auto
  from window [OF v] record_guarded(2) [OF g, of "srp_ts p" "srp_key_id p" "srp_nonce p"] rec
  show "guarded (insert (srp_key_id p, srp_nonce p, srp_ts p) acc) (now t) c' \<and>
      (\<forall>ts. (srp_key_id p, srp_nonce p, ts) \<in> acc \<longrightarrow> unat (physical_ms ts) + unat h < now t) \<and>
      now t \<le> unat (physical_ms (srp_ts p)) + unat h"
    by simp
qed

lemma run_auth_guarded:
  assumes "guarded acc n c" "sorted (map (now \<circ> fst) calls)" "\<And>t q. (t, q) \<in> set calls \<Longrightarrow> n \<le> now t"
    and "j < length calls" "calls ! j = (t, rs, p)"
    and "run_auth x algos validate (record_nonce ops h) calls c ! j = Inr s"
    and "(srp_key_id p, srp_nonce p, ts) \<in> acc"
  shows "unat (physical_ms ts) + unat h < now t \<and> now t \<le> unat (physical_ms (srp_ts p)) + unat h"
  using assms
proof (induction calls arbitrary: acc n c j)
  case Nil
  then show ?case by simp
next
  case (Cons call calls)
  obtain t0 rs0 p0 where call: "call = (t0, rs0, p0)"
    by (cases call)
  obtain r c' where a: "authenticate_inner x rs0 algos (validate t0) (record_nonce ops h) p0 c = (r, c')"
    by (cases "authenticate_inner x rs0 algos (validate t0) (record_nonce ops h) p0 c")
  have n0: "n \<le> now t0"
    using Cons.prems(3) call by auto
  note ag = authenticate_guarded [OF Cons.prems(1) n0 a]
  show ?case
  proof (cases j)
    case 0
    then show ?thesis
      using ag(2) Cons.prems call a by simp
  next
    case (Suc i)
    have "n' \<le> now t'" if "n' = now t0" "(t', q) \<in> set calls" for n' t' q
      using Cons.prems(2) that call by auto
    then show ?thesis
      using Cons.IH [OF ag(1), of i] Cons.prems call a Suc by (auto simp: Let_def)
  qed
qed

lemma run_auth_later:
  assumes "guarded acc n c" "sorted (map (now \<circ> fst) calls)" "\<And>t q. (t, q) \<in> set calls \<Longrightarrow> n \<le> now t"
    and "i < j" "j < length calls" "calls ! i = (t, rs, p)" "calls ! j = (t', rs', p')"
    and "run_auth x algos validate (record_nonce ops h) calls c ! i = Inr s"
    and "run_auth x algos validate (record_nonce ops h) calls c ! j = Inr s'"
    and "srp_key_id p' = srp_key_id p" "srp_nonce p' = srp_nonce p"
  shows "unat (physical_ms (srp_ts p)) + unat h < now t' \<and>
    now t' \<le> unat (physical_ms (srp_ts p')) + unat h"
  using assms(1-9)
proof (induction calls arbitrary: acc n c i j)
  case Nil
  then show ?case by simp
next
  case (Cons call calls)
  obtain t0 rs0 p0 where call: "call = (t0, rs0, p0)"
    by (cases call)
  obtain r c' where a: "authenticate_inner x rs0 algos (validate t0) (record_nonce ops h) p0 c = (r, c')"
    by (cases "authenticate_inner x rs0 algos (validate t0) (record_nonce ops h) p0 c")
  have n0: "n \<le> now t0"
    using Cons.prems(3) call by auto
  note ag = authenticate_guarded [OF Cons.prems(1) n0 a]
  have srt: "sorted (map (now \<circ> fst) calls)" and low: "\<And>t q. (t, q) \<in> set calls \<Longrightarrow> now t0 \<le> now t"
    using Cons.prems(2) call by (auto simp: comp_def)
  obtain j' where j: "j = Suc j'"
    using Cons.prems(4) by (cases j) auto
  show ?case
  proof (cases i)
    case 0
    with Cons.prems call a have "r = Inr s" "p0 = p"
      by auto
    with ag(2) [of s] have g: "guarded (insert (srp_key_id p, srp_nonce p, srp_ts p) acc) (now t0) c'"
      by simp
    show ?thesis
      using run_auth_guarded [OF g srt low, where j = j' and t = t' and rs = rs' and p = p'
          and ts = "srp_ts p"] Cons.prems call a j
        assms(10,11) by (simp add: Let_def)
  next
    case (Suc i')
    then show ?thesis
      using Cons.IH [OF ag(1) srt low, where i = i' and j = j'] Cons.prems call a j by (auto simp: Let_def)
  qed
qed

end

interpretation in_process_guard: replay_guard list_lru_ops list_lru_good
  "\<lambda>r. validate_sync h (fst r) (snd r)" in_process_now h for h
  ..

lemma authenticate_errors:
  "fst (authenticate_inner x resolve algos validate recd p c) = Inl e \<Longrightarrow> \<exists>s. e = Unauthenticated s"
proof -
  have "\<exists>s. of_resolve_error a = Unauthenticated s" "\<exists>s. of_verify_error b = Unauthenticated s"
    "\<exists>s. of_time_error d = Unauthenticated s" "\<exists>s. of_nonce_error f = Unauthenticated s" for a b d f
    by (cases a; cases b; cases d; cases f; simp)+
  then show "\<exists>s. e = Unauthenticated s" if "fst (authenticate_inner x resolve algos validate recd p c) = Inl e"
    using that by (auto simp: authenticate_inner_def try_st_def Let_def map_err_def ok_or_def
        split: sum.splits option.splits prod.splits if_splits)
qed

subsection \<open>Properties\<close>


lemma run_auth_no_replay:
  assumes "lru_cache ops good" "0 < cap" "replay_window validate now h" "sorted (map (now \<circ> fst) calls)"
    and "i < j" "j < length calls" "calls ! i = (t, rs, p)" "calls ! j = (t', rs', p')"
    and "run_auth x algos validate (record_nonce ops h) calls (lru_new ops cap) ! i = Inr s"
    and "run_auth x algos validate (record_nonce ops h) calls (lru_new ops cap) ! j = Inr s'"
    and "srp_key_id p' = srp_key_id p" "srp_nonce p' = srp_nonce p"
  shows "unat (physical_ms (srp_ts p)) + unat h < now t' \<and> srp_ts p < srp_ts p'"
proof -
  have rg: "replay_guard ops good validate now h"
    using assms(1,3) by (rule replay_guard.intro)
  have g: "replay_guard.guarded ops good h {} 0 (lru_new ops cap)"
    using lru_cache.new_good [OF assms(1,2)] by (simp add: replay_guard.guarded_def [OF rg])
  have "unat (physical_ms (srp_ts p)) + unat h < now t' \<and> now t' \<le> unat (physical_ms (srp_ts p')) + unat h"
    by (rule replay_guard.run_auth_later [OF rg g assms(4) _ assms(5-12)]) simp
  moreover from this have "physical_ms (srp_ts p) < physical_ms (srp_ts p')"
    by (auto simp: word_less_nat_alt)
  ultimately show ?thesis
    by (simp add: physical_less_imp_less)
qed


definition demo_resolver :: resolver where
  "demo_resolver = in_memory_resolve (insert_key 3 ''ed25519'' [] (Account 5 3) Map.empty)"

definition demo_algos :: registry where
  "demo_algos = with_algo ''ed25519'' (\<lambda>_ _ _. Inr ()) registry_new"

definition demo_calls :: "((u64 \<times> u64) \<times> resolver \<times> signed_request_parts) list" where
  "demo_calls = [((1000, 0), demo_resolver, demo_parts),
     ((1001, 0), demo_resolver, demo_parts),
     ((40000, 0), demo_resolver, demo_parts\<lparr>srp_ts := from_parts 40000 0\<rparr>)]"

lemma demo_run:
  "run_auth demo_text demo_algos (\<lambda>r. validate_sync 30000 (fst r) (snd r))
     (record_nonce list_lru_ops 30000) demo_calls (lru_new list_lru_ops 8) =
   [Inr (Account 5 3), Inl (Unauthenticated ''replay''), Inr (Account 5 3)]"
  by (simp add: demo_calls_def authenticate_inner_def demo_resolver_def demo_algos_def
      in_memory_resolve_def insert_key_def with_algo_def registry_new_def demo_parts_def
      validate_sync_def saturating_sub_def physical_ms_from_parts take_bit_u64_id Let_def
      record_nonce_def evict_expired_def expired_def list_lru_ops_def from_raw_def
      physical_ms_alt [of "Tso 0"])


text \<open>
  Every refusal of the strategy is counted under one of five labels: the labels
  \<open>bad_signature\<close>, \<open>replay\<close>, \<open>expired\<close> and \<open>non_monotonic\<close> of the metric are never
  used, because the strategy reports these outcomes as \<open>Unauthenticated\<close> strings that
  the classifier does not look for.
\<close>

theorem refusal_labels:
  assumes "fst (authenticate_inner x resolve algos validate recd p c) = Inl e"
  shows "classify_auth_error e \<in> {''unknown_key'', ''algo_mismatch'', ''subject_mismatch'',
    ''nonce_store_full'', ''unauthenticated_other''}"
proof -
  obtain s where "e = Unauthenticated s"
    using authenticate_errors [OF assms] ..
  then show ?thesis
    by (simp add: classify_auth_error_def split: if_split)
qed

theorem refusal_labels_witness:
  "fst (authenticate_inner demo_text demo_resolver demo_algos (\<lambda>_. Inr ())
     (\<lambda>k n t c. (Inl Replay, c)) demo_parts ()) = Inl (Unauthenticated ''replay'') \<and>
   classify_auth_error (Unauthenticated ''replay'') \<noteq> ''replay''"
proof -
  have "fst (authenticate_inner demo_text demo_resolver demo_algos (\<lambda>_. Inr ())
     (\<lambda>k n t c. (Inl Replay, c)) demo_parts ()) = Inl (Unauthenticated ''replay'')"
    by (simp add: authenticate_inner_def demo_resolver_def demo_algos_def in_memory_resolve_def
        insert_key_def with_algo_def registry_new_def demo_parts_def)
  with refusal_labels [OF this] show ?thesis
    by auto
qed

end
