(* ===== verification/Authorize.thy ===== *)
theory Authorize
  imports Strategy
begin

text \<open>
  The two listeners' middleware: \<open>AuthInterceptor\<close> and \<open>TrustedSubjectInterceptor\<close>
  (\<open>headlines-auth/src/interceptor.rs\<close>) and the \<open>AuthorizationLayer\<close>
  (\<open>authorize.rs\<close>). A layer either answers the request or forwards it to the service
  below it. The table of per-RPC rules is generated at build time and is a parameter, and
  so are SHA-256, the header text check of \<open>http\<close> and the JSON reader of \<open>Subject\<close>.
\<close>

subsection \<open>Requests\<close>

record request =
  req_method :: string
  req_path :: string
  req_query :: "string option"
  req_headers :: "(string \<times> string) list"
  req_body :: "u8 list option"
  req_subject :: "subject option"

text \<open>
  \<open>req_body\<close> is \<open>None\<close> for a body whose stream breaks off; \<open>req_subject\<close> is the
  \<open>Subject\<close> in the request's extensions. A layer's answer is a gRPC status.
\<close>

datatype grpc_status = UnauthenticatedStatus string | PermissionDenied string

datatype outcome = Reply grpc_status | Forward request

record http_ext =
  to_str :: "string \<Rightarrow> string option"
  sha256 :: "u8 list \<Rightarrow> u8 list"
  subject_of_json :: "string \<Rightarrow> subject option"

definition TRUSTED_SUBJECT_HEADER :: string where
  "TRUSTED_SUBJECT_HEADER = ''x-headlines-trusted-subject''"

definition get_header :: "string \<Rightarrow> request \<Rightarrow> string option" where
  "get_header name req = map_of (req_headers req) name"

definition remove_header :: "string \<Rightarrow> request \<Rightarrow> request" where
  "remove_header name req = req\<lparr>req_headers := filter (\<lambda>h. fst h \<noteq> name) (req_headers req)\<rparr>"

subsection \<open>Hashing the body\<close>

datatype body_hash_error = CompressedFrame

definition noop_hash :: "u8 list \<Rightarrow> body_hash_error + u8 list" where
  "noop_hash body_bytes = Inr (replicate 32 0)"

definition proto_hash :: "(u8 list \<Rightarrow> u8 list) \<Rightarrow> u8 list \<Rightarrow> body_hash_error + u8 list" where
  "proto_hash sha body_bytes =
     (if length body_bytes < 5 then Inr (sha body_bytes)
      else if body_bytes ! 0 = 0 then Inr (sha (drop 5 body_bytes))
      else Inl CompressedFrame)"

text \<open>\<open>hash_proto_request\<close>, on the encoded message.\<close>

definition hash_proto_request :: "(u8 list \<Rightarrow> u8 list) \<Rightarrow> u8 list \<Rightarrow> u8 list" where
  "hash_proto_request sha encoded = sha encoded"

subsection \<open>The public listener\<close>

text \<open>The state a call changes: the nonce store and the labels counted so far.\<close>

record 'c auth_state =
  nonces :: 'c
  auth_results :: "string list"

definition count_label :: "string \<Rightarrow> 'c auth_state \<Rightarrow> 'c auth_state" where
  "count_label l st = st\<lparr>auth_results := auth_results st @ [l]\<rparr>"

definition signed_parts ::
  "request \<Rightarrow> string \<Rightarrow> u8 list \<Rightarrow> parsed_auth_header \<Rightarrow> signed_request_parts" where
  "signed_parts req query request_hash parsed =
     \<lparr>srp_method = req_method req, srp_path = req_path req, srp_canonical_query = query,
      srp_request_hash = request_hash, srp_key_id = pah_key_id parsed, srp_algo = pah_algo parsed,
      srp_ts = pah_ts parsed, srp_nonce = pah_nonce parsed, srp_signature = pah_signature parsed\<rparr>"

definition auth_interceptor_call ::
  "text_ext \<Rightarrow> http_ext \<Rightarrow> (u8 list \<Rightarrow> body_hash_error + u8 list) \<Rightarrow>
   (signed_request_parts \<Rightarrow> 'c \<Rightarrow> (auth_error + subject) \<times> 'c) \<Rightarrow>
   request \<Rightarrow> 'c auth_state \<Rightarrow> outcome \<times> 'c auth_state" where
  "auth_interceptor_call x hx hasher authenticate req0 st =
     (let req = remove_header TRUSTED_SUBJECT_HEADER req0;
          header_val = Option.bind (get_header ''authorization'' req) (to_str hx)
      in case header_val of
           None \<Rightarrow> (Forward (req\<lparr>req_subject := Some Anonymous\<rparr>), st)
         | Some hval \<Rightarrow>
             let query = canonicalize_query (unwrap_or [] (req_query req))
             in case parse_authorization_header x hval of
                  Inl _ \<Rightarrow> (Reply (UnauthenticatedStatus ''malformed_authorization_header''),
                            count_label ''malformed_header'' st)
                | Inr parsed \<Rightarrow>
                    (case req_body req of
                       None \<Rightarrow> (Reply (UnauthenticatedStatus ''body_read_failed''),
                                count_label ''body_read_failed'' st)
                     | Some collected \<Rightarrow>
                         (case hasher collected of
                            Inl CompressedFrame \<Rightarrow>
                              (Reply (UnauthenticatedStatus ''compressed_frame_not_supported''),
                               count_label ''compressed_frame'' st)
                          | Inr request_hash \<Rightarrow>
                              let prts = signed_parts req query request_hash parsed;
                                  (r, c') = authenticate prts (nonces st)
                              in case r of
                                   Inr subj \<Rightarrow>
                                     (Forward (req\<lparr>req_subject := Some subj\<rparr>),
                                      count_label ''ok'' (st\<lparr>nonces := c'\<rparr>))
                                 | Inl e \<Rightarrow>
                                     (Reply (UnauthenticatedStatus (show_auth_error e)),
                                      count_label (classify_auth_error e) (st\<lparr>nonces := c'\<rparr>)))))"

subsection \<open>The trusted listener\<close>

definition trusted_subject_call :: "http_ext \<Rightarrow> request \<Rightarrow> outcome" where
  "trusted_subject_call hx req =
     (case get_header TRUSTED_SUBJECT_HEADER req of
        None \<Rightarrow> Reply (UnauthenticatedStatus ''missing_trusted_subject_header'')
      | Some v \<Rightarrow>
          (case to_str hx v of
             None \<Rightarrow> Reply (UnauthenticatedStatus ''malformed_trusted_subject_header'')
           | Some raw \<Rightarrow>
               (case subject_of_json hx raw of
                  None \<Rightarrow> Reply (UnauthenticatedStatus ''malformed_trusted_subject_header'')
                | Some subj \<Rightarrow>
                    Forward ((remove_header TRUSTED_SUBJECT_HEADER req)\<lparr>req_subject := Some subj\<rparr>))))"

subsection \<open>Authorization\<close>

record auth_spec =
  allowed :: "subject_class list"
  spec_scopes :: "string list"

type_synonym auth_table = "(string \<times> auth_spec) list"

definition table_lookup :: "auth_table \<Rightarrow> string \<Rightarrow> auth_spec option" where
  "table_lookup table mthd = map_option snd (find (\<lambda>(m, _). m = mthd) table)"

definition class_matches :: "subject_class \<Rightarrow> subject_class \<Rightarrow> bool" where
  "class_matches c cls \<longleftrightarrow>
     (c, cls) \<in> {(AnonymousClass, AnonymousClass), (UserSelf, UserSelf), (AccountSelf, AccountSelf),
                 (AccountOwnsResource, AccountSelf), (SystemClass, SystemClass)}"

definition is_allowed :: "subject \<Rightarrow> auth_spec \<Rightarrow> bool" where
  "is_allowed subj spec =
     (let cls = class_of subj;
          class_ok = list_ex (\<lambda>c. class_matches c cls) (allowed spec)
      in if \<not> class_ok then False
         else case subj of
                System _ _ _ \<Rightarrow>
                  if spec_scopes spec = [] then True
                  else list_ex (has_scope subj) (spec_scopes spec)
              | _ \<Rightarrow> True)"

definition deny :: "string \<Rightarrow> outcome" where
  "deny msg = Reply (PermissionDenied msg)"

definition authorization_call :: "auth_table \<Rightarrow> request \<Rightarrow> outcome" where
  "authorization_call table req =
     (let subj = unwrap_or Anonymous (req_subject req)
      in case table_lookup table (req_path req) of
           None \<Rightarrow> deny ''no auth spec for RPC''
         | Some spec \<Rightarrow>
             if \<not> is_allowed subj spec then deny ''subject not permitted for RPC''
             else Forward req)"

text \<open>The layers of the public and of the trusted listener, in the order they run.\<close>

definition public_listener ::
  "text_ext \<Rightarrow> http_ext \<Rightarrow> (signed_request_parts \<Rightarrow> 'c \<Rightarrow> (auth_error + subject) \<times> 'c) \<Rightarrow> auth_table \<Rightarrow>
   request \<Rightarrow> 'c auth_state \<Rightarrow> outcome \<times> 'c auth_state" where
  "public_listener x hx authenticate table req st =
     (case auth_interceptor_call x hx (proto_hash (sha256 hx)) authenticate req st of
        (Reply s, st') \<Rightarrow> (Reply s, st')
      | (Forward req', st') \<Rightarrow> (authorization_call table req', st'))"

definition trusted_listener :: "http_ext \<Rightarrow> auth_table \<Rightarrow> request \<Rightarrow> outcome" where
  "trusted_listener hx table req =
     (case trusted_subject_call hx req of
        Reply s \<Rightarrow> Reply s
      | Forward req' \<Rightarrow> authorization_call table req')"

subsection \<open>Lemmas\<close>

lemma remove_header_fields [simp]:
  "req_path (remove_header n r) = req_path r" "req_method (remove_header n r) = req_method r"
  "req_query (remove_header n r) = req_query r" "req_body (remove_header n r) = req_body r"
  by (simp_all add: remove_header_def)

lemma get_remove_header [simp]:
  "get_header n (remove_header m r) = (if n = m then None else get_header n r)"
proof -
  have "map_of (filter (\<lambda>h. fst h \<noteq> m) hs) n = (if n = m then None else map_of hs n)" for hs :: "(string \<times> string) list"
    by (induction hs) auto
  then show ?thesis
    by (simp add: get_header_def remove_header_def)
qed

lemma get_header_subject [simp]: "get_header n (r\<lparr>req_subject := s\<rparr>) = get_header n r"
  by (simp add: get_header_def)

lemma authorization_call_Forward:
  "authorization_call table req = Forward req' \<longleftrightarrow>
   req' = req \<and> (\<exists>spec. table_lookup table (req_path req) = Some spec \<and>
      is_allowed (unwrap_or Anonymous (req_subject req)) spec)"
  by (auto simp: authorization_call_def deny_def Let_def split: option.splits)

lemma headers_differ [simp]: "''authorization'' \<noteq> TRUSTED_SUBJECT_HEADER"
  by (simp add: TRUSTED_SUBJECT_HEADER_def)

lemma signed_parts_remove_header [simp]:
  "signed_parts (remove_header n req) q hsh parsed = signed_parts req q hsh parsed"
  by (simp add: signed_parts_def)

text \<open>The usable \<open>Authorization\<close> header of a request.\<close>

definition auth_header :: "http_ext \<Rightarrow> request \<Rightarrow> string option" where
  "auth_header hx req = Option.bind (get_header ''authorization'' req) (to_str hx)"

text \<open>A request whose signature the strategy accepted as \<open>subj\<close>.\<close>

definition signed_as ::
  "text_ext \<Rightarrow> http_ext \<Rightarrow> (u8 list \<Rightarrow> body_hash_error + u8 list) \<Rightarrow>
   (signed_request_parts \<Rightarrow> 'c \<Rightarrow> (auth_error + subject) \<times> 'c) \<Rightarrow> request \<Rightarrow> 'c \<Rightarrow> subject \<Rightarrow> 'c \<Rightarrow> bool" where
  "signed_as x hx hasher authenticate req c subj c' \<longleftrightarrow>
     (\<exists>hval parsed body hsh. auth_header hx req = Some hval \<and>
        parse_authorization_header x hval = Inr parsed \<and> req_body req = Some body \<and>
        hasher body = Inr hsh \<and>
        authenticate (signed_parts req (canonicalize_query (unwrap_or [] (req_query req))) hsh parsed) c =
          (Inr subj, c'))"

lemma auth_interceptor_Forward:
  assumes "auth_interceptor_call x hx hasher authenticate req st = (Forward req', st')"
  shows "\<exists>subj. req' = (remove_header TRUSTED_SUBJECT_HEADER req)\<lparr>req_subject := Some subj\<rparr> \<and>
    (auth_header hx req = None \<and> subj = Anonymous \<and> st' = st \<or>
     signed_as x hx hasher authenticate req (nonces st) subj (nonces st'))"
proof (cases "auth_header hx req")
  case None
  with assms show ?thesis
    by (auto simp: auth_interceptor_call_def auth_header_def Let_def)
next
  case (Some hval)
  with assms obtain parsed body hsh subj c' where
    "parse_authorization_header x hval = Inr parsed" "req_body req = Some body"
    "hasher body = Inr hsh"
    "authenticate (signed_parts req (canonicalize_query (unwrap_or [] (req_query req))) hsh parsed)
      (nonces st) = (Inr subj, c')"
    "req' = (remove_header TRUSTED_SUBJECT_HEADER req)\<lparr>req_subject := Some subj\<rparr>" "nonces st' = c'"
    by (auto simp: auth_interceptor_call_def auth_header_def Let_def count_label_def
        split: option.splits sum.splits prod.splits body_hash_error.splits)
  with Some show ?thesis
    unfolding signed_as_def by blast
qed

lemma interceptor_ignores_trusted:
  "auth_interceptor_call x hx hasher authenticate
     (req\<lparr>req_headers := (TRUSTED_SUBJECT_HEADER, v) # req_headers req\<rparr>) st =
   auth_interceptor_call x hx hasher authenticate req st"
  by (simp add: auth_interceptor_call_def remove_header_def)

subsection \<open>Properties\<close>

text \<open>Authorization is deny by default and follows the table: a request passes exactly
  when its RPC has a rule and the rule allows the subject's class, where an account may
  stand for either account class and a system must also hold one of the rule's scopes,
  if the rule names any.
\<close>

theorem authorization_passes_iff:
  "authorization_call table req = Forward req \<longleftrightarrow>
   (\<exists>spec. table_lookup table (req_path req) = Some spec \<and>
     (case unwrap_or Anonymous (req_subject req) of
        Anonymous \<Rightarrow> AnonymousClass \<in> set (allowed spec)
      | User _ _ \<Rightarrow> UserSelf \<in> set (allowed spec)
      | Account _ _ \<Rightarrow> AccountSelf \<in> set (allowed spec) \<or> AccountOwnsResource \<in> set (allowed spec)
      | System i k granted \<Rightarrow> SystemClass \<in> set (allowed spec) \<and>
          (spec_scopes spec = [] \<or>
           (\<exists>s. s \<in> set (spec_scopes spec) \<and> has_scope (System i k granted) s))))"
proof -
  have "is_allowed subj spec \<longleftrightarrow>
    (case subj of
        Anonymous \<Rightarrow> AnonymousClass \<in> set (allowed spec)
      | User _ _ \<Rightarrow> UserSelf \<in> set (allowed spec)
      | Account _ _ \<Rightarrow> AccountSelf \<in> set (allowed spec) \<or> AccountOwnsResource \<in> set (allowed spec)
      | System i k granted \<Rightarrow> SystemClass \<in> set (allowed spec) \<and>
          (spec_scopes spec = [] \<or> (\<exists>s. s \<in> set (spec_scopes spec) \<and> has_scope (System i k granted) s)))"
    for subj spec
    by (cases subj) (auto simp: is_allowed_def class_matches_def list_ex_iff Let_def
        simp del: has_scope.simps)
  then show ?thesis
    unfolding authorization_call_Forward by simp
qed


definition demo_http :: http_ext where
  "demo_http = \<lparr>to_str = Some, sha256 = id, subject_of_json = (\<lambda>_. None)\<rparr>"

definition demo_request :: request where
  "demo_request = \<lparr>req_method = ''POST'', req_path = ''/rpc'', req_query = None,
     req_headers = [(TRUSTED_SUBJECT_HEADER, ''forged'')], req_body = Some [], req_subject = None\<rparr>"


text \<open>A client cannot speak for anyone through the trusted-subject header: adding it to a
  request changes nothing that the public listener does.
\<close>

theorem forged_trusted_header_ignored:
  "public_listener x hx authenticate table
     (req\<lparr>req_headers := (TRUSTED_SUBJECT_HEADER, v) # req_headers req\<rparr>) st =
   public_listener x hx authenticate table req st"
  by (simp add: public_listener_def interceptor_ignores_trusted)

end
