(* ===== verification/Database.thy ===== *)
theory Database
  imports Errors
begin

text \<open>
  The Postgres schema (\<open>db/schema.sql\<close>) as the repositories of \<open>headlines-store\<close> see
  it: one record per row type, one list of rows per table, and the inserts with the
  primary keys, foreign keys and checks that the schema declares. A failed statement
  surfaces as \<open>Internal\<close> with the context string the repository attaches; the driver's
  own text is not kept. Timestamps are microseconds, the resolution of \<open>timestamptz\<close>.
\<close>

type_synonym timestamp = int

text \<open>\<open>serde_json::Value\<close>; numbers are the integers the sources store.\<close>

datatype json =
    JNull
  | JBool bool
  | JNum int
  | JStr string
  | JArr "json list"
  | JObj "(string \<times> json) list"

subsection \<open>Rows\<close>

record account_row =
  ac_id :: uuid
  ac_short_name :: string
  ac_author_name :: string
  ac_author_url :: "string option"
  ac_status :: string
  ac_deleted_at :: "timestamp option"
  ac_created_at :: timestamp
  ac_updated_at :: timestamp

record key_row =
  kr_parent_id :: uuid
  kr_key_id :: uuid
  kr_algo :: string
  kr_public_key :: string
  kr_status :: string
  kr_created_at :: timestamp
  kr_revoked_at :: "timestamp option"

record user_row =
  us_id :: uuid
  us_display_name :: "string option"
  us_status :: string
  us_deleted_at :: "timestamp option"
  us_created_at :: timestamp

record article_row =
  ar_id :: uuid
  ar_account_id :: uuid
  ar_state :: string
  ar_created_at :: timestamp

record article_live_row =
  al_article_id :: uuid
  al_current_version :: int
  al_published_at :: timestamp
  al_updated_at :: timestamp

record article_tombstone_row =
  at_article_id :: uuid
  at_reason :: "string option"
  at_tombstoned_at :: timestamp

record article_version_row =
  av_article_id :: uuid
  av_version :: int
  av_title :: string
  av_author_name :: "string option"
  av_author_url :: "string option"
  av_content :: "json option"
  av_redacted_at :: "timestamp option"
  av_redaction_reason :: "string option"
  av_created_at :: timestamp

record draft_row =
  dr_id :: uuid
  dr_account_id :: uuid
  dr_title :: string
  dr_author_name :: "string option"
  dr_author_url :: "string option"
  dr_content :: json
  dr_created_at :: timestamp
  dr_updated_at :: timestamp

record follow_row =
  fo_user_id :: uuid
  fo_account_id :: uuid
  fo_status :: string
  fo_created_at :: timestamp
  fo_unfollowed_at :: "timestamp option"

record feed_row =
  fr_user_id :: uuid
  fr_position :: int
  fr_article_id :: uuid

record scope_row =
  sc_system_id :: uuid
  sc_scope :: string

record event_row =
  ev_id :: uuid
  ev_user_id :: uuid
  ev_article_id :: "uuid option"
  ev_type :: string
  ev_occurred_at :: timestamp
  ev_received_at :: timestamp
  ev_surface :: string
  ev_properties :: json

subsection \<open>The database\<close>

record db =
  accounts :: "account_row list"
  account_keys :: "key_row list"
  users :: "user_row list"
  user_keys :: "key_row list"
  system_keys :: "key_row list"
  system_scopes :: "scope_row list"
  articles :: "article_row list"
  articles_live :: "article_live_row list"
  articles_tombstone :: "article_tombstone_row list"
  article_versions :: "article_version_row list"
  drafts :: "draft_row list"
  follows :: "follow_row list"
  feed_recommendation :: "feed_row list"
  events :: "event_row list"

definition empty_db :: db where
  "empty_db = \<lparr>accounts = [], account_keys = [], users = [], user_keys = [], system_keys = [],
     system_scopes = [], articles = [], articles_live = [], articles_tombstone = [],
     article_versions = [], drafts = [], follows = [], feed_recommendation = [], events = []\<rparr>"

definition kr_key :: "key_row \<Rightarrow> uuid \<times> uuid" where
  "kr_key r = (kr_parent_id r, kr_key_id r)"

definition av_key :: "article_version_row \<Rightarrow> uuid \<times> int" where
  "av_key r = (av_article_id r, av_version r)"

definition fo_key :: "follow_row \<Rightarrow> uuid \<times> uuid" where
  "fo_key r = (fo_user_id r, fo_account_id r)"

definition fr_key :: "feed_row \<Rightarrow> uuid \<times> int" where
  "fr_key r = (fr_user_id r, fr_position r)"

text \<open>\<open>INSERT\<close> into a table with checks beside the primary key: foreign keys and \<open>CHECK\<close>s.\<close>

definition insert_checked :: "bool \<Rightarrow> ('r \<Rightarrow> 'k) \<Rightarrow> 'e \<Rightarrow> 'r \<Rightarrow> 'r list \<Rightarrow> 'e + 'r list" where
  "insert_checked ok key e r t = (if ok then insert_row key e r t else Inl e)"

definition insert_article :: "article_row \<Rightarrow> db \<Rightarrow> headlines_error + db" where
  "insert_article r d =
     try_res (insert_checked (ar_account_id r \<in> ac_id ` set (accounts d)) ar_id
         (Internal ''insert articles'') r (articles d))
       (\<lambda>t. Inr (d\<lparr>articles := t\<rparr>))"

definition insert_article_live :: "article_live_row \<Rightarrow> db \<Rightarrow> headlines_error + db" where
  "insert_article_live r d =
     try_res (insert_checked
         (al_article_id r \<in> ar_id ` set (articles d) \<and> al_current_version r \<ge> 1) al_article_id
         (Internal ''insert articles_live'') r (articles_live d))
       (\<lambda>t. Inr (d\<lparr>articles_live := t\<rparr>))"

definition insert_article_tombstone :: "article_tombstone_row \<Rightarrow> db \<Rightarrow> headlines_error + db" where
  "insert_article_tombstone r d =
     try_res (insert_checked (at_article_id r \<in> ar_id ` set (articles d)) at_article_id
         (Internal ''insert articles_tombstone'') r (articles_tombstone d))
       (\<lambda>t. Inr (d\<lparr>articles_tombstone := t\<rparr>))"

definition insert_article_version :: "string \<Rightarrow> article_version_row \<Rightarrow> db \<Rightarrow> headlines_error + db" where
  "insert_article_version ctx r d =
     try_res (insert_checked
         (av_article_id r \<in> ar_id ` set (articles d) \<and> av_version r \<ge> 1) av_key
         (Internal ctx) r (article_versions d))
       (\<lambda>t. Inr (d\<lparr>article_versions := t\<rparr>))"

text \<open>
  \<open>conn.transaction\<close>: the body's effect is kept when it succeeds and undone when it
  fails, and the rest of the function runs on the committed state.
\<close>

definition transaction ::
  "(db \<Rightarrow> headlines_error + ('a \<times> db)) \<Rightarrow> db \<Rightarrow> ('a \<Rightarrow> db \<Rightarrow> (headlines_error + 'b) \<times> db) \<Rightarrow>
   (headlines_error + 'b) \<times> db" where
  "transaction body d k = (case body d of Inl e \<Rightarrow> (Inl e, d) | Inr (x, d') \<Rightarrow> k x d')"

text \<open>An empty string is stored as \<open>NULL\<close>.\<close>

definition null_if_empty :: "string \<Rightarrow> string option" where
  "null_if_empty s = (if s = [] then None else Some s)"

lemma insert_checked_Inr:
  "insert_checked ok key e r t = Inr t' \<longleftrightarrow> ok \<and> lookup key (key r) t = None \<and> t' = t @ [r]"
  by (simp add: insert_checked_def insert_row_Inr)

lemma insert_article_Inr:
  "insert_article r d = Inr d' \<longleftrightarrow>
   lookup ac_id (ar_account_id r) (accounts d) \<noteq> None \<and> lookup ar_id (ar_id r) (articles d) = None \<and>
   d' = d\<lparr>articles := articles d @ [r]\<rparr>"
  by (auto simp: insert_article_def try_res_Inr insert_checked_Inr lookup_None)

lemma insert_article_live_Inr:
  "insert_article_live r d = Inr d' \<longleftrightarrow>
   lookup ar_id (al_article_id r) (articles d) \<noteq> None \<and> al_current_version r \<ge> 1 \<and>
   lookup al_article_id (al_article_id r) (articles_live d) = None \<and>
   d' = d\<lparr>articles_live := articles_live d @ [r]\<rparr>"
  by (auto simp: insert_article_live_def try_res_Inr insert_checked_Inr lookup_None)

lemma insert_article_tombstone_Inr:
  "insert_article_tombstone r d = Inr d' \<longleftrightarrow>
   lookup ar_id (at_article_id r) (articles d) \<noteq> None \<and>
   lookup at_article_id (at_article_id r) (articles_tombstone d) = None \<and>
   d' = d\<lparr>articles_tombstone := articles_tombstone d @ [r]\<rparr>"
  by (auto simp: insert_article_tombstone_def try_res_Inr insert_checked_Inr lookup_None)

lemma insert_article_version_Inr:
  "insert_article_version ctx r d = Inr d' \<longleftrightarrow>
   lookup ar_id (av_article_id r) (articles d) \<noteq> None \<and> av_version r \<ge> 1 \<and>
   lookup av_key (av_key r) (article_versions d) = None \<and>
   d' = d\<lparr>article_versions := article_versions d @ [r]\<rparr>"
  by (auto simp: insert_article_version_def try_res_Inr insert_checked_Inr lookup_None)

lemmas insert_Inr = insert_article_Inr insert_article_live_Inr insert_article_tombstone_Inr
  insert_article_version_Inr

lemma unwrap_null_if_empty [simp]: "unwrap_or [] (null_if_empty s) = s"
  by (simp add: null_if_empty_def)

end
