(* ===== verification/Identity_Store.thy ===== *)
theory Identity_Store
  imports Database
begin

text \<open>
  The repositories of accounts, users and signing keys
  (\<open>headlines-store/src/repo/accounts.rs\<close>, \<open>users.rs\<close>, \<open>keys.rs\<close>). Columns filled by
  the database's \<open>DEFAULT now()\<close> take the argument \<open>db_now\<close>, those the repository
  fills take \<open>now\<close>.
\<close>

subsection \<open>Accounts\<close>

datatype account_status = AccountActive | AccountDeletedStatus

record account =
  acc_id :: uuid
  acc_short_name :: string
  acc_author_name :: string
  acc_author_url :: string
  acc_status :: account_status
  acc_deleted_at :: "timestamp option"
  acc_created_at :: timestamp
  acc_updated_at :: timestamp

record new_account =
  nac_id :: uuid
  nac_short_name :: string
  nac_author_name :: string
  nac_author_url :: string

record account_update =
  au_short_name :: "string option"
  au_author_name :: "string option"
  au_author_url :: "string option"

definition account_of_row :: "account_row \<Rightarrow> account res" where
  "account_of_row r =
     try_res (if ac_status r = ''active'' then Inr AccountActive
              else if ac_status r = ''deleted'' then Inr AccountDeletedStatus
              else Inl (Internal (''unknown accounts.status value in DB: '' @ ac_status r))) (\<lambda>st.
     Inr \<lparr>acc_id = ac_id r, acc_short_name = ac_short_name r, acc_author_name = ac_author_name r,
          acc_author_url = unwrap_or [] (ac_author_url r), acc_status = st,
          acc_deleted_at = ac_deleted_at r, acc_created_at = ac_created_at r,
          acc_updated_at = ac_updated_at r\<rparr>)"

definition account_create :: "timestamp \<Rightarrow> new_account \<Rightarrow> db \<Rightarrow> account res \<times> db" where
  "account_create db_now new d =
     (let row = \<lparr>ac_id = nac_id new, ac_short_name = nac_short_name new,
            ac_author_name = nac_author_name new, ac_author_url = null_if_empty (nac_author_url new),
            ac_status = ''active'', ac_deleted_at = None, ac_created_at = db_now,
            ac_updated_at = db_now\<rparr>
      in try_st (insert_row ac_id (Internal ''insert account'') row (accounts d)) d (\<lambda>t.
         (account_of_row row, d\<lparr>accounts := t\<rparr>)))"

definition account_get :: "uuid \<Rightarrow> db \<Rightarrow> account res" where
  "account_get i d =
     (case lookup ac_id i (accounts d) of
        Some r \<Rightarrow> account_of_row r
      | None \<Rightarrow> Inl (AccountNotFound i))"

text \<open>A per-field \<open>UPDATE\<close>, issued only when the field is present.\<close>

definition set_account :: "uuid \<Rightarrow> 'a option \<Rightarrow> ('a \<Rightarrow> account_row \<Rightarrow> account_row) \<Rightarrow> account_row list \<Rightarrow> account_row list" where
  "set_account i m f t = (case m of None \<Rightarrow> t | Some v \<Rightarrow> update_row ac_id i (f v) t)"

definition account_update_op :: "timestamp \<Rightarrow> uuid \<Rightarrow> account_update \<Rightarrow> db \<Rightarrow> account res \<times> db" where
  "account_update_op now i upd d =
     try_st (ok_or (AccountNotFound i) (lookup ac_id i (accounts d))) d (\<lambda>existing.
     if ac_status existing = ''deleted'' then (Inl (AccountDeleted i), d)
     else
       let t1 = set_account i (au_short_name upd) (\<lambda>v r. r\<lparr>ac_short_name := v, ac_updated_at := now\<rparr>) (accounts d);
           t2 = set_account i (au_author_name upd) (\<lambda>v r. r\<lparr>ac_author_name := v, ac_updated_at := now\<rparr>) t1;
           t3 = set_account i (au_author_url upd)
                  (\<lambda>v r. r\<lparr>ac_author_url := null_if_empty v, ac_updated_at := now\<rparr>) t2;
           d' = d\<lparr>accounts := t3\<rparr>
       in try_st (ok_or (Internal ''re-read after update'') (lookup ac_id i t3)) d' (\<lambda>r.
          (account_of_row r, d')))"

definition account_soft_delete :: "timestamp \<Rightarrow> uuid \<Rightarrow> db \<Rightarrow> account res \<times> db" where
  "account_soft_delete now i d =
     (let t = update_row ac_id i (\<lambda>r. r\<lparr>ac_status := ''deleted'', ac_deleted_at := Some now,
            ac_updated_at := now\<rparr>) (accounts d)
      in case lookup ac_id i t of
           Some r \<Rightarrow> (account_of_row r, d\<lparr>accounts := t\<rparr>)
         | None \<Rightarrow> (Inl (AccountNotFound i), d\<lparr>accounts := t\<rparr>))"

subsection \<open>Users\<close>

datatype user_status = UserActive | UserDeletedStatus

record user =
  usr_id :: uuid
  usr_display_name :: string
  usr_status :: user_status
  usr_deleted_at :: "timestamp option"
  usr_created_at :: timestamp

definition user_of_row :: "user_row \<Rightarrow> user res" where
  "user_of_row r =
     try_res (if us_status r = ''active'' then Inr UserActive
              else if us_status r = ''deleted'' then Inr UserDeletedStatus
              else Inl (Internal (''unknown users.status value in DB: '' @ us_status r))) (\<lambda>st.
     Inr \<lparr>usr_id = us_id r, usr_display_name = unwrap_or [] (us_display_name r), usr_status = st,
          usr_deleted_at = us_deleted_at r, usr_created_at = us_created_at r\<rparr>)"

definition user_create :: "timestamp \<Rightarrow> uuid \<Rightarrow> string \<Rightarrow> db \<Rightarrow> user res \<times> db" where
  "user_create db_now i display_name d =
     (let row = \<lparr>us_id = i, us_display_name = null_if_empty display_name, us_status = ''active'',
            us_deleted_at = None, us_created_at = db_now\<rparr>
      in try_st (insert_row us_id (Internal ''insert user'') row (users d)) d (\<lambda>t.
         (user_of_row row, d\<lparr>users := t\<rparr>)))"

definition user_get :: "uuid \<Rightarrow> db \<Rightarrow> user res" where
  "user_get i d =
     (case lookup us_id i (users d) of
        Some r \<Rightarrow> user_of_row r
      | None \<Rightarrow> Inl (UserNotFound i))"

definition user_update_op :: "uuid \<Rightarrow> string option \<Rightarrow> db \<Rightarrow> user res \<times> db" where
  "user_update_op i display_name d =
     try_st (ok_or (UserNotFound i) (lookup us_id i (users d))) d (\<lambda>existing.
     if us_status existing = ''deleted'' then (Inl (UserDeleted i), d)
     else
       let t = (case display_name of
                  None \<Rightarrow> users d
                | Some v \<Rightarrow> update_row us_id i (\<lambda>r. r\<lparr>us_display_name := null_if_empty v\<rparr>) (users d));
           d' = d\<lparr>users := t\<rparr>
       in try_st (ok_or (Internal ''re-read after update'') (lookup us_id i t)) d' (\<lambda>r.
          (user_of_row r, d')))"

definition user_soft_delete :: "timestamp \<Rightarrow> uuid \<Rightarrow> db \<Rightarrow> user res \<times> db" where
  "user_soft_delete now i d =
     (let t = update_row us_id i (\<lambda>r. r\<lparr>us_status := ''deleted'', us_deleted_at := Some now\<rparr>) (users d)
      in case lookup us_id i t of
           Some r \<Rightarrow> (user_of_row r, d\<lparr>users := t\<rparr>)
         | None \<Rightarrow> (Inl (UserNotFound i), d\<lparr>users := t\<rparr>))"

subsection \<open>Keys\<close>

datatype key_kind = KAccount | KUser | KSystem

datatype key_status = KeyActive | KeyRevoked

record stored_key =
  sk_kind :: key_kind
  sk_parent_id :: uuid
  sk_key_id :: uuid
  sk_algo :: string
  sk_public_key :: string
  sk_status :: key_status
  sk_created_at :: timestamp
  sk_revoked_at :: "timestamp option"

record new_key =
  nk_kind :: key_kind
  nk_parent_id :: uuid
  nk_id :: uuid
  nk_algo :: string
  nk_public_key :: string

definition parse_status :: "string \<Rightarrow> string \<Rightarrow> key_status res" where
  "parse_status table raw =
     (if raw = ''active'' then Inr KeyActive
      else if raw = ''revoked'' then Inr KeyRevoked
      else Inl (Internal (''unknown '' @ table @ ''.status value: '' @ raw)))"

definition key_of_row :: "key_kind \<Rightarrow> string \<Rightarrow> key_row \<Rightarrow> stored_key res" where
  "key_of_row kind table r =
     try_res (parse_status table (kr_status r)) (\<lambda>st.
     Inr \<lparr>sk_kind = kind, sk_parent_id = kr_parent_id r, sk_key_id = kr_key_id r,
          sk_algo = kr_algo r, sk_public_key = kr_public_key r, sk_status = st,
          sk_created_at = kr_created_at r, sk_revoked_at = kr_revoked_at r\<rparr>)"

definition new_key_row :: "timestamp \<Rightarrow> new_key \<Rightarrow> key_row" where
  "new_key_row db_now new = \<lparr>kr_parent_id = nk_parent_id new, kr_key_id = nk_id new,
     kr_algo = nk_algo new, kr_public_key = nk_public_key new, kr_status = ''active'',
     kr_created_at = db_now, kr_revoked_at = None\<rparr>"

definition key_create :: "timestamp \<Rightarrow> new_key \<Rightarrow> db \<Rightarrow> stored_key res \<times> db" where
  "key_create db_now new d =
     (case nk_kind new of
        KAccount \<Rightarrow>
          try_st (insert_checked (nk_parent_id new \<in> ac_id ` set (accounts d)) kr_key
              (Internal ''insert account_key'') (new_key_row db_now new) (account_keys d)) d (\<lambda>t.
          (key_of_row KAccount ''account_keys'' (new_key_row db_now new), d\<lparr>account_keys := t\<rparr>))
      | KUser \<Rightarrow>
          try_st (insert_checked (nk_parent_id new \<in> us_id ` set (users d)) kr_key
              (Internal ''insert user_key'') (new_key_row db_now new) (user_keys d)) d (\<lambda>t.
          (key_of_row KUser ''user_keys'' (new_key_row db_now new), d\<lparr>user_keys := t\<rparr>))
      | KSystem \<Rightarrow> (Inl (Internal ''PgKeyRepo::create for kind=System not implemented''), d))"

definition key_get :: "key_kind \<Rightarrow> uuid \<Rightarrow> uuid \<Rightarrow> db \<Rightarrow> stored_key res" where
  "key_get kind parent kid d =
     (case kind of
        KAccount \<Rightarrow> try_res (ok_or (KeyNotFound kid) (lookup kr_key (parent, kid) (account_keys d)))
          (key_of_row KAccount ''account_keys'')
      | KUser \<Rightarrow> try_res (ok_or (KeyNotFound kid) (lookup kr_key (parent, kid) (user_keys d)))
          (key_of_row KUser ''user_keys'')
      | KSystem \<Rightarrow> Inl (KeyNotFound kid))"

definition revoke_row :: "timestamp \<Rightarrow> key_row \<Rightarrow> key_row" where
  "revoke_row now r = r\<lparr>kr_status := ''revoked'', kr_revoked_at := Some now\<rparr>"

definition key_revoke :: "timestamp \<Rightarrow> key_kind \<Rightarrow> uuid \<Rightarrow> uuid \<Rightarrow> db \<Rightarrow> stored_key res \<times> db" where
  "key_revoke now kind parent kid d =
     (case kind of
        KAccount \<Rightarrow>
          try_st (ok_or (KeyNotFound kid) (lookup kr_key (parent, kid) (account_keys d))) d (\<lambda>existing.
          if kr_status existing = ''revoked'' then (Inl (KeyAlreadyRevoked kid), d)
          else
            let t = update_row kr_key (parent, kid) (revoke_row now) (account_keys d);
                d' = d\<lparr>account_keys := t\<rparr>
            in try_st (ok_or (Internal ''revoke account_key'') (lookup kr_key (parent, kid) t)) d' (\<lambda>r.
               (key_of_row KAccount ''account_keys'' r, d')))
      | KUser \<Rightarrow>
          try_st (ok_or (KeyNotFound kid) (lookup kr_key (parent, kid) (user_keys d))) d (\<lambda>existing.
          if kr_status existing = ''revoked'' then (Inl (KeyAlreadyRevoked kid), d)
          else
            let t = update_row kr_key (parent, kid) (revoke_row now) (user_keys d);
                d' = d\<lparr>user_keys := t\<rparr>
            in try_st (ok_or (Internal ''revoke user_key'') (lookup kr_key (parent, kid) t)) d' (\<lambda>r.
               (key_of_row KUser ''user_keys'' r, d')))
      | KSystem \<Rightarrow> (Inl (KeyNotFound kid), d))"

definition active_rows :: "uuid \<Rightarrow> key_row list \<Rightarrow> key_row list" where
  "active_rows parent t = filter (\<lambda>r. kr_parent_id r = parent \<and> kr_status r = ''active'') t"

definition key_list_active :: "key_kind \<Rightarrow> uuid \<Rightarrow> db \<Rightarrow> stored_key list res" where
  "key_list_active kind parent d =
     (case kind of
        KAccount \<Rightarrow> map_res (key_of_row KAccount ''account_keys'') (active_rows parent (account_keys d))
      | KUser \<Rightarrow> map_res (key_of_row KUser ''user_keys'') (active_rows parent (user_keys d))
      | KSystem \<Rightarrow> Inr [])"

subsection \<open>Lemmas\<close>

lemma revoke_row_key [simp]: "kr_key (revoke_row now r) = kr_key r"
  by (simp add: revoke_row_def kr_key_def)

lemma key_of_row_active:
  "kr_status r = ''active'' \<Longrightarrow> key_of_row kind table r =
     Inr \<lparr>sk_kind = kind, sk_parent_id = kr_parent_id r, sk_key_id = kr_key_id r, sk_algo = kr_algo r,
       sk_public_key = kr_public_key r, sk_status = KeyActive, sk_created_at = kr_created_at r,
       sk_revoked_at = kr_revoked_at r\<rparr>"
  by (simp add: key_of_row_def parse_status_def)

lemma active_rows_status: "r \<in> set (active_rows p t) \<Longrightarrow> kr_status r = ''active'' \<and> kr_parent_id r = p \<and> r \<in> set t"
  by (auto simp: active_rows_def)

text \<open>Listing never fails: the rows it selects are active.\<close>

lemma list_active_eq:
  "map_res (key_of_row kind table) (active_rows p t) =
     Inr (map (projr \<circ> key_of_row kind table) (active_rows p t))"
  by (rule map_res_total [where g = "projr \<circ> key_of_row kind table", simplified comp_apply, folded comp_def])
    (auto dest!: active_rows_status simp: key_of_row_active)

text \<open>Revoking a key takes exactly that key off the active ones.\<close>

lemma active_rows_revoke:
  "active_rows p (update_row kr_key (q, k) (revoke_row now) t) =
   filter (\<lambda>r. kr_key r \<noteq> (q, k)) (active_rows p t)"
  by (induction t) (auto simp: active_rows_def update_row_def revoke_row_def kr_key_def)

end
