(* ===== verification/Resolver.thy ===== *)
theory Resolver
  imports Strategy Identity_Store
begin

text \<open>
  \<open>PostgresKeyResolver\<close> (\<open>headlines-auth/src/postgres_resolver.rs\<close>): a key id is looked up
  in the three key tables and must be active in exactly one of them. A \<open>SELECT ... LIMIT 1\<close>
  without an order takes the first row of the table's list.
\<close>

definition ACTIVE_STATUS :: string where
  "ACTIVE_STATUS = ''active''"

definition active_key :: "uuid \<Rightarrow> key_row list \<Rightarrow> key_row option" where
  "active_key kid t = find (\<lambda>r. kr_key_id r = kid \<and> kr_status r = ACTIVE_STATUS) t"

definition any_key :: "uuid \<Rightarrow> key_row list \<Rightarrow> key_row option" where
  "any_key kid t = find (\<lambda>r. kr_key_id r = kid) t"

text \<open>
  The probe of one table: an active row with its decoded public key and subject, or the
  fact that there is a row in another state.
\<close>

definition probe ::
  "(string \<Rightarrow> u8 list option) \<Rightarrow> string \<Rightarrow> (key_row \<Rightarrow> subject) \<Rightarrow> uuid \<Rightarrow> key_row list \<Rightarrow>
   resolve_error + ((string \<times> resolved_key) list \<times> string list)" where
  "probe b64 table subj_of kid t =
     (case active_key kid t of
        Some r \<Rightarrow>
          try_res (ok_or (ResolveInternal ''base64 decode'') (b64 (kr_public_key r))) (\<lambda>pub.
          Inr ([(table, \<lparr>rk_algo = kr_algo r, rk_public_key = pub, rk_subject = subj_of r\<rparr>)], []))
      | None \<Rightarrow> Inr ([], if any_key kid t \<noteq> None then [table] else []))"

definition scopes_of :: "uuid \<Rightarrow> db \<Rightarrow> string list" where
  "scopes_of sid d = map sc_scope (filter (\<lambda>r. sc_system_id r = sid) (system_scopes d))"

definition postgres_resolve :: "(string \<Rightarrow> u8 list option) \<Rightarrow> db \<Rightarrow> resolver" where
  "postgres_resolve b64 d kid =
     try_res (probe b64 ''account_keys'' (\<lambda>r. Account (kr_parent_id r) kid) kid (account_keys d)) (\<lambda>(a1, n1).
     try_res (probe b64 ''user_keys'' (\<lambda>r. User (kr_parent_id r) kid) kid (user_keys d)) (\<lambda>(a2, n2).
     try_res (probe b64 ''system_keys''
         (\<lambda>r. System (kr_parent_id r) kid (scopes_of (kr_parent_id r) d)) kid (system_keys d)) (\<lambda>(a3, n3).
     let active = a1 @ a2 @ a3; nonactive_tables = n1 @ n2 @ n3
     in case active of
          [] \<Rightarrow> if nonactive_tables \<noteq> [] then Inl Revoked else Inl NotFound
        | [m] \<Rightarrow> Inr (snd m)
        | _ \<Rightarrow> Inl (ResolveInternal ''cross-table key_id collision''))))"

subsection \<open>Lemmas\<close>

lemma active_key_None: "active_key kid t = None \<longleftrightarrow> (\<forall>r \<in> set t. kr_key_id r = kid \<longrightarrow> kr_status r \<noteq> ''active'')"
  by (auto simp: active_key_def find_None_iff ACTIVE_STATUS_def)

lemma active_key_SomeD:
  "active_key kid t = Some r \<Longrightarrow> r \<in> set t \<and> kr_key_id r = kid \<and> kr_status r = ''active''"
  by (auto simp: active_key_def find_Some_iff ACTIVE_STATUS_def)

lemma any_key_None: "any_key kid t = None \<longleftrightarrow> kid \<notin> kr_key_id ` set t"
  by (auto simp: any_key_def find_None_iff)

text \<open>Which rows of the three tables are active under a key id.\<close>

definition active_tables :: "uuid \<Rightarrow> db \<Rightarrow> nat" where
  "active_tables kid d = length (filter (\<lambda>t. active_key kid t \<noteq> None)
     [account_keys d, user_keys d, system_keys d])"

lemma postgres_resolve_Inr:
  assumes "postgres_resolve b64 d kid = Inr rk"
  shows "active_tables kid d = 1 \<and>
    ((\<exists>r. active_key kid (account_keys d) = Some r \<and> rk_subject rk = Account (kr_parent_id r) kid \<and>
        rk_algo rk = kr_algo r \<and> b64 (kr_public_key r) = Some (rk_public_key rk)) \<or>
     (\<exists>r. active_key kid (user_keys d) = Some r \<and> rk_subject rk = User (kr_parent_id r) kid \<and>
        rk_algo rk = kr_algo r \<and> b64 (kr_public_key r) = Some (rk_public_key rk)) \<or>
     (\<exists>r. active_key kid (system_keys d) = Some r \<and>
        rk_subject rk = System (kr_parent_id r) kid (scopes_of (kr_parent_id r) d) \<and>
        rk_algo rk = kr_algo r \<and> b64 (kr_public_key r) = Some (rk_public_key rk)))"
  using assms
  by (cases "active_key kid (account_keys d)"; cases "active_key kid (user_keys d)";
      cases "active_key kid (system_keys d)")
    (auto simp: postgres_resolve_def probe_def try_res_Inr ok_or_Inr active_tables_def Let_def
      split: if_splits)

lemma postgres_resolve_none:
  assumes "active_tables kid d = 0"
  shows "postgres_resolve b64 d kid =
    (if kid \<in> kr_key_id ` set (account_keys d @ user_keys d @ system_keys d) then Inl Revoked else Inl NotFound)"
proof -
  have "active_key kid (account_keys d) = None" "active_key kid (user_keys d) = None"
    "active_key kid (system_keys d) = None"
    using assms by (auto simp: active_tables_def split: if_splits)
  then show ?thesis
    by (auto simp: postgres_resolve_def probe_def Let_def any_key_None)
qed

subsection \<open>Properties\<close>

text \<open>A key id authenticates only through an active row, and only when exactly one of the
  three key tables holds one: the subject, the algorithm and the public key are that row's.
  A key id with no active row resolves to \<open>Revoked\<close> if any table knows it and to
  \<open>NotFound\<close> otherwise.
\<close>

theorem resolve_exactly_one_active:
  "(postgres_resolve b64 d kid = Inr rk \<longrightarrow>
      active_tables kid d = 1 \<and>
      (\<exists>r. kr_key_id r = kid \<and> kr_status r = ''active'' \<and> rk_algo rk = kr_algo r \<and>
        b64 (kr_public_key r) = Some (rk_public_key rk) \<and>
        (r \<in> set (account_keys d) \<and> rk_subject rk = Account (kr_parent_id r) kid \<or>
         r \<in> set (user_keys d) \<and> rk_subject rk = User (kr_parent_id r) kid \<or>
         r \<in> set (system_keys d) \<and>
           rk_subject rk = System (kr_parent_id r) kid (scopes_of (kr_parent_id r) d)))) \<and>
   (active_tables kid d = 0 \<longrightarrow>
      postgres_resolve b64 d kid =
        (if kid \<in> kr_key_id ` set (account_keys d @ user_keys d @ system_keys d)
         then Inl Revoked else Inl NotFound))"
proof (intro conjI impI)
  assume "postgres_resolve b64 d kid = Inr rk"
  from postgres_resolve_Inr [OF this] show "active_tables kid d = 1"
    and "\<exists>r. kr_key_id r = kid \<and> kr_status r = ''active'' \<and> rk_algo rk = kr_algo r \<and>
        b64 (kr_public_key r) = Some (rk_public_key rk) \<and>
        (r \<in> set (account_keys d) \<and> rk_subject rk = Account (kr_parent_id r) kid \<or>
         r \<in> set (user_keys d) \<and> rk_subject rk = User (kr_parent_id r) kid \<or>
         r \<in> set (system_keys d) \<and>
           rk_subject rk = System (kr_parent_id r) kid (scopes_of (kr_parent_id r) d))"
    by (blast dest: active_key_SomeD)+
next
  assume "active_tables kid d = 0"
  then show "postgres_resolve b64 d kid =
      (if kid \<in> kr_key_id ` set (account_keys d @ user_keys d @ system_keys d)
       then Inl Revoked else Inl NotFound)"
    by (rule postgres_resolve_none)
qed

definition demo_keys_db :: db where
  "demo_keys_db = empty_db\<lparr>account_keys := [\<lparr>kr_parent_id = 1, kr_key_id = 2, kr_algo = ''ed25519'',
     kr_public_key = [], kr_status = ''active'', kr_created_at = 0, kr_revoked_at = None\<rparr>]\<rparr>"

theorem resolve_exactly_one_active_witness:
  "postgres_resolve hex_decode demo_keys_db 2 =
     Inr \<lparr>rk_algo = ''ed25519'', rk_public_key = [], rk_subject = Account 1 2\<rparr> \<and>
   active_tables 2 demo_keys_db = 1 \<and> postgres_resolve hex_decode demo_keys_db 3 = Inl NotFound"
proof -
  have r: "postgres_resolve hex_decode demo_keys_db 2 =
     Inr \<lparr>rk_algo = ''ed25519'', rk_public_key = [], rk_subject = Account 1 2\<rparr>"
    by (simp add: postgres_resolve_def probe_def active_key_def any_key_def ACTIVE_STATUS_def
        demo_keys_db_def empty_db_def Let_def)
  have z: "active_tables 3 demo_keys_db = 0"
    by (simp add: active_tables_def active_key_def demo_keys_db_def empty_db_def)
  show ?thesis
    using r resolve_exactly_one_active [of hex_decode demo_keys_db 2]
      resolve_exactly_one_active [of hex_decode demo_keys_db 3 undefined] z
    by (auto simp: demo_keys_db_def empty_db_def)
qed



end
