(* ===== verification/Article_Store.thy ===== *)
theory Article_Store
  imports Database
begin

text \<open>
  \<open>PgArticleRepo\<close> (\<open>headlines-store/src/repo/articles.rs\<close>): publishing, reading, editing,
  tombstoning and redacting articles over the four article tables. The invariant
  \<open>articles_ok\<close> ties the tables together, and every transaction keeps it.
\<close>

subsection \<open>Domain types\<close>

datatype article_state = Live | Tombstone

record article_summary =
  as_id :: uuid
  as_account_id :: uuid
  as_state :: article_state
  as_created_at :: timestamp
  as_current_version :: "int option"
  as_title :: "string option"
  as_author_name :: "string option"
  as_author_url :: "string option"
  as_redacted :: bool
  as_published_at :: "timestamp option"
  as_updated_at :: "timestamp option"
  as_tombstone_reason :: "string option"
  as_tombstoned_at :: "timestamp option"

record article =
  a_summary :: article_summary
  a_content :: "json option"

record new_article =
  na_id :: uuid
  na_account_id :: uuid
  na_title :: string
  na_author_name :: string
  na_author_url :: string
  na_content :: json

record article_edit =
  ae_title :: "string option"
  ae_author_name :: "string option"
  ae_author_url :: "string option"
  ae_content :: "json option"

subsection \<open>Reading\<close>

definition parse_state :: "string \<Rightarrow> article_state res" where
  "parse_state raw =
     (if raw = ''live'' then Inr Live
      else if raw = ''tombstone'' then Inr Tombstone
      else Inl (Internal (''unknown articles.state value in DB: '' @ raw)))"

definition version_to_summary_pieces ::
  "article_version_row \<Rightarrow> int option \<times> string \<times> string \<times> string \<times> bool" where
  "version_to_summary_pieces v =
     (Some (av_version v), av_title v, unwrap_or [] (av_author_name v),
      unwrap_or [] (av_author_url v), av_redacted_at v \<noteq> None)"

definition live_summary ::
  "article_row \<Rightarrow> article_live_row \<Rightarrow> article_version_row \<Rightarrow> article_summary" where
  "live_summary a live v =
     (let (cv, title, author_name, author_url, redacted) = version_to_summary_pieces v
      in \<lparr>as_id = ar_id a, as_account_id = ar_account_id a, as_state = Live,
          as_created_at = ar_created_at a, as_current_version = cv, as_title = Some title,
          as_author_name = Some author_name, as_author_url = Some author_url,
          as_redacted = redacted, as_published_at = Some (al_published_at live),
          as_updated_at = Some (al_updated_at live), as_tombstone_reason = None,
          as_tombstoned_at = None\<rparr>)"

definition tombstone_summary :: "article_row \<Rightarrow> article_tombstone_row \<Rightarrow> article_summary" where
  "tombstone_summary a tomb =
     \<lparr>as_id = ar_id a, as_account_id = ar_account_id a, as_state = Tombstone,
      as_created_at = ar_created_at a, as_current_version = None, as_title = None,
      as_author_name = None, as_author_url = None, as_redacted = False, as_published_at = None,
      as_updated_at = None, as_tombstone_reason = at_reason tomb,
      as_tombstoned_at = Some (at_tombstoned_at tomb)\<rparr>"

definition article_get :: "uuid \<Rightarrow> db \<Rightarrow> article res" where
  "article_get aid d =
     try_res (ok_or (ArticleNotFound aid) (lookup ar_id aid (articles d))) (\<lambda>a.
     try_res (parse_state (ar_state a)) (\<lambda>state.
     case state of
       Live \<Rightarrow>
         try_res (ok_or (Internal ''select articles_live for live article'')
             (lookup al_article_id aid (articles_live d))) (\<lambda>live.
         try_res (ok_or (Internal ''select current article_versions'')
             (lookup av_key (aid, al_current_version live) (article_versions d))) (\<lambda>version.
         Inr \<lparr>a_summary = live_summary a live version, a_content = av_content version\<rparr>))
     | Tombstone \<Rightarrow>
         try_res (ok_or (Internal ''select articles_tombstone'')
             (lookup at_article_id aid (articles_tombstone d))) (\<lambda>tomb.
         Inr \<lparr>a_summary = tombstone_summary a tomb, a_content = None\<rparr>)))"

subsection \<open>Writing\<close>

text \<open>
  The repositories read the clock once per call; it is the argument \<open>now\<close>. Every writing
  operation ends by reading the article back.
\<close>

definition publish_tx :: "timestamp \<Rightarrow> new_article \<Rightarrow> db \<Rightarrow> headlines_error + (unit \<times> db)" where
  "publish_tx now new d0 =
     try_res (insert_article \<lparr>ar_id = na_id new, ar_account_id = na_account_id new,
         ar_state = ''live'', ar_created_at = now\<rparr> d0) (\<lambda>d1.
     try_res (insert_article_live \<lparr>al_article_id = na_id new, al_current_version = 1,
         al_published_at = now, al_updated_at = now\<rparr> d1) (\<lambda>d2.
     try_res (insert_article_version ''insert article_versions'' \<lparr>av_article_id = na_id new,
         av_version = 1, av_title = na_title new,
         av_author_name = null_if_empty (na_author_name new),
         av_author_url = null_if_empty (na_author_url new), av_content = Some (na_content new),
         av_redacted_at = None, av_redaction_reason = None, av_created_at = now\<rparr> d2) (\<lambda>d3.
     Inr ((), d3))))"

definition article_publish :: "timestamp \<Rightarrow> new_article \<Rightarrow> db \<Rightarrow> article res \<times> db" where
  "article_publish now new d =
     transaction (publish_tx now new) d (\<lambda>_ d'. (article_get (na_id new) d', d'))"

text \<open>\<open>Option::or\<close>.\<close>

definition or_else :: "'a option \<Rightarrow> 'a option \<Rightarrow> 'a option" where
  "or_else m n = (case m of None \<Rightarrow> n | Some x \<Rightarrow> Some x)"

definition edit_tx :: "timestamp \<Rightarrow> uuid \<Rightarrow> article_edit \<Rightarrow> db \<Rightarrow> headlines_error + (unit \<times> db)" where
  "edit_tx now aid edit d =
     try_res (ok_or (ArticleNotFound aid) (lookup ar_id aid (articles d))) (\<lambda>a.
     if ar_state a = ''tombstone'' then Inl (ArticleTombstoned aid)
     else
       try_res (ok_or (Internal ''select articles_live'')
           (lookup al_article_id aid (articles_live d))) (\<lambda>live.
       try_res (ok_or (Internal ''select current article_versions'')
           (lookup av_key (aid, al_current_version live) (article_versions d))) (\<lambda>cur_version.
       let title = unwrap_or (av_title cur_version) (ae_title edit);
           author_name = unwrap_or [] (or_else (ae_author_name edit) (av_author_name cur_version));
           author_url = unwrap_or [] (or_else (ae_author_url edit) (av_author_url cur_version));
           content = unwrap_or (JArr []) (or_else (ae_content edit) (av_content cur_version));
           next_v = wrap_i32 (al_current_version live + 1)
       in try_res (insert_article_version ''insert next article_versions'' \<lparr>av_article_id = aid,
              av_version = next_v, av_title = title, av_author_name = null_if_empty author_name,
              av_author_url = null_if_empty author_url, av_content = Some content,
              av_redacted_at = None, av_redaction_reason = None, av_created_at = now\<rparr> d) (\<lambda>d1.
          Inr ((), d1\<lparr>articles_live := update_row al_article_id aid
              (\<lambda>r. r\<lparr>al_current_version := next_v, al_updated_at := now\<rparr>) (articles_live d1)\<rparr>)))))"

definition article_edit_op :: "timestamp \<Rightarrow> uuid \<Rightarrow> article_edit \<Rightarrow> db \<Rightarrow> article res \<times> db" where
  "article_edit_op now aid edit d =
     transaction (edit_tx now aid edit) d (\<lambda>_ d'. (article_get aid d', d'))"

definition tombstone_tx :: "timestamp \<Rightarrow> uuid \<Rightarrow> string option \<Rightarrow> db \<Rightarrow> headlines_error + (unit \<times> db)" where
  "tombstone_tx now aid rsn d =
     try_res (ok_or (ArticleNotFound aid) (lookup ar_id aid (articles d))) (\<lambda>a.
     if ar_state a = ''tombstone'' then Inl (ArticleTombstoned aid)
     else
       let d1 = d\<lparr>articles := update_row ar_id aid (\<lambda>r. r\<lparr>ar_state := ''tombstone''\<rparr>) (articles d)\<rparr>
       in try_res (insert_article_tombstone \<lparr>at_article_id = aid, at_reason = rsn,
              at_tombstoned_at = now\<rparr> d1) (\<lambda>d2.
          Inr ((), d2\<lparr>articles_live := delete_row al_article_id aid (articles_live d2)\<rparr>)))"

definition article_tombstone_op :: "timestamp \<Rightarrow> uuid \<Rightarrow> string option \<Rightarrow> db \<Rightarrow> article res \<times> db" where
  "article_tombstone_op now aid rsn d =
     transaction (tombstone_tx now aid rsn) d (\<lambda>_ d'. (article_get aid d', d'))"

definition redacted_row :: "timestamp \<Rightarrow> string \<Rightarrow> article_version_row \<Rightarrow> article_version_row" where
  "redacted_row now rsn r =
     r\<lparr>av_content := None, av_redacted_at := Some now, av_redaction_reason := Some rsn\<rparr>"

definition redact_tx :: "timestamp \<Rightarrow> uuid \<Rightarrow> int \<Rightarrow> string \<Rightarrow> db \<Rightarrow> headlines_error + (unit \<times> db)" where
  "redact_tx now aid v rsn d =
     try_res (ok_or (ArticleNotFound aid) (lookup ar_id aid (articles d))) (\<lambda>a.
     try_res (ok_or (VersionNotFound aid v) (lookup av_key (aid, v) (article_versions d))) (\<lambda>row.
     if av_redacted_at row \<noteq> None then Inl (VersionAlreadyRedacted aid v)
     else
       let d1 = d\<lparr>article_versions := update_row av_key (aid, v) (redacted_row now rsn)
             (article_versions d)\<rparr>
       in if ar_state a = ''live'' then
            try_res (ok_or (Internal ''select articles_live for redact bump'')
                (lookup al_article_id aid (articles_live d1))) (\<lambda>live.
            if al_current_version live = v
            then Inr ((), d1\<lparr>articles_live := update_row al_article_id aid
                   (\<lambda>r. r\<lparr>al_updated_at := now\<rparr>) (articles_live d1)\<rparr>)
            else Inr ((), d1))
          else Inr ((), d1)))"

definition article_redact_version :: "timestamp \<Rightarrow> uuid \<Rightarrow> int \<Rightarrow> string \<Rightarrow> db \<Rightarrow> unit res \<times> db" where
  "article_redact_version now aid v rsn d =
     transaction (redact_tx now aid v rsn) d (\<lambda>_ d'. (Inr (), d'))"

subsection \<open>The invariant of the article tables\<close>

text \<open>
  Every article is in exactly one of the two state tables, the one its state names; its
  versions are numbered from 1 without gaps; a live article points at its newest version;
  nothing belongs to an article that does not exist.
\<close>

definition article_ok :: "uuid \<Rightarrow> db \<Rightarrow> bool" where
  "article_ok aid d \<longleftrightarrow>
     (case lookup ar_id aid (articles d) of
        None \<Rightarrow>
          lookup al_article_id aid (articles_live d) = None \<and>
          lookup at_article_id aid (articles_tombstone d) = None \<and>
          (\<forall>v. lookup av_key (aid, v) (article_versions d) = None)
      | Some a \<Rightarrow>
          \<exists>n. 1 \<le> n \<and> n < 2 ^ 31 \<and>
            (\<forall>v. lookup av_key (aid, v) (article_versions d) \<noteq> None \<longleftrightarrow> 1 \<le> v \<and> v \<le> n) \<and>
            (ar_state a = ''live'' \<and> lookup at_article_id aid (articles_tombstone d) = None \<and>
               (\<exists>l. lookup al_article_id aid (articles_live d) = Some l \<and> al_current_version l = n) \<or>
             ar_state a = ''tombstone'' \<and> lookup al_article_id aid (articles_live d) = None \<and>
               lookup at_article_id aid (articles_tombstone d) \<noteq> None))"

text \<open>A version's content is gone exactly when it has been redacted.\<close>

definition redaction_ok :: "db \<Rightarrow> bool" where
  "redaction_ok d \<longleftrightarrow>
     (\<forall>k r. lookup av_key k (article_versions d) = Some r \<longrightarrow>
        (av_content r = None \<longleftrightarrow> av_redacted_at r \<noteq> None))"

definition articles_ok :: "db \<Rightarrow> bool" where
  "articles_ok d \<longleftrightarrow>
     pk ar_id (articles d) \<and> pk al_article_id (articles_live d) \<and>
     pk at_article_id (articles_tombstone d) \<and> pk av_key (article_versions d) \<and>
     redaction_ok d \<and> (\<forall>aid. article_ok aid d)"

lemma articles_ok_empty: "articles_ok empty_db"
  by (simp add: articles_ok_def empty_db_def article_ok_def redaction_ok_def)

text \<open>An operation on one article leaves the others alone.\<close>

lemma article_ok_frame:
  assumes "article_ok aid d"
    and "lookup ar_id aid (articles d') = lookup ar_id aid (articles d)"
    and "lookup al_article_id aid (articles_live d') = lookup al_article_id aid (articles_live d)"
    and "lookup at_article_id aid (articles_tombstone d') = lookup at_article_id aid (articles_tombstone d)"
    and "\<And>v. lookup av_key (aid, v) (article_versions d') = lookup av_key (aid, v) (article_versions d)"
  shows "article_ok aid d'"
  using assms(1) unfolding article_ok_def assms(2-5) .

lemma article_okD_live:
  assumes "article_ok aid d" "lookup ar_id aid (articles d) = Some a" "ar_state a \<noteq> ''tombstone''"
  obtains l where "ar_state a = ''live''" "lookup al_article_id aid (articles_live d) = Some l"
    "lookup at_article_id aid (articles_tombstone d) = None"
    "1 \<le> al_current_version l" "al_current_version l < 2 ^ 31"
    "\<And>v. lookup av_key (aid, v) (article_versions d) \<noteq> None \<longleftrightarrow> 1 \<le> v \<and> v \<le> al_current_version l"
  using assms by (auto simp: article_ok_def)

lemma articles_okD: "articles_ok d \<Longrightarrow> article_ok aid d"
  by (simp add: articles_ok_def)

subsection \<open>What the transactions do\<close>

lemma publish_tx_Inr:
  "publish_tx now new d = Inr (u, d') \<longleftrightarrow>
   lookup ac_id (na_account_id new) (accounts d) \<noteq> None \<and>
   lookup ar_id (na_id new) (articles d) = None \<and>
   lookup al_article_id (na_id new) (articles_live d) = None \<and>
   lookup av_key (na_id new, 1) (article_versions d) = None \<and>
   d' = d\<lparr>articles := articles d @ [\<lparr>ar_id = na_id new, ar_account_id = na_account_id new,
            ar_state = ''live'', ar_created_at = now\<rparr>],
          articles_live := articles_live d @ [\<lparr>al_article_id = na_id new, al_current_version = 1,
            al_published_at = now, al_updated_at = now\<rparr>],
          article_versions := article_versions d @ [\<lparr>av_article_id = na_id new, av_version = 1,
            av_title = na_title new, av_author_name = null_if_empty (na_author_name new),
            av_author_url = null_if_empty (na_author_url new), av_content = Some (na_content new),
            av_redacted_at = None, av_redaction_reason = None, av_created_at = now\<rparr>]\<rparr>"
  by (auto simp: publish_tx_def try_res_Inr insert_Inr lookup_append lookup_Cons av_key_def
      split: option.splits)

text \<open>The version an edit adds on top of the current one.\<close>

definition edited_version ::
  "timestamp \<Rightarrow> article_edit \<Rightarrow> article_version_row \<Rightarrow> article_version_row" where
  "edited_version now edit cur =
     \<lparr>av_article_id = av_article_id cur, av_version = av_version cur + 1,
      av_title = unwrap_or (av_title cur) (ae_title edit),
      av_author_name = null_if_empty (unwrap_or [] (or_else (ae_author_name edit) (av_author_name cur))),
      av_author_url = null_if_empty (unwrap_or [] (or_else (ae_author_url edit) (av_author_url cur))),
      av_content = Some (unwrap_or (JArr []) (or_else (ae_content edit) (av_content cur))),
      av_redacted_at = None, av_redaction_reason = None, av_created_at = now\<rparr>"

lemma edit_tx_Inr:
  assumes "article_ok aid d"
  shows "edit_tx now aid edit d = Inr (u, d') \<longleftrightarrow>
    (\<exists>a l cur. lookup ar_id aid (articles d) = Some a \<and> ar_state a = ''live'' \<and>
       lookup al_article_id aid (articles_live d) = Some l \<and> al_current_version l < 2 ^ 31 - 1 \<and>
       lookup av_key (aid, al_current_version l) (article_versions d) = Some cur \<and>
       d' = d\<lparr>article_versions := article_versions d @ [edited_version now edit cur],
              articles_live := update_row al_article_id aid
                (\<lambda>r. r\<lparr>al_current_version := al_current_version l + 1, al_updated_at := now\<rparr>)
                (articles_live d)\<rparr>)"
proof (cases "lookup ar_id aid (articles d)")
  case None
  then show ?thesis by (simp add: edit_tx_def)
next
  case (Some a)
  show ?thesis
  proof (cases "ar_state a = ''tombstone''")
    case True
    with Some show ?thesis by (simp add: edit_tx_def)
  next
    case False
    from article_okD_live [OF assms Some False] obtain l where
      l: "ar_state a = ''live''" "lookup al_article_id aid (articles_live d) = Some l"
        "1 \<le> al_current_version l" "al_current_version l < 2 ^ 31" and
      vs: "\<And>v. lookup av_key (aid, v) (article_versions d) \<noteq> None \<longleftrightarrow>
        1 \<le> v \<and> v \<le> al_current_version l"
      by metis
    from vs [of "al_current_version l"] l obtain cur where
      cur: "lookup av_key (aid, al_current_version l) (article_versions d) = Some cur"
      by auto
    have ck: "av_article_id cur = aid" "av_version cur = al_current_version l"
      using lookup_SomeD [OF cur] by (auto simp: av_key_def)
    have fresh: "lookup av_key (aid, al_current_version l + 1) (article_versions d) = None"
      using vs [of "al_current_version l + 1"] by auto
    show ?thesis
    proof (cases "al_current_version l = 2 ^ 31 - 1")
      case True
      then have "wrap_i32 (al_current_version l + 1) = - (2 ^ 31)"
        by (simp add: wrap_i32_def)
      with Some l cur True show ?thesis
        by (auto simp: edit_tx_def Let_def try_res_Inr insert_Inr)
    next
      case no_wrap: False
      with l have w: "wrap_i32 (al_current_version l + 1) = al_current_version l + 1"
        by (intro wrap_i32_id) auto
      from no_wrap l have "al_current_version l < 2 ^ 31 - 1"
        by simp
      with Some l cur ck fresh show ?thesis
        by (auto simp: edit_tx_def Let_def try_res_Inr insert_Inr w edited_version_def av_key_def)
    qed
  qed
qed

lemma tombstone_tx_Inr:
  assumes "article_ok aid d"
  shows "tombstone_tx now aid rsn d = Inr (u, d') \<longleftrightarrow>
    (\<exists>a. lookup ar_id aid (articles d) = Some a \<and> ar_state a = ''live'' \<and>
       d' = d\<lparr>articles := update_row ar_id aid (\<lambda>r. r\<lparr>ar_state := ''tombstone''\<rparr>) (articles d),
              articles_tombstone := articles_tombstone d @
                [\<lparr>at_article_id = aid, at_reason = rsn, at_tombstoned_at = now\<rparr>],
              articles_live := delete_row al_article_id aid (articles_live d)\<rparr>)"
proof (cases "lookup ar_id aid (articles d)")
  case None
  then show ?thesis by (simp add: tombstone_tx_def)
next
  case (Some a)
  show ?thesis
  proof (cases "ar_state a = ''tombstone''")
    case True
    with Some show ?thesis by (simp add: tombstone_tx_def)
  next
    case False
    from article_okD_live [OF assms Some False]
    have "ar_state a = ''live''" "lookup at_article_id aid (articles_tombstone d) = None"
      by metis+
    with Some show ?thesis
      by (auto simp: tombstone_tx_def Let_def try_res_Inr insert_Inr lookup_update_row)
  qed
qed

lemma redacted_row_key [simp]: "av_key (redacted_row now rsn r) = av_key r"
  by (simp add: redacted_row_def av_key_def)

definition bump_live :: "timestamp \<Rightarrow> uuid \<Rightarrow> int \<Rightarrow> article_live_row list \<Rightarrow> article_live_row list" where
  "bump_live now aid v t =
     (case lookup al_article_id aid t of
        Some l \<Rightarrow> if al_current_version l = v
                  then update_row al_article_id aid (\<lambda>r. r\<lparr>al_updated_at := now\<rparr>) t else t
      | None \<Rightarrow> t)"

lemma redact_tx_Inr:
  assumes "article_ok aid d"
  shows "redact_tx now aid v rsn d = Inr (u, d') \<longleftrightarrow>
    (\<exists>a row. lookup ar_id aid (articles d) = Some a \<and>
       lookup av_key (aid, v) (article_versions d) = Some row \<and> av_redacted_at row = None \<and>
       d' = d\<lparr>article_versions := update_row av_key (aid, v) (redacted_row now rsn) (article_versions d),
              articles_live := bump_live now aid v (articles_live d)\<rparr>)"
proof (cases "lookup ar_id aid (articles d)")
  case None
  then show ?thesis by (simp add: redact_tx_def)
next
  case (Some a)
  have st: "ar_state a = ''live'' \<and> lookup al_article_id aid (articles_live d) \<noteq> None \<or>
      ar_state a = ''tombstone'' \<and> lookup al_article_id aid (articles_live d) = None"
    using assms Some by (auto simp: article_ok_def)
  show ?thesis
  proof (cases "ar_state a = ''live''")
    case True
    with st obtain l where l: "lookup al_article_id aid (articles_live d) = Some l"
      by auto
    with Some True show ?thesis
      by (cases "lookup av_key (aid, v) (article_versions d)")
        (auto simp: redact_tx_def Let_def bump_live_def)
  next
    case False
    with st have "lookup al_article_id aid (articles_live d) = None"
      by auto
    with Some False show ?thesis
      by (cases "lookup av_key (aid, v) (article_versions d)")
        (auto simp: redact_tx_def Let_def bump_live_def)
  qed
qed

subsection \<open>The invariant is kept\<close>

lemma lookup_snoc_other: "key r \<noteq> k \<Longrightarrow> lookup key k (t @ [r]) = lookup key k t"
  by (auto simp: lookup_append lookup_Cons split: option.splits)

lemma lookup_update_other: "(\<And>r. key (f r) = key r) \<Longrightarrow> k \<noteq> k' \<Longrightarrow>
    lookup key k (update_row key k' f t) = lookup key k t"
  by (simp add: lookup_update_row)

lemma redaction_ok_snoc':
  assumes "redaction_ok d" "article_versions d' = article_versions d @ [r]"
    and "lookup av_key (av_key r) (article_versions d) = None"
    and "av_content r = None \<longleftrightarrow> av_redacted_at r \<noteq> None"
  shows "redaction_ok d'"
  unfolding redaction_ok_def assms(2) lookup_snoc [OF assms(3)]
  using assms(1,4) by (simp add: redaction_ok_def)

lemma lookup_update_None:
  "(\<And>r. key (f r) = key r) \<Longrightarrow>
   lookup key k (update_row key k' f t) = None \<longleftrightarrow> lookup key k t = None"
  by (simp add: lookup_update_row)

lemma publish_tx_ok:
  assumes ok: "articles_ok d" and tx: "publish_tx now new d = Inr (u, d')"
  shows "articles_ok d'"
proof -
  note d' = tx [unfolded publish_tx_Inr]
  from ok have none: "article_ok (na_id new) d"
    by (rule articles_okD)
  with d' have fresh: "lookup at_article_id (na_id new) (articles_tombstone d) = None"
    "\<And>v. lookup av_key (na_id new, v) (article_versions d) = None"
    by (auto simp: article_ok_def)
  have "article_ok aid d'" for aid
  proof (cases "aid = na_id new")
    case True
    with d' fresh show ?thesis
      by (auto simp: article_ok_def lookup_append lookup_Cons av_key_def
          intro!: exI [of _ 1] split: option.splits)
  next
    case False
    with articles_okD [OF ok, of aid] d' show ?thesis
      by (elim article_ok_frame) (auto simp: lookup_snoc_other av_key_def)
  qed
  moreover have "redaction_ok d'"
    by (rule redaction_ok_snoc' [of d]) (use ok d' in \<open>auto simp: articles_ok_def av_key_def\<close>)
  ultimately show ?thesis
    using ok d' fresh by (auto simp: articles_ok_def av_key_def intro!: pk_snoc)
qed

lemma edit_tx_ok:
  assumes ok: "articles_ok d" and tx: "edit_tx now aid edit d = Inr (u, d')"
  shows "articles_ok d'"
proof -
  from tx [unfolded edit_tx_Inr [OF articles_okD [OF ok]]] obtain a l cur where
    a: "lookup ar_id aid (articles d) = Some a" "ar_state a = ''live''" and
    l: "lookup al_article_id aid (articles_live d) = Some l" "al_current_version l < 2 ^ 31 - 1" and
    cur: "lookup av_key (aid, al_current_version l) (article_versions d) = Some cur" and
    d': "d' = d\<lparr>article_versions := article_versions d @ [edited_version now edit cur],
      articles_live := update_row al_article_id aid
        (\<lambda>r. r\<lparr>al_current_version := al_current_version l + 1, al_updated_at := now\<rparr>) (articles_live d)\<rparr>"
    by blast
  from article_okD_live [OF articles_okD [OF ok] a(1)] a(2) l(1) have
    vs: "\<And>v. lookup av_key (aid, v) (article_versions d) \<noteq> None \<longleftrightarrow> 1 \<le> v \<and> v \<le> al_current_version l"
    and tomb: "lookup at_article_id aid (articles_tombstone d) = None" and ge: "1 \<le> al_current_version l"
    by (auto elim!: article_okD_live [OF articles_okD [OF ok] a(1)])
  have key: "av_key (edited_version now edit cur) = (aid, al_current_version l + 1)"
    using lookup_SomeD [OF cur] by (simp add: av_key_def edited_version_def)
  have fresh: "lookup av_key (av_key (edited_version now edit cur)) (article_versions d) = None"
    using vs [of "al_current_version l + 1"] key by auto
  have "article_ok b d'" for b
  proof (cases "b = aid")
    case True
    have "lookup av_key (aid, v) (article_versions d') \<noteq> None \<longleftrightarrow>
        1 \<le> v \<and> v \<le> al_current_version l + 1" for v
      using vs [of v] ge by (auto simp: d' lookup_snoc [OF fresh] key)
    with True a l tomb ge show ?thesis
      by (auto simp: article_ok_def d' lookup_update_row intro!: exI [of _ "al_current_version l + 1"])
  next
    case False
    with articles_okD [OF ok, of b] show ?thesis
      by (elim article_ok_frame) (auto simp: d' lookup_snoc [OF fresh] key lookup_update_other)
  qed
  moreover have "redaction_ok d'"
    by (rule redaction_ok_snoc' [of d _ "edited_version now edit cur"])
      (use ok fresh in \<open>auto simp: articles_ok_def d' edited_version_def\<close>)
  ultimately show ?thesis
    using ok fresh by (auto simp: articles_ok_def d' pk_update_row intro!: pk_snoc)
qed

lemma tombstone_tx_ok:
  assumes ok: "articles_ok d" and tx: "tombstone_tx now aid rsn d = Inr (u, d')"
  shows "articles_ok d'"
proof -
  from tx [unfolded tombstone_tx_Inr [OF articles_okD [OF ok]]] obtain a where
    a: "lookup ar_id aid (articles d) = Some a" "ar_state a = ''live''" and
    d': "d' = d\<lparr>articles := update_row ar_id aid (\<lambda>r. r\<lparr>ar_state := ''tombstone''\<rparr>) (articles d),
      articles_tombstone := articles_tombstone d @
        [\<lparr>at_article_id = aid, at_reason = rsn, at_tombstoned_at = now\<rparr>],
      articles_live := delete_row al_article_id aid (articles_live d)\<rparr>"
    by blast
  have tomb: "lookup at_article_id aid (articles_tombstone d) = None"
    using articles_okD [OF ok, of aid] a by (auto simp: article_ok_def)
  have "article_ok b d'" for b
  proof (cases "b = aid")
    case True
    with articles_okD [OF ok, of aid] a tomb show ?thesis
      by (auto simp: article_ok_def d' lookup_update_row lookup_append lookup_Cons)
  next
    case False
    with articles_okD [OF ok, of b] show ?thesis
      by (elim article_ok_frame) (auto simp: d' lookup_snoc_other lookup_update_other)
  qed
  moreover have "redaction_ok d'"
    using ok by (auto simp: articles_ok_def d' redaction_ok_def)
  ultimately show ?thesis
    using ok tomb by (auto simp: articles_ok_def d' pk_update_row intro!: pk_snoc pk_delete_row)
qed

lemma lookup_bump_live:
  "lookup al_article_id b (bump_live now aid v t) =
   (case lookup al_article_id b t of None \<Rightarrow> None
    | Some l \<Rightarrow> Some (if b = aid \<and> al_current_version l = v then l\<lparr>al_updated_at := now\<rparr> else l))"
  by (auto simp: bump_live_def lookup_update_row split: option.splits)

lemma pk_bump_live: "pk al_article_id (bump_live now aid v t) = pk al_article_id t"
  by (auto simp: bump_live_def pk_update_row split: option.splits)

lemma redact_tx_ok:
  assumes ok: "articles_ok d" and tx: "redact_tx now aid v rsn d = Inr (u, d')"
  shows "articles_ok d'"
proof -
  from tx [unfolded redact_tx_Inr [OF articles_okD [OF ok]]] have
    d': "d' = d\<lparr>article_versions := update_row av_key (aid, v) (redacted_row now rsn) (article_versions d),
      articles_live := bump_live now aid v (articles_live d)\<rparr>"
    by blast
  have "article_ok b d'" for b
    using articles_okD [OF ok, of b]
    unfolding article_ok_def d' by (auto simp: lookup_update_None lookup_bump_live split: option.splits)
  moreover have "redaction_ok d'"
    using ok by (auto simp: articles_ok_def redaction_ok_def d' lookup_update_row redacted_row_def
        av_key_def split: if_splits)
  ultimately show ?thesis
    using ok by (auto simp: articles_ok_def d' pk_update_row pk_bump_live)
qed

end
