(* ===== verification/Article_Refinement.thy ===== *)
theory Article_Refinement
  imports Article_Store
begin

text \<open>
  The meaning of the article tables and the refinement: \<open>abs_article\<close> reads the four
  tables as one article with its list of versions, and every operation of
  \<open>PgArticleRepo\<close> is shown to implement its abstract counterpart on every branch.
\<close>

subsection \<open>The abstract article\<close>

text \<open>
  What the four tables mean: an article belongs to an account, has a list of versions,
  whose content may have been redacted, and may carry a tombstone with a reason.
\<close>

record aversion =
  vn_title :: string
  vn_author_name :: string
  vn_author_url :: string
  vn_content :: "json option"

record aarticle =
  aa_account :: uuid
  aa_versions :: "aversion list"
  aa_tomb :: "string option option"

definition abs_version :: "article_version_row \<Rightarrow> aversion" where
  "abs_version r = \<lparr>vn_title = av_title r, vn_author_name = unwrap_or [] (av_author_name r),
     vn_author_url = unwrap_or [] (av_author_url r), vn_content = av_content r\<rparr>"

definition num_versions :: "uuid \<Rightarrow> article_version_row list \<Rightarrow> nat" where
  "num_versions aid t = length (filter (\<lambda>r. av_article_id r = aid) t)"

definition abs_versions :: "uuid \<Rightarrow> article_version_row list \<Rightarrow> aversion list" where
  "abs_versions aid t =
     map (\<lambda>i. abs_version (the (lookup av_key (aid, int i) t))) [1..<Suc (num_versions aid t)]"

definition abs_article :: "db \<Rightarrow> uuid \<rightharpoonup> aarticle" where
  "abs_article d aid =
     (case lookup ar_id aid (articles d) of
        None \<Rightarrow> None
      | Some a \<Rightarrow> Some \<lparr>aa_account = ar_account_id a,
          aa_versions = abs_versions aid (article_versions d),
          aa_tomb = map_option at_reason (lookup at_article_id aid (articles_tombstone d))\<rparr>)"

text \<open>The fields of an edit override the newest version; a redacted content becomes empty.\<close>

definition apply_edit :: "article_edit \<Rightarrow> aversion \<Rightarrow> aversion" where
  "apply_edit edit v = \<lparr>vn_title = unwrap_or (vn_title v) (ae_title edit),
     vn_author_name = unwrap_or (vn_author_name v) (ae_author_name edit),
     vn_author_url = unwrap_or (vn_author_url v) (ae_author_url edit),
     vn_content = Some (unwrap_or (JArr []) (or_else (ae_content edit) (vn_content v)))\<rparr>"

text \<open>What a reader is shown of an abstract article.\<close>

definition shows_article :: "uuid \<Rightarrow> aarticle \<Rightarrow> article \<Rightarrow> bool" where
  "shows_article aid A a \<longleftrightarrow>
     as_id (a_summary a) = aid \<and> as_account_id (a_summary a) = aa_account A \<and>
     (case aa_tomb A of
        None \<Rightarrow>
          let v = last (aa_versions A)
          in as_state (a_summary a) = Live \<and>
             as_current_version (a_summary a) = Some (int (length (aa_versions A))) \<and>
             as_title (a_summary a) = Some (vn_title v) \<and>
             as_author_name (a_summary a) = Some (vn_author_name v) \<and>
             as_author_url (a_summary a) = Some (vn_author_url v) \<and>
             a_content a = vn_content v \<and> (as_redacted (a_summary a) \<longleftrightarrow> vn_content v = None)
      | Some r \<Rightarrow>
          as_state (a_summary a) = Tombstone \<and> as_tombstone_reason (a_summary a) = r \<and>
          as_title (a_summary a) = None \<and> as_current_version (a_summary a) = None \<and>
          a_content a = None)"

lemma num_versions_contiguous:
  assumes "pk av_key t" "\<And>v. lookup av_key (aid, v) t \<noteq> None \<longleftrightarrow> 1 \<le> v \<and> v \<le> n" "0 \<le> n"
  shows "num_versions aid t = nat n"
proof -
  let ?f = "filter (\<lambda>r. av_article_id r = aid) t"
  have dist: "distinct (map av_version ?f)"
  proof -
    have "distinct (map av_key ?f)"
      using assms(1) by (simp add: pk_def distinct_map_filter)
    moreover have "map av_key ?f = map (Pair aid) (map av_version ?f)"
      by (auto simp: av_key_def)
    ultimately show ?thesis
      by (metis distinct_map)
  qed
  have "v \<in> av_version ` set ?f \<longleftrightarrow> lookup av_key (aid, v) t \<noteq> None" for v
    by (auto simp: lookup_None av_key_def)
  then have "set (map av_version ?f) = {1..n}"
    by (intro set_eqI) (simp only: set_map assms(2) atLeastAtMost_iff)
  then have "card {1..n} = length (map av_version ?f)"
    using distinct_card [OF dist] by metis
  then show ?thesis
    by (simp add: num_versions_def)
qed

lemma length_abs_versions [simp]: "length (abs_versions aid t) = num_versions aid t"
  by (simp add: abs_versions_def)

lemma abs_versions_nth:
  "i < num_versions aid t \<Longrightarrow>
   abs_versions aid t ! i = abs_version (the (lookup av_key (aid, int i + 1) t))"
  by (simp add: abs_versions_def nth_append add.commute del: upt_Suc)

lemma abs_versions_snoc:
  assumes "lookup av_key (av_key r) t = None" "av_article_id r = aid"
    and "av_version r = int (num_versions aid t) + 1"
  shows "abs_versions aid (t @ [r]) = abs_versions aid t @ [abs_version r]"
proof -
  have n: "num_versions aid (t @ [r]) = Suc (num_versions aid t)"
    using assms(2) by (simp add: num_versions_def)
  have k: "av_key r = (aid, int (num_versions aid t) + 1)"
    using assms(2,3) by (simp add: av_key_def)
  show ?thesis
  proof (rule nth_equalityI)
    show "length (abs_versions aid (t @ [r])) = length (abs_versions aid t @ [abs_version r])"
      by (simp add: n)
  next
    fix i
    assume "i < length (abs_versions aid (t @ [r]))"
    then show "abs_versions aid (t @ [r]) ! i = (abs_versions aid t @ [abs_version r]) ! i"
      by (auto simp: abs_versions_nth n nth_append lookup_snoc [OF assms(1)] k less_Suc_eq)
  qed
qed

lemma abs_versions_snoc_other:
  assumes "av_article_id r \<noteq> aid"
  shows "abs_versions aid (t @ [r]) = abs_versions aid t"
proof -
  have "num_versions aid (t @ [r]) = num_versions aid t"
    using assms by (simp add: num_versions_def)
  then show ?thesis
    using assms by (simp add: abs_versions_def lookup_snoc_other av_key_def del: upt_Suc)
qed

lemma num_versions_update:
  "(\<And>r. av_key (f r) = av_key r) \<Longrightarrow> num_versions aid (update_row av_key k f t) = num_versions aid t"
  by (induction t) (auto simp: num_versions_def update_row_def av_key_def)

lemmas lookup_redacted =
  lookup_update_row [of av_key "redacted_row now rsn" for now rsn, OF redacted_row_key]

lemma abs_version_redacted: "abs_version (redacted_row now rsn r) = (abs_version r)\<lparr>vn_content := None\<rparr>"
  by (simp add: abs_version_def redacted_row_def)

lemma abs_versions_redact:
  assumes "1 \<le> v" "v \<le> int (num_versions aid t)" "\<And>i. i < num_versions aid t \<Longrightarrow> lookup av_key (aid, int i + 1) t \<noteq> None"
  shows "abs_versions aid (update_row av_key (aid, v) (redacted_row now rsn) t) =
    (abs_versions aid t)[nat v - 1 := (abs_versions aid t ! (nat v - 1))\<lparr>vn_content := None\<rparr>]"
proof (rule nth_equalityI)
  let ?t = "update_row av_key (aid, v) (redacted_row now rsn) t"
  have n: "num_versions aid ?t = num_versions aid t"
    by (rule num_versions_update) simp
  then show "length (abs_versions aid ?t) =
      length ((abs_versions aid t)[nat v - 1 := (abs_versions aid t ! (nat v - 1))\<lparr>vn_content := None\<rparr>])"
    by simp
  fix i
  assume "i < length (abs_versions aid ?t)"
  then have i: "i < num_versions aid t"
    by (simp add: n)
  then obtain r where r: "lookup av_key (aid, int i + 1) t = Some r"
    using assms(3) by auto
  have "int i + 1 = v \<longleftrightarrow> i = nat v - 1"
    using assms(1) by auto
  with i r show "abs_versions aid ?t ! i =
      (abs_versions aid t)[nat v - 1 := (abs_versions aid t ! (nat v - 1))\<lparr>vn_content := None\<rparr>] ! i"
    by (auto simp: abs_versions_nth n lookup_redacted nth_list_update abs_version_redacted)
qed

lemma abs_versions_update_other:
  assumes "\<And>r. av_key (f r) = av_key r" "b \<noteq> aid"
  shows "abs_versions b (update_row av_key (aid, v) f t) = abs_versions b t"
  using assms by (simp add: abs_versions_def num_versions_update lookup_update_row del: upt_Suc)

subsection \<open>Each operation implements its abstract counterpart\<close>

text \<open>What the invariant says of an article that exists.\<close>

definition article_facts :: "db \<Rightarrow> uuid \<Rightarrow> aarticle \<Rightarrow> article_row \<Rightarrow> int \<Rightarrow> bool" where
  "article_facts d aid A a n \<longleftrightarrow>
     lookup ar_id aid (articles d) = Some a \<and> aa_account A = ar_account_id a \<and>
     aa_versions A = abs_versions aid (article_versions d) \<and>
     num_versions aid (article_versions d) = nat n \<and> 1 \<le> n \<and> n < 2 ^ 31 \<and>
     (\<forall>v. lookup av_key (aid, v) (article_versions d) \<noteq> None \<longleftrightarrow> 1 \<le> v \<and> v \<le> n) \<and>
     aa_tomb A = map_option at_reason (lookup at_article_id aid (articles_tombstone d)) \<and>
     (aa_tomb A = None \<and> ar_state a = ''live'' \<and>
       (\<exists>l. lookup al_article_id aid (articles_live d) = Some l \<and> al_current_version l = n) \<or>
      (\<exists>tomb. lookup at_article_id aid (articles_tombstone d) = Some tomb \<and> ar_state a = ''tombstone'' \<and>
       lookup al_article_id aid (articles_live d) = None))"

lemma abs_article_Some:
  assumes "articles_ok d" "abs_article d aid = Some A"
  obtains a n where "article_facts d aid A a n"
proof -
  from assms(2) obtain a where a: "lookup ar_id aid (articles d) = Some a"
    and A: "A = \<lparr>aa_account = ar_account_id a, aa_versions = abs_versions aid (article_versions d),
      aa_tomb = map_option at_reason (lookup at_article_id aid (articles_tombstone d))\<rparr>"
    by (auto simp: abs_article_def split: option.splits)
  from articles_okD [OF assms(1), of aid] a obtain n where n: "1 \<le> n" "n < 2 ^ 31"
    "\<And>v. lookup av_key (aid, v) (article_versions d) \<noteq> None \<longleftrightarrow> 1 \<le> v \<and> v \<le> n"
    and st: "ar_state a = ''live'' \<and> lookup at_article_id aid (articles_tombstone d) = None \<and>
       (\<exists>l. lookup al_article_id aid (articles_live d) = Some l \<and> al_current_version l = n) \<or>
       ar_state a = ''tombstone'' \<and> lookup al_article_id aid (articles_live d) = None \<and>
       lookup at_article_id aid (articles_tombstone d) \<noteq> None"
    unfolding article_ok_def a option.case by blast
  have "num_versions aid (article_versions d) = nat n"
    using assms(1) n by (intro num_versions_contiguous) (auto simp: articles_ok_def)
  with a A n st show thesis
    by (intro that [of a n]) (auto simp: article_facts_def)
qed

lemma abs_article_None: "abs_article d aid = None \<longleftrightarrow> lookup ar_id aid (articles d) = None"
  by (simp add: abs_article_def split: option.splits)

lemma abs_article_frame:
  assumes "lookup ar_id b (articles d') = lookup ar_id b (articles d)"
    and "lookup at_article_id b (articles_tombstone d') = lookup at_article_id b (articles_tombstone d)"
    and "abs_versions b (article_versions d') = abs_versions b (article_versions d)"
  shows "abs_article d' b = abs_article d b"
  unfolding abs_article_def assms ..

lemma last_abs_versions:
  assumes "num_versions aid t = nat n" "1 \<le> n"
  shows "last (abs_versions aid t) = abs_version (the (lookup av_key (aid, n) t))"
proof -
  have "abs_versions aid t \<noteq> []"
    using assms by (simp flip: length_greater_0_conv)
  then have "last (abs_versions aid t) = abs_versions aid t ! (nat n - 1)"
    using assms by (simp add: last_conv_nth)
  also have "\<dots> = abs_version (the (lookup av_key (aid, n) t))"
    using assms by (subst abs_versions_nth) auto
  finally show ?thesis .
qed

lemma article_get_abs:
  assumes "articles_ok d"
  shows "case abs_article d aid of
      None \<Rightarrow> article_get aid d = Inl (ArticleNotFound aid)
    | Some A \<Rightarrow> \<exists>a. article_get aid d = Inr a \<and> shows_article aid A a"
proof (cases "abs_article d aid")
  case None
  then have "lookup ar_id aid (articles d) = None"
    by (simp add: abs_article_None)
  with None show ?thesis
    by (simp add: article_get_def)
next
  case (Some A)
  obtain a n where f: "article_facts d aid A a n"
    using abs_article_Some [OF assms Some] by blast
  have a: "lookup ar_id aid (articles d) = Some a" "aa_account A = ar_account_id a"
    "aa_versions A = abs_versions aid (article_versions d)" "num_versions aid (article_versions d) = nat n"
    "1 \<le> n" and vs: "\<And>v. lookup av_key (aid, v) (article_versions d) \<noteq> None \<longleftrightarrow> 1 \<le> v \<and> v \<le> n"
    and t: "aa_tomb A = map_option at_reason (lookup at_article_id aid (articles_tombstone d))"
    and st: "aa_tomb A = None \<and> ar_state a = ''live'' \<and>
       (\<exists>l. lookup al_article_id aid (articles_live d) = Some l \<and> al_current_version l = n) \<or>
     (\<exists>tomb. lookup at_article_id aid (articles_tombstone d) = Some tomb \<and> ar_state a = ''tombstone'' \<and>
       lookup al_article_id aid (articles_live d) = None)"
    using f unfolding article_facts_def by blast+
  have aid: "ar_id a = aid"
    using lookup_SomeD [OF a(1)] by simp
  from st show ?thesis
  proof
    assume "aa_tomb A = None \<and> ar_state a = ''live'' \<and>
       (\<exists>l. lookup al_article_id aid (articles_live d) = Some l \<and> al_current_version l = n)"
    then obtain l where l: "aa_tomb A = None" "ar_state a = ''live''"
      "lookup al_article_id aid (articles_live d) = Some l" "al_current_version l = n"
      by auto
    obtain v where v: "lookup av_key (aid, n) (article_versions d) = Some v"
      using vs [of n] a(5) by auto
    have "av_version v = n"
      using lookup_SomeD [OF v] by (simp add: av_key_def)
    moreover have "av_content v = None \<longleftrightarrow> av_redacted_at v \<noteq> None"
      using assms v by (auto simp: articles_ok_def redaction_ok_def)
    moreover have "last (aa_versions A) = abs_version v"
      using last_abs_versions [OF a(4,5)] v a(3) by simp
    ultimately show ?thesis
      using Some a l v aid
      by (simp add: article_get_def parse_state_def shows_article_def live_summary_def
          version_to_summary_pieces_def abs_version_def Let_def)
  next
    assume "\<exists>tomb. lookup at_article_id aid (articles_tombstone d) = Some tomb \<and> ar_state a = ''tombstone'' \<and>
       lookup al_article_id aid (articles_live d) = None"
    with Some a t aid show ?thesis
      by (auto simp: article_get_def parse_state_def shows_article_def tombstone_summary_def)
  qed
qed

lemma article_get_Some:
  assumes "articles_ok d" "abs_article d aid = Some A"
  shows "\<exists>a. article_get aid d = Inr a \<and> shows_article aid A a"
  using article_get_abs [OF assms(1), of aid] assms(2) by simp

lemma article_get_published:
  assumes "publish_tx now new d = Inr (u, d')"
  shows "article_get (na_id new) d' = Inr \<lparr>a_summary =
      \<lparr>as_id = na_id new, as_account_id = na_account_id new, as_state = Live, as_created_at = now,
       as_current_version = Some 1, as_title = Some (na_title new),
       as_author_name = Some (na_author_name new), as_author_url = Some (na_author_url new),
       as_redacted = False, as_published_at = Some now, as_updated_at = Some now,
       as_tombstone_reason = None, as_tombstoned_at = None\<rparr>,
     a_content = Some (na_content new)\<rparr>"
  using assms unfolding publish_tx_Inr
  by (simp add: article_get_def lookup_snoc av_key_def parse_state_def live_summary_def
      version_to_summary_pieces_def)

lemma publish_abs:
  assumes ok: "articles_ok d" and "lookup ac_id (na_account_id new) (accounts d) \<noteq> None"
    and "abs_article d (na_id new) = None"
  shows "\<exists>d'. publish_tx now new d = Inr ((), d') \<and>
    abs_article d' = (abs_article d)(na_id new \<mapsto>
      \<lparr>aa_account = na_account_id new,
       aa_versions = [\<lparr>vn_title = na_title new, vn_author_name = na_author_name new,
         vn_author_url = na_author_url new, vn_content = Some (na_content new)\<rparr>],
       aa_tomb = None\<rparr>)"
proof -
  from assms(3) have n: "lookup ar_id (na_id new) (articles d) = None"
    by (simp add: abs_article_None)
  with articles_okD [OF ok, of "na_id new"] have fresh:
    "lookup al_article_id (na_id new) (articles_live d) = None"
    "lookup at_article_id (na_id new) (articles_tombstone d) = None"
    "\<And>v. lookup av_key (na_id new, v) (article_versions d) = None"
    by (simp_all add: article_ok_def)
  then have nv: "num_versions (na_id new) (article_versions d) = 0"
    using num_versions_contiguous [of "article_versions d" "na_id new" 0] ok
    by (auto simp: articles_ok_def)
  obtain d' where d': "publish_tx now new d = Inr ((), d')"
    using publish_tx_Inr [of now new d "()"] n fresh assms(2) by blast
  note e = d' [unfolded publish_tx_Inr]
  have "abs_article d' b = ((abs_article d)(na_id new \<mapsto>
      \<lparr>aa_account = na_account_id new,
       aa_versions = [\<lparr>vn_title = na_title new, vn_author_name = na_author_name new,
         vn_author_url = na_author_url new, vn_content = Some (na_content new)\<rparr>],
       aa_tomb = None\<rparr>)) b" for b
  proof (cases "b = na_id new")
    case True
    with e fresh nv show ?thesis
      by (simp add: abs_article_def lookup_snoc abs_versions_snoc av_key_def abs_version_def)
        (simp add: abs_versions_def)
  next
    case False
    with e have "abs_article d' b = abs_article d b"
      by (intro abs_article_frame) (auto simp: lookup_snoc_other abs_versions_snoc_other)
    with False show ?thesis
      by simp
  qed
  with d' show ?thesis
    by (auto simp: fun_eq_iff)
qed

lemma abs_article_SomeI:
  "lookup ar_id aid (articles d) = Some a \<Longrightarrow>
   abs_article d aid = Some \<lparr>aa_account = ar_account_id a,
     aa_versions = abs_versions aid (article_versions d),
     aa_tomb = map_option at_reason (lookup at_article_id aid (articles_tombstone d))\<rparr>"
  by (simp add: abs_article_def)

lemma edited_abs: "abs_version (edited_version now edit cur) = apply_edit edit (abs_version cur)"
  by (simp add: edited_version_def abs_version_def apply_edit_def or_else_def unwrap_or_def
      null_if_empty_def split: option.splits)

lemma edit_abs:
  assumes ok: "articles_ok d" and A: "abs_article d aid = Some A" "aa_tomb A = None"
    and small: "length (aa_versions A) < 2 ^ 31 - 1"
  shows "\<exists>d'. edit_tx now aid edit d = Inr ((), d') \<and>
    abs_article d' = (abs_article d)(aid \<mapsto>
      A\<lparr>aa_versions := aa_versions A @ [apply_edit edit (last (aa_versions A))]\<rparr>)"
proof -
  obtain a n where f: "article_facts d aid A a n"
    using abs_article_Some [OF ok A(1)] by blast
  have a: "lookup ar_id aid (articles d) = Some a" "aa_account A = ar_account_id a"
    "aa_versions A = abs_versions aid (article_versions d)" "num_versions aid (article_versions d) = nat n"
    "1 \<le> n" and vs: "\<And>v. lookup av_key (aid, v) (article_versions d) \<noteq> None \<longleftrightarrow> 1 \<le> v \<and> v \<le> n"
    and t: "aa_tomb A = map_option at_reason (lookup at_article_id aid (articles_tombstone d))"
    and st: "aa_tomb A = None \<and> ar_state a = ''live'' \<and>
       (\<exists>l. lookup al_article_id aid (articles_live d) = Some l \<and> al_current_version l = n) \<or>
     (\<exists>tomb. lookup at_article_id aid (articles_tombstone d) = Some tomb \<and> ar_state a = ''tombstone'' \<and>
       lookup al_article_id aid (articles_live d) = None)"
    using f unfolding article_facts_def by blast+
  from st t A(2) obtain l where l: "ar_state a = ''live''"
    "lookup al_article_id aid (articles_live d) = Some l" "al_current_version l = n"
    by auto
  obtain cur where cur: "lookup av_key (aid, n) (article_versions d) = Some cur"
    using vs [of n] a(5) by auto
  have ck: "av_article_id cur = aid" "av_version cur = n"
    using lookup_SomeD [OF cur] by (auto simp: av_key_def)
  have n': "n < 2 ^ 31 - 1"
    using small a(3-5) by simp
  obtain d' where tx: "edit_tx now aid edit d = Inr ((), d')"
    and d': "d' = d\<lparr>article_versions := article_versions d @ [edited_version now edit cur],
      articles_live := update_row al_article_id aid
        (\<lambda>r. r\<lparr>al_current_version := n + 1, al_updated_at := now\<rparr>) (articles_live d)\<rparr>"
    using edit_tx_Inr [OF articles_okD [OF ok], of now aid edit] a(1) l cur n' by blast
  have fresh: "lookup av_key (av_key (edited_version now edit cur)) (article_versions d) = None"
    using vs [of "n + 1"] ck by (auto simp: av_key_def edited_version_def)
  have "abs_versions aid (article_versions d') =
      aa_versions A @ [apply_edit edit (last (aa_versions A))]"
  proof -
    have "av_article_id (edited_version now edit cur) = aid"
      "av_version (edited_version now edit cur) = int (num_versions aid (article_versions d)) + 1"
      using ck a by (simp_all add: edited_version_def)
    from abs_versions_snoc [OF fresh this] show ?thesis
      using a(3) last_abs_versions [OF a(4,5)] cur by (simp add: d' edited_abs)
  qed
  then have "abs_article d' aid =
      Some (A\<lparr>aa_versions := aa_versions A @ [apply_edit edit (last (aa_versions A))]\<rparr>)"
    using a(1,2) t by (subst abs_article_SomeI [of _ _ a]) (simp_all add: d')
  moreover have "abs_article d' b = abs_article d b" if "b \<noteq> aid" for b
    using that ck by (intro abs_article_frame)
      (simp_all add: d' abs_versions_snoc_other edited_version_def)
  ultimately show ?thesis
    using tx by (intro exI [of _ d']) (auto simp: fun_eq_iff)
qed

lemma edit_abs_overflow:
  assumes ok: "articles_ok d" and A: "abs_article d aid = Some A" "aa_tomb A = None"
    and large: "\<not> length (aa_versions A) < 2 ^ 31 - 1"
  shows "edit_tx now aid edit d = Inl (Internal ''insert next article_versions'')"
proof -
  obtain a n where f: "article_facts d aid A a n"
    using abs_article_Some [OF ok A(1)] by blast
  have a: "lookup ar_id aid (articles d) = Some a"
    "aa_versions A = abs_versions aid (article_versions d)" "num_versions aid (article_versions d) = nat n"
    "1 \<le> n" "n < 2 ^ 31" and vs: "\<And>v. lookup av_key (aid, v) (article_versions d) \<noteq> None \<longleftrightarrow> 1 \<le> v \<and> v \<le> n"
    and t: "aa_tomb A = map_option at_reason (lookup at_article_id aid (articles_tombstone d))"
    and st: "aa_tomb A = None \<and> ar_state a = ''live'' \<and>
       (\<exists>l. lookup al_article_id aid (articles_live d) = Some l \<and> al_current_version l = n) \<or>
     (\<exists>tomb. lookup at_article_id aid (articles_tombstone d) = Some tomb \<and> ar_state a = ''tombstone'' \<and>
       lookup al_article_id aid (articles_live d) = None)"
    using f unfolding article_facts_def by blast+
  from st t A(2) obtain l where l: "ar_state a = ''live''"
    "lookup al_article_id aid (articles_live d) = Some l" "al_current_version l = n"
    by auto
  obtain cur where cur: "lookup av_key (aid, n) (article_versions d) = Some cur"
    using vs [of n] a(4) by auto
  have "n = 2 ^ 31 - 1"
    using large a(2-5) by simp
  then have "wrap_i32 (n + 1) < 1"
    by (simp add: wrap_i32_def)
  with a(1) l cur show ?thesis
    by (simp add: edit_tx_def Let_def insert_article_version_def insert_checked_def)
qed

lemma tombstone_abs:
  assumes ok: "articles_ok d" and A: "abs_article d aid = Some A" "aa_tomb A = None"
  shows "\<exists>d'. tombstone_tx now aid rsn d = Inr ((), d') \<and>
    abs_article d' = (abs_article d)(aid \<mapsto> A\<lparr>aa_tomb := Some rsn\<rparr>)"
proof -
  obtain a n where f: "article_facts d aid A a n"
    using abs_article_Some [OF ok A(1)] by blast
  have a: "lookup ar_id aid (articles d) = Some a"
    and A': "aa_account A = ar_account_id a" "aa_versions A = abs_versions aid (article_versions d)"
    using f unfolding article_facts_def by blast+
  have n: "lookup at_article_id aid (articles_tombstone d) = None" and live: "ar_state a = ''live''"
    using f A(2) by (auto simp: article_facts_def)
  obtain d' where tx: "tombstone_tx now aid rsn d = Inr ((), d')"
    and d': "d' = d\<lparr>articles := update_row ar_id aid (\<lambda>r. r\<lparr>ar_state := ''tombstone''\<rparr>) (articles d),
      articles_tombstone := articles_tombstone d @
        [\<lparr>at_article_id = aid, at_reason = rsn, at_tombstoned_at = now\<rparr>],
      articles_live := delete_row al_article_id aid (articles_live d)\<rparr>"
    using tombstone_tx_Inr [OF articles_okD [OF ok], of now aid rsn] a live by blast
  have "abs_article d' aid = Some (A\<lparr>aa_tomb := Some rsn\<rparr>)"
    using a n A' by (subst abs_article_SomeI [of _ _ "a\<lparr>ar_state := ''tombstone''\<rparr>"])
      (simp_all add: d' lookup_update_row lookup_snoc)
  moreover have "abs_article d' b = abs_article d b" if "b \<noteq> aid" for b
    using that by (intro abs_article_frame) (simp_all add: d' lookup_snoc_other lookup_update_other)
  ultimately show ?thesis
    using tx by (intro exI [of _ d']) (auto simp: fun_eq_iff)
qed

lemma redact_abs:
  assumes ok: "articles_ok d" and A: "abs_article d aid = Some A"
    and v: "1 \<le> v" "v \<le> int (length (aa_versions A))"
    and c: "vn_content (aa_versions A ! (nat v - 1)) \<noteq> None"
  shows "\<exists>d'. redact_tx now aid v rsn d = Inr ((), d') \<and>
    abs_article d' = (abs_article d)(aid \<mapsto> A\<lparr>aa_versions := (aa_versions A)
      [nat v - 1 := (aa_versions A ! (nat v - 1))\<lparr>vn_content := None\<rparr>]\<rparr>)"
proof -
  obtain a n where f: "article_facts d aid A a n"
    using abs_article_Some [OF ok A] by blast
  have a: "lookup ar_id aid (articles d) = Some a" "aa_account A = ar_account_id a"
    "aa_versions A = abs_versions aid (article_versions d)" "num_versions aid (article_versions d) = nat n"
    "1 \<le> n" and vs: "\<And>v. lookup av_key (aid, v) (article_versions d) \<noteq> None \<longleftrightarrow> 1 \<le> v \<and> v \<le> n"
    and t: "aa_tomb A = map_option at_reason (lookup at_article_id aid (articles_tombstone d))"
    using f unfolding article_facts_def by blast+
  obtain row where row: "lookup av_key (aid, v) (article_versions d) = Some row"
    using vs [of v] v a by auto
  have "aa_versions A ! (nat v - 1) = abs_version row"
    using v a row by (simp add: abs_versions_nth)
  with c have "av_content row \<noteq> None"
    by (simp add: abs_version_def)
  with ok row have "av_redacted_at row = None"
    by (auto simp: articles_ok_def redaction_ok_def)
  with row a(1) obtain d' where tx: "redact_tx now aid v rsn d = Inr ((), d')"
    and d': "d' = d\<lparr>article_versions := update_row av_key (aid, v) (redacted_row now rsn) (article_versions d),
      articles_live := bump_live now aid v (articles_live d)\<rparr>"
    using redact_tx_Inr [OF articles_okD [OF ok], of now aid v rsn] by blast
  have "abs_versions aid (article_versions d') =
      (aa_versions A)[nat v - 1 := (aa_versions A ! (nat v - 1))\<lparr>vn_content := None\<rparr>]"
    using v a vs by (simp add: d' abs_versions_redact)
  then have "abs_article d' aid = Some (A\<lparr>aa_versions := (aa_versions A)
      [nat v - 1 := (aa_versions A ! (nat v - 1))\<lparr>vn_content := None\<rparr>]\<rparr>)"
    using a t by (subst abs_article_SomeI [of _ _ a]) (simp_all add: d')
  moreover have "abs_article d' b = abs_article d b" if "b \<noteq> aid" for b
    using that by (intro abs_article_frame) (simp_all add: d' abs_versions_update_other)
  ultimately show ?thesis
    using tx by (intro exI [of _ d']) (auto simp: fun_eq_iff)
qed

subsection \<open>Properties\<close>

text \<open>A database with one account and one article, for the witnesses.\<close>

definition demo_account :: account_row where
  "demo_account = \<lparr>ac_id = 1, ac_short_name = ''a'', ac_author_name = ''A'', ac_author_url = None,
     ac_status = ''active'', ac_deleted_at = None, ac_created_at = 0, ac_updated_at = 0\<rparr>"

definition demo_new :: new_article where
  "demo_new = \<lparr>na_id = 10, na_account_id = 1, na_title = ''t'', na_author_name = [],
     na_author_url = [], na_content = JArr [JStr ''x'']\<rparr>"

definition demo_db0 :: db where
  "demo_db0 = empty_db\<lparr>accounts := [demo_account]\<rparr>"

definition demo_db :: db where
  "demo_db = snd (article_publish 5 demo_new demo_db0)"

lemma demo_db0_ok: "articles_ok demo_db0"
  by (simp add: demo_db0_def articles_ok_def empty_db_def article_ok_def redaction_ok_def)

lemma demo_db0_abs: "abs_article demo_db0 b = None"
  by (simp add: demo_db0_def empty_db_def abs_article_def)

text \<open>C8. Publishing. Under the table invariant, publishing an article with a fresh id for an
  existing account succeeds, adds exactly that article with its one version to what the
  tables mean, changes no other article, keeps the invariant and returns the new article.
\<close>

theorem article_publish_correct:
  assumes "articles_ok d" "lookup ac_id (na_account_id new) (accounts d) \<noteq> None"
    and "abs_article d (na_id new) = None"
  defines "A \<equiv> \<lparr>aa_account = na_account_id new,
       aa_versions = [\<lparr>vn_title = na_title new, vn_author_name = na_author_name new,
         vn_author_url = na_author_url new, vn_content = Some (na_content new)\<rparr>],
       aa_tomb = None\<rparr>"
  shows "\<exists>a d'. article_publish now new d = (Inr a, d') \<and> shows_article (na_id new) A a \<and>
    abs_article d' = (abs_article d)(na_id new \<mapsto> A) \<and> articles_ok d'"
proof -
  obtain d' where tx: "publish_tx now new d = Inr ((), d')"
    and abs: "abs_article d' = (abs_article d)(na_id new \<mapsto> A)"
    using publish_abs [OF assms(1-3)] unfolding A_def by blast
  have ok: "articles_ok d'"
    using publish_tx_ok [OF assms(1) tx] .
  with abs have "\<exists>a. article_get (na_id new) d' = Inr a \<and> shows_article (na_id new) A a"
    by (intro article_get_Some) auto
  with tx abs ok show ?thesis
    by (auto simp: article_publish_def transaction_def)
qed

lemma demo_db_facts:
  "articles_ok demo_db" "abs_article demo_db 10 = Some \<lparr>aa_account = 1,
     aa_versions = [\<lparr>vn_title = ''t'', vn_author_name = [], vn_author_url = [],
       vn_content = Some (JArr [JStr ''x''])\<rparr>], aa_tomb = None\<rparr>"
proof -
  have acc: "lookup ac_id (na_account_id demo_new) (accounts demo_db0) \<noteq> None"
    by (simp add: demo_db0_def demo_new_def demo_account_def lookup_def)
  obtain d' where tx: "publish_tx 5 demo_new demo_db0 = Inr ((), d')"
    and abs: "abs_article d' = (abs_article demo_db0)(na_id demo_new \<mapsto>
      \<lparr>aa_account = na_account_id demo_new,
       aa_versions = [\<lparr>vn_title = na_title demo_new, vn_author_name = na_author_name demo_new,
         vn_author_url = na_author_url demo_new, vn_content = Some (na_content demo_new)\<rparr>],
       aa_tomb = None\<rparr>)"
    using publish_abs [OF demo_db0_ok acc demo_db0_abs] by blast
  have d: "demo_db = d'"
    using tx by (simp add: demo_db_def article_publish_def transaction_def)
  show "articles_ok demo_db"
    using publish_tx_ok [OF demo_db0_ok tx] by (simp add: d)
  show "abs_article demo_db 10 = Some \<lparr>aa_account = 1,
     aa_versions = [\<lparr>vn_title = ''t'', vn_author_name = [], vn_author_url = [],
       vn_content = Some (JArr [JStr ''x''])\<rparr>], aa_tomb = None\<rparr>"
    using abs by (simp add: d demo_new_def)
qed

theorem article_publish_correct_witness:
  "\<exists>a d'. article_publish 5 demo_new demo_db0 = (Inr a, d') \<and> articles_ok d' \<and>
     a_content a = Some (JArr [JStr ''x''])"
proof -
  have acc: "lookup ac_id (na_account_id demo_new) (accounts demo_db0) \<noteq> None"
    by (simp add: demo_db0_def demo_new_def demo_account_def lookup_def)
  from article_publish_correct [OF demo_db0_ok acc demo_db0_abs, of 5] show ?thesis
    by (auto simp: shows_article_def demo_new_def)
qed

text \<open>Reading. Under the table invariant a read answers from what the tables mean: not
  found for an unknown id, otherwise the newest version of a live article, marked redacted
  exactly when its content is gone, or the bare tombstone with its reason.
\<close>

theorem article_get_correct:
  assumes "articles_ok d"
  shows "case abs_article d aid of
      None \<Rightarrow> article_get aid d = Inl (ArticleNotFound aid)
    | Some A \<Rightarrow> \<exists>a. article_get aid d = Inr a \<and> shows_article aid A a"
  by (rule article_get_abs [OF assms])

theorem article_get_correct_witness:
  "\<exists>a. article_get 10 demo_db = Inr a \<and> as_title (a_summary a) = Some ''t''"
  using article_get_correct [OF demo_db_facts(1), of 10]
  by (auto simp: demo_db_facts(2) shows_article_def)

text \<open>C9. Editing, on every branch. Under the table invariant an unknown id and a tombstone
  are refused and nothing changes; a live article gains one version, the newest one with
  the given fields replaced (a redacted content is not revived: it becomes the empty
  document), and no other article changes; only at the largest 32-bit version number does
  the insert fail, and then nothing changes either.
\<close>

theorem article_edit_correct:
  assumes "articles_ok d"
  shows "case abs_article d aid of
      None \<Rightarrow> article_edit_op now aid edit d = (Inl (ArticleNotFound aid), d)
    | Some A \<Rightarrow>
        if aa_tomb A \<noteq> None then article_edit_op now aid edit d = (Inl (ArticleTombstoned aid), d)
        else if 2 ^ 31 - 1 \<le> length (aa_versions A)
        then article_edit_op now aid edit d = (Inl (Internal ''insert next article_versions''), d)
        else let A' = A\<lparr>aa_versions := aa_versions A @ [apply_edit edit (last (aa_versions A))]\<rparr>
             in \<exists>a d'. article_edit_op now aid edit d = (Inr a, d') \<and> shows_article aid A' a \<and>
                  abs_article d' = (abs_article d)(aid \<mapsto> A') \<and> articles_ok d'"
proof (cases "abs_article d aid")
  case None
  then have "lookup ar_id aid (articles d) = None"
    by (simp add: abs_article_None)
  with None show ?thesis
    by (simp add: article_edit_op_def transaction_def edit_tx_def)
next
  case (Some A)
  let ?A' = "A\<lparr>aa_versions := aa_versions A @ [apply_edit edit (last (aa_versions A))]\<rparr>"
  consider "aa_tomb A \<noteq> None" | "aa_tomb A = None" "\<not> length (aa_versions A) < 2 ^ 31 - 1"
    | "aa_tomb A = None" "length (aa_versions A) < 2 ^ 31 - 1"
    by blast
  then show ?thesis
  proof cases
    case 1
    obtain a n where "article_facts d aid A a n"
      using abs_article_Some [OF assms Some] by blast
    with 1 have "lookup ar_id aid (articles d) = Some a" "ar_state a = ''tombstone''"
      by (auto simp: article_facts_def)
    with Some 1 show ?thesis
      by (simp add: article_edit_op_def transaction_def edit_tx_def)
  next
    case 2
    with edit_abs_overflow [OF assms Some 2] Some show ?thesis
      by (simp add: article_edit_op_def transaction_def)
  next
    case 3
    obtain d' where tx: "edit_tx now aid edit d = Inr ((), d')"
      and abs: "abs_article d' = (abs_article d)(aid \<mapsto> ?A')"
      using edit_abs [OF assms Some 3] by blast
    have ok: "articles_ok d'"
      using edit_tx_ok [OF assms tx] .
    with abs have "\<exists>a. article_get aid d' = Inr a \<and> shows_article aid ?A' a"
      by (intro article_get_Some) auto
    with tx abs ok 3 Some show ?thesis
      by (auto simp: article_edit_op_def transaction_def Let_def)
  qed
qed

theorem article_edit_correct_witness:
  "\<exists>a d'. article_edit_op 6 10 \<lparr>ae_title = Some ''u'', ae_author_name = None, ae_author_url = None,
     ae_content = None\<rparr> demo_db = (Inr a, d') \<and> as_current_version (a_summary a) = Some 2 \<and>
     as_title (a_summary a) = Some ''u'' \<and> a_content a = Some (JArr [JStr ''x''])"
  using article_edit_correct [OF demo_db_facts(1), where aid = 10 and now = 6 and edit =
      "\<lparr>ae_title = Some ''u'', ae_author_name = None, ae_author_url = None, ae_content = None\<rparr>"]
  by (auto simp: demo_db_facts(2) shows_article_def apply_edit_def or_else_def)

text \<open>C10. Tombstoning is one-way and total: an unknown id and an article already tombstoned
  are refused and nothing changes; a live article keeps its versions, gets the tombstone
  with the given reason and is from then on shown as a bare tombstone; no other article
  changes.
\<close>

theorem article_tombstone_correct:
  assumes "articles_ok d"
  shows "case abs_article d aid of
      None \<Rightarrow> article_tombstone_op now aid rsn d = (Inl (ArticleNotFound aid), d)
    | Some A \<Rightarrow>
        if aa_tomb A \<noteq> None then article_tombstone_op now aid rsn d = (Inl (ArticleTombstoned aid), d)
        else let A' = A\<lparr>aa_tomb := Some rsn\<rparr>
             in \<exists>a d'. article_tombstone_op now aid rsn d = (Inr a, d') \<and> shows_article aid A' a \<and>
                  abs_article d' = (abs_article d)(aid \<mapsto> A') \<and> articles_ok d'"
proof (cases "abs_article d aid")
  case None
  then have "lookup ar_id aid (articles d) = None"
    by (simp add: abs_article_None)
  with None show ?thesis
    by (simp add: article_tombstone_op_def transaction_def tombstone_tx_def)
next
  case (Some A)
  let ?A' = "A\<lparr>aa_tomb := Some rsn\<rparr>"
  show ?thesis
  proof (cases "aa_tomb A = None")
    case False
    obtain a n where "article_facts d aid A a n"
      using abs_article_Some [OF assms Some] by blast
    with False have "lookup ar_id aid (articles d) = Some a" "ar_state a = ''tombstone''"
      by (auto simp: article_facts_def)
    with Some False show ?thesis
      by (simp add: article_tombstone_op_def transaction_def tombstone_tx_def)
  next
    case True
    obtain d' where tx: "tombstone_tx now aid rsn d = Inr ((), d')"
      and abs: "abs_article d' = (abs_article d)(aid \<mapsto> ?A')"
      using tombstone_abs [OF assms Some True] by blast
    have ok: "articles_ok d'"
      using tombstone_tx_ok [OF assms tx] .
    with abs have "\<exists>a. article_get aid d' = Inr a \<and> shows_article aid ?A' a"
      by (intro article_get_Some) auto
    with tx abs ok True Some show ?thesis
      by (auto simp: article_tombstone_op_def transaction_def Let_def)
  qed
qed

theorem article_tombstone_correct_witness:
  "\<exists>a d'. article_tombstone_op 7 10 (Some ''spam'') demo_db = (Inr a, d') \<and>
     as_state (a_summary a) = Tombstone \<and> as_tombstone_reason (a_summary a) = Some ''spam''"
  using article_tombstone_correct [OF demo_db_facts(1), where aid = 10 and now = 7 and rsn = "Some ''spam''"]
  by (auto simp: demo_db_facts(2) shows_article_def)

text \<open>C11. Redacting, on every branch: an unknown article, a version number out of range and a
  version already redacted are each refused with their own error and nothing changes;
  otherwise exactly that version loses its content, its title and authors stay, and no
  other version or article changes. Live and tombstoned articles are treated alike.
\<close>

theorem article_redact_correct:
  assumes "articles_ok d"
  shows "case abs_article d aid of
      None \<Rightarrow> article_redact_version now aid v rsn d = (Inl (ArticleNotFound aid), d)
    | Some A \<Rightarrow>
        if \<not> (1 \<le> v \<and> v \<le> int (length (aa_versions A)))
        then article_redact_version now aid v rsn d = (Inl (VersionNotFound aid v), d)
        else if vn_content (aa_versions A ! (nat v - 1)) = None
        then article_redact_version now aid v rsn d = (Inl (VersionAlreadyRedacted aid v), d)
        else \<exists>d'. article_redact_version now aid v rsn d = (Inr (), d') \<and> articles_ok d' \<and>
               abs_article d' = (abs_article d)(aid \<mapsto> A\<lparr>aa_versions := (aa_versions A)
                 [nat v - 1 := (aa_versions A ! (nat v - 1))\<lparr>vn_content := None\<rparr>]\<rparr>)"
proof (cases "abs_article d aid")
  case None
  then have "lookup ar_id aid (articles d) = None"
    by (simp add: abs_article_None)
  with None show ?thesis
    by (simp add: article_redact_version_def transaction_def redact_tx_def)
next
  case (Some A)
  obtain a n where f: "article_facts d aid A a n"
    using abs_article_Some [OF assms Some] by blast
  have a: "lookup ar_id aid (articles d) = Some a"
    "aa_versions A = abs_versions aid (article_versions d)" "num_versions aid (article_versions d) = nat n"
    "1 \<le> n" and vs: "\<And>v. lookup av_key (aid, v) (article_versions d) \<noteq> None \<longleftrightarrow> 1 \<le> v \<and> v \<le> n"
    using f unfolding article_facts_def by blast+
  consider "\<not> (1 \<le> v \<and> v \<le> int (length (aa_versions A)))"
    | "1 \<le> v" "v \<le> int (length (aa_versions A))" "vn_content (aa_versions A ! (nat v - 1)) = None"
    | "1 \<le> v" "v \<le> int (length (aa_versions A))" "vn_content (aa_versions A ! (nat v - 1)) \<noteq> None"
    by blast
  then show ?thesis
  proof cases
    case 1
    then have "lookup av_key (aid, v) (article_versions d) = None"
      using vs [of v] a by auto
    with Some 1 a(1) show ?thesis
      by (simp add: article_redact_version_def transaction_def redact_tx_def)
  next
    case 2
    then obtain row where row: "lookup av_key (aid, v) (article_versions d) = Some row"
      using vs [of v] a by auto
    have "aa_versions A ! (nat v - 1) = abs_version row"
      using 2 a row by (simp add: abs_versions_nth)
    with 2 assms row have "av_redacted_at row \<noteq> None"
      by (auto simp: abs_version_def articles_ok_def redaction_ok_def)
    with Some 2 a(1) row show ?thesis
      by (auto simp: article_redact_version_def transaction_def redact_tx_def)
  next
    case 3
    from redact_abs [OF assms Some 3, of now rsn] obtain d' where
      tx: "redact_tx now aid v rsn d = Inr ((), d')" and
      abs: "abs_article d' = (abs_article d)(aid \<mapsto> A\<lparr>aa_versions := (aa_versions A)
        [nat v - 1 := (aa_versions A ! (nat v - 1))\<lparr>vn_content := None\<rparr>]\<rparr>)"
      by blast
    with redact_tx_ok [OF assms tx] Some 3 show ?thesis
      by (auto simp: article_redact_version_def transaction_def)
  qed
qed

theorem article_redact_correct_witness:
  "\<exists>d'. article_redact_version 8 10 1 ''legal'' demo_db = (Inr (), d') \<and> articles_ok d' \<and>
     article_redact_version 8 10 2 ''legal'' demo_db = (Inl (VersionNotFound 10 2), demo_db)"
  using article_redact_correct [OF demo_db_facts(1), where aid = 10 and now = 8 and v = 1 and rsn = "''legal''"]
    article_redact_correct [OF demo_db_facts(1), where aid = 10 and now = 8 and v = 2 and rsn = "''legal''"]
  by (auto simp: demo_db_facts(2))

end
