(* ===== verification/Pagination.thy ===== *)
theory Pagination
  imports Database "HOL-Library.Multiset" "HOL-Library.Product_Lexorder"
begin

text \<open>
  Keyset pagination as every listing of \<open>headlines-store\<close> does it: clamp the page size,
  decode the cursor, filter strictly past it, order, fetch one row more than the page,
  and hand out a cursor for the last row when there was one more. The locale
  \<open>keyset_order\<close> states what an ordering and its cursor filter owe each other; inside
  it, walking the pages is shown to visit every row exactly once and in order.
\<close>

subsection \<open>Page sizes\<close>

definition clamp_page_size :: "int \<Rightarrow> int" where
  "clamp_page_size raw = (if raw \<le> 0 then 50 else max 1 (min raw 200))"

definition draft_page_size :: "int \<Rightarrow> int" where
  "draft_page_size page_size = (if page_size \<le> 0 then 20 else min page_size 100)"

subsection \<open>Cursors\<close>

text \<open>
  The third-party pieces of a page token: URL-safe base64, the JSON of a cursor struct with
  a named text field and an id, and RFC 3339 timestamps. Decoders return the crate's error
  text.
\<close>

record page_ext =
  b64url_encode :: "string \<Rightarrow> string"
  b64url_decode :: "string \<Rightarrow> string + string"
  cursor_ser :: "string \<Rightarrow> string \<times> uuid \<Rightarrow> string"
  cursor_de :: "string \<Rightarrow> string \<Rightarrow> string + (string \<times> uuid)"
  to_rfc3339 :: "timestamp \<Rightarrow> string"
  parse_rfc3339 :: "string \<Rightarrow> string + timestamp"

definition encode_cursor :: "page_ext \<Rightarrow> string \<Rightarrow> timestamp \<times> uuid \<Rightarrow> string" where
  "encode_cursor x fld k = b64url_encode x (cursor_ser x fld (to_rfc3339 x (fst k), snd k))"

definition decode_cursor :: "page_ext \<Rightarrow> string \<Rightarrow> string \<Rightarrow> (timestamp \<times> uuid) res" where
  "decode_cursor x fld raw =
     try_res (map_err (\<lambda>e. InvalidCursor (''base64: '' @ e)) (b64url_decode x raw)) (\<lambda>bytes.
     try_res (map_err (\<lambda>e. InvalidCursor (''json: '' @ e)) (cursor_de x fld bytes)) (\<lambda>pc.
     try_res (map_err (\<lambda>e. InvalidCursor (''rfc3339: '' @ e)) (parse_rfc3339 x (fst pc))) (\<lambda>dt.
     Inr (dt, snd pc))))"

text \<open>What the listings rely on of a cursor encoding.\<close>

locale cursor_codec =
  fixes enc :: "'k \<Rightarrow> string" and dec :: "string \<Rightarrow> headlines_error + 'k"
  assumes dec_enc: "dec (enc k) = Inr k" and enc_ne: "enc k \<noteq> []"

definition page_ext_ok :: "page_ext \<Rightarrow> bool" where
  "page_ext_ok x \<longleftrightarrow>
     (\<forall>s. b64url_decode x (b64url_encode x s) = Inr s) \<and>
     (\<forall>s. b64url_encode x s = [] \<longrightarrow> s = []) \<and>
     (\<forall>fld p. cursor_de x fld (cursor_ser x fld p) = Inr p \<and> cursor_ser x fld p \<noteq> []) \<and>
     (\<forall>t. parse_rfc3339 x (to_rfc3339 x t) = Inr t)"

lemma cursor_codec_page_ext: "page_ext_ok x \<Longrightarrow> cursor_codec (encode_cursor x fld) (decode_cursor x fld)"
  by unfold_locales (auto simp: page_ext_ok_def encode_cursor_def decode_cursor_def)

subsection \<open>One page\<close>

definition paginate :: "nat \<Rightarrow> ('r \<Rightarrow> 'k) \<Rightarrow> 'r list \<Rightarrow> 'r list \<times> 'k option" where
  "paginate limit key ordered =
     (let fetched = take (limit + 1) ordered;
          has_more = length fetched > limit;
          rows = (if has_more then take limit fetched else fetched)
      in (rows, if has_more then (if rows = [] then None else Some (key (last rows))) else None))"

definition list_page ::
  "('k \<Rightarrow> string) \<Rightarrow> (string \<Rightarrow> headlines_error + 'k) \<Rightarrow> ('r \<Rightarrow> 'k) \<Rightarrow> ('r list \<Rightarrow> 'r list) \<Rightarrow>
   ('k \<Rightarrow> 'r \<Rightarrow> bool) \<Rightarrow> ('r \<Rightarrow> headlines_error + 'i) \<Rightarrow> nat \<Rightarrow> 'r list \<Rightarrow> string \<Rightarrow>
   headlines_error + ('i list \<times> string)" where
  "list_page enc dec key order after hydrate limit rows token =
     try_res (if token = [] then Inr None else try_res (dec token) (\<lambda>k. Inr (Some k))) (\<lambda>cursor.
     let ordered = order (filter (\<lambda>r. case cursor of None \<Rightarrow> True | Some k \<Rightarrow> after k r) rows);
         (page, next) = paginate limit key ordered
     in try_res (map_res hydrate page) (\<lambda>items.
        Inr (items, case next of None \<Rightarrow> [] | Some k \<Rightarrow> enc k)))"

text \<open>\<open>ORDER BY\<close> a key ascending or descending, with the strict filter past a cursor.\<close>

definition order_asc :: "('r \<Rightarrow> 'k :: linorder) \<Rightarrow> 'r list \<Rightarrow> 'r list" where
  "order_asc key rows = sort_key key rows"

definition after_asc :: "('r \<Rightarrow> timestamp \<times> uuid) \<Rightarrow> timestamp \<times> uuid \<Rightarrow> 'r \<Rightarrow> bool" where
  "after_asc key c r \<longleftrightarrow> fst (key r) > fst c \<or> (fst (key r) = fst c \<and> snd (key r) > snd c)"

definition order_desc :: "('r \<Rightarrow> 'k :: linorder) \<Rightarrow> 'r list \<Rightarrow> 'r list" where
  "order_desc key rows = rev (sort_key key rows)"

definition after_desc :: "('r \<Rightarrow> timestamp \<times> uuid) \<Rightarrow> timestamp \<times> uuid \<Rightarrow> 'r \<Rightarrow> bool" where
  "after_desc key c r \<longleftrightarrow> fst (key r) < fst c \<or> (fst (key r) = fst c \<and> snd (key r) < snd c)"

subsection \<open>Walking the pages\<close>

text \<open>A client that asks for the next page until it gets no token.\<close>

fun walk :: "(string \<Rightarrow> headlines_error + ('i list \<times> string)) \<Rightarrow> nat \<Rightarrow> string \<Rightarrow> (headlines_error + 'i list) option" where
  "walk f 0 token = None"
| "walk f (Suc fuel) token =
     (case f token of
        Inl e \<Rightarrow> Some (Inl e)
      | Inr (items, next) \<Rightarrow>
          if next = [] then Some (Inr items)
          else (case walk f fuel next of
                  Some (Inr rest) \<Rightarrow> Some (Inr (items @ rest))
                | other \<Rightarrow> other))"

lemma paginate_eq:
  "0 < limit \<Longrightarrow> paginate limit key ys =
     (take limit ys, if length ys > limit then Some (key (last (take limit ys))) else None)"
  by (auto simp: paginate_def Let_def min_def)

locale keyset_order =
  fixes key :: "'r \<Rightarrow> 'k" and order :: "'r list \<Rightarrow> 'r list" and after :: "'k \<Rightarrow> 'r \<Rightarrow> bool"
  assumes order_filter: "order (filter P rows) = filter P (order rows)"
    and mset_order: "mset (order rows) = mset rows"
    and after_suffix: "distinct (map key rows) \<Longrightarrow> order rows = xs @ r # ys \<Longrightarrow>
      filter (after (key r)) (order rows) = ys"
begin

lemma order_rows_append:
  assumes "distinct (map key rows)" "order rows = xs @ ys" "xs \<noteq> []"
  shows "order (filter (after (key (last xs))) rows) = ys"
proof -
  have "order rows = butlast xs @ last xs # ys"
    using assms(2,3) by (simp add: append_butlast_last_id [symmetric] del: append_butlast_last_id)
  then show ?thesis
    using after_suffix [OF assms(1)] by (simp add: order_filter)
qed

text \<open>
  From the state after \<open>xs\<close> have been seen, walking yields the images of the rest, when
  every row hydrates.
\<close>

lemma list_page_at:
  assumes cc: "cursor_codec enc dec" and d: "distinct (map key rows)" and l: "0 < limit"
    and h: "\<And>r. r \<in> set rows \<Longrightarrow> hydrate r = Inr (g r)"
    and split: "order rows = xs @ ys"
    and tok: "xs = [] \<and> token = [] \<or> xs \<noteq> [] \<and> token = enc (key (last xs))"
  shows "list_page enc dec key order after hydrate limit rows token =
    Inr (map g (take limit ys), if length ys > limit then enc (key (last (take limit ys))) else [])"
proof -
  have ne: "token = [] \<longleftrightarrow> xs = []"
    using tok cursor_codec.enc_ne [OF cc] by auto
  have sub: "set ys \<subseteq> set rows"
    using arg_cong [OF mset_order [of rows], of set_mset] split by auto
  have "map_res hydrate (take limit ys) = Inr (map g (take limit ys))"
    by (rule map_res_total) (use h sub in_set_takeD in fast)
  moreover have "order (filter (after (key (last xs))) rows) = ys" if "xs \<noteq> []"
    using order_rows_append [OF d split that] .
  ultimately show ?thesis
    using tok ne split l
    by (cases "xs = []") (auto simp: list_page_def paginate_eq Let_def cursor_codec.dec_enc [OF cc])
qed

lemma walk_suffix:
  assumes cc: "cursor_codec enc dec" and d: "distinct (map key rows)" and l: "0 < limit"
    and h: "\<And>r. r \<in> set rows \<Longrightarrow> hydrate r = Inr (g r)"
    and split: "order rows = xs @ ys"
    and tok: "xs = [] \<and> token = [] \<or> xs \<noteq> [] \<and> token = enc (key (last xs))"
    and fuel: "length ys < fuel"
  shows "walk (list_page enc dec key order after hydrate limit rows) fuel token = Some (Inr (map g ys))"
  using split tok fuel
proof (induction fuel arbitrary: xs ys token)
  case 0
  then show ?case by simp
next
  case (Suc fuel)
  note pg = list_page_at [OF cc d l h Suc.prems(1,2)]
  show ?case
  proof (cases "length ys > limit")
    case False
    with pg show ?thesis by simp
  next
    case True
    let ?xs = "xs @ take limit ys" and ?ys = "drop limit ys"
    have ne: "take limit ys \<noteq> []"
      using True l by auto
    have "walk (list_page enc dec key order after hydrate limit rows) fuel
        (enc (key (last (take limit ys)))) = Some (Inr (map g ?ys))"
    proof (rule Suc.IH)
      show "order rows = ?xs @ ?ys"
        using Suc.prems(1) by simp
      show "?xs = [] \<and> enc (key (last (take limit ys))) = [] \<or>
          ?xs \<noteq> [] \<and> enc (key (last (take limit ys))) = enc (key (last ?xs))"
        using ne by simp
      show "length ?ys < fuel"
        using Suc.prems(3) True l by auto
    qed
    with True pg show ?thesis
      by (simp add: cursor_codec.enc_ne [OF cc] flip: map_append)
  qed
qed

lemma walk_complete:
  assumes "cursor_codec enc dec" "distinct (map key rows)" "0 < limit"
    and "\<And>r. r \<in> set rows \<Longrightarrow> hydrate r = Inr (g r)" "length rows < fuel"
  shows "walk (list_page enc dec key order after hydrate limit rows) fuel [] =
    Some (Inr (map g (order rows)))"
  using assms(5) arg_cong [OF mset_order [of rows], of size]
  by (intro walk_suffix [OF assms(1-4), where xs = "[]"]) auto

end

lemma after_asc_less: "after_asc key c = (\<lambda>r. c < key r)"
  by (rule ext) (simp add: after_asc_def less_prod_def, force)

lemma after_desc_less: "after_desc key c = (\<lambda>r. key r < c)"
  by (rule ext) (simp add: after_desc_def less_prod_def, force)

lemma sorted_suffix:
  assumes "distinct (map key rows)" "sort_key (key :: 'r \<Rightarrow> 'k :: linorder) rows = xs @ r # ys"
  shows "filter (\<lambda>r'. key r < key r') (xs @ r # ys) = ys"
    and "filter (\<lambda>r'. key r' < key r) (xs @ r # ys) = xs"
proof -
  have "sorted (map key (xs @ r # ys))"
    using sorted_sort_key [of key rows] assms(2) by simp
  moreover have "distinct (map key (xs @ r # ys))"
    using assms by (metis distinct_map set_sort distinct_sort)
  ultimately have "sorted_wrt (<) (map key (xs @ r # ys))"
    by (simp add: strict_sorted_iff)
  then have lt: "\<And>x. x \<in> set xs \<Longrightarrow> key x < key r" "\<And>y. y \<in> set ys \<Longrightarrow> key r < key y"
    by (auto simp: sorted_wrt_append)
  then have "filter (\<lambda>r'. key r < key r') xs = []" "filter (\<lambda>r'. key r < key r') ys = ys"
    "filter (\<lambda>r'. key r' < key r) xs = xs" "filter (\<lambda>r'. key r' < key r) ys = []"
    by (force simp: filter_empty_conv filter_id_conv)+
  then show "filter (\<lambda>r'. key r < key r') (xs @ r # ys) = ys"
    and "filter (\<lambda>r'. key r' < key r) (xs @ r # ys) = xs"
    by simp_all
qed

interpretation asc: keyset_order key "order_asc key" "after_asc key" for key
proof
  show "filter (after_asc key (key r)) (order_asc key rows) = ys"
    if "distinct (map key rows)" "order_asc key rows = xs @ r # ys" for rows xs r ys
    using sorted_suffix(1) [OF that(1), of xs r ys] that(2) by (simp add: order_asc_def after_asc_less)
qed (simp_all add: order_asc_def filter_sort)

interpretation desc: keyset_order key "order_desc key" "after_desc key" for key
proof
  show "filter (after_desc key (key r)) (order_desc key rows) = ys"
    if "distinct (map key rows)" "order_desc key rows = xs @ r # ys" for rows xs r ys
  proof -
    have s: "sort_key key rows = rev ys @ r # rev xs"
      using that(2) by (simp add: order_desc_def rev_swap)
    have "filter (after_desc key (key r)) (rev (rev ys @ r # rev xs)) =
        rev (filter (after_desc key (key r)) (rev ys @ r # rev xs))"
      by (simp only: rev_filter)
    also have "\<dots> = ys"
      using sorted_suffix(2) [OF that(1) s] by (simp only: after_desc_less rev_rev_ident)
    finally show ?thesis
      by (simp only: order_desc_def s)
  qed
  show "order_desc key (filter P rows) = filter P (order_desc key rows)" for P rows
    by (simp only: order_desc_def filter_sort [symmetric] rev_filter)
qed (simp add: order_desc_def)

text \<open>A concrete token encoding, for the witnesses: times and ids in unary.\<close>

definition demo_page :: page_ext where
  "demo_page = \<lparr>b64url_encode = (\<lambda>s. s), b64url_decode = Inr,
     cursor_ser = (\<lambda>fld p. replicate (unat (snd p)) CHR ''a'' @ CHR ''/'' # fst p),
     cursor_de = (\<lambda>fld s. case split_once (CHR ''/'') s of
        None \<Rightarrow> Inl ''eof'' | Some (i, t) \<Rightarrow> Inr (t, of_nat (length i))),
     to_rfc3339 = (\<lambda>t. replicate (nat \<bar>t\<bar>) (if t < 0 then CHR ''b'' else CHR ''t'')),
     parse_rfc3339 = (\<lambda>s. Inr (if CHR ''b'' \<in> set s then - int (length s) else int (length s)))\<rparr>"

lemma demo_page_ok: "page_ext_ok demo_page"
  by (auto simp: page_ext_ok_def demo_page_def split_once_append)

interpretation demo_cursor: cursor_codec "encode_cursor demo_page fld" "decode_cursor demo_page fld" for fld
  by (rule cursor_codec_page_ext [OF demo_page_ok])

end
