(* ===== verification/Article_Listing.thy ===== *)
theory Article_Listing
  imports Article_Refinement Pagination
begin

text \<open>
  \<open>PgArticleRepo::list_by_account\<close>: the articles of an account, newest first, in pages.
  Walking the pages is shown to give every article once, each as a single read shows it.
\<close>

definition article_key :: "article_row \<Rightarrow> timestamp \<times> uuid" where
  "article_key r = (ar_created_at r, ar_id r)"

definition hydrate_article :: "db \<Rightarrow> article_row \<Rightarrow> article_summary res" where
  "hydrate_article d r =
     try_res (parse_state (ar_state r)) (\<lambda>state.
     case state of
       Live \<Rightarrow>
         try_res (ok_or (Internal ''select articles_live in list'')
             (lookup al_article_id (ar_id r) (articles_live d))) (\<lambda>live.
         try_res (ok_or (Internal ''select article_versions in list'')
             (lookup av_key (ar_id r, al_current_version live) (article_versions d))) (\<lambda>version.
         Inr (live_summary r live version)))
     | Tombstone \<Rightarrow>
         try_res (ok_or (Internal ''select articles_tombstone in list'')
             (lookup at_article_id (ar_id r) (articles_tombstone d))) (\<lambda>tomb.
         Inr (tombstone_summary r tomb)))"

definition article_rows :: "uuid \<Rightarrow> bool \<Rightarrow> db \<Rightarrow> article_row list" where
  "article_rows account_id include_tombstoned d =
     filter (\<lambda>r. ar_account_id r = account_id \<and> (include_tombstoned \<or> ar_state r = ''live''))
       (articles d)"

definition article_list ::
  "page_ext \<Rightarrow> uuid \<Rightarrow> bool \<Rightarrow> int \<Rightarrow> db \<Rightarrow> string \<Rightarrow> headlines_error + (article_summary list \<times> string)" where
  "article_list x account_id include_tombstoned page_size d =
     list_page (encode_cursor x ''c'') (decode_cursor x ''c'') article_key
       (order_desc article_key) (after_desc article_key) (hydrate_article d)
       (nat (clamp_page_size page_size)) (article_rows account_id include_tombstoned d)"

text \<open>Everything about articles depends on the four article tables alone.\<close>

definition same_articles :: "db \<Rightarrow> db \<Rightarrow> bool" where
  "same_articles d d' \<longleftrightarrow> articles d' = articles d \<and> articles_live d' = articles_live d \<and>
     articles_tombstone d' = articles_tombstone d \<and> article_versions d' = article_versions d"

lemma same_articles_cong:
  assumes "same_articles d d'"
  shows "articles_ok d' = articles_ok d" "abs_article d' = abs_article d"
    "article_get aid d' = article_get aid d"
proof -
  have e: "articles d' = articles d" "articles_live d' = articles_live d"
    "articles_tombstone d' = articles_tombstone d" "article_versions d' = article_versions d"
    using assms by (simp_all add: same_articles_def)
  show "articles_ok d' = articles_ok d"
    unfolding articles_ok_def article_ok_def redaction_ok_def e ..
  show "abs_article d' = abs_article d"
    by (rule ext) (unfold abs_article_def e, rule refl)
  show "article_get aid d' = article_get aid d"
    unfolding article_get_def e ..
qed

lemma clamp_page_size_pos: "0 < nat (clamp_page_size n)"
  by (simp add: clamp_page_size_def)

lemma distinct_article_keys: "articles_ok d \<Longrightarrow> distinct (map article_key (article_rows acc incl d))"
proof -
  assume "articles_ok d"
  then have "distinct (map ar_id (article_rows acc incl d))"
    by (simp add: articles_ok_def pk_def article_rows_def distinct_map_filter)
  then have "distinct (map snd (map article_key (article_rows acc incl d)))"
    by (simp add: article_key_def comp_def)
  then show ?thesis
    by (rule distinct_map [THEN iffD1, THEN conjunct1])
qed

text \<open>A row of the listing shows what a read of the article shows.\<close>

lemma hydrate_article_get:
  assumes ok: "articles_ok d" and r: "r \<in> set (articles d)"
  shows "\<exists>s a. hydrate_article d r = Inr s \<and> article_get (ar_id r) d = Inr a \<and> a_summary a = s \<and> as_id s = ar_id r"
proof -
  have l: "lookup ar_id (ar_id r) (articles d) = Some r"
    using ok r by (intro lookup_pk) (auto simp: articles_ok_def)
  then obtain A where "abs_article d (ar_id r) = Some A"
    by (simp add: abs_article_def)
  then obtain a n where f: "article_facts d (ar_id r) A a n"
    using abs_article_Some [OF ok] by blast
  with l have "a = r"
    by (simp add: article_facts_def)
  obtain v where v: "lookup av_key (ar_id r, n) (article_versions d) = Some v"
    using f unfolding article_facts_def by (metis order_refl option.exhaust)
  consider l where "ar_state r = ''live''" "lookup al_article_id (ar_id r) (articles_live d) = Some l" "al_current_version l = n"
    | t where "ar_state r = ''tombstone''" "lookup at_article_id (ar_id r) (articles_tombstone d) = Some t"
    using f \<open>a = r\<close> unfolding article_facts_def by blast
  then show ?thesis
  proof cases
    case 1
    with l v show ?thesis
      by (simp add: hydrate_article_def article_get_def parse_state_def live_summary_def
          version_to_summary_pieces_def)
  next
    case 2
    with l show ?thesis
      by (simp add: hydrate_article_def article_get_def parse_state_def tombstone_summary_def)
  qed
qed

text \<open>C13. Listing an account's articles page by page, at any page size, gives every article
  of the account (tombstoned ones when asked for) exactly once, newest first, and each
  summary is the one a read of that article returns.
\<close>

theorem article_list_complete:
  assumes "articles_ok d" "page_ext_ok x" "length (article_rows acc incl d) < fuel"
  shows "\<exists>ss. walk (article_list x acc incl page_size d) fuel [] = Some (Inr ss) \<and>
    map as_id ss = map ar_id (order_desc article_key (article_rows acc incl d)) \<and>
    list_all (\<lambda>s. \<exists>a. article_get (as_id s) d = Inr a \<and> a_summary a = s) ss"
proof -
  let ?rows = "article_rows acc incl d"
  let ?g = "\<lambda>r. projr (hydrate_article d r)"
  have h: "hydrate_article d r = Inr (?g r) \<and> as_id (?g r) = ar_id r \<and>
      (\<exists>a. article_get (ar_id r) d = Inr a \<and> a_summary a = ?g r)" if "r \<in> set ?rows" for r
    using hydrate_article_get [OF assms(1), of r] that by (auto simp: article_rows_def)
  have "walk (article_list x acc incl page_size d) fuel [] = Some (Inr (map ?g (order_desc article_key ?rows)))"
    unfolding article_list_def
    using desc.walk_complete [OF cursor_codec_page_ext [OF assms(2)] distinct_article_keys [OF assms(1)]
        clamp_page_size_pos, where hydrate = "hydrate_article d" and g = ?g] h assms(3)
    by blast
  moreover have "set (order_desc article_key ?rows) = set ?rows"
    by (simp add: order_desc_def)
  ultimately show ?thesis
    using h by (intro exI [of _ "map ?g (order_desc article_key ?rows)"]) (auto simp: list_all_iff)
qed

theorem article_list_complete_witness:
  "\<exists>ss. walk (article_list demo_page 1 True 1 demo_db) 2 [] = Some (Inr ss) \<and> map as_id ss = [10]"
proof -
  have "article_rows 1 True demo_db = [\<lparr>ar_id = 10, ar_account_id = 1, ar_state = ''live'', ar_created_at = 5\<rparr>]"
    by (simp add: article_rows_def demo_db_def article_publish_def transaction_def publish_tx_def
        demo_new_def demo_db0_def empty_db_def demo_account_def insert_article_def
        insert_article_live_def insert_article_version_def insert_checked_def)
  then show ?thesis
    using article_list_complete [OF demo_db_facts(1) demo_page_ok, of 1 True 2 1]
    by (auto simp: order_desc_def)
qed

text \<open>
  Page sizes: whatever is asked for, a page of most listings holds between 1 and 200
  rows (50 unless a positive size is given), and a page of drafts between 1 and 100 (20
  unless given).
\<close>

theorem page_size_bounds:
  "clamp_page_size n \<in> {1..200} \<and> clamp_page_size n = (if n \<le> 0 then 50 else min n 200) \<and>
   draft_page_size n \<in> {1..100} \<and> draft_page_size n = (if n \<le> 0 then 20 else min n 100)"
  by (auto simp: clamp_page_size_def draft_page_size_def)

end
