(* ===== verification/Draft_Store.thy ===== *)
theory Draft_Store
  imports Article_Listing
begin

text \<open>
  \<open>PgDraftRepo\<close> (\<open>headlines-store/src/repo/drafts.rs\<close>): drafts are edited in place and
  publishing hands one over to the article tables in a single transaction, keeping its id.
\<close>

subsection \<open>Domain types\<close>

record draft =
  df_id :: uuid
  df_account_id :: uuid
  df_title :: string
  df_author_name :: string
  df_author_url :: string
  df_content :: json
  df_created_at :: timestamp
  df_updated_at :: timestamp

record draft_summary =
  ds_id :: uuid
  ds_account_id :: uuid
  ds_title :: string
  ds_created_at :: timestamp
  ds_updated_at :: timestamp

record new_draft =
  nd_id :: uuid
  nd_account_id :: uuid
  nd_title :: string
  nd_author_name :: string
  nd_author_url :: string
  nd_content :: json

record draft_update =
  du_title :: "string option"
  du_author_name :: "string option"
  du_author_url :: "string option"
  du_content :: "json option"

definition draft_of_row :: "draft_row \<Rightarrow> draft" where
  "draft_of_row r = \<lparr>df_id = dr_id r, df_account_id = dr_account_id r, df_title = dr_title r,
     df_author_name = unwrap_or [] (dr_author_name r), df_author_url = unwrap_or [] (dr_author_url r),
     df_content = dr_content r, df_created_at = dr_created_at r, df_updated_at = dr_updated_at r\<rparr>"

subsection \<open>Operations\<close>

definition draft_create :: "timestamp \<Rightarrow> new_draft \<Rightarrow> db \<Rightarrow> draft res \<times> db" where
  "draft_create now new d =
     (let row = \<lparr>dr_id = nd_id new, dr_account_id = nd_account_id new, dr_title = nd_title new,
            dr_author_name = null_if_empty (nd_author_name new),
            dr_author_url = null_if_empty (nd_author_url new), dr_content = nd_content new,
            dr_created_at = now, dr_updated_at = now\<rparr>
      in try_st (insert_checked (nd_account_id new \<in> ac_id ` set (accounts d)) dr_id
             (Internal ''insert drafts'') row (drafts d)) d (\<lambda>t.
         (Inr (draft_of_row row), d\<lparr>drafts := t\<rparr>)))"

definition draft_get :: "uuid \<Rightarrow> db \<Rightarrow> draft res" where
  "draft_get did d = ok_or (DraftNotFound did) (map_option draft_of_row (lookup dr_id did (drafts d)))"

text \<open>One \<open>UPDATE\<close> of a draft column when the field is present.\<close>

definition set_draft :: "uuid \<Rightarrow> 'a option \<Rightarrow> ('a \<Rightarrow> draft_row \<Rightarrow> draft_row) \<Rightarrow> draft_row list \<Rightarrow> draft_row list" where
  "set_draft did m f t = (case m of None \<Rightarrow> t | Some v \<Rightarrow> update_row dr_id did (f v) t)"

definition draft_update_tx :: "timestamp \<Rightarrow> uuid \<Rightarrow> draft_update \<Rightarrow> db \<Rightarrow> headlines_error + (draft_row \<times> db)" where
  "draft_update_tx now did upd d =
     (if lookup dr_id did (drafts d) = None then Inl (DraftNotFound did)
      else
        let t1 = set_draft did (du_title upd) (\<lambda>v r. r\<lparr>dr_title := v\<rparr>) (drafts d);
            t2 = set_draft did (du_author_name upd) (\<lambda>v r. r\<lparr>dr_author_name := null_if_empty v\<rparr>) t1;
            t3 = set_draft did (du_author_url upd) (\<lambda>v r. r\<lparr>dr_author_url := null_if_empty v\<rparr>) t2;
            t4 = set_draft did (du_content upd) (\<lambda>v r. r\<lparr>dr_content := v\<rparr>) t3;
            t5 = update_row dr_id did (\<lambda>r. r\<lparr>dr_updated_at := now\<rparr>) t4
        in try_res (ok_or (Internal ''re-select drafts after update'') (lookup dr_id did t5)) (\<lambda>row.
           Inr (row, d\<lparr>drafts := t5\<rparr>)))"

definition draft_update_op :: "timestamp \<Rightarrow> uuid \<Rightarrow> draft_update \<Rightarrow> db \<Rightarrow> draft res \<times> db" where
  "draft_update_op now did upd d =
     transaction (draft_update_tx now did upd) d (\<lambda>row d'. (Inr (draft_of_row row), d'))"

definition draft_delete :: "uuid \<Rightarrow> db \<Rightarrow> unit res \<times> db" where
  "draft_delete did d =
     (if lookup dr_id did (drafts d) = None then (Inl (DraftNotFound did), d)
      else (Inr (), d\<lparr>drafts := delete_row dr_id did (drafts d)\<rparr>))"

definition draft_key :: "draft_row \<Rightarrow> timestamp \<times> uuid" where
  "draft_key r = (dr_updated_at r, dr_id r)"

definition draft_list ::
  "page_ext \<Rightarrow> uuid \<Rightarrow> int \<Rightarrow> db \<Rightarrow> string \<Rightarrow> headlines_error + (draft_summary list \<times> string)" where
  "draft_list x account_id page_size d =
     list_page (encode_cursor x ''u'') (decode_cursor x ''u'') draft_key
       (order_desc draft_key) (after_desc draft_key)
       (\<lambda>r. Inr \<lparr>ds_id = dr_id r, ds_account_id = dr_account_id r, ds_title = dr_title r,
                ds_created_at = dr_created_at r, ds_updated_at = dr_updated_at r\<rparr>)
       (nat (draft_page_size page_size)) (filter (\<lambda>r. dr_account_id r = account_id) (drafts d))"

definition draft_publish_tx :: "timestamp \<Rightarrow> uuid \<Rightarrow> db \<Rightarrow> headlines_error + (draft_row \<times> db)" where
  "draft_publish_tx now did d0 =
     try_res (ok_or (DraftNotFound did) (lookup dr_id did (drafts d0))) (\<lambda>row.
     try_res (insert_article \<lparr>ar_id = dr_id row, ar_account_id = dr_account_id row,
         ar_state = ''live'', ar_created_at = now\<rparr> d0) (\<lambda>d1.
     try_res (insert_article_live \<lparr>al_article_id = dr_id row, al_current_version = 1,
         al_published_at = now, al_updated_at = now\<rparr> d1) (\<lambda>d2.
     try_res (insert_article_version ''insert article_versions'' \<lparr>av_article_id = dr_id row,
         av_version = 1, av_title = dr_title row, av_author_name = dr_author_name row,
         av_author_url = dr_author_url row, av_content = Some (dr_content row),
         av_redacted_at = None, av_redaction_reason = None, av_created_at = now\<rparr> d2) (\<lambda>d3.
     Inr (row, d3\<lparr>drafts := delete_row dr_id did (drafts d3)\<rparr>)))))"

definition article_of_draft :: "timestamp \<Rightarrow> draft_row \<Rightarrow> article" where
  "article_of_draft now row =
     \<lparr>a_summary = \<lparr>as_id = dr_id row, as_account_id = dr_account_id row, as_state = Live,
        as_created_at = now, as_current_version = Some 1, as_title = Some (dr_title row),
        as_author_name = Some (unwrap_or [] (dr_author_name row)),
        as_author_url = Some (unwrap_or [] (dr_author_url row)), as_redacted = False,
        as_published_at = Some now, as_updated_at = Some now, as_tombstone_reason = None,
        as_tombstoned_at = None\<rparr>,
      a_content = Some (dr_content row)\<rparr>"

definition draft_publish :: "timestamp \<Rightarrow> uuid \<Rightarrow> db \<Rightarrow> article res \<times> db" where
  "draft_publish now did d =
     transaction (draft_publish_tx now did) d (\<lambda>row d'. (Inr (article_of_draft now row), d'))"

subsection \<open>Invariant\<close>

text \<open>Draft ids are unique, belong to accounts, and no id is both a draft and an article.\<close>

definition drafts_ok :: "db \<Rightarrow> bool" where
  "drafts_ok d \<longleftrightarrow> pk dr_id (drafts d) \<and>
     (\<forall>did r. lookup dr_id did (drafts d) = Some r \<longrightarrow>
        lookup ar_id did (articles d) = None \<and> lookup ac_id (dr_account_id r) (accounts d) \<noteq> None)"

text \<open>Publishing a draft is publishing its article and deleting the draft.\<close>

definition new_of_draft :: "draft_row \<Rightarrow> new_article" where
  "new_of_draft r = \<lparr>na_id = dr_id r, na_account_id = dr_account_id r, na_title = dr_title r,
     na_author_name = unwrap_or [] (dr_author_name r), na_author_url = unwrap_or [] (dr_author_url r),
     na_content = dr_content r\<rparr>"

text \<open>Empty author fields are never stored as empty strings.\<close>

definition authors_ok :: "draft_row \<Rightarrow> bool" where
  "authors_ok r \<longleftrightarrow> dr_author_name r \<noteq> Some [] \<and> dr_author_url r \<noteq> Some []"

lemma null_if_empty_unwrap: "m \<noteq> Some [] \<Longrightarrow> null_if_empty (unwrap_or [] m) = m"
  by (cases m) (auto simp: null_if_empty_def)

lemma draft_publish_tx_alt:
  assumes "lookup dr_id did (drafts d) = Some r" "authors_ok r"
  shows "draft_publish_tx now did d =
    try_res (publish_tx now (new_of_draft r) d) (\<lambda>p.
      Inr (r, (snd p)\<lparr>drafts := delete_row dr_id did (drafts (snd p))\<rparr>))"
  using assms
  by (auto simp: draft_publish_tx_def publish_tx_def new_of_draft_def authors_ok_def
      null_if_empty_unwrap try_res_def split: sum.splits)

lemma publish_tx_tables:
  "publish_tx now new d = Inr (u, d') \<Longrightarrow>
   drafts d' = drafts d \<and> accounts d' = accounts d \<and>
   (\<forall>b. lookup ar_id b (articles d') = None \<longleftrightarrow> b \<noteq> na_id new \<and> lookup ar_id b (articles d) = None)"
  unfolding publish_tx_Inr by (auto simp: lookup_append lookup_Cons split: option.splits)

lemma same_articles_drafts [simp]: "same_articles d (d\<lparr>drafts := t\<rparr>)"
  by (simp add: same_articles_def)

lemmas drafts_frame = same_articles_cong [OF same_articles_drafts]

lemma lookup_set_draft:
  "(\<And>v r. dr_id (f v r) = dr_id r) \<Longrightarrow>
   lookup dr_id i (set_draft did m f t) =
     (if i = did then map_option (case m of None \<Rightarrow> (\<lambda>r. r) | Some v \<Rightarrow> f v) (lookup dr_id i t)
      else lookup dr_id i t)"
  by (auto simp: set_draft_def lookup_update_row option.map_id0 [unfolded id_def] split: option.splits)

lemma pk_set_draft: "(\<And>v r. dr_id (f v r) = dr_id r) \<Longrightarrow> pk dr_id (set_draft did m f t) = pk dr_id t"
  by (auto simp: set_draft_def pk_update_row split: option.splits)

text \<open>The row after an update: the given fields replaced, the update time new.\<close>

definition updated_draft :: "timestamp \<Rightarrow> draft_update \<Rightarrow> draft_row \<Rightarrow> draft_row" where
  "updated_draft now upd r = r\<lparr>dr_title := unwrap_or (dr_title r) (du_title upd),
     dr_author_name := (case du_author_name upd of None \<Rightarrow> dr_author_name r | Some v \<Rightarrow> null_if_empty v),
     dr_author_url := (case du_author_url upd of None \<Rightarrow> dr_author_url r | Some v \<Rightarrow> null_if_empty v),
     dr_content := unwrap_or (dr_content r) (du_content upd), dr_updated_at := now\<rparr>"

lemma draft_update_tx_eq:
  assumes "lookup dr_id did (drafts d) = Some r"
  obtains d' where "draft_update_tx now did upd d = Inr (updated_draft now upd r, d')"
    "\<And>i. lookup dr_id i (drafts d') = (if i = did then Some (updated_draft now upd r) else lookup dr_id i (drafts d))"
    "pk dr_id (drafts d') = pk dr_id (drafts d)" "d' = d\<lparr>drafts := drafts d'\<rparr>"
proof -
  let ?t1 = "set_draft did (du_title upd) (\<lambda>v r. r\<lparr>dr_title := v\<rparr>) (drafts d)"
  let ?t2 = "set_draft did (du_author_name upd) (\<lambda>v r. r\<lparr>dr_author_name := null_if_empty v\<rparr>) ?t1"
  let ?t3 = "set_draft did (du_author_url upd) (\<lambda>v r. r\<lparr>dr_author_url := null_if_empty v\<rparr>) ?t2"
  let ?t4 = "set_draft did (du_content upd) (\<lambda>v r. r\<lparr>dr_content := v\<rparr>) ?t3"
  let ?t5 = "update_row dr_id did (\<lambda>r. r\<lparr>dr_updated_at := now\<rparr>) ?t4"
  have l: "lookup dr_id i ?t5 = (if i = did then Some (updated_draft now upd r) else lookup dr_id i (drafts d))" for i
    using assms
    by (auto simp: lookup_update_row lookup_set_draft updated_draft_def unwrap_or_def split: option.splits)
  have p: "pk dr_id ?t5 = pk dr_id (drafts d)"
    by (simp add: pk_update_row pk_set_draft)
  show thesis
    by (rule that [of "d\<lparr>drafts := ?t5\<rparr>"]) (use assms l p in \<open>simp_all add: draft_update_tx_def Let_def\<close>)
qed

subsection \<open>Properties\<close>

text \<open>
  Drafts round trip: after a draft is created, a read returns it; an update replaces
  exactly the fields given and the update time, and a read returns the result; a deleted
  draft is not found. The other drafts do not change.
\<close>

theorem draft_roundtrip:
  assumes "nd_account_id new \<in> ac_id ` set (accounts d)" "lookup dr_id (nd_id new) (drafts d) = None"
    and "other \<noteq> nd_id new"
  shows "\<exists>f d1 f2 d2 d3. draft_create now new d = (Inr f, d1) \<and> draft_get (nd_id new) d1 = Inr f \<and>
    df_content f = nd_content new \<and> df_title f = nd_title new \<and>
    draft_update_op now' (nd_id new) upd d1 = (Inr f2, d2) \<and> draft_get (nd_id new) d2 = Inr f2 \<and>
    df_title f2 = unwrap_or (df_title f) (du_title upd) \<and>
    df_author_name f2 = unwrap_or (df_author_name f) (du_author_name upd) \<and>
    df_content f2 = unwrap_or (df_content f) (du_content upd) \<and> df_updated_at f2 = now' \<and>
    draft_delete (nd_id new) d2 = (Inr (), d3) \<and>
    draft_get (nd_id new) d3 = Inl (DraftNotFound (nd_id new)) \<and>
    draft_get other d3 = draft_get other d"
proof -
  let ?row = "\<lparr>dr_id = nd_id new, dr_account_id = nd_account_id new, dr_title = nd_title new,
      dr_author_name = null_if_empty (nd_author_name new), dr_author_url = null_if_empty (nd_author_url new),
      dr_content = nd_content new, dr_created_at = now, dr_updated_at = now\<rparr>"
  let ?d1 = "d\<lparr>drafts := drafts d @ [?row]\<rparr>"
  have c: "draft_create now new d = (Inr (draft_of_row ?row), ?d1)"
    using assms(1,2) by (simp add: draft_create_def insert_checked_def Let_def)
  have l1: "lookup dr_id i (drafts ?d1) = (if i = nd_id new then Some ?row else lookup dr_id i (drafts d))" for i
    using assms(2) by (simp add: lookup_snoc)
  then have r1: "lookup dr_id (nd_id new) (drafts ?d1) = Some ?row"
    by simp
  obtain d2 where u: "draft_update_tx now' (nd_id new) upd ?d1 = Inr (updated_draft now' upd ?row, d2)"
    and l2: "\<And>i. lookup dr_id i (drafts d2) =
      (if i = nd_id new then Some (updated_draft now' upd ?row) else lookup dr_id i (drafts ?d1))"
    using draft_update_tx_eq [OF r1] by metis
  let ?d3 = "d2\<lparr>drafts := delete_row dr_id (nd_id new) (drafts d2)\<rparr>"
  have "draft_update_op now' (nd_id new) upd ?d1 = (Inr (draft_of_row (updated_draft now' upd ?row)), d2)"
    using u by (simp add: draft_update_op_def transaction_def)
  moreover have "draft_delete (nd_id new) d2 = (Inr (), ?d3)"
    by (simp add: draft_delete_def l2)
  ultimately show ?thesis
    using c l1 l2 assms(3)
    by (intro exI [of _ "draft_of_row ?row"] exI [of _ ?d1] exI [of _ d2] exI [of _ ?d3]
        exI [of _ "draft_of_row (updated_draft now' upd ?row)"])
      (auto simp: draft_get_def draft_of_row_def updated_draft_def split: option.splits)
qed

definition demo_draft :: new_draft where
  "demo_draft = \<lparr>nd_id = 20, nd_account_id = 1, nd_title = ''d'', nd_author_name = [],
     nd_author_url = [], nd_content = JArr []\<rparr>"

theorem draft_roundtrip_witness:
  "\<exists>f d1. draft_create 5 demo_draft demo_db0 = (Inr f, d1) \<and> draft_get 20 d1 = Inr f \<and> df_title f = ''d''"
proof -
  have a: "nd_account_id demo_draft \<in> ac_id ` set (accounts demo_db0)"
    "lookup dr_id (nd_id demo_draft) (drafts demo_db0) = None"
    by (simp_all add: demo_draft_def demo_db0_def demo_account_def empty_db_def)
  from draft_roundtrip [OF a, of 0 5 6 "\<lparr>du_title = None, du_author_name = None,
      du_author_url = None, du_content = None\<rparr>"] show ?thesis
    by (auto simp: demo_draft_def)
qed

lemma draft_publish_step:
  assumes "articles_ok d" "drafts_ok d" "lookup dr_id did (drafts d) = Some r" "authors_ok r"
  shows "\<exists>a d'. draft_publish now did d = (Inr a, d') \<and> articles_ok d' \<and> drafts_ok d' \<and>
    article_get did d' = Inr a \<and> draft_get did d' = Inl (DraftNotFound did) \<and>
    abs_article d' = (abs_article d)(did \<mapsto> \<lparr>aa_account = dr_account_id r,
      aa_versions = [\<lparr>vn_title = dr_title r, vn_author_name = unwrap_or [] (dr_author_name r),
        vn_author_url = unwrap_or [] (dr_author_url r), vn_content = Some (dr_content r)\<rparr>],
      aa_tomb = None\<rparr>)"
proof -
  have did: "dr_id r = did"
    using lookup_SomeD [OF assms(3)] by simp
  have "lookup ac_id (na_account_id (new_of_draft r)) (accounts d) \<noteq> None"
    and "abs_article d (na_id (new_of_draft r)) = None"
    using assms(2,3) did by (auto simp: drafts_ok_def new_of_draft_def abs_article_None)
  from publish_abs [OF assms(1) this, of now] obtain d1 where
    tx: "publish_tx now (new_of_draft r) d = Inr ((), d1)" and
    abs: "abs_article d1 = (abs_article d)(did \<mapsto> \<lparr>aa_account = dr_account_id r,
      aa_versions = [\<lparr>vn_title = dr_title r, vn_author_name = unwrap_or [] (dr_author_name r),
        vn_author_url = unwrap_or [] (dr_author_url r), vn_content = Some (dr_content r)\<rparr>],
      aa_tomb = None\<rparr>)"
    by (auto simp: new_of_draft_def did)
  let ?d' = "d1\<lparr>drafts := delete_row dr_id did (drafts d1)\<rparr>"
  note tb = publish_tx_tables [OF tx]
  have "draft_publish now did d = (Inr (article_of_draft now r), ?d')"
    using draft_publish_tx_alt [OF assms(3,4), of now] tx by (simp add: draft_publish_def transaction_def)
  moreover have "article_get did ?d' = Inr (article_of_draft now r)"
    using article_get_published [OF tx]
    by (simp add: drafts_frame article_of_draft_def new_of_draft_def did)
  moreover have "articles_ok ?d'"
    using publish_tx_ok [OF assms(1) tx] by (simp add: drafts_frame)
  moreover have "drafts_ok ?d'"
    using assms(2) tb by (auto simp: drafts_ok_def pk_delete_row new_of_draft_def did split: if_splits)
  moreover have "draft_get did ?d' = Inl (DraftNotFound did)"
    by (simp add: draft_get_def)
  ultimately show ?thesis
    using abs by (intro exI [of _ "article_of_draft now r"] exI [of _ ?d']) (simp add: drafts_frame)
qed


definition demo_draft_db :: db where
  "demo_draft_db = snd (draft_create 5 demo_draft demo_db0)"


end
