(* ===== verification/Atomic.thy ===== *)
theory Atomic
  imports Prelude
begin

text \<open>
  All-or-nothing operations. The repositories promise their callers that an operation
  either succeeds or leaves the store as it was, and that it keeps the invariant of the
  tables. The handlers above them put guards in front of one such operation and rename its
  result; the locale \<open>store_op\<close> states the contract and carries it through the guards.
\<close>

definition keeps :: "('s \<Rightarrow> bool) \<Rightarrow> 's \<Rightarrow> ('e + 'a) \<times> 's \<Rightarrow> bool" where
  "keeps okay s out \<longleftrightarrow> okay (snd out) \<and> (\<forall>e. fst out = Inl e \<longrightarrow> snd out = s)"

text \<open>The end of a handler: the operation, its error mapped, its value turned into a message.\<close>

definition respond :: "('e \<Rightarrow> 'f) \<Rightarrow> ('a \<Rightarrow> 'b) \<Rightarrow> ('e + 'a) \<times> 's \<Rightarrow> ('f + 'b) \<times> 's" where
  "respond f g out = (let (r, s') = out in try_st (map_err f r) s' (\<lambda>a. (Inr (g a), s')))"

named_theorems keeps_intros \<open>closure of all-or-nothing operations under guards\<close>

lemma keeps_refuse [keeps_intros]: "okay s \<Longrightarrow> keeps okay s (Inl e, s)"
  by (simp add: keeps_def)

lemma keeps_same [keeps_intros]: "okay s \<Longrightarrow> keeps okay s (Inr a, s)"
  by (simp add: keeps_def)

lemma keeps_try_st [keeps_intros]:
  "okay s \<Longrightarrow> (\<And>x. r = Inr x \<Longrightarrow> keeps okay s (k x)) \<Longrightarrow> keeps okay s (try_st r s k)"
  by (cases r) (simp_all add: keeps_def)

lemma keeps_if [keeps_intros]:
  "(b \<Longrightarrow> keeps okay s p) \<Longrightarrow> (\<not> b \<Longrightarrow> keeps okay s q) \<Longrightarrow> keeps okay s (if b then p else q)"
  by simp

lemma keeps_case_prod [keeps_intros]:
  "(\<And>a b. p = (a, b) \<Longrightarrow> keeps okay s (f a b)) \<Longrightarrow> keeps okay s (case p of (a, b) \<Rightarrow> f a b)"
  by (cases p) simp

lemma keeps_tail [keeps_intros]:
  "keeps okay s out \<Longrightarrow> keeps okay s (let (r, s') = out in try_st r s' (\<lambda>a. (Inr (g a), s')))"
  by (cases out; cases "fst out") (auto simp: keeps_def)

lemma keeps_respond [keeps_intros]: "keeps okay s out \<Longrightarrow> keeps okay s (respond f g out)"
  by (cases out; cases "fst out") (auto simp: keeps_def respond_def)

lemma respond_let: "(let (r, s') = out in try_st (map_err f r) s' (\<lambda>a. (Inr (g a), s'))) = respond f g out"
  by (simp add: respond_def)

lemma respond_Inr: "respond f g out = (Inr b, s') \<longleftrightarrow> (\<exists>a. out = (Inr a, s') \<and> b = g a)"
  by (cases out; cases "fst out") (auto simp: respond_def)

lemma snd_respond [simp]: "snd (respond f g out) = snd out"
  by (cases out; cases "fst out") (simp_all add: respond_def)

lemma keeps_inv: "keeps okay s out \<Longrightarrow> okay (snd out)"
  by (simp add: keeps_def)

lemma keeps_error: "keeps okay s out \<Longrightarrow> fst out = Inl e \<Longrightarrow> snd out = s"
  by (simp add: keeps_def)

lemma keeps_conj: "keeps p s out \<Longrightarrow> q (snd out) \<Longrightarrow> keeps (\<lambda>s. p s \<and> q s) s out"
  by (simp add: keeps_def)

text \<open>What changed the store passed every guard.\<close>

lemma try_st_change: "snd (try_st r s k) \<noteq> s \<Longrightarrow> \<exists>x. r = Inr x \<and> snd (k x) \<noteq> s"
  by (cases r) simp_all

subsection \<open>The contract\<close>

locale store_op =
  fixes okay :: "'s \<Rightarrow> bool" and run :: "'r \<Rightarrow> 's \<Rightarrow> ('e + 'a) \<times> 's"
  assumes run_keeps: "okay s \<Longrightarrow> keeps okay s (run r s)"
begin

lemma run_inv: "okay s \<Longrightarrow> okay (snd (run r s))"
  by (rule keeps_inv [OF run_keeps])

lemma run_error: "okay s \<Longrightarrow> fst (run r s) = Inl e \<Longrightarrow> snd (run r s) = s"
  by (rule keeps_error [OF run_keeps])

text \<open>Any sequence of calls, failed ones included, keeps the invariant.\<close>

lemma run_all: "okay s \<Longrightarrow> okay (fold (\<lambda>r s. snd (run r s)) rs s)"
  by (induction rs arbitrary: s) (simp_all add: run_inv)

text \<open>A sequence in which every call fails changes nothing.\<close>

lemma run_all_failed:
  assumes "okay s" "\<And>r. r \<in> set rs \<Longrightarrow> \<exists>e. fst (run r s) = Inl e"
  shows "fold (\<lambda>r s. snd (run r s)) rs s = s"
  using assms(2)
proof (induction rs)
  case (Cons r rs)
  then have "snd (run r s) = s"
    using run_error [OF assms(1)] by (meson list.set_intros(1))
  with Cons show ?case
    by simp
qed simp

end

end
