(* ===== verification/Content.thy ===== *)
theory Content
  imports Database "HOL-Library.Char_ord" "HOL-Library.List_Lexorder" "HOL-Library.Multiset"
begin

text \<open>
  Article content (\<open>headlines-api/src/services/article.rs\<close>): the allow-lists for tags and
  attributes, the validation of a node tree, and the translation between nodes and the JSON
  that is stored. Shown: validation is the flat check of every element in document order,
  and decoding what was encoded gives the same nodes.
\<close>

subsection \<open>Nodes\<close>

text \<open>
  \<open>ProtoNode\<close>: an unset kind, a text or an element. The attributes are a \<open>HashMap\<close>: the
  list holds its entries in the order in which it iterates, which the language leaves
  open; \<open>node_ok\<close> says that its keys are distinct.
\<close>

datatype node =
    NoKind
  | Text string
  | Element string "(string \<times> string) list" "node list"

fun node_ok :: "node \<Rightarrow> bool" where
  "node_ok NoKind = True"
| "node_ok (Text t) = True"
| "node_ok (Element tag attrs children) =
     (distinct (map fst attrs) \<and> list_all node_ok children)"

subsection \<open>Validation\<close>

definition ALLOWED_TAGS :: "string list" where
  "ALLOWED_TAGS = [''p'', ''h3'', ''h4'', ''a'', ''img'', ''figure'', ''figcaption'', ''blockquote'',
     ''aside'', ''pre'', ''code'', ''em'', ''strong'', ''s'', ''u'', ''iframe'', ''video'', ''br'', ''hr'',
     ''ul'', ''ol'', ''li'']"

definition allowed_attrs_for :: "string \<Rightarrow> string list option" where
  "allowed_attrs_for tag =
     (if tag = ''a'' then Some [''href'']
      else if tag = ''img'' then Some [''src'', ''alt'']
      else if tag = ''iframe'' then Some [''src'']
      else if tag = ''video'' then Some [''src'']
      else Some [])"

text \<open>The loops over the attribute keys and over the children stop at the first error.\<close>

fun each_ok :: "('a \<Rightarrow> unit res) \<Rightarrow> 'a list \<Rightarrow> unit res" where
  "each_ok f [] = Inr ()"
| "each_ok f (x # xs) = try_res (f x) (\<lambda>_. each_ok f xs)"

lemma each_ok_cong [fundef_cong]:
  "xs = ys \<Longrightarrow> (\<And>x. x \<in> set ys \<Longrightarrow> f x = g x) \<Longrightarrow> each_ok f xs = each_ok g ys"
  by (induction ys arbitrary: xs) auto

definition validate_element_head :: "string \<Rightarrow> (string \<times> string) list \<Rightarrow> unit res" where
  "validate_element_head tag attrs =
     (if tag \<notin> set ALLOWED_TAGS then Inl (InvalidNodeTag tag)
      else each_ok (\<lambda>k. if k \<notin> set (unwrap_or [] (allowed_attrs_for tag))
                        then Inl (InvalidNodeAttr tag k) else Inr ()) (map fst attrs))"

fun validate_node :: "node \<Rightarrow> unit res" where
  "validate_node NoKind = Inr ()"
| "validate_node (Text t) = Inr ()"
| "validate_node (Element tag attrs children) =
     try_res (validate_element_head tag attrs) (\<lambda>_. each_ok validate_node children)"

subsection \<open>Nodes as JSON\<close>

text \<open>
  \<open>serde_json::Map\<close> keeps its keys sorted; \<open>json_insert\<close> is its \<open>insert\<close> on an object
  given by its sorted entries, \<open>map_of\<close> its \<open>get\<close>.
\<close>

fun json_insert :: "string \<Rightarrow> json \<Rightarrow> (string \<times> json) list \<Rightarrow> (string \<times> json) list" where
  "json_insert k v [] = [(k, v)]"
| "json_insert k v ((k', v') # rest) =
     (if k = k' then (k, v) # rest
      else if k < k' then (k, v) # (k', v') # rest
      else (k', v') # json_insert k v rest)"

definition attrs_to_json :: "(string \<times> string) list \<Rightarrow> (string \<times> json) list" where
  "attrs_to_json attrs =
     foldl (\<lambda>obj k. case map_of attrs k of None \<Rightarrow> obj | Some v \<Rightarrow> json_insert k (JStr v) obj) []
       (sort (map fst attrs))"

fun node_to_json :: "node \<Rightarrow> json" where
  "node_to_json NoKind = JNull"
| "node_to_json (Text t) = JObj (json_insert ''text'' (JStr t) [])"
| "node_to_json (Element tag attrs children) =
     (let obj = json_insert ''tag'' (JStr tag) [];
          obj = (if attrs \<noteq> [] then json_insert ''attrs'' (JObj (attrs_to_json attrs)) obj else obj);
          obj = (if children \<noteq> []
                 then json_insert ''children'' (JArr (map node_to_json children)) obj else obj)
      in JObj obj)"

definition nodes_to_json :: "node list \<Rightarrow> json" where
  "nodes_to_json nodes = JArr (map node_to_json nodes)"

fun as_str :: "json \<Rightarrow> string option" where
  "as_str (JStr s) = Some s"
| "as_str _ = None"

fun as_object :: "json \<Rightarrow> (string \<times> json) list option" where
  "as_object (JObj obj) = Some obj"
| "as_object _ = None"

definition str_entries :: "(string \<times> json) list \<Rightarrow> (string \<times> string) list" where
  "str_entries obj = List.map_filter (\<lambda>(k, v). map_option (\<lambda>s. (k, s)) (as_str v)) obj"

text \<open>
  \<open>json_to_node\<close> and \<open>json_to_nodes\<close> call each other; the second is written out on the
  value of the \<open>children\<close> key.
\<close>

lemma size_map_of: "map_of obj k = Some v \<Longrightarrow> size v < Suc (size_list (size_prod (\<lambda>_. 0) size) obj)"
  by (induction obj) (auto split: if_splits)

lemma size_child:
  "map_of obj k = Some (JArr arr) \<Longrightarrow> x \<in> set arr \<Longrightarrow>
   size x < Suc (size_list (size_prod (\<lambda>_. 0) size) obj)"
  using size_map_of [of obj k "JArr arr"] size_list_estimation' [of x arr "size x" size] by simp

function (sequential) json_to_node :: "json \<Rightarrow> node" where
  "json_to_node (JObj obj) =
     (case map_of obj ''text'' of
        Some (JStr t) \<Rightarrow> Text t
      | _ \<Rightarrow>
          Element (unwrap_or [] (Option.bind (map_of obj ''tag'') as_str))
            (unwrap_or [] (map_option str_entries (Option.bind (map_of obj ''attrs'') as_object)))
            (case map_of obj ''children'' of
               Some (JArr arr) \<Rightarrow> map json_to_node arr
             | _ \<Rightarrow> []))"
| "json_to_node _ = NoKind"
  by pat_completeness auto
termination
  by (relation "measure size") (auto intro: size_child)

definition json_to_nodes :: "json \<Rightarrow> node list" where
  "json_to_nodes j = (case j of JArr arr \<Rightarrow> map json_to_node arr | _ \<Rightarrow> [])"

text \<open>\<open>ser\<close> is \<open>serde_json::to_vec\<close>, of which the length is used.\<close>

definition validate_and_encode_content ::
  "(json \<Rightarrow> string option) \<Rightarrow> node list \<Rightarrow> nat \<Rightarrow> json res" where
  "validate_and_encode_content ser nodes max_bytes =
     (if nodes = [] then Inl (InvalidArgument ''content'' ''must be non-empty'')
      else try_res (each_ok validate_node nodes) (\<lambda>_.
      let j = nodes_to_json nodes
      in try_res (ok_or (Internal ''serialize content as json'') (ser j)) (\<lambda>serialized.
      if length serialized > max_bytes then Inl (ContentTooLarge (length serialized) max_bytes)
      else Inr j)))"

subsection \<open>Validation, flat\<close>

text \<open>The elements of a node in document order.\<close>

fun elements :: "node \<Rightarrow> (string \<times> (string \<times> string) list) list" where
  "elements NoKind = []"
| "elements (Text t) = []"
| "elements (Element tag attrs children) = (tag, attrs) # concat (map elements children)"

lemma each_ok_append: "each_ok f (xs @ ys) = try_res (each_ok f xs) (\<lambda>_. each_ok f ys)"
proof (induction xs)
  case (Cons x xs)
  then show ?case
    by (cases "f x") simp_all
qed simp

lemma each_ok_Inr: "each_ok f xs = Inr () \<longleftrightarrow> (\<forall>x\<in>set xs. f x = Inr ())"
  by (induction xs) (auto simp: try_res_Inr)

lemma each_ok_concat: "each_ok f (concat xss) = each_ok (each_ok f) xss"
  by (induction xss) (simp_all add: each_ok_append)

lemma each_ok_map: "each_ok f (map g xs) = each_ok (\<lambda>x. f (g x)) xs"
  by (induction xs) simp_all

lemma validate_node_flat:
  "validate_node n = each_ok (\<lambda>(tag, attrs). validate_element_head tag attrs) (elements n)"
proof (induction n)
  case (Element tag attrs children)
  then have "each_ok validate_node children =
      each_ok (\<lambda>n. each_ok (\<lambda>(tag, attrs). validate_element_head tag attrs) (elements n)) children"
    by (intro each_ok_cong) auto
  then show ?case
    by (simp add: each_ok_concat each_ok_map)
qed simp_all

definition element_allowed :: "string \<Rightarrow> (string \<times> string) list \<Rightarrow> bool" where
  "element_allowed tag attrs \<longleftrightarrow>
     tag \<in> set ALLOWED_TAGS \<and> fst ` set attrs \<subseteq> set (unwrap_or [] (allowed_attrs_for tag))"

lemma validate_element_head_iff: "validate_element_head tag attrs = Inr () \<longleftrightarrow> element_allowed tag attrs"
  by (auto simp: validate_element_head_def element_allowed_def each_ok_Inr split: if_splits)

subsection \<open>Decoding what was encoded\<close>

text \<open>A node with the attributes of every element in key order: the same hash maps.\<close>

fun sort_attrs :: "node \<Rightarrow> node" where
  "sort_attrs NoKind = NoKind"
| "sort_attrs (Text t) = Text t"
| "sort_attrs (Element tag attrs children) = Element tag (sort_key fst attrs) (map sort_attrs children)"

lemma json_insert_last: "\<forall>e\<in>set obj. fst e < k \<Longrightarrow> json_insert k v obj = obj @ [(k, v)]"
  by (induction obj) (force simp: order_less_le)+

lemma attrs_foldl:
  assumes "sorted (map fst ps)" "distinct (map fst ps)" "\<forall>(k, v)\<in>set ps. map_of attrs k = Some v"
  shows "foldl (\<lambda>obj k. case map_of attrs k of None \<Rightarrow> obj | Some v \<Rightarrow> json_insert k (JStr v) obj) []
      (map fst ps) = map (\<lambda>(k, v). (k, JStr v)) ps"
  using assms
proof (induction ps rule: rev_induct)
  case (snoc p ps)
  have "fst q < fst p" if "q \<in> set ps" for q
    using snoc.prems(1,2) that by (simp add: sorted_append order_less_le) (metis image_eqI)
  then have "\<forall>e\<in>set (map (\<lambda>(k, v). (k, JStr v)) ps). fst e < fst p"
    by fastforce
  then show ?case
    using snoc by (cases p) (simp add: sorted_append json_insert_last)
qed simp

lemma map_fst_sort: "map fst (sort_key fst xs) = sort (map fst xs)"
  by (rule properties_for_sort [symmetric]) (simp_all add: mset_map)

lemma attrs_to_json_eq:
  assumes "distinct (map fst attrs)"
  shows "attrs_to_json attrs = map (\<lambda>(k, v). (k, JStr v)) (sort_key fst attrs)"
proof -
  have "distinct (map fst (sort_key fst attrs))"
    using assms by (simp add: map_fst_sort)
  then show ?thesis
    using attrs_foldl [of "sort_key fst attrs" attrs] assms
    by (auto simp: attrs_to_json_def map_fst_sort)
qed

lemma str_entries_JStr: "str_entries (map (\<lambda>(k, v). (k, JStr v)) xs) = xs"
  by (induction xs) (auto simp: str_entries_def List.map_filter_simps)

lemma json_to_node_node_to_json: "node_ok n \<Longrightarrow> json_to_node (node_to_json n) = sort_attrs n"
proof (induction n)
  case (Element tag attrs children)
  then have "map (json_to_node \<circ> node_to_json) children = map sort_attrs children"
    by (auto simp: list_all_iff)
  with Element.prems show ?case
    by (auto simp: Let_def attrs_to_json_eq str_entries_JStr)
qed simp_all

lemma json_to_nodes_nodes_to_json:
  "list_all node_ok ns \<Longrightarrow> json_to_nodes (nodes_to_json ns) = map sort_attrs ns"
  by (induction ns) (simp_all add: json_to_nodes_def nodes_to_json_def json_to_node_node_to_json)

lemma validate_and_encode_content_Inr:
  "validate_and_encode_content ser ns mx = Inr j \<Longrightarrow> j = nodes_to_json ns"
  by (auto simp: validate_and_encode_content_def res_invert Let_def split: if_splits)

lemma map_of_sort_key: "distinct (map fst xs) \<Longrightarrow> map_of (sort_key fst xs) = map_of xs"
  by (subst map_of_inject_set) (simp_all add: map_fst_sort)

lemma elements_sort_attrs:
  "elements (sort_attrs n) = map (\<lambda>(tag, attrs). (tag, sort_key fst attrs)) (elements n)"
proof (induction n)
  case (Element tag attrs children)
  then have "map (\<lambda>n. elements (sort_attrs n)) children =
      map (\<lambda>n. map (\<lambda>(tag, attrs). (tag, sort_key fst attrs)) (elements n)) children"
    by (intro map_cong) auto
  then have "concat (map (\<lambda>n. elements (sort_attrs n)) children) =
      concat (map (\<lambda>n. map (\<lambda>(tag, attrs). (tag, sort_key fst attrs)) (elements n)) children)"
    by (rule arg_cong)
  then show ?case
    by (simp add: map_concat comp_def)
qed simp_all

lemma node_ok_elements: "node_ok n \<Longrightarrow> (tag, attrs) \<in> set (elements n) \<Longrightarrow> distinct (map fst attrs)"
  by (induction n) (auto simp: list_all_iff)

subsection \<open>Properties\<close>

text \<open>C22. Content validation on every branch: empty content is refused; otherwise the first
  element in document order whose tag is off the list, or that has an attribute its tag may
  not have, decides the error; otherwise the content is accepted exactly when its stored
  form is at most \<open>max_bytes\<close> long.
\<close>

theorem content_validation:
  "validate_and_encode_content ser ns max_bytes =
    (if ns = [] then Inl (InvalidArgument ''content'' ''must be non-empty'')
     else case find (\<lambda>(tag, attrs). \<not> element_allowed tag attrs) (concat (map elements ns)) of
       Some (tag, attrs) \<Rightarrow>
         Inl (if tag \<in> set ALLOWED_TAGS
              then InvalidNodeAttr tag
                (hd (filter (\<lambda>k. k \<notin> set (unwrap_or [] (allowed_attrs_for tag))) (map fst attrs)))
              else InvalidNodeTag tag)
     | None \<Rightarrow>
         (case ser (nodes_to_json ns) of
            None \<Rightarrow> Inl (Internal ''serialize content as json'')
          | Some s \<Rightarrow>
              if length s \<le> max_bytes then Inr (nodes_to_json ns)
              else Inl (ContentTooLarge (length s) max_bytes)))"
proof -
  let ?head = "\<lambda>(tag, attrs). validate_element_head tag attrs"
  let ?err = "\<lambda>tag attrs. if tag \<in> set ALLOWED_TAGS
      then InvalidNodeAttr tag (hd (filter (\<lambda>k. k \<notin> set (unwrap_or [] (allowed_attrs_for tag))) (map fst attrs)))
      else InvalidNodeTag tag"
  have attr: "each_ok (\<lambda>k. if P k then Inl (f k) else Inr ()) ks = Inl (f (hd (filter P ks)))"
    if "\<exists>k\<in>set ks. P k" for P and f :: "string \<Rightarrow> headlines_error" and ks
    using that by (induction ks) auto
  have head: "validate_element_head tag attrs = Inl (?err tag attrs)" if "\<not> element_allowed tag attrs" for tag attrs
    using that attr [of "map fst attrs" "\<lambda>k. k \<notin> set (unwrap_or [] (allowed_attrs_for tag))" "InvalidNodeAttr tag"]
    by (simp add: validate_element_head_def element_allowed_def subset_eq image_iff)
  have flat: "each_ok ?head es = (case find (\<lambda>(tag, attrs). \<not> element_allowed tag attrs) es of
      Some (tag, attrs) \<Rightarrow> Inl (?err tag attrs) | None \<Rightarrow> Inr ())" for es
    by (induction es) (auto simp: validate_element_head_iff [THEN iffD2] head)
  have "each_ok validate_node ns = each_ok ?head (concat (map elements ns))"
    unfolding each_ok_concat each_ok_map by (intro each_ok_cong refl validate_node_flat)
  then show ?thesis
    by (auto simp: validate_and_encode_content_def flat Let_def split: option.splits)
qed

text \<open>Content round trips: reading back the JSON that was stored for valid content gives
  the nodes that were sent, every element with the same tag, the same children and the
  same attribute values.
\<close>

theorem content_roundtrip:
  assumes "list_all node_ok ns" "validate_and_encode_content ser ns max_bytes = Inr j"
  shows "json_to_nodes j = map sort_attrs ns \<and>
    list_all2 (\<lambda>n m. list_all2 (\<lambda>(tag, attrs) (tag', attrs'). tag = tag' \<and> map_of attrs = map_of attrs')
        (elements n) (elements m)) ns (json_to_nodes j)"
proof -
  have j: "json_to_nodes j = map sort_attrs ns"
    using validate_and_encode_content_Inr [OF assms(2)] json_to_nodes_nodes_to_json [OF assms(1)] by simp
  moreover have "list_all2 (\<lambda>(tag, attrs) (tag', attrs'). tag = tag' \<and> map_of attrs = map_of attrs')
      (elements n) (elements (sort_attrs n))" if "n \<in> set ns" for n
    using assms(1) that
    by (auto simp: list_all2_conv_all_nth elements_sort_attrs list_all_iff map_of_sort_key
        dest!: node_ok_elements nth_mem split: prod.splits)
  ultimately show ?thesis
    by (simp add: list_all2_map2 list.rel_refl_strong)
qed

definition demo_nodes :: "node list" where
  "demo_nodes = [Element ''p'' [] [Element ''img'' [(''src'', ''u''), (''alt'', ''v'')] [], Text ''hi''], NoKind]"

theorem content_roundtrip_witness:
  "json_to_nodes (nodes_to_json demo_nodes) =
     [Element ''p'' [] [Element ''img'' [(''alt'', ''v''), (''src'', ''u'')] [], Text ''hi''], NoKind]"
proof -
  have "validate_and_encode_content (\<lambda>_. Some []) demo_nodes 100 = Inr (nodes_to_json demo_nodes)"
    by (simp add: demo_nodes_def validate_and_encode_content_def validate_element_head_def ALLOWED_TAGS_def
        allowed_attrs_for_def)
  from content_roundtrip [OF _ this] show ?thesis
    by (simp add: demo_nodes_def)
qed

end
