(* ===== verification/Identity_Service.thy ===== *)
theory Identity_Service
  imports Identity_Store Canonical Subject
begin

text \<open>
  The account and user services (\<open>headlines-api/src/services/account.rs\<close> and
  \<open>user.rs\<close>): validation of the request fields, the ownership and scope checks, and the
  repository calls in their order. Freshly minted UUIDs and clock readings are arguments.
  Handlers return the domain error; \<open>status_from\<close> maps it to the wire.
\<close>

subsection \<open>Shared helpers\<close>

text \<open>
  The crates a handler uses: UUID and base64 text, and \<open>url::Url::parse\<close>, of which only
  the scheme is read. The texts of the crates' parse errors are not kept.
\<close>

record svc_ext =
  sx_text :: text_ext
  sx_url_scheme :: "string \<Rightarrow> string option"

definition parse_uuid :: "svc_ext \<Rightarrow> string \<Rightarrow> string \<Rightarrow> uuid res" where
  "parse_uuid x fld raw = ok_or (InvalidArgument fld ''invalid uuid'') (uuid_parse (sx_text x) raw)"

definition ts_to_proto :: "timestamp \<Rightarrow> int \<times> int" where
  "ts_to_proto t = (t div 1000000, (t mod 1000000) * 1000)"

definition is_ascii_alphanumeric :: "char \<Rightarrow> bool" where
  "is_ascii_alphanumeric c \<longleftrightarrow>
     (let n = (of_char c :: nat) in 48 \<le> n \<and> n \<le> 57 \<or> 65 \<le> n \<and> n \<le> 90 \<or> 97 \<le> n \<and> n \<le> 122)"

definition validate_short_name :: "string \<Rightarrow> string res" where
  "validate_short_name raw =
     (let trimmed = trim raw; char_count = chars_count trimmed
      in if \<not> (1 \<le> char_count \<and> char_count \<le> 32)
         then Inl (InvalidArgument ''short_name'' ''length must be 1..=32 characters'')
         else if \<not> list_all (\<lambda>c. is_ascii_alphanumeric c \<or> c \<in> {CHR '' '', CHR ''_'', CHR ''-''}) trimmed
         then Inl (InvalidArgument ''short_name'' ''must match [A-Za-z0-9 _-]'')
         else Inr trimmed)"

definition validate_author_name :: "string \<Rightarrow> string res" where
  "validate_author_name raw =
     (let trimmed = trim raw; char_count = chars_count trimmed
      in if \<not> (1 \<le> char_count \<and> char_count \<le> 128)
         then Inl (InvalidArgument ''author_name'' ''length must be 1..=128 characters'')
         else Inr trimmed)"

definition validate_author_url :: "svc_ext \<Rightarrow> string \<Rightarrow> string res" where
  "validate_author_url x raw =
     (if raw = [] then Inr []
      else if length raw > 512 then Inl (InvalidArgument ''author_url'' ''length must be <= 512'')
      else try_res (ok_or (InvalidArgument ''author_url'' ''invalid URL'') (sx_url_scheme x raw)) (\<lambda>scheme.
        if scheme \<noteq> ''http'' \<and> scheme \<noteq> ''https''
        then Inl (InvalidArgument ''author_url'' ''scheme must be http or https'')
        else Inr raw))"

record public_key_msg =
  pkm_algo :: string
  pkm_public_key :: string

definition validate_public_key ::
  "svc_ext \<Rightarrow> (string \<Rightarrow> 'g option) \<Rightarrow> public_key_msg \<Rightarrow> (string \<times> string) res" where
  "validate_public_key x algos pkm =
     (if pkm_algo pkm = [] then Inl (InvalidArgument ''initial_key.algo'' ''algo is required'')
      else if algos (pkm_algo pkm) = None then Inl (UnsupportedAlgorithm (pkm_algo pkm))
      else try_res (ok_or (InvalidPublicKey ''base64 decode'')
             (b64_decode (sx_text x) (pkm_public_key pkm))) (\<lambda>decoded.
        if pkm_algo pkm = ''ed25519'' \<and> length decoded \<noteq> 32
        then Inl (InvalidPublicKey (''ed25519 key must be 32 bytes, got '' @ show_nat (length decoded)))
        else Inr (pkm_algo pkm, pkm_public_key pkm)))"

datatype bootstrap_mode = Open | SystemOnly

subsection \<open>The account service\<close>

record account_msg =
  am_id :: string
  am_short_name :: string
  am_author_name :: string
  am_author_url :: string
  am_status :: int
  am_deleted_at :: "(int \<times> int) option"
  am_created_at :: "(int \<times> int) option"
  am_updated_at :: "(int \<times> int) option"

definition account_to_proto :: "svc_ext \<Rightarrow> account \<Rightarrow> account_msg" where
  "account_to_proto x a = \<lparr>am_id = uuid_show (sx_text x) (acc_id a), am_short_name = acc_short_name a,
     am_author_name = acc_author_name a, am_author_url = acc_author_url a,
     am_status = (case acc_status a of AccountActive \<Rightarrow> 1 | AccountDeletedStatus \<Rightarrow> 2),
     am_deleted_at = map_option ts_to_proto (acc_deleted_at a),
     am_created_at = Some (ts_to_proto (acc_created_at a)),
     am_updated_at = Some (ts_to_proto (acc_updated_at a))\<rparr>"

record key_msg =
  km_parent_id :: string
  km_key_id :: string
  km_algo :: string
  km_public_key :: string
  km_status :: int
  km_created_at :: "(int \<times> int) option"
  km_revoked_at :: "(int \<times> int) option"

definition key_to_proto :: "svc_ext \<Rightarrow> stored_key \<Rightarrow> key_msg" where
  "key_to_proto x k = \<lparr>km_parent_id = uuid_show (sx_text x) (sk_parent_id k),
     km_key_id = uuid_show (sx_text x) (sk_key_id k), km_algo = sk_algo k,
     km_public_key = sk_public_key k,
     km_status = (case sk_status k of KeyActive \<Rightarrow> 1 | KeyRevoked \<Rightarrow> 2),
     km_created_at = Some (ts_to_proto (sk_created_at k)),
     km_revoked_at = map_option ts_to_proto (sk_revoked_at k)\<rparr>"

record create_account_req =
  car_short_name :: string
  car_author_name :: string
  car_author_url :: string
  car_initial_key :: "public_key_msg option"

definition create_account ::
  "svc_ext \<Rightarrow> (string \<Rightarrow> 'g option) \<Rightarrow> bootstrap_mode \<Rightarrow> timestamp \<Rightarrow> uuid \<Rightarrow> uuid \<Rightarrow> subject \<Rightarrow>
   create_account_req \<Rightarrow> db \<Rightarrow> (account_msg \<times> string) res \<times> db" where
  "create_account x algos mode db_now new_account_id new_key_id subj req d =
     (if subj = Anonymous \<and> mode = SystemOnly then (Inl (RegistrationDisabled ''accounts''), d)
      else try_st (validate_short_name (car_short_name req)) d (\<lambda>short_name.
      try_st (validate_author_name (car_author_name req)) d (\<lambda>author_name.
      try_st (validate_author_url x (car_author_url req)) d (\<lambda>author_url.
      try_st (ok_or (InvalidArgument ''initial_key'' ''required'') (car_initial_key req)) d (\<lambda>initial_key.
      try_st (validate_public_key x algos initial_key) d (\<lambda>(algo, public_key).
      let (r, d1) = account_create db_now \<lparr>nac_id = new_account_id, nac_short_name = short_name,
            nac_author_name = author_name, nac_author_url = author_url\<rparr> d
      in try_st r d1 (\<lambda>acct.
      let (r2, d2) = key_create db_now \<lparr>nk_kind = KAccount, nk_parent_id = new_account_id,
            nk_id = new_key_id, nk_algo = algo, nk_public_key = public_key\<rparr> d1
      in try_st r2 d2 (\<lambda>_.
      (Inr (account_to_proto x acct, uuid_show (sx_text x) new_key_id), d2)))))))))"

definition get_account :: "svc_ext \<Rightarrow> string \<Rightarrow> db \<Rightarrow> account_msg res" where
  "get_account x raw_id d =
     try_res (parse_uuid x ''id'' raw_id) (\<lambda>i.
     try_res (account_get i d) (\<lambda>a. Inr (account_to_proto x a)))"

text \<open>The subject is the account itself, or a system with the scope.\<close>

definition account_allowed :: "subject \<Rightarrow> uuid \<Rightarrow> string \<Rightarrow> bool" where
  "account_allowed subj i scope =
     (case subj of
        Account aid _ \<Rightarrow> aid = i
      | System _ _ _ \<Rightarrow> has_scope subj scope
      | _ \<Rightarrow> False)"

fun account_mask :: "svc_ext \<Rightarrow> account_msg \<Rightarrow> string list \<Rightarrow> account_update \<Rightarrow> account_update res" where
  "account_mask x msg [] upd = Inr upd"
| "account_mask x msg (path # paths) upd =
     (if path = ''short_name'' then
        try_res (validate_short_name (am_short_name msg)) (\<lambda>v.
          account_mask x msg paths (upd\<lparr>au_short_name := Some v\<rparr>))
      else if path = ''author_name'' then
        try_res (validate_author_name (am_author_name msg)) (\<lambda>v.
          account_mask x msg paths (upd\<lparr>au_author_name := Some v\<rparr>))
      else if path = ''author_url'' then
        try_res (validate_author_url x (am_author_url msg)) (\<lambda>v.
          account_mask x msg paths (upd\<lparr>au_author_url := Some v\<rparr>))
      else Inl (UnallowedMaskPath path))"

definition update_account ::
  "svc_ext \<Rightarrow> timestamp \<Rightarrow> subject \<Rightarrow> account_msg option \<Rightarrow> string list option \<Rightarrow> db \<Rightarrow> account_msg res \<times> db" where
  "update_account x now subj msg_opt update_mask d =
     try_st (ok_or (InvalidArgument ''account'' ''required'') msg_opt) d (\<lambda>msg.
     try_st (parse_uuid x ''account.id'' (am_id msg)) d (\<lambda>i.
     if \<not> account_allowed subj i ''accounts.admin'' then (Inl (AccountNotFound i), d)
     else try_st (ok_or EmptyUpdateMask update_mask) d (\<lambda>paths.
     if paths = [] then (Inl EmptyUpdateMask, d)
     else try_st (account_mask x msg paths
              \<lparr>au_short_name = None, au_author_name = None, au_author_url = None\<rparr>) d (\<lambda>upd.
     let (r, d') = account_update_op now i upd d
     in try_st r d' (\<lambda>a. (Inr (account_to_proto x a), d'))))))"

definition delete_account :: "svc_ext \<Rightarrow> timestamp \<Rightarrow> subject \<Rightarrow> string \<Rightarrow> db \<Rightarrow> account_msg res \<times> db" where
  "delete_account x now subj raw_id d =
     try_st (parse_uuid x ''id'' raw_id) d (\<lambda>i.
     if \<not> account_allowed subj i ''accounts.delete'' then (Inl (AccountNotFound i), d)
     else let (r, d') = account_soft_delete now i d
          in try_st r d' (\<lambda>a. (Inr (account_to_proto x a), d')))"

definition add_account_key ::
  "svc_ext \<Rightarrow> (string \<Rightarrow> 'g option) \<Rightarrow> timestamp \<Rightarrow> uuid \<Rightarrow> subject \<Rightarrow> string \<Rightarrow> public_key_msg option \<Rightarrow>
   db \<Rightarrow> key_msg res \<times> db" where
  "add_account_key x algos db_now new_key_id subj raw_account_id key_opt d =
     try_st (parse_uuid x ''account_id'' raw_account_id) d (\<lambda>i.
     if \<not> account_allowed subj i ''accounts.admin'' then (Inl (AccountNotFound i), d)
     else try_st (account_get i d) d (\<lambda>acct.
     if acc_status acct = AccountDeletedStatus then (Inl (AccountDeleted i), d)
     else try_st (ok_or (InvalidArgument ''key'' ''required'') key_opt) d (\<lambda>pkm.
     try_st (validate_public_key x algos pkm) d (\<lambda>(algo, public_key).
     let (r, d') = key_create db_now \<lparr>nk_kind = KAccount, nk_parent_id = i, nk_id = new_key_id,
           nk_algo = algo, nk_public_key = public_key\<rparr> d
     in try_st r d' (\<lambda>k. (Inr (key_to_proto x k), d'))))))"

definition revoke_account_key ::
  "svc_ext \<Rightarrow> timestamp \<Rightarrow> subject \<Rightarrow> string \<Rightarrow> string \<Rightarrow> db \<Rightarrow> key_msg res \<times> db" where
  "revoke_account_key x now subj raw_account_id raw_key_id d =
     try_st (parse_uuid x ''account_id'' raw_account_id) d (\<lambda>i.
     try_st (parse_uuid x ''key_id'' raw_key_id) d (\<lambda>kid.
     if \<not> account_allowed subj i ''accounts.admin'' then (Inl (AccountNotFound i), d)
     else try_st (account_get i d) d (\<lambda>acct.
     if acc_status acct = AccountDeletedStatus then (Inl (AccountDeleted i), d)
     else try_st (key_list_active KAccount i d) d (\<lambda>active.
     if list_ex (\<lambda>k. sk_key_id k = kid) active \<and> length active = 1 \<and> \<not> has_scope subj ''admin.*''
     then (Inl LastActiveKey, d)
     else let (r, d') = key_revoke now KAccount i kid d
          in try_st r d' (\<lambda>k. (Inr (key_to_proto x k), d'))))))"

subsection \<open>The user service\<close>

record user_msg =
  um_id :: string
  um_display_name :: string
  um_status :: int
  um_deleted_at :: "(int \<times> int) option"
  um_created_at :: "(int \<times> int) option"

definition user_to_proto :: "svc_ext \<Rightarrow> user \<Rightarrow> user_msg" where
  "user_to_proto x u = \<lparr>um_id = uuid_show (sx_text x) (usr_id u), um_display_name = usr_display_name u,
     um_status = (case usr_status u of UserActive \<Rightarrow> 1 | UserDeletedStatus \<Rightarrow> 2),
     um_deleted_at = map_option ts_to_proto (usr_deleted_at u),
     um_created_at = Some (ts_to_proto (usr_created_at u))\<rparr>"

definition validate_display_name :: "string \<Rightarrow> string res" where
  "validate_display_name raw =
     (let trimmed = trim raw
      in if trimmed = [] then Inr []
         else if chars_count trimmed > 64
         then Inl (InvalidArgument ''display_name'' ''length must be <= 64 characters'')
         else Inr trimmed)"

definition create_user ::
  "svc_ext \<Rightarrow> (string \<Rightarrow> 'g option) \<Rightarrow> bootstrap_mode \<Rightarrow> timestamp \<Rightarrow> uuid \<Rightarrow> uuid \<Rightarrow> subject \<Rightarrow>
   string \<Rightarrow> public_key_msg option \<Rightarrow> db \<Rightarrow> (user_msg \<times> string) res \<times> db" where
  "create_user x algos mode db_now new_user_id new_key_id subj raw_name key_opt d =
     (if subj = Anonymous \<and> mode = SystemOnly then (Inl (RegistrationDisabled ''users''), d)
      else try_st (validate_display_name raw_name) d (\<lambda>display_name.
      try_st (ok_or (InvalidArgument ''initial_key'' ''required'') key_opt) d (\<lambda>initial_key.
      try_st (validate_public_key x algos initial_key) d (\<lambda>(algo, public_key).
      let (r, d1) = user_create db_now new_user_id display_name d
      in try_st r d1 (\<lambda>usr.
      let (r2, d2) = key_create db_now \<lparr>nk_kind = KUser, nk_parent_id = new_user_id,
            nk_id = new_key_id, nk_algo = algo, nk_public_key = public_key\<rparr> d1
      in try_st r2 d2 (\<lambda>_.
      (Inr (user_to_proto x usr, uuid_show (sx_text x) new_key_id), d2)))))))"

definition user_allowed :: "subject \<Rightarrow> uuid \<Rightarrow> string \<Rightarrow> bool" where
  "user_allowed subj i scope =
     (case subj of
        User uid _ \<Rightarrow> uid = i
      | System _ _ _ \<Rightarrow> has_scope subj scope
      | _ \<Rightarrow> False)"

definition get_user :: "svc_ext \<Rightarrow> subject \<Rightarrow> string \<Rightarrow> db \<Rightarrow> user_msg res" where
  "get_user x subj raw_id d =
     try_res (parse_uuid x ''id'' raw_id) (\<lambda>i.
     if \<not> user_allowed subj i ''users.read'' then Inl (UserNotFound i)
     else try_res (user_get i d) (\<lambda>u. Inr (user_to_proto x u)))"

fun user_mask :: "user_msg \<Rightarrow> string list \<Rightarrow> string option \<Rightarrow> string option res" where
  "user_mask msg [] upd = Inr upd"
| "user_mask msg (path # paths) upd =
     (if path = ''display_name'' then
        try_res (validate_display_name (um_display_name msg)) (\<lambda>v. user_mask msg paths (Some v))
      else Inl (UnallowedMaskPath path))"

definition update_user ::
  "svc_ext \<Rightarrow> subject \<Rightarrow> user_msg option \<Rightarrow> string list option \<Rightarrow> db \<Rightarrow> user_msg res \<times> db" where
  "update_user x subj msg_opt update_mask d =
     try_st (ok_or (InvalidArgument ''user'' ''required'') msg_opt) d (\<lambda>msg.
     try_st (parse_uuid x ''user.id'' (um_id msg)) d (\<lambda>i.
     if \<not> user_allowed subj i ''users.admin'' then (Inl (UserNotFound i), d)
     else try_st (ok_or EmptyUpdateMask update_mask) d (\<lambda>paths.
     if paths = [] then (Inl EmptyUpdateMask, d)
     else try_st (user_mask msg paths None) d (\<lambda>upd.
     let (r, d') = user_update_op i upd d
     in try_st r d' (\<lambda>u. (Inr (user_to_proto x u), d'))))))"

definition delete_user :: "svc_ext \<Rightarrow> timestamp \<Rightarrow> subject \<Rightarrow> string \<Rightarrow> db \<Rightarrow> user_msg res \<times> db" where
  "delete_user x now subj raw_id d =
     try_st (parse_uuid x ''id'' raw_id) d (\<lambda>i.
     if \<not> user_allowed subj i ''users.delete'' then (Inl (UserNotFound i), d)
     else let (r, d') = user_soft_delete now i d
          in try_st r d' (\<lambda>u. (Inr (user_to_proto x u), d')))"

definition add_user_key ::
  "svc_ext \<Rightarrow> (string \<Rightarrow> 'g option) \<Rightarrow> timestamp \<Rightarrow> uuid \<Rightarrow> subject \<Rightarrow> string \<Rightarrow> public_key_msg option \<Rightarrow>
   db \<Rightarrow> key_msg res \<times> db" where
  "add_user_key x algos db_now new_key_id subj raw_user_id key_opt d =
     try_st (parse_uuid x ''user_id'' raw_user_id) d (\<lambda>i.
     if \<not> user_allowed subj i ''users.admin'' then (Inl (UserNotFound i), d)
     else try_st (user_get i d) d (\<lambda>usr.
     if usr_status usr = UserDeletedStatus then (Inl (UserDeleted i), d)
     else try_st (ok_or (InvalidArgument ''key'' ''required'') key_opt) d (\<lambda>pkm.
     try_st (validate_public_key x algos pkm) d (\<lambda>(algo, public_key).
     let (r, d') = key_create db_now \<lparr>nk_kind = KUser, nk_parent_id = i, nk_id = new_key_id,
           nk_algo = algo, nk_public_key = public_key\<rparr> d
     in try_st r d' (\<lambda>k. (Inr (key_to_proto x k), d'))))))"

definition revoke_user_key ::
  "svc_ext \<Rightarrow> timestamp \<Rightarrow> subject \<Rightarrow> string \<Rightarrow> string \<Rightarrow> db \<Rightarrow> key_msg res \<times> db" where
  "revoke_user_key x now subj raw_user_id raw_key_id d =
     try_st (parse_uuid x ''user_id'' raw_user_id) d (\<lambda>i.
     try_st (parse_uuid x ''key_id'' raw_key_id) d (\<lambda>kid.
     if \<not> user_allowed subj i ''users.admin'' then (Inl (UserNotFound i), d)
     else try_st (key_list_active KUser i d) d (\<lambda>active.
     if list_ex (\<lambda>k. sk_key_id k = kid) active \<and> length active = 1 \<and> \<not> has_scope subj ''admin.*''
     then (Inl LastActiveKey, d)
     else let (r, d') = key_revoke now KUser i kid d
          in try_st r d' (\<lambda>k. (Inr (key_to_proto x k), d')))))"

subsection \<open>Lemmas\<close>

lemma list_active_account: "key_list_active KAccount i d =
    Inr (map (projr \<circ> key_of_row KAccount ''account_keys'') (active_rows i (account_keys d)))"
  by (simp add: key_list_active_def list_active_eq)

lemma list_active_user: "key_list_active KUser i d =
    Inr (map (projr \<circ> key_of_row KUser ''user_keys'') (active_rows i (user_keys d)))"
  by (simp add: key_list_active_def list_active_eq)

lemma target_active:
  "list_ex (\<lambda>k. sk_key_id k = kid) (map (projr \<circ> key_of_row kind table) (active_rows i t)) \<longleftrightarrow>
   (i, kid) \<in> kr_key ` set (active_rows i t)"
  by (force simp: list_ex_iff key_of_row_active kr_key_def dest: active_rows_status)

text \<open>
  The lockout check: unless the key is the only active one, an active key is left after
  the row is revoked.
\<close>

lemma active_left:
  assumes "pk kr_key t" "active_rows b t \<noteq> []"
    and "\<not> ((i, kid) \<in> kr_key ` set (active_rows i t) \<and> length (active_rows i t) = 1)"
  shows "active_rows b (update_row kr_key (i, kid) (revoke_row now) t) \<noteq> []"
proof
  assume "active_rows b (update_row kr_key (i, kid) (revoke_row now) t) = []"
  then have all: "\<forall>r \<in> set (active_rows b t). kr_key r = (i, kid)"
    by (simp add: active_rows_revoke filter_empty_conv)
  have d: "distinct (map kr_key (active_rows b t))"
    using assms(1) by (simp add: pk_def active_rows_def distinct_map_filter)
  have "set (map kr_key (active_rows b t)) \<subseteq> {(i, kid)}"
    using all by auto
  then have "card (set (map kr_key (active_rows b t))) \<le> 1"
    using card_mono [of "{(i, kid)}"] by simp
  then have "length (active_rows b t) \<le> 1"
    using distinct_card [OF d] by simp
  with assms(2) have l: "length (active_rows b t) = 1"
    by (cases "active_rows b t") auto
  from assms(2) all obtain r where r: "r \<in> set (active_rows b t)" "kr_key r = (i, kid)"
    by (cases "active_rows b t") auto
  then have "b = i"
    by (auto simp: active_rows_def kr_key_def)
  with r l assms(3) show False
    by (auto simp: image_iff)
qed

lemma key_revoke_keys:
  "account_keys (snd (key_revoke now KAccount i kid d)) = account_keys d \<or>
   account_keys (snd (key_revoke now KAccount i kid d)) =
     update_row kr_key (i, kid) (revoke_row now) (account_keys d)"
  "user_keys (snd (key_revoke now KUser i kid d)) = user_keys d \<or>
   user_keys (snd (key_revoke now KUser i kid d)) =
     update_row kr_key (i, kid) (revoke_row now) (user_keys d)"
  by (auto simp: key_revoke_def try_st_def ok_or_def Let_def split: option.splits sum.splits)

lemma snd_try_st_const: "snd (try_st r s (\<lambda>x. (f x, s))) = s"
  by (cases r) auto

lemma revoke_account_key_keys:
  fixes x now raw_account_id raw_key_id d
  assumes "\<not> has_scope subj ''admin.*''"
  defines "d' \<equiv> snd (revoke_account_key x now subj raw_account_id raw_key_id d)"
  shows "account_keys d' = account_keys d \<or>
    (\<exists>i kid. account_keys d' = update_row kr_key (i, kid) (revoke_row now) (account_keys d) \<and>
       \<not> ((i, kid) \<in> kr_key ` set (active_rows i (account_keys d)) \<and>
          length (active_rows i (account_keys d)) = 1))"
proof -
  have "d' = d \<or> (\<exists>i kid. d' = snd (key_revoke now KAccount i kid d) \<and>
      \<not> ((i, kid) \<in> kr_key ` set (active_rows i (account_keys d)) \<and> length (active_rows i (account_keys d)) = 1))"
    using assms(1) unfolding d'_def revoke_account_key_def list_active_account try_st_simps target_active
    by (auto simp: try_st_def Let_def ok_or_def case_prod_beta split: sum.splits option.splits)
  then show ?thesis
    using key_revoke_keys(1) by metis
qed

lemma revoke_user_key_keys:
  fixes x now raw_user_id raw_key_id d
  assumes "\<not> has_scope subj ''admin.*''"
  defines "d' \<equiv> snd (revoke_user_key x now subj raw_user_id raw_key_id d)"
  shows "user_keys d' = user_keys d \<or>
    (\<exists>i kid. user_keys d' = update_row kr_key (i, kid) (revoke_row now) (user_keys d) \<and>
       \<not> ((i, kid) \<in> kr_key ` set (active_rows i (user_keys d)) \<and>
          length (active_rows i (user_keys d)) = 1))"
proof -
  have "d' = d \<or> (\<exists>i kid. d' = snd (key_revoke now KUser i kid d) \<and>
      \<not> ((i, kid) \<in> kr_key ` set (active_rows i (user_keys d)) \<and> length (active_rows i (user_keys d)) = 1))"
    using assms(1) unfolding d'_def revoke_user_key_def list_active_user try_st_simps target_active
    by (auto simp: try_st_def Let_def ok_or_def case_prod_beta split: sum.splits option.splits)
  then show ?thesis
    using key_revoke_keys(2) by metis
qed

lemma account_get_deleted:
  "lookup ac_id i (accounts d) = Some r \<Longrightarrow> ac_status r = ''deleted'' \<Longrightarrow>
   \<exists>a. account_get i d = Inr a \<and> acc_status a = AccountDeletedStatus"
  by (simp add: account_get_def account_of_row_def)

subsection \<open>Properties\<close>

text \<open>Nobody locks an owner out: whatever is requested, a caller without the operator
  scope \<open>admin.*\<close> leaves every account and every user that had an active key with an
  active key.
\<close>

theorem revoke_keeps_an_active_key:
  assumes "pk kr_key (account_keys d)" "pk kr_key (user_keys d)" "\<not> has_scope subj ''admin.*''"
    and "active_rows a (account_keys d) \<noteq> []" "active_rows u (user_keys d) \<noteq> []"
  shows "active_rows a (account_keys (snd (revoke_account_key x now subj raw_id raw_key d))) \<noteq> [] \<and>
    active_rows u (user_keys (snd (revoke_user_key x now subj raw_id raw_key d))) \<noteq> []"
  using revoke_account_key_keys [OF assms(3), of x now raw_id raw_key d]
    revoke_user_key_keys [OF assms(3), of x now raw_id raw_key d]
    active_left [OF assms(1,4)] active_left [OF assms(2,5)] assms(4,5)
  by metis

text \<open>A deleted account is closed to its owner and to administrators: updating it,
  adding a key and revoking a key all fail and change nothing, and an allowed caller is
  told \<open>AccountDeleted\<close>.
\<close>

theorem deleted_account_rejects_writes:
  assumes "uuid_parse (sx_text x) raw = Some i" "lookup ac_id i (accounts d) = Some r"
    and "ac_status r = ''deleted''" "account_allowed subj i ''accounts.admin''"
    and "uuid_parse (sx_text x) raw_key = Some kid" "am_id msg = raw"
    and "account_mask x msg (p # ps) \<lparr>au_short_name = None, au_author_name = None, au_author_url = None\<rparr> = Inr upd"
  shows "add_account_key x algos now nk subj raw key d = (Inl (AccountDeleted i), d) \<and>
    revoke_account_key x now subj raw raw_key d = (Inl (AccountDeleted i), d) \<and>
    update_account x now subj (Some msg) (Some (p # ps)) d = (Inl (AccountDeleted i), d)"
proof -
  obtain a where "account_get i d = Inr a" "acc_status a = AccountDeletedStatus"
    using account_get_deleted [OF assms(2,3)] by blast
  then show ?thesis
    using assms
    by (simp add: add_account_key_def revoke_account_key_def update_account_def parse_uuid_def
        account_update_op_def del: account_mask.simps)
qed

text \<open>Accounts are isolated: a request of one account against another one's id is
  answered \<open>AccountNotFound\<close> by every writing handler, whether that account exists or
  not, and changes nothing.
\<close>

theorem account_isolation:
  assumes "uuid_parse (sx_text x) raw = Some i" "a \<noteq> i" "am_id msg = raw"
    and "uuid_parse (sx_text x) raw_key = Some kid"
  shows "update_account x now (Account a k) (Some msg) umask d = (Inl (AccountNotFound i), d) \<and>
    delete_account x now (Account a k) raw d = (Inl (AccountNotFound i), d) \<and>
    add_account_key x algos now nk (Account a k) raw key d = (Inl (AccountNotFound i), d) \<and>
    revoke_account_key x now (Account a k) raw raw_key d = (Inl (AccountNotFound i), d)"
  using assms
  by (simp add: update_account_def delete_account_def add_account_key_def revoke_account_key_def
      parse_uuid_def account_allowed_def)

definition demo_svc :: svc_ext where
  "demo_svc = \<lparr>sx_text = demo_text, sx_url_scheme = (\<lambda>_. Some ''https'')\<rparr>"

definition demo_key_row :: "uuid \<Rightarrow> uuid \<Rightarrow> key_row" where
  "demo_key_row p k = \<lparr>kr_parent_id = p, kr_key_id = k, kr_algo = ''ed25519'', kr_public_key = [],
     kr_status = ''active'', kr_created_at = 0, kr_revoked_at = None\<rparr>"

definition demo_identity_db :: db where
  "demo_identity_db = empty_db\<lparr>
     accounts := [\<lparr>ac_id = 1, ac_short_name = ''a'', ac_author_name = ''A'', ac_author_url = None,
       ac_status = ''active'', ac_deleted_at = None, ac_created_at = 0, ac_updated_at = 0\<rparr>],
     account_keys := [demo_key_row 1 2, demo_key_row 1 3],
     user_keys := [demo_key_row 4 5]\<rparr>"

lemma demo_uuid_parse: "uuid_parse (sx_text demo_svc) s = Some (of_nat (length s))"
  by (simp add: demo_svc_def demo_text_def)

theorem revoke_keeps_an_active_key_witness:
  "active_rows 1 (account_keys (snd (revoke_account_key demo_svc 7 (Account 1 2) ''x'' ''xx'' demo_identity_db))) \<noteq> [] \<and>
   fst (revoke_user_key demo_svc 7 (User 4 5) ''xxxx'' ''xxxxx'' demo_identity_db) = Inl LastActiveKey"
proof -
  have "pk kr_key (account_keys demo_identity_db)" "pk kr_key (user_keys demo_identity_db)"
    "active_rows 1 (account_keys demo_identity_db) \<noteq> []" "active_rows 4 (user_keys demo_identity_db) \<noteq> []"
    by (simp_all add: demo_identity_db_def demo_key_row_def pk_def kr_key_def active_rows_def)
  from revoke_keeps_an_active_key [OF this(1,2) _ this(3,4), of "Account 1 2"]
  show ?thesis
    by (simp add: revoke_user_key_def parse_uuid_def demo_uuid_parse user_allowed_def list_active_user
        demo_identity_db_def active_rows_def demo_key_row_def key_of_row_active)
qed

theorem deleted_account_rejects_writes_witness:
  "add_account_key demo_svc (\<lambda>_. Some ()) 7 9 (Account 1 2) ''x'' None
     (snd (account_soft_delete 6 1 demo_identity_db)) =
   (Inl (AccountDeleted 1), snd (account_soft_delete 6 1 demo_identity_db))"
proof -
  let ?r = "\<lparr>ac_id = 1, ac_short_name = ''a'', ac_author_name = ''A'', ac_author_url = None,
       ac_status = ''deleted'', ac_deleted_at = Some 6, ac_created_at = 0, ac_updated_at = 6\<rparr>"
  have l: "lookup ac_id 1 (accounts (snd (account_soft_delete 6 1 demo_identity_db))) = Some ?r"
    by (simp add: account_soft_delete_def demo_identity_db_def update_row_def lookup_Cons Let_def)
  have m: "account_mask demo_svc \<lparr>am_id = ''x'', am_short_name = [], am_author_name = [], am_author_url = [],
      am_status = 0, am_deleted_at = None, am_created_at = None, am_updated_at = None\<rparr> [''author_url'']
      \<lparr>au_short_name = None, au_author_name = None, au_author_url = None\<rparr> =
      Inr \<lparr>au_short_name = None, au_author_name = None, au_author_url = Some []\<rparr>"
    by (simp add: validate_author_url_def)
  show ?thesis
    using deleted_account_rejects_writes [OF _ l _ _ _ _ m, of "''x''" "Account 1 2" "''xx''" 2
        "\<lambda>_. Some ()" 7 9 None]
    by (simp add: demo_uuid_parse account_allowed_def)
qed

theorem account_isolation_witness:
  "delete_account demo_svc 7 (Account 5 2) ''x'' demo_identity_db =
     (Inl (AccountNotFound 1), demo_identity_db) \<and>
   delete_account demo_svc 7 (Account 5 2) ''xxxxxxxx'' demo_identity_db =
     (Inl (AccountNotFound 8), demo_identity_db)"
  using account_isolation [of demo_svc "''x''" 1 5 "\<lparr>am_id = ''x'', am_short_name = [], am_author_name = [],
      am_author_url = [], am_status = 0, am_deleted_at = None, am_created_at = None, am_updated_at = None\<rparr>"
      "''xx''" 2 7 2 None demo_identity_db "\<lambda>_. Some ()" 9 None]
    account_isolation [of demo_svc "''xxxxxxxx''" 8 5 "\<lparr>am_id = ''xxxxxxxx'', am_short_name = [], am_author_name = [],
      am_author_url = [], am_status = 0, am_deleted_at = None, am_created_at = None, am_updated_at = None\<rparr>"
      "''xx''" 2 7 2 None demo_identity_db "\<lambda>_. Some ()" 9 None]
  by (simp add: demo_uuid_parse)

end
