(* ===== verification/Article_Service.thy ===== *)
theory Article_Service
  imports Atomic Content Article_Listing Identity_Service
begin

text \<open>
  The article service (\<open>headlines-api/src/services/article.rs\<close>): field validation, the
  ownership checks and the repository calls in their order, and the translation of articles
  to their messages. A handler answers a domain error or, where the source builds the
  status itself, a plain permission-denied status.
\<close>

subsection \<open>Handler errors\<close>

datatype rpc_error =
    Domain headlines_error
  | Denied string

type_synonym 'a rpc = "rpc_error + 'a"

definition rpc_status :: "(uuid \<Rightarrow> string) \<Rightarrow> (int \<Rightarrow> string) \<Rightarrow> rpc_error \<Rightarrow> status" where
  "rpc_status us rfc e =
     (case e of Domain h \<Rightarrow> status_from us rfc h | Denied m \<Rightarrow> BareStatus Code_PermissionDenied m)"

text \<open>\<open>r.map_err(Status::from)?\<close>\<close>

abbreviation dom_res :: "'a res \<Rightarrow> 'a rpc" where
  "dom_res r \<equiv> map_err Domain r"

subsection \<open>Validation\<close>

definition validate_title :: "string \<Rightarrow> string res" where
  "validate_title raw =
     (let trimmed = trim raw; char_count = chars_count trimmed
      in if \<not> (1 \<le> char_count \<and> char_count \<le> 256)
         then Inl (InvalidArgument ''title'' ''length must be 1..=256 characters'')
         else Inr trimmed)"

definition validate_byline :: "string \<Rightarrow> string res" where
  "validate_byline raw =
     (if chars_count raw > 128
      then Inl (InvalidArgument ''author_name'' ''length must be <= 128 characters'')
      else Inr raw)"

definition validate_tombstone_reason :: "string \<Rightarrow> string option res" where
  "validate_tombstone_reason raw =
     (if raw = [] then Inr None
      else if length raw > 512 then Inl (InvalidArgument ''reason'' ''length must be <= 512'')
      else Inr (Some raw))"

definition validate_redaction_reason :: "string \<Rightarrow> string res" where
  "validate_redaction_reason raw =
     (if length raw < 1 \<or> length raw > 512
      then Inl (InvalidArgument ''redaction_reason'' ''length must be 1..=512'')
      else Inr raw)"

definition ALLOWED_MASK_PATHS :: "string list" where
  "ALLOWED_MASK_PATHS = [''title'', ''author_name'', ''author_url'', ''content'']"

definition check_mask :: "string list option \<Rightarrow> string list res" where
  "check_mask update_mask =
     try_res (ok_or EmptyUpdateMask update_mask) (\<lambda>paths.
     if paths = [] then Inl EmptyUpdateMask
     else case find (\<lambda>p. p \<notin> set ALLOWED_MASK_PATHS) paths of
       Some p \<Rightarrow> Inl (UnallowedMaskPath p)
     | None \<Rightarrow> Inr paths)"

text \<open>A masked field: validated when its path is in the mask, absent otherwise.\<close>

definition masked :: "string list \<Rightarrow> string \<Rightarrow> 'a res \<Rightarrow> 'a option res" where
  "masked paths path r = (if path \<in> set paths then try_res r (\<lambda>v. Inr (Some v)) else Inr None)"

subsection \<open>Messages\<close>

record article_live_msg =
  alm_current_version :: int
  alm_title :: string
  alm_author_name :: string
  alm_author_url :: string
  alm_content :: "node list"
  alm_redacted :: bool
  alm_published_at :: "(int \<times> int) option"
  alm_updated_at :: "(int \<times> int) option"

datatype article_state_data =
    LiveData article_live_msg
  | TombstoneData string "(int \<times> int) option"

record article_msg =
  arm_id :: string
  arm_account_id :: string
  arm_state :: int
  arm_created_at :: "(int \<times> int) option"
  arm_state_data :: "article_state_data option"

record article_live_summary_msg =
  als_current_version :: int
  als_title :: string
  als_author_name :: string
  als_author_url :: string
  als_redacted :: bool
  als_published_at :: "(int \<times> int) option"
  als_updated_at :: "(int \<times> int) option"

datatype summary_state_data =
    LiveSummaryData article_live_summary_msg
  | TombstoneSummaryData string "(int \<times> int) option"

record article_summary_msg =
  asm_id :: string
  asm_account_id :: string
  asm_state :: int
  asm_created_at :: "(int \<times> int) option"
  asm_state_data :: "summary_state_data option"

fun article_state_number :: "article_state \<Rightarrow> int" where
  "article_state_number Live = 1"
| "article_state_number Tombstone = 2"

definition article_to_proto :: "svc_ext \<Rightarrow> article \<Rightarrow> article_msg" where
  "article_to_proto x a =
     (let s = a_summary a
      in \<lparr>arm_id = uuid_show (sx_text x) (as_id s), arm_account_id = uuid_show (sx_text x) (as_account_id s),
          arm_state = article_state_number (as_state s), arm_created_at = Some (ts_to_proto (as_created_at s)),
          arm_state_data = Some (case as_state s of
              Live \<Rightarrow> LiveData \<lparr>alm_current_version = unwrap_or 0 (as_current_version s),
                alm_title = unwrap_or [] (as_title s), alm_author_name = unwrap_or [] (as_author_name s),
                alm_author_url = unwrap_or [] (as_author_url s),
                alm_content = unwrap_or [] (map_option json_to_nodes (a_content a)),
                alm_redacted = as_redacted s, alm_published_at = map_option ts_to_proto (as_published_at s),
                alm_updated_at = map_option ts_to_proto (as_updated_at s)\<rparr>
            | Tombstone \<Rightarrow> TombstoneData (unwrap_or [] (as_tombstone_reason s))
                (map_option ts_to_proto (as_tombstoned_at s)))\<rparr>)"

definition article_summary_to_proto :: "svc_ext \<Rightarrow> article_summary \<Rightarrow> article_summary_msg" where
  "article_summary_to_proto x s =
     \<lparr>asm_id = uuid_show (sx_text x) (as_id s), asm_account_id = uuid_show (sx_text x) (as_account_id s),
      asm_state = article_state_number (as_state s), asm_created_at = Some (ts_to_proto (as_created_at s)),
      asm_state_data = Some (case as_state s of
          Live \<Rightarrow> LiveSummaryData \<lparr>als_current_version = unwrap_or 0 (as_current_version s),
            als_title = unwrap_or [] (as_title s), als_author_name = unwrap_or [] (as_author_name s),
            als_author_url = unwrap_or [] (as_author_url s), als_redacted = as_redacted s,
            als_published_at = map_option ts_to_proto (as_published_at s),
            als_updated_at = map_option ts_to_proto (as_updated_at s)\<rparr>
        | Tombstone \<Rightarrow> TombstoneSummaryData (unwrap_or [] (as_tombstone_reason s))
            (map_option ts_to_proto (as_tombstoned_at s)))\<rparr>"

subsection \<open>Handlers\<close>

record publish_article_req =
  par_account_id :: string
  par_title :: string
  par_author_name :: string
  par_author_url :: string
  par_content :: "node list"

record article_edit_msg =
  aem_title :: string
  aem_author_name :: string
  aem_author_url :: string
  aem_content :: "node list"

definition publish_article ::
  "svc_ext \<Rightarrow> (json \<Rightarrow> string option) \<Rightarrow> nat \<Rightarrow> timestamp \<Rightarrow> uuid \<Rightarrow> subject \<Rightarrow> publish_article_req \<Rightarrow> db \<Rightarrow>
   article_msg rpc \<times> db" where
  "publish_article x ser content_max_bytes now new_id subj req d =
     try_st (dom_res (parse_uuid x ''account_id'' (par_account_id req))) d (\<lambda>account.
     if \<not> account_allowed subj account ''articles.write''
     then (Inl (Denied ''not permitted on this account''), d)
     else try_st (dom_res (validate_title (par_title req))) d (\<lambda>title.
     try_st (dom_res (validate_byline (par_author_name req))) d (\<lambda>author_name.
     try_st (dom_res (validate_author_url x (par_author_url req))) d (\<lambda>author_url.
     try_st (dom_res (validate_and_encode_content ser (par_content req) content_max_bytes)) d (\<lambda>content_json.
     try_st (dom_res (account_get account d)) d (\<lambda>acct.
     if acc_status acct = AccountDeletedStatus then (Inl (Domain (AccountDeleted account)), d)
     else let (r, d') = article_publish now \<lparr>na_id = new_id, na_account_id = account, na_title = title,
            na_author_name = author_name, na_author_url = author_url, na_content = content_json\<rparr> d
          in try_st (dom_res r) d' (\<lambda>a. (Inr (article_to_proto x a), d'))))))))"

definition get_article :: "svc_ext \<Rightarrow> string \<Rightarrow> db \<Rightarrow> article_msg rpc" where
  "get_article x raw_id d =
     try_res (dom_res (parse_uuid x ''id'' raw_id)) (\<lambda>i.
     try_res (dom_res (article_get i d)) (\<lambda>a. Inr (article_to_proto x a)))"

definition list_account_articles ::
  "svc_ext \<Rightarrow> page_ext \<Rightarrow> string \<Rightarrow> bool \<Rightarrow> int \<Rightarrow> string \<Rightarrow> db \<Rightarrow> (article_summary_msg list \<times> string) rpc" where
  "list_account_articles x px raw_account_id include_tombstoned page_size page_token d =
     try_res (dom_res (parse_uuid x ''account_id'' raw_account_id)) (\<lambda>account.
     try_res (dom_res (article_list px account include_tombstoned page_size d page_token)) (\<lambda>(items, token).
     Inr (map (article_summary_to_proto x) items, token)))"

definition edit_article ::
  "svc_ext \<Rightarrow> (json \<Rightarrow> string option) \<Rightarrow> nat \<Rightarrow> timestamp \<Rightarrow> subject \<Rightarrow> string \<Rightarrow> article_edit_msg option \<Rightarrow>
   string list option \<Rightarrow> db \<Rightarrow> article_msg rpc \<times> db" where
  "edit_article x ser content_max_bytes now subj raw_id edit_opt update_mask d =
     try_st (dom_res (parse_uuid x ''id'' raw_id)) d (\<lambda>i.
     let edit = unwrap_or \<lparr>aem_title = [], aem_author_name = [], aem_author_url = [], aem_content = []\<rparr> edit_opt
     in try_st (dom_res (check_mask update_mask)) d (\<lambda>paths.
     try_st (dom_res (article_get i d)) d (\<lambda>existing.
     if as_state (a_summary existing) = Tombstone then (Inl (Domain (ArticleTombstoned i)), d)
     else let owner = as_account_id (a_summary existing)
     in if \<not> account_allowed subj owner ''articles.write''
     then (Inl (Denied ''not permitted on this article''), d)
     else try_st (dom_res (account_get owner d)) d (\<lambda>acct.
     if acc_status acct = AccountDeletedStatus then (Inl (Domain (AccountDeleted owner)), d)
     else try_st (dom_res (masked paths ''title'' (validate_title (aem_title edit)))) d (\<lambda>title.
     try_st (dom_res (masked paths ''author_name'' (validate_byline (aem_author_name edit)))) d (\<lambda>author_name.
     try_st (dom_res (masked paths ''author_url'' (validate_author_url x (aem_author_url edit)))) d (\<lambda>author_url.
     try_st (dom_res (masked paths ''content''
         (validate_and_encode_content ser (aem_content edit) content_max_bytes))) d (\<lambda>content.
     let (r, d') = article_edit_op now i \<lparr>ae_title = title, ae_author_name = author_name,
           ae_author_url = author_url, ae_content = content\<rparr> d
     in try_st (dom_res r) d' (\<lambda>a. (Inr (article_to_proto x a), d'))))))))))"

definition tombstone_article ::
  "svc_ext \<Rightarrow> timestamp \<Rightarrow> subject \<Rightarrow> string \<Rightarrow> string \<Rightarrow> db \<Rightarrow> article_msg rpc \<times> db" where
  "tombstone_article x now subj raw_id raw_reason d =
     try_st (dom_res (parse_uuid x ''id'' raw_id)) d (\<lambda>i.
     try_st (dom_res (validate_tombstone_reason raw_reason)) d (\<lambda>rsn.
     try_st (dom_res (article_get i d)) d (\<lambda>existing.
     if as_state (a_summary existing) = Tombstone then (Inl (Domain (ArticleTombstoned i)), d)
     else if \<not> account_allowed subj (as_account_id (a_summary existing)) ''articles.tombstone''
     then (Inl (Denied ''not permitted on this article''), d)
     else let (r, d') = article_tombstone_op now i rsn d
          in try_st (dom_res r) d' (\<lambda>a. (Inr (article_to_proto x a), d')))))"

definition redact_article_version ::
  "svc_ext \<Rightarrow> timestamp \<Rightarrow> string \<Rightarrow> int \<Rightarrow> string \<Rightarrow> db \<Rightarrow> unit rpc \<times> db" where
  "redact_article_version x now raw_id version raw_reason d =
     try_st (dom_res (parse_uuid x ''article_id'' raw_id)) d (\<lambda>i.
     if version \<le> 0 then (Inl (Domain (InvalidArgument ''version'' ''must be > 0'')), d)
     else try_st (dom_res (validate_redaction_reason raw_reason)) d (\<lambda>rsn.
     let (r, d') = article_redact_version now i version rsn d
     in try_st (dom_res r) d' (\<lambda>_. (Inr (), d'))))"

subsection \<open>The repository's contract\<close>

lemma article_get_ok:
  "articles_ok d \<Longrightarrow> lookup ar_id aid (articles d) \<noteq> None \<Longrightarrow> \<exists>a. article_get aid d = Inr a"
  using article_get_abs [of d aid] abs_article_None [of d aid] by (auto split: option.splits)

text \<open>A transaction that is followed by a read of the article.\<close>

lemma keeps_transaction:
  assumes "articles_ok d" "\<And>u d'. tx d = Inr (u, d') \<Longrightarrow> articles_ok d'"
    and "\<And>u d'. tx d = Inr (u, d') \<Longrightarrow> lookup ar_id aid (articles d') \<noteq> None"
  shows "keeps articles_ok d (transaction tx d (\<lambda>_ d'. (article_get aid d', d')))"
proof (cases "tx d")
  case (Inr p)
  then obtain u d' where "p = (u, d')" "articles_ok d'" "lookup ar_id aid (articles d') \<noteq> None"
    using assms(2,3) by (cases p) blast
  with Inr show ?thesis
    using article_get_ok [of d' aid] by (auto simp: keeps_def transaction_def)
qed (simp add: keeps_def transaction_def assms(1))

lemma article_publish_keeps [keeps_intros]: "articles_ok d \<Longrightarrow> keeps articles_ok d (article_publish now new d)"
  unfolding article_publish_def
  by (rule keeps_transaction, assumption, erule (1) publish_tx_ok) (auto simp: publish_tx_Inr lookup_snoc)

lemma article_edit_keeps [keeps_intros]: "articles_ok d \<Longrightarrow> keeps articles_ok d (article_edit_op now aid edit d)"
  unfolding article_edit_op_def
  by (rule keeps_transaction, assumption, erule (1) edit_tx_ok) (auto simp: edit_tx_Inr articles_okD)

lemma article_tombstone_keeps [keeps_intros]:
  "articles_ok d \<Longrightarrow> keeps articles_ok d (article_tombstone_op now aid rsn d)"
  unfolding article_tombstone_op_def
  by (rule keeps_transaction, assumption, erule (1) tombstone_tx_ok)
    (auto simp: tombstone_tx_Inr articles_okD lookup_update_row)

lemma article_redact_keeps [keeps_intros]:
  "articles_ok d \<Longrightarrow> keeps articles_ok d (article_redact_version now aid v rsn d)"
  using redact_tx_ok [of d now aid v rsn]
  by (cases "redact_tx now aid v rsn d") (auto simp: keeps_def article_redact_version_def transaction_def)

interpretation publish_op: store_op articles_ok "\<lambda>(now, new). article_publish now new"
  by unfold_locales (simp add: article_publish_keeps split: prod.split)

interpretation edit_op: store_op articles_ok "\<lambda>(now, aid, edit). article_edit_op now aid edit"
  by unfold_locales (simp add: article_edit_keeps split: prod.split)

interpretation tombstone_op: store_op articles_ok "\<lambda>(now, aid, rsn). article_tombstone_op now aid rsn"
  by unfold_locales (simp add: article_tombstone_keeps split: prod.split)

interpretation redact_op: store_op articles_ok "\<lambda>(now, aid, v, rsn). article_redact_version now aid v rsn"
  by unfold_locales (simp add: article_redact_keeps split: prod.split)

subsection \<open>The handlers\<close>

lemma publish_article_keeps:
  "articles_ok d \<Longrightarrow> keeps articles_ok d (publish_article x ser mx now new_id subj req d)"
  unfolding publish_article_def respond_let by (intro keeps_intros)

lemma edit_article_keeps:
  "articles_ok d \<Longrightarrow> keeps articles_ok d (edit_article x ser mx now subj raw edit paths d)"
  unfolding edit_article_def respond_let unfolding Let_def by (intro keeps_intros)

lemma tombstone_article_keeps:
  "articles_ok d \<Longrightarrow> keeps articles_ok d (tombstone_article x now subj raw rsn d)"
  unfolding tombstone_article_def respond_let by (intro keeps_intros)

lemma redact_article_version_keeps:
  "articles_ok d \<Longrightarrow> keeps articles_ok d (redact_article_version x now raw v rsn d)"
  unfolding redact_article_version_def respond_let by (intro keeps_intros)

text \<open>The validators only trim.\<close>

lemma validate_title_Inr: "validate_title s = Inr t \<Longrightarrow> t = trim s"
  by (auto simp: validate_title_def Let_def split: if_splits)

lemma validate_byline_Inr: "validate_byline s = Inr t \<Longrightarrow> t = s"
  by (auto simp: validate_byline_def split: if_splits)

lemma validate_author_url_Inr: "validate_author_url x s = Inr t \<Longrightarrow> t = s"
  by (auto simp: validate_author_url_def res_invert split: if_splits)

text \<open>A handler that succeeds has passed its guards and run its operation.\<close>

lemma publish_article_Inr:
  assumes "publish_article x ser mx now new_id subj req d = (Inr msg, d')"
  obtains i acct j a where "uuid_parse (sx_text x) (par_account_id req) = Some i"
    "account_allowed subj i ''articles.write''" "validate_title (par_title req) = Inr (trim (par_title req))"
    "validate_and_encode_content ser (par_content req) mx = Inr j"
    "account_get i d = Inr acct" "acc_status acct \<noteq> AccountDeletedStatus"
    "article_publish now \<lparr>na_id = new_id, na_account_id = i, na_title = trim (par_title req),
       na_author_name = par_author_name req, na_author_url = par_author_url req, na_content = j\<rparr> d = (Inr a, d')"
    "msg = article_to_proto x a"
proof -
  from assms obtain i t b u j acct a where *: "uuid_parse (sx_text x) (par_account_id req) = Some i"
    "account_allowed subj i ''articles.write''" "validate_title (par_title req) = Inr t"
    "validate_byline (par_author_name req) = Inr b" "validate_author_url x (par_author_url req) = Inr u"
    "validate_and_encode_content ser (par_content req) mx = Inr j"
    "account_get i d = Inr acct" "acc_status acct \<noteq> AccountDeletedStatus"
    "article_publish now \<lparr>na_id = new_id, na_account_id = i, na_title = t,
       na_author_name = b, na_author_url = u, na_content = j\<rparr> d = (Inr a, d')"
    "msg = article_to_proto x a"
    unfolding publish_article_def respond_let
    by (auto simp: try_st_Inr respond_Inr parse_uuid_def ok_or_Inr split: if_splits)
  moreover have "t = trim (par_title req)" "b = par_author_name req" "u = par_author_url req"
    using * by (auto dest: validate_title_Inr validate_byline_Inr validate_author_url_Inr)
  ultimately show thesis
    by (intro that) auto
qed

lemma article_publish_Inr:
  assumes "article_publish now new d = (Inr a, d')"
  shows "publish_tx now new d = Inr ((), d')" "article_get (na_id new) d' = Inr a"
proof -
  from assms obtain p where p: "publish_tx now new d = Inr p"
    by (cases "publish_tx now new d") (simp_all add: article_publish_def transaction_def)
  with assms show "publish_tx now new d = Inr ((), d')" "article_get (na_id new) d' = Inr a"
    by (cases p; simp add: article_publish_def transaction_def)+
qed

lemma publish_article_change:
  "snd (publish_article x ser mx now new_id subj req d) \<noteq> d \<Longrightarrow>
    \<exists>i acct. uuid_parse (sx_text x) (par_account_id req) = Some i \<and> account_allowed subj i ''articles.write'' \<and>
       account_get i d = Inr acct \<and> acc_status acct \<noteq> AccountDeletedStatus"
  unfolding publish_article_def respond_let parse_uuid_def
  by (auto dest!: try_st_change simp: ok_or_Inr split: if_splits)

lemma edit_article_change:
  "snd (edit_article x ser mx now subj raw edit umask d) \<noteq> d \<Longrightarrow>
    \<exists>i a acct. uuid_parse (sx_text x) raw = Some i \<and> article_get i d = Inr a \<and> as_state (a_summary a) \<noteq> Tombstone \<and>
       account_allowed subj (as_account_id (a_summary a)) ''articles.write'' \<and>
       account_get (as_account_id (a_summary a)) d = Inr acct \<and> acc_status acct \<noteq> AccountDeletedStatus"
  unfolding edit_article_def respond_let parse_uuid_def
  by (auto dest!: try_st_change simp: ok_or_Inr Let_def split: if_splits)

lemma tombstone_article_change:
  "snd (tombstone_article x now subj raw rsn d) \<noteq> d \<Longrightarrow>
    \<exists>i a. uuid_parse (sx_text x) raw = Some i \<and> article_get i d = Inr a \<and> as_state (a_summary a) \<noteq> Tombstone \<and>
       account_allowed subj (as_account_id (a_summary a)) ''articles.tombstone''"
  unfolding tombstone_article_def respond_let parse_uuid_def
  by (auto dest!: try_st_change simp: ok_or_Inr split: if_splits)

lemma published_get:
  assumes "text_ext_ok (sx_text x)" "publish_article x ser mx now new_id subj req d = (Inr msg, d')"
  shows "get_article x (arm_id msg) d' = Inr msg"
proof -
  from publish_article_Inr [OF assms(2)] obtain new a where
    p: "article_publish now new d = (Inr a, d')" "na_id new = new_id" and msg: "msg = article_to_proto x a"
    by (metis new_article.select_convs(1))
  have "uuid_parse (sx_text x) (uuid_show (sx_text x) new_id) = Some new_id"
    using assms(1) by (simp add: text_ext_ok_def token_codec_def)
  then show ?thesis
    using article_publish_Inr(2) [OF p(1)] p(2) article_get_published [OF article_publish_Inr(1) [OF p(1)]]
    by (auto simp: msg get_article_def parse_uuid_def article_to_proto_def Let_def)
qed

subsection \<open>Properties\<close>

text \<open>What is published is what is read: after \<open>publish_article\<close> succeeds, \<open>get_article\<close> on
  the id it returned answers the same message, which is live, at version 1, and carries the
  trimmed title, the byline and the very nodes of the request.
\<close>

theorem publish_then_get:
  assumes "text_ext_ok (sx_text x)" "list_all node_ok (par_content req)"
    and "publish_article x ser mx now new_id subj req d = (Inr msg, d')"
  shows "get_article x (arm_id msg) d' = Inr msg \<and> arm_state msg = 1 \<and>
    (\<exists>lm. arm_state_data msg = Some (LiveData lm) \<and> alm_current_version lm = 1 \<and>
       alm_title lm = trim (par_title req) \<and> alm_author_name lm = par_author_name req \<and>
       alm_author_url lm = par_author_url req \<and> \<not> alm_redacted lm \<and>
       alm_content lm = map sort_attrs (par_content req))"
proof -
  from publish_article_Inr [OF assms(3)] obtain i j a where
    j: "validate_and_encode_content ser (par_content req) mx = Inr j" and
    p: "article_publish now \<lparr>na_id = new_id, na_account_id = i, na_title = trim (par_title req),
       na_author_name = par_author_name req, na_author_url = par_author_url req, na_content = j\<rparr> d = (Inr a, d')" and
    msg: "msg = article_to_proto x a"
    by metis
  have "json_to_nodes j = map sort_attrs (par_content req)"
    using validate_and_encode_content_Inr [OF j] json_to_nodes_nodes_to_json [OF assms(2)] by simp
  then show ?thesis
    using published_get [OF assms(1,3)] article_publish_Inr(2) [OF p] article_get_published [OF article_publish_Inr(1) [OF p]]
    by (auto simp: msg article_to_proto_def Let_def)
qed

text \<open>Articles are written by their owners: whatever the request, if publishing changes the
  store the subject is that account, or a system with \<open>articles.write\<close>, and the account is
  not deleted; if editing does, the article is live and the same holds of its owner; if
  tombstoning does, the article is live and the subject is its owner or a system with
  \<open>articles.tombstone\<close>.
\<close>

theorem article_writes_authorized:
  "(snd (publish_article x ser mx now new_id subj req d) \<noteq> d \<longrightarrow>
      (\<exists>i acct. uuid_parse (sx_text x) (par_account_id req) = Some i \<and> account_allowed subj i ''articles.write'' \<and>
         account_get i d = Inr acct \<and> acc_status acct \<noteq> AccountDeletedStatus)) \<and>
   (snd (edit_article x ser mx now subj raw edit umask d) \<noteq> d \<longrightarrow>
      (\<exists>i a acct. uuid_parse (sx_text x) raw = Some i \<and> article_get i d = Inr a \<and>
         as_state (a_summary a) \<noteq> Tombstone \<and>
         account_allowed subj (as_account_id (a_summary a)) ''articles.write'' \<and>
         account_get (as_account_id (a_summary a)) d = Inr acct \<and> acc_status acct \<noteq> AccountDeletedStatus)) \<and>
   (snd (tombstone_article x now subj raw rsn d) \<noteq> d \<longrightarrow>
      (\<exists>i a. uuid_parse (sx_text x) raw = Some i \<and> article_get i d = Inr a \<and>
         as_state (a_summary a) \<noteq> Tombstone \<and>
         account_allowed subj (as_account_id (a_summary a)) ''articles.tombstone''))"
  by (intro conjI impI publish_article_change edit_article_change tombstone_article_change)

text \<open>
  Article handlers are all or nothing: from tables that are in order each of them ends
  with tables that are in order, and one that answers an error has changed nothing.
\<close>

theorem article_handlers_atomic:
  assumes "articles_ok d"
  shows "keeps articles_ok d (publish_article x ser mx now new_id subj req d) \<and>
    keeps articles_ok d (edit_article x ser mx now subj raw edit umask d) \<and>
    keeps articles_ok d (tombstone_article x now subj raw rsn d) \<and>
    keeps articles_ok d (redact_article_version x now raw v rsn d)"
  by (simp add: publish_article_keeps edit_article_keeps tombstone_article_keeps
      redact_article_version_keeps assms)

subsection \<open>Witnesses\<close>

text \<open>A publication and its refusal for another account, on the demonstration store.\<close>

definition demo_req :: publish_article_req where
  "demo_req = \<lparr>par_account_id = ''x'', par_title = '' t'', par_author_name = [], par_author_url = [],
     par_content = demo_nodes\<rparr>"

lemma demo_content:
  "validate_and_encode_content (\<lambda>_. Some []) demo_nodes 100 = Inr (nodes_to_json demo_nodes)"
  by (simp add: demo_nodes_def validate_and_encode_content_def validate_element_head_def ALLOWED_TAGS_def
      allowed_attrs_for_def)

lemma demo_title: "validate_title '' t'' = Inr ''t''"
  by code_simp

lemma demo_byline: "validate_byline [] = Inr []"
  by code_simp

lemma demo_account_get: "\<exists>acct. account_get 1 demo_db0 = Inr acct \<and> acc_status acct = AccountActive"
  by (simp add: account_get_def account_of_row_def demo_db0_def demo_account_def lookup_def)

lemma demo_publish:
  "\<exists>msg d'. publish_article demo_svc (\<lambda>_. Some []) 100 5 10 (Account 1 2) demo_req demo_db0 = (Inr msg, d') \<and>
     d' \<noteq> demo_db0 \<and> arm_id msg = uuid_show (sx_text demo_svc) 10"
proof -
  let ?new = "\<lparr>na_id = 10, na_account_id = 1, na_title = ''t'', na_author_name = [], na_author_url = [],
      na_content = nodes_to_json demo_nodes\<rparr>"
  obtain acct where acct: "account_get 1 demo_db0 = Inr acct" "acc_status acct = AccountActive"
    using demo_account_get by blast
  have acc: "lookup ac_id (na_account_id ?new) (accounts demo_db0) \<noteq> None"
    by (simp add: demo_db0_def demo_account_def lookup_def)
  obtain d' where tx: "publish_tx 5 ?new demo_db0 = Inr ((), d')"
    and abs: "abs_article d' = (abs_article demo_db0)(na_id ?new \<mapsto> \<lparr>aa_account = na_account_id ?new,
       aa_versions = [\<lparr>vn_title = na_title ?new, vn_author_name = na_author_name ?new,
         vn_author_url = na_author_url ?new, vn_content = Some (na_content ?new)\<rparr>], aa_tomb = None\<rparr>)"
    using publish_abs [OF demo_db0_ok acc demo_db0_abs] by blast
  have "d' \<noteq> demo_db0"
    using abs demo_db0_abs [of 10] by (metis fun_upd_same new_article.select_convs(1) option.discI)
  with acct tx article_get_published [OF tx] show ?thesis
    by (auto simp: publish_article_def parse_uuid_def demo_uuid_parse demo_req_def account_allowed_def
        demo_title demo_byline demo_content validate_author_url_def article_publish_def transaction_def
        article_to_proto_def Let_def)
qed

theorem publish_then_get_witness:
  "\<exists>msg d'. publish_article demo_svc (\<lambda>_. Some []) 100 5 10 (Account 1 2) demo_req demo_db0 = (Inr msg, d') \<and>
     get_article demo_svc (arm_id msg) d' = Inr msg"
proof -
  obtain msg d' where p: "publish_article demo_svc (\<lambda>_. Some []) 100 5 10 (Account 1 2) demo_req demo_db0 = (Inr msg, d')"
    using demo_publish by blast
  have "text_ext_ok (sx_text demo_svc)" "list_all node_ok (par_content demo_req)"
    using demo_text_ok by (simp_all add: demo_svc_def demo_req_def demo_nodes_def)
  from publish_then_get [OF this p] p show ?thesis
    by blast
qed

theorem article_writes_authorized_witness:
  "\<exists>i. uuid_parse (sx_text demo_svc) (par_account_id demo_req) = Some i \<and>
     account_allowed (Account 1 2) i ''articles.write''"
proof -
  have "snd (publish_article demo_svc (\<lambda>_. Some []) 100 5 10 (Account 1 2) demo_req demo_db0) \<noteq> demo_db0"
    using demo_publish by fastforce
  with article_writes_authorized [of demo_svc "\<lambda>_. Some []" 100 5 10 "Account 1 2" demo_req demo_db0]
  show ?thesis
    by blast
qed

theorem article_handlers_atomic_witness:
  "tombstone_article demo_svc 9 (Account 3 4) (uuid_show (sx_text demo_svc) 10) ''gone'' demo_db =
     (Inl (Denied ''not permitted on this article''), demo_db) \<and>
   articles_ok (snd (tombstone_article demo_svc 9 (Account 1 4) (uuid_show (sx_text demo_svc) 10) ''gone'' demo_db))"
proof -
  have k: "keeps articles_ok demo_db (tombstone_article demo_svc 9 subj raw rsn demo_db)" for subj raw rsn
    using article_handlers_atomic [OF demo_db_facts(1)] by blast
  obtain a where "article_get 10 demo_db = Inr a" "as_account_id (a_summary a) = 1" "as_state (a_summary a) = Live"
    using article_get_abs [OF demo_db_facts(1), of 10] by (auto simp: demo_db_facts(2) shows_article_def)
  then have "fst (tombstone_article demo_svc 9 (Account 3 4) (uuid_show (sx_text demo_svc) 10) ''gone'' demo_db) =
      Inl (Denied ''not permitted on this article'')"
    by (simp add: tombstone_article_def parse_uuid_def demo_uuid_parse demo_svc_def demo_text_def
        validate_tombstone_reason_def account_allowed_def)
  with k show ?thesis
    by (auto simp: keeps_def prod_eq_iff)
qed

end
