(* ===== verification/Follow.thy ===== *)
theory Follow
  imports Pagination Identity_Service Atomic
begin

text \<open>
  Follows: \<open>PgFollowRepo\<close> (\<open>headlines-store/src/repo/follows.rs\<close>) and the follow service
  (\<open>headlines-api/src/services/follow.rs\<close>). The table keeps an edge after it has been
  unfollowed; what it stands for is the set of active edges, and the operations are shown to
  insert into and delete from that set.
\<close>

subsection \<open>The repository\<close>

datatype follow_status = FollowActive | FollowUnfollowed

record follow =
  fl_user_id :: uuid
  fl_account_id :: uuid
  fl_status :: follow_status
  fl_created_at :: timestamp
  fl_unfollowed_at :: "timestamp option"

definition follow_of_row :: "follow_row \<Rightarrow> follow res" where
  "follow_of_row r =
     try_res (if fo_status r = ''active'' then Inr FollowActive
              else if fo_status r = ''unfollowed'' then Inr FollowUnfollowed
              else Inl (Internal (''unknown follows.status value in DB: '' @ fo_status r))) (\<lambda>st.
     Inr \<lparr>fl_user_id = fo_user_id r, fl_account_id = fo_account_id r, fl_status = st,
       fl_created_at = fo_created_at r, fl_unfollowed_at = fo_unfollowed_at r\<rparr>)"

definition activate :: "timestamp \<Rightarrow> follow_row \<Rightarrow> follow_row" where
  "activate now r = r\<lparr>fo_status := ''active'', fo_created_at := now, fo_unfollowed_at := None\<rparr>"

definition deactivate :: "timestamp \<Rightarrow> follow_row \<Rightarrow> follow_row" where
  "deactivate now r = r\<lparr>fo_status := ''unfollowed'', fo_unfollowed_at := Some now\<rparr>"

text \<open>\<open>INSERT .. ON CONFLICT DO UPDATE\<close>; a new row needs its user and its account.\<close>

definition follow_upsert :: "timestamp \<Rightarrow> uuid \<Rightarrow> uuid \<Rightarrow> db \<Rightarrow> headlines_error + (follow_row \<times> db)" where
  "follow_upsert now u a d =
     (case lookup fo_key (u, a) (follows d) of
        Some row \<Rightarrow>
          Inr (activate now row, d\<lparr>follows := update_row fo_key (u, a) (activate now) (follows d)\<rparr>)
      | None \<Rightarrow>
          let row = \<lparr>fo_user_id = u, fo_account_id = a, fo_status = ''active'', fo_created_at = now,
                fo_unfollowed_at = None\<rparr>
          in try_res (insert_checked (u \<in> us_id ` set (users d) \<and> a \<in> ac_id ` set (accounts d)) fo_key
               (Internal ''upsert follow'') row (follows d)) (\<lambda>t.
             Inr (row, d\<lparr>follows := t\<rparr>)))"

definition follow_op :: "timestamp \<Rightarrow> uuid \<Rightarrow> uuid \<Rightarrow> db \<Rightarrow> follow res \<times> db" where
  "follow_op now u a d =
     (case lookup fo_key (u, a) (follows d) of
        Some row \<Rightarrow>
          if fo_status row = ''active'' then (follow_of_row row, d)
          else transaction (follow_upsert now u a) d (\<lambda>r d'. (follow_of_row r, d'))
      | None \<Rightarrow> transaction (follow_upsert now u a) d (\<lambda>r d'. (follow_of_row r, d')))"

definition unfollow_op :: "timestamp \<Rightarrow> uuid \<Rightarrow> uuid \<Rightarrow> db \<Rightarrow> follow res \<times> db" where
  "unfollow_op now u a d =
     (case lookup fo_key (u, a) (follows d) of
        None \<Rightarrow> (Inl (FollowNotFound u a), d)
      | Some row \<Rightarrow>
          if fo_status row = ''unfollowed'' then (follow_of_row row, d)
          else (follow_of_row (deactivate now row),
                d\<lparr>follows := update_row fo_key (u, a) (deactivate now) (follows d)\<rparr>))"

definition follow_get :: "uuid \<Rightarrow> uuid \<Rightarrow> db \<Rightarrow> follow res" where
  "follow_get u a d =
     (case lookup fo_key (u, a) (follows d) of
        Some r \<Rightarrow> follow_of_row r
      | None \<Rightarrow> Inl (FollowNotFound u a))"

definition follows_by_user :: "uuid \<Rightarrow> bool \<Rightarrow> db \<Rightarrow> follow_row list" where
  "follows_by_user u include_unfollowed d =
     filter (\<lambda>r. fo_user_id r = u \<and> (include_unfollowed \<or> fo_status r = ''active'')) (follows d)"

definition follows_by_account :: "uuid \<Rightarrow> bool \<Rightarrow> db \<Rightarrow> follow_row list" where
  "follows_by_account a include_unfollowed d =
     filter (\<lambda>r. fo_account_id r = a \<and> (include_unfollowed \<or> fo_status r = ''active'')) (follows d)"

definition user_follow_key :: "follow_row \<Rightarrow> timestamp \<times> uuid" where
  "user_follow_key r = (fo_created_at r, fo_account_id r)"

definition account_follow_key :: "follow_row \<Rightarrow> timestamp \<times> uuid" where
  "account_follow_key r = (fo_created_at r, fo_user_id r)"

definition follow_list_by_user ::
  "page_ext \<Rightarrow> uuid \<Rightarrow> bool \<Rightarrow> int \<Rightarrow> db \<Rightarrow> string \<Rightarrow> headlines_error + (follow list \<times> string)" where
  "follow_list_by_user x u include_unfollowed page_size d =
     list_page (encode_cursor x ''c'') (decode_cursor x ''c'') user_follow_key
       (order_desc user_follow_key) (after_desc user_follow_key) follow_of_row
       (nat (clamp_page_size page_size)) (follows_by_user u include_unfollowed d)"

definition follow_list_by_account ::
  "page_ext \<Rightarrow> uuid \<Rightarrow> bool \<Rightarrow> int \<Rightarrow> db \<Rightarrow> string \<Rightarrow> headlines_error + (follow list \<times> string)" where
  "follow_list_by_account x a include_unfollowed page_size d =
     list_page (encode_cursor x ''c'') (decode_cursor x ''c'') account_follow_key
       (order_desc account_follow_key) (after_desc account_follow_key) follow_of_row
       (nat (clamp_page_size page_size)) (follows_by_account a include_unfollowed d)"

subsection \<open>The service\<close>

record follow_msg =
  fm_user_id :: string
  fm_account_id :: string
  fm_status :: int
  fm_created_at :: "(int \<times> int) option"
  fm_unfollowed_at :: "(int \<times> int) option"

definition follow_to_proto :: "svc_ext \<Rightarrow> follow \<Rightarrow> follow_msg" where
  "follow_to_proto x f = \<lparr>fm_user_id = uuid_show (sx_text x) (fl_user_id f),
     fm_account_id = uuid_show (sx_text x) (fl_account_id f),
     fm_status = (case fl_status f of FollowActive \<Rightarrow> 1 | FollowUnfollowed \<Rightarrow> 2),
     fm_created_at = Some (ts_to_proto (fl_created_at f)),
     fm_unfollowed_at = map_option ts_to_proto (fl_unfollowed_at f)\<rparr>"

definition self_or_scope :: "subject \<Rightarrow> uuid option \<Rightarrow> uuid option \<Rightarrow> string \<Rightarrow> bool" where
  "self_or_scope subj u a scope \<longleftrightarrow>
     is_self_for subj u a \<or> (case subj of System _ _ _ \<Rightarrow> has_scope subj scope | _ \<Rightarrow> False)"

definition follow_rpc ::
  "svc_ext \<Rightarrow> timestamp \<Rightarrow> subject \<Rightarrow> string \<Rightarrow> string \<Rightarrow> db \<Rightarrow> follow_msg res \<times> db" where
  "follow_rpc x now subj raw_user_id raw_account_id d =
     try_st (parse_uuid x ''user_id'' raw_user_id) d (\<lambda>u.
     try_st (parse_uuid x ''account_id'' raw_account_id) d (\<lambda>a.
     if u = a then (Inl SelfFollowForbidden, d)
     else if \<not> self_or_scope subj (Some u) None ''follows.write'' then (Inl (UserNotFound u), d)
     else try_st (user_get u d) d (\<lambda>target_user.
     if usr_status target_user = UserDeletedStatus then (Inl (UserDeleted u), d)
     else try_st (account_get a d) d (\<lambda>target_account.
     if acc_status target_account = AccountDeletedStatus then (Inl (AccountDeleted a), d)
     else let (r, d') = follow_op now u a d
          in try_st r d' (\<lambda>f. (Inr (follow_to_proto x f), d'))))))"

definition unfollow_rpc ::
  "svc_ext \<Rightarrow> timestamp \<Rightarrow> subject \<Rightarrow> string \<Rightarrow> string \<Rightarrow> db \<Rightarrow> follow_msg res \<times> db" where
  "unfollow_rpc x now subj raw_user_id raw_account_id d =
     try_st (parse_uuid x ''user_id'' raw_user_id) d (\<lambda>u.
     try_st (parse_uuid x ''account_id'' raw_account_id) d (\<lambda>a.
     if u = a then (Inl SelfFollowForbidden, d)
     else if \<not> self_or_scope subj (Some u) None ''follows.write'' then (Inl (UserNotFound u), d)
     else let (r, d') = unfollow_op now u a d
          in try_st r d' (\<lambda>f. (Inr (follow_to_proto x f), d'))))"

definition get_follow :: "svc_ext \<Rightarrow> subject \<Rightarrow> string \<Rightarrow> string \<Rightarrow> db \<Rightarrow> follow_msg res" where
  "get_follow x subj raw_user_id raw_account_id d =
     try_res (parse_uuid x ''user_id'' raw_user_id) (\<lambda>u.
     try_res (parse_uuid x ''account_id'' raw_account_id) (\<lambda>a.
     if u = a then Inl SelfFollowForbidden
     else if \<not> self_or_scope subj (Some u) None ''follows.read'' then Inl (UserNotFound u)
     else try_res (follow_get u a d) (\<lambda>f. Inr (follow_to_proto x f))))"

definition list_user_follows ::
  "svc_ext \<Rightarrow> page_ext \<Rightarrow> subject \<Rightarrow> string \<Rightarrow> bool \<Rightarrow> int \<Rightarrow> string \<Rightarrow> db \<Rightarrow> (follow_msg list \<times> string) res" where
  "list_user_follows x px subj raw_user_id include_unfollowed page_size page_token d =
     try_res (parse_uuid x ''user_id'' raw_user_id) (\<lambda>u.
     if \<not> self_or_scope subj (Some u) None ''follows.read'' then Inl (UserNotFound u)
     else try_res (follow_list_by_user px u include_unfollowed page_size d page_token) (\<lambda>(items, token).
     Inr (map (follow_to_proto x) items, token)))"

definition list_account_followers ::
  "svc_ext \<Rightarrow> page_ext \<Rightarrow> subject \<Rightarrow> string \<Rightarrow> bool \<Rightarrow> int \<Rightarrow> string \<Rightarrow> db \<Rightarrow> (follow_msg list \<times> string) res" where
  "list_account_followers x px subj raw_account_id include_unfollowed page_size page_token d =
     try_res (parse_uuid x ''account_id'' raw_account_id) (\<lambda>a.
     if \<not> self_or_scope subj None (Some a) ''follows.read'' then Inl (AccountNotFound a)
     else try_res (follow_list_by_account px a include_unfollowed page_size d page_token) (\<lambda>(items, token).
     Inr (map (follow_to_proto x) items, token)))"

subsection \<open>What the table means\<close>

text \<open>The active edges, and the invariant: one row per edge, in one of the two states.\<close>

definition following :: "db \<Rightarrow> (uuid \<times> uuid) set" where
  "following d = {k. \<exists>r. lookup fo_key k (follows d) = Some r \<and> fo_status r = ''active''}"

definition follows_ok :: "db \<Rightarrow> bool" where
  "follows_ok d \<longleftrightarrow> pk fo_key (follows d) \<and>
     list_all (\<lambda>r. (fo_status r = ''active'' \<and> fo_unfollowed_at r = None \<or>
                    fo_status r = ''unfollowed'' \<and> fo_unfollowed_at r \<noteq> None) \<and>
                   lookup us_id (fo_user_id r) (users d) \<noteq> None \<and>
                   lookup ac_id (fo_account_id r) (accounts d) \<noteq> None) (follows d)"

text \<open>An edge can be added when both its ends exist.\<close>

definition follow_valid :: "uuid \<times> uuid \<Rightarrow> db \<Rightarrow> bool" where
  "follow_valid k d \<longleftrightarrow> lookup us_id (fst k) (users d) \<noteq> None \<and> lookup ac_id (snd k) (accounts d) \<noteq> None"

lemma activate_key [simp]: "fo_key (activate now r) = fo_key r"
  by (simp add: fo_key_def activate_def)

lemma deactivate_key [simp]: "fo_key (deactivate now r) = fo_key r"
  by (simp add: fo_key_def deactivate_def)

lemma follow_status_simps [simp]:
  "fo_status (activate now r) = ''active''" "fo_status (deactivate now r) = ''unfollowed''"
  by (simp_all add: activate_def deactivate_def)

lemma lookup_activate [simp]: "lookup fo_key k (update_row fo_key k' (activate now) t) =
    (if k = k' then map_option (activate now) (lookup fo_key k t) else lookup fo_key k t)"
  by (rule lookup_update_row) simp

lemma lookup_deactivate [simp]: "lookup fo_key k (update_row fo_key k' (deactivate now) t) =
    (if k = k' then map_option (deactivate now) (lookup fo_key k t) else lookup fo_key k t)"
  by (rule lookup_update_row) simp

lemma pk_activate [simp]: "pk fo_key (update_row fo_key k (activate now) t) = pk fo_key t"
  by (rule pk_update_row) simp

lemma pk_deactivate [simp]: "pk fo_key (update_row fo_key k (deactivate now) t) = pk fo_key t"
  by (rule pk_update_row) simp

lemma follow_of_row_active: "fo_status r = ''active'' \<Longrightarrow> \<exists>f. follow_of_row r = Inr f \<and> fl_status f = FollowActive"
  by (simp add: follow_of_row_def)

lemma follow_of_row_unfollowed:
  "fo_status r = ''unfollowed'' \<Longrightarrow> \<exists>f. follow_of_row r = Inr f \<and> fl_status f = FollowUnfollowed"
  by (simp add: follow_of_row_def)

lemma follows_ok_row:
  assumes "follows_ok d" "lookup fo_key (u, a) (follows d) = Some r"
  shows "fo_status r = ''active'' \<or> fo_status r = ''unfollowed''" "fo_user_id r = u" "fo_account_id r = a"
    "follow_valid (u, a) d"
  using assms lookup_SomeD [OF assms(2)] by (auto simp: follows_ok_def list_all_iff fo_key_def follow_valid_def)

lemma follows_ok_update:
  assumes "follows_ok d" "\<And>r. f r = activate now r \<or> f r = deactivate now r" "\<And>r. fo_key (f r) = fo_key r"
  shows "follows_ok (d\<lparr>follows := update_row fo_key k f (follows d)\<rparr>)"
proof -
  have "fo_status (f r) = ''active'' \<and> fo_unfollowed_at (f r) = None \<or>
      fo_status (f r) = ''unfollowed'' \<and> fo_unfollowed_at (f r) \<noteq> None" for r
    using assms(2) [of r] by (auto simp: activate_def deactivate_def)
  moreover have "fo_user_id (f r) = fo_user_id r" "fo_account_id (f r) = fo_account_id r" for r
    using assms(3) [of r] by (simp_all add: fo_key_def)
  ultimately show ?thesis
    using assms(1) by (auto simp: follows_ok_def list_all_iff update_row_def pk_def assms(3) comp_def
        if_distrib [of fo_key] cong: if_cong)
qed

lemma follows_ok_activate:
  "follows_ok d \<Longrightarrow> follows_ok (d\<lparr>follows := update_row fo_key k (activate now) (follows d)\<rparr>)"
  by (rule follows_ok_update [where now = now]) auto

lemma follows_ok_deactivate:
  "follows_ok d \<Longrightarrow> follows_ok (d\<lparr>follows := update_row fo_key k (deactivate now) (follows d)\<rparr>)"
  by (rule follows_ok_update [where now = now]) auto

text \<open>The three ways a follow goes, and the three of an unfollow.\<close>

lemma follow_op_cases [consumes 1, case_names already again first refused]:
  assumes "follows_ok d"
  obtains (already) r where "lookup fo_key (u, a) (follows d) = Some r" "fo_status r = ''active''"
      "follow_op now u a d = (follow_of_row r, d)"
  | (again) r where "lookup fo_key (u, a) (follows d) = Some r" "fo_status r = ''unfollowed''"
      "follow_op now u a d = (follow_of_row (activate now r),
         d\<lparr>follows := update_row fo_key (u, a) (activate now) (follows d)\<rparr>)"
  | (first) r where "lookup fo_key (u, a) (follows d) = None" "follow_valid (u, a) d"
      "r = \<lparr>fo_user_id = u, fo_account_id = a, fo_status = ''active'', fo_created_at = now, fo_unfollowed_at = None\<rparr>"
      "follow_op now u a d = (follow_of_row r, d\<lparr>follows := follows d @ [r]\<rparr>)"
  | (refused) "lookup fo_key (u, a) (follows d) = None" "\<not> follow_valid (u, a) d"
      "follow_op now u a d = (Inl (Internal ''upsert follow''), d)"
proof (cases "lookup fo_key (u, a) (follows d)")
  case None
  then have l: "lookup fo_key (fo_key \<lparr>fo_user_id = u, fo_account_id = a, fo_status = ''active'',
      fo_created_at = now, fo_unfollowed_at = None\<rparr>) (follows d) = None"
    by (simp add: fo_key_def)
  have v: "(u \<in> us_id ` set (users d) \<and> a \<in> ac_id ` set (accounts d)) = follow_valid (u, a) d"
    by (simp add: follow_valid_def lookup_None)
  show thesis
  proof (cases "follow_valid (u, a) d")
    case True
    with None l show thesis
      by (intro first) (simp_all add: follow_op_def follow_upsert_def transaction_def insert_checked_def v Let_def)
  next
    case False
    with None show thesis
      by (intro refused) (simp_all add: follow_op_def follow_upsert_def transaction_def insert_checked_def v Let_def)
  qed
next
  case (Some r)
  with follows_ok_row(1) [OF assms Some] show thesis
    by (auto simp: follow_op_def follow_upsert_def transaction_def intro: already again)
qed

lemma unfollow_op_cases [consumes 1, case_names unknown already active]:
  assumes "follows_ok d"
  obtains (unknown) "lookup fo_key (u, a) (follows d) = None"
      "unfollow_op now u a d = (Inl (FollowNotFound u a), d)"
  | (already) r where "lookup fo_key (u, a) (follows d) = Some r" "fo_status r = ''unfollowed''"
      "unfollow_op now u a d = (follow_of_row r, d)"
  | (active) r where "lookup fo_key (u, a) (follows d) = Some r" "fo_status r = ''active''"
      "unfollow_op now u a d = (follow_of_row (deactivate now r),
         d\<lparr>follows := update_row fo_key (u, a) (deactivate now) (follows d)\<rparr>)"
  using follows_ok_row(1) [OF assms, of u a]
  by (cases "lookup fo_key (u, a) (follows d)") (auto simp: unfollow_op_def)

lemma follow_op_keeps [keeps_intros]: "follows_ok d \<Longrightarrow> keeps follows_ok d (follow_op now u a d)"
proof -
  assume ok: "follows_ok d"
  show ?thesis
    using ok
  proof (cases rule: follow_op_cases [where u = u and a = a and now = now])
    case (again r)
    then show ?thesis
      using follow_of_row_active [of "activate now r"] follows_ok_activate [OF ok]
      by (auto simp: keeps_def)
  next
    case (first r)
    then have "follows_ok (d\<lparr>follows := follows d @ [r]\<rparr>)"
      using ok by (auto simp: follows_ok_def follow_valid_def fo_key_def intro!: pk_snoc)
    with first follow_of_row_active [of r] show ?thesis
      by (auto simp: keeps_def)
  qed (use ok follow_of_row_active in \<open>auto simp: keeps_def\<close>)
qed

lemma unfollow_op_keeps [keeps_intros]: "follows_ok d \<Longrightarrow> keeps follows_ok d (unfollow_op now u a d)"
proof -
  assume ok: "follows_ok d"
  show ?thesis
    using ok
  proof (cases rule: unfollow_op_cases [where u = u and a = a and now = now])
    case (active r)
    then show ?thesis
      using follow_of_row_unfollowed [of "deactivate now r"] follows_ok_deactivate [OF ok]
      by (auto simp: keeps_def)
  qed (use ok follow_of_row_unfollowed in \<open>auto simp: keeps_def\<close>)
qed

subsection \<open>An interface: a set of edges\<close>

text \<open>
  What a client of the follow operations may rely on, whatever the table looks like: adding
  a valid edge inserts it, removing an edge deletes it, and neither changes which edges are
  valid. Any sequence of commands then acts as the same sequence of set operations.
\<close>

definition edge_run ::
  "('n \<Rightarrow> 'k \<Rightarrow> 's \<Rightarrow> 'r \<times> 's) \<Rightarrow> ('n \<Rightarrow> 'k \<Rightarrow> 's \<Rightarrow> 'r \<times> 's) \<Rightarrow> ('n \<times> bool \<times> 'k) list \<Rightarrow> 's \<Rightarrow> 's" where
  "edge_run add del cmds s = fold (\<lambda>(n, b, k) s. snd (if b then add n k s else del n k s)) cmds s"

definition edge_sets :: "('n \<times> bool \<times> 'k) list \<Rightarrow> 'k set \<Rightarrow> 'k set" where
  "edge_sets cmds S = fold (\<lambda>(n, b, k) S. if b then insert k S else S - {k}) cmds S"

locale edge_store =
  fixes okay :: "'s \<Rightarrow> bool" and edges :: "'s \<Rightarrow> 'k set" and valid :: "'k \<Rightarrow> 's \<Rightarrow> bool"
    and add :: "'n \<Rightarrow> 'k \<Rightarrow> 's \<Rightarrow> ('e + 'a) \<times> 's" and del :: "'n \<Rightarrow> 'k \<Rightarrow> 's \<Rightarrow> ('e + 'a) \<times> 's"
  assumes add_keeps: "okay s \<Longrightarrow> keeps okay s (add n k s)"
    and del_keeps: "okay s \<Longrightarrow> keeps okay s (del n k s)"
    and add_edges: "okay s \<Longrightarrow> valid k s \<Longrightarrow> edges (snd (add n k s)) = insert k (edges s)"
    and del_edges: "okay s \<Longrightarrow> edges (snd (del n k s)) = edges s - {k}"
    and add_valid: "valid k' (snd (add n k s)) = valid k' s"
    and del_valid: "valid k' (snd (del n k s)) = valid k' s"
begin

lemma run_sets:
  "okay s \<Longrightarrow> list_all (\<lambda>(n, b, k). b \<longrightarrow> valid k s) cmds \<Longrightarrow>
   edges (edge_run add del cmds s) = edge_sets cmds (edges s) \<and> okay (edge_run add del cmds s)"
proof (induction cmds arbitrary: s)
  case (Cons c cmds)
  obtain n b k where c: "c = (n, b, k)"
    by (cases c)
  let ?s = "snd (if b then add n k s else del n k s)"
  have "okay ?s"
    using keeps_inv [OF add_keeps [OF Cons.prems(1)]] keeps_inv [OF del_keeps [OF Cons.prems(1)]] by simp
  moreover have "list_all (\<lambda>(n, b, k). b \<longrightarrow> valid k ?s) cmds"
    using Cons.prems(2) by (simp add: c add_valid del_valid)
  moreover have "edges ?s = (if b then insert k (edges s) else edges s - {k})"
    using Cons.prems by (simp add: c add_edges del_edges)
  ultimately show ?case
    using Cons.IH [of ?s] by (simp add: edge_run_def edge_sets_def c)
qed (simp add: edge_run_def edge_sets_def)

text \<open>The last command on an edge decides.\<close>

lemma last_wins:
  assumes "okay s" "list_all (\<lambda>(n, b, k). b \<longrightarrow> valid k s) (xs @ (n, b, k) # ys)"
    and "list_all (\<lambda>(n', b', k'). k' \<noteq> k) ys"
  shows "k \<in> edges (edge_run add del (xs @ (n, b, k) # ys) s) \<longleftrightarrow> b"
proof -
  have "k \<in> edge_sets ys S \<longleftrightarrow> k \<in> S" for S
    using assms(3)
  proof (induction ys arbitrary: S)
    case (Cons y ys)
    obtain n' b' k' where y: "y = (n', b', k')"
      by (cases y)
    with Cons.prems have "k' \<noteq> k" "list_all (\<lambda>(n', b', k'). k' \<noteq> k) ys"
      by simp_all
    then show ?case
      using Cons.IH [of "if b' then insert k' S else S - {k'}"] by (simp add: edge_sets_def y)
  qed (simp add: edge_sets_def)
  then show ?thesis
    using run_sets [OF assms(1,2)] by (simp add: edge_sets_def)
qed

end

lemma follow_op_edges:
  assumes "follows_ok d" "follow_valid (u, a) d"
  shows "following (snd (follow_op now u a d)) = insert (u, a) (following d)"
  using assms(1)
proof (cases rule: follow_op_cases [where u = u and a = a and now = now])
  case (first r)
  then have k: "fo_key r = (u, a)"
    by (simp add: fo_key_def)
  with first have l: "lookup fo_key k (follows d @ [r]) = (if k = (u, a) then Some r else lookup fo_key k (follows d))" for k
    using lookup_snoc [of fo_key r "follows d"] by simp
  show ?thesis
    unfolding first(4) following_def using first(1) first(3) [THEN arg_cong [of _ _ fo_status]]
    by (auto simp: l simp del: first(3))
qed (use assms(2) in \<open>auto simp: following_def\<close>)

lemma unfollow_op_edges:
  assumes "follows_ok d"
  shows "following (snd (unfollow_op now u a d)) = following d - {(u, a)}"
  using assms
  by (cases rule: unfollow_op_cases [where u = u and a = a and now = now]) (auto simp: following_def)

lemma follow_op_frame:
  "\<exists>t. snd (follow_op now u a d) = d\<lparr>follows := t\<rparr>" "\<exists>t. snd (unfollow_op now u a d) = d\<lparr>follows := t\<rparr>"
proof -
  have same: "d = d\<lparr>follows := follows d\<rparr>"
    by simp
  show "\<exists>t. snd (follow_op now u a d) = d\<lparr>follows := t\<rparr>"
    by (cases "lookup fo_key (u, a) (follows d)")
      (auto simp: follow_op_def follow_upsert_def transaction_def try_res_def Let_def
        split: sum.splits intro: same)
  show "\<exists>t. snd (unfollow_op now u a d) = d\<lparr>follows := t\<rparr>"
    by (cases "lookup fo_key (u, a) (follows d)") (auto simp: unfollow_op_def intro: same)
qed

lemma follow_valid_frame: "follow_valid k (d\<lparr>follows := t\<rparr>) = follow_valid k d"
  by (simp add: follow_valid_def)

interpretation follow_edges: edge_store follows_ok following follow_valid
  "\<lambda>now (u, a). follow_op now u a" "\<lambda>now (u, a). unfollow_op now u a"
proof
  fix now k k' d
  show "follow_valid k' (snd ((case k of (u, a) \<Rightarrow> follow_op now u a) d)) = follow_valid k' d"
    using follow_op_frame(1) [of now "fst k" "snd k" d] by (auto simp: follow_valid_frame split: prod.split)
  show "follow_valid k' (snd ((case k of (u, a) \<Rightarrow> unfollow_op now u a) d)) = follow_valid k' d"
    using follow_op_frame(2) [of now "fst k" "snd k" d] by (auto simp: follow_valid_frame split: prod.split)
qed (auto simp: follow_op_keeps unfollow_op_keeps follow_op_edges unfollow_op_edges split: prod.splits)

subsection \<open>Listings\<close>

lemma follow_of_row_ok:
  assumes "follows_ok d" "r \<in> set (follows d)"
  shows "follow_of_row r = Inr (projr (follow_of_row r))" "fl_account_id (projr (follow_of_row r)) = fo_account_id r"
    "fl_user_id (projr (follow_of_row r)) = fo_user_id r"
  using assms by (auto simp: follows_ok_def list_all_iff follow_of_row_def)

lemma following_rows:
  assumes "follows_ok d"
  shows "(u, a) \<in> following d \<longleftrightarrow>
    (\<exists>r\<in>set (follows d). fo_user_id r = u \<and> fo_account_id r = a \<and> fo_status r = ''active'')"
proof
  assume "(u, a) \<in> following d"
  then show "\<exists>r\<in>set (follows d). fo_user_id r = u \<and> fo_account_id r = a \<and> fo_status r = ''active''"
    by (auto simp: following_def fo_key_def dest!: lookup_SomeD)
next
  assume "\<exists>r\<in>set (follows d). fo_user_id r = u \<and> fo_account_id r = a \<and> fo_status r = ''active''"
  then obtain r where r: "r \<in> set (follows d)" "fo_user_id r = u" "fo_account_id r = a" "fo_status r = ''active''"
    by blast
  have "lookup fo_key (fo_key r) (follows d) = Some r"
    using assms r(1) by (intro lookup_pk) (auto simp: follows_ok_def)
  with r show "(u, a) \<in> following d"
    by (auto simp: following_def fo_key_def)
qed

lemma distinct_follow_rows:
  assumes "follows_ok d"
  shows "distinct (map fo_account_id (follows_by_user u incl d))" "distinct (map fo_user_id (follows_by_account a incl d))"
proof -
  have "distinct (map fo_key (follows d))"
    using assms by (simp add: follows_ok_def pk_def)
  then have d: "distinct (follows d)"
    and i: "\<And>r r'. r \<in> set (follows d) \<Longrightarrow> r' \<in> set (follows d) \<Longrightarrow> fo_user_id r = fo_user_id r' \<Longrightarrow>
      fo_account_id r = fo_account_id r' \<Longrightarrow> r = r'"
    by (auto simp: distinct_map fo_key_def inj_on_def)
  show "distinct (map fo_account_id (follows_by_user u incl d))"
    using d by (auto simp: follows_by_user_def distinct_map intro!: inj_onI intro: i)
  show "distinct (map fo_user_id (follows_by_account a incl d))"
    using d by (auto simp: follows_by_account_def distinct_map intro!: inj_onI intro: i)
qed

lemma distinct_snd: "distinct (map (\<lambda>r. snd (key r)) rows) \<Longrightarrow> distinct (map key rows)"
  using distinct_map [of snd "map key rows"] by (simp add: comp_def)

text \<open>
  Both listings are walks of rows of the table; \<open>pick\<close> is the end of the edge that varies.
\<close>

lemma walk_follow_rows:
  assumes "follows_ok d" "page_ext_ok x" "set rows \<subseteq> set (follows d)" "length rows < fuel"
    and "distinct (map pick_row rows)" "key = (\<lambda>r. (fo_created_at r, pick_row r))"
    and "\<And>r. r \<in> set rows \<Longrightarrow> pick (projr (follow_of_row r)) = pick_row r"
  shows "\<exists>fs. walk (list_page (encode_cursor x ''c'') (decode_cursor x ''c'') key (order_desc key) (after_desc key)
      follow_of_row (nat (clamp_page_size n)) rows) fuel [] = Some (Inr fs) \<and>
    set (map pick fs) = pick_row ` set rows \<and> distinct (map pick fs)"
proof -
  let ?g = "\<lambda>r. projr (follow_of_row r)"
  have pos: "0 < nat (clamp_page_size n)"
    by (simp add: clamp_page_size_def)
  have dk: "distinct (map key rows)"
    using assms(5) by (intro distinct_snd) (simp add: assms(6))
  have "walk (list_page (encode_cursor x ''c'') (decode_cursor x ''c'') key (order_desc key) (after_desc key)
      follow_of_row (nat (clamp_page_size n)) rows) fuel [] = Some (Inr (map ?g (order_desc key rows)))"
    by (rule desc.walk_complete [OF cursor_codec_page_ext [OF assms(2)] dk pos])
      (use assms(1,3,4) in \<open>auto intro: follow_of_row_ok(1)\<close>)
  moreover have m: "mset (order_desc key rows) = mset rows"
    by (simp add: order_desc_def)
  then have st: "set (order_desc key rows) = set rows"
    by (metis set_mset_mset)
  then have e: "map pick (map ?g (order_desc key rows)) = map pick_row (order_desc key rows)"
    using assms(7) by simp
  moreover have "distinct (map pick_row (order_desc key rows))"
    using assms(5) mset_eq_imp_distinct_iff [of "map pick_row (order_desc key rows)" "map pick_row rows"]
    by (simp add: m mset_map)
  moreover have "set (map pick_row (order_desc key rows)) = pick_row ` set rows"
    by (simp add: st)
  ultimately show ?thesis
    by (intro exI [of _ "map ?g (order_desc key rows)"] conjI) (simp_all only: e)
qed

subsection \<open>Properties\<close>

text \<open>C23. Following is a set: any sequence of follow and unfollow operations, on edges whose
  user and account exist, leaves exactly the active edges that the same sequence of
  insertions and deletions leaves, and keeps the invariant of the table.
\<close>

theorem follows_refine_set:
  assumes "follows_ok d" "list_all (\<lambda>(now, b, k). b \<longrightarrow> follow_valid k d) cmds"
  defines "d' \<equiv> edge_run (\<lambda>now (u, a). follow_op now u a) (\<lambda>now (u, a). unfollow_op now u a) cmds d"
  shows "following d' = edge_sets cmds (following d) \<and> follows_ok d'"
  unfolding d'_def by (rule follow_edges.run_sets [OF assms(1,2)])

text \<open>
  The follow listings are complete: walking the pages of \<open>list_by_user\<close> gives every
  account the user follows exactly once, and walking those of \<open>list_by_account\<close> every
  follower exactly once, whatever the page size.
\<close>

theorem follow_lists_complete:
  assumes "follows_ok d" "page_ext_ok x" "length (follows d) < fuel"
  shows "\<exists>fs gs. walk (follow_list_by_user x u False n d) fuel [] = Some (Inr fs) \<and>
    set (map fl_account_id fs) = {a. (u, a) \<in> following d} \<and> distinct (map fl_account_id fs) \<and>
    walk (follow_list_by_account x a False n d) fuel [] = Some (Inr gs) \<and>
    set (map fl_user_id gs) = {u. (u, a) \<in> following d} \<and> distinct (map fl_user_id gs)"
proof -
  have len: "length (follows_by_user u False d) < fuel" "length (follows_by_account a False d) < fuel"
    using assms(3) by (auto simp: follows_by_user_def follows_by_account_def
        intro: le_less_trans [OF length_filter_le])
  have sub: "set (follows_by_user u False d) \<subseteq> set (follows d)" "set (follows_by_account a False d) \<subseteq> set (follows d)"
    by (auto simp: follows_by_user_def follows_by_account_def)
  have "fo_account_id ` set (follows_by_user u False d) = {a. (u, a) \<in> following d}"
    "fo_user_id ` set (follows_by_account a False d) = {u. (u, a) \<in> following d}"
    by (auto simp: following_rows [OF assms(1)] follows_by_user_def follows_by_account_def)
  moreover have "\<exists>fs. walk (follow_list_by_user x u False n d) fuel [] = Some (Inr fs) \<and>
      set (map fl_account_id fs) = fo_account_id ` set (follows_by_user u False d) \<and> distinct (map fl_account_id fs)"
    unfolding follow_list_by_user_def
    by (rule walk_follow_rows [OF assms(1,2) sub(1) len(1) distinct_follow_rows(1) [OF assms(1)]])
      (use sub in \<open>auto simp: user_follow_key_def follow_of_row_ok(2) [OF assms(1)]\<close>)
  moreover have "\<exists>gs. walk (follow_list_by_account x a False n d) fuel [] = Some (Inr gs) \<and>
      set (map fl_user_id gs) = fo_user_id ` set (follows_by_account a False d) \<and> distinct (map fl_user_id gs)"
    unfolding follow_list_by_account_def
    by (rule walk_follow_rows [OF assms(1,2) sub(2) len(2) distinct_follow_rows(2) [OF assms(1)]])
      (use sub in \<open>auto simp: account_follow_key_def follow_of_row_ok(3) [OF assms(1)]\<close>)
  ultimately show ?thesis
    by metis
qed

subsection \<open>Witnesses\<close>

definition demo_follow_db :: db where
  "demo_follow_db = empty_db\<lparr>
     accounts := [\<lparr>ac_id = 1, ac_short_name = ''a'', ac_author_name = ''A'', ac_author_url = None,
       ac_status = ''active'', ac_deleted_at = None, ac_created_at = 0, ac_updated_at = 0\<rparr>],
     users := [\<lparr>us_id = 4, us_display_name = None, us_status = ''active'', us_deleted_at = None, us_created_at = 0\<rparr>],
     follows := [\<lparr>fo_user_id = 4, fo_account_id = 1, fo_status = ''unfollowed'', fo_created_at = 0,
       fo_unfollowed_at = Some 3\<rparr>]\<rparr>"

lemma demo_follow_db_ok: "follows_ok demo_follow_db" "follow_valid (4, 1) demo_follow_db"
  "following demo_follow_db = {}"
  by (simp_all add: follows_ok_def demo_follow_db_def empty_db_def pk_def lookup_Cons follow_valid_def following_def)

theorem follows_refine_set_witness:
  "following (edge_run (\<lambda>now (u, a). follow_op now u a) (\<lambda>now (u, a). unfollow_op now u a)
     [(5, True, (4, 1)), (6, False, (4, 1)), (7, True, (4, 1))] demo_follow_db) = {(4, 1)}"
  using follows_refine_set [OF demo_follow_db_ok(1), of "[(5, True, (4, 1)), (6, False, (4, 1)), (7, True, (4, 1))]"]
  by (simp add: demo_follow_db_ok edge_sets_def)

theorem follow_lists_complete_witness:
  "\<exists>fs. walk (follow_list_by_user demo_page 4 False 10 (snd (follow_op 5 4 1 demo_follow_db))) 2 [] = Some (Inr fs) \<and>
     set (map fl_account_id fs) = {1}"
proof -
  let ?d = "snd (follow_op 5 4 1 demo_follow_db)"
  have "follows_ok ?d"
    using keeps_inv [OF follow_op_keeps [OF demo_follow_db_ok(1)]] .
  moreover have "following ?d = {(4, 1)}"
    using follow_op_edges [OF demo_follow_db_ok(1,2)] by (simp add: demo_follow_db_ok)
  moreover have "length (follows ?d) < 2"
    by (simp add: demo_follow_db_def follow_op_def follow_upsert_def transaction_def lookup_Cons fo_key_def update_row_def)
  ultimately show ?thesis
    using follow_lists_complete [OF _ demo_page_ok, of ?d 2 4 10 1] by auto
qed

end
