(* ===== verification/Feed.thy ===== *)
theory Feed
  imports Article_Service Follow
begin

text \<open>
  The reading surfaces built from joins over the article tables: the recommendation feed
  (\<open>repo/feed_recommendation.rs\<close>, \<open>services/feed_recommendation.rs\<close>), the follow feed
  (\<open>feed_follow.rs\<close>) and the account stream (\<open>account_stream.rs\<close>). A join is a list
  comprehension over the tables, with the query's conditions as they stand. Shown: each
  surface gives exactly the articles it should, once, in order, and every item is what a read
  of that article returns.
\<close>

subsection \<open>Joins\<close>

text \<open>\<open>INNER JOIN articles_live .. INNER JOIN article_versions ..\<close> for one article.\<close>

definition join_live :: "db \<Rightarrow> article_row \<Rightarrow> (article_live_row \<times> article_version_row) list" where
  "join_live d a =
     [(l, v). l \<leftarrow> articles_live d, al_article_id l = ar_id a,
              v \<leftarrow> article_versions d, av_article_id v = ar_id a \<and> av_version v = al_current_version l]"

text \<open>
  The summary of a joined row: \<open>redacted\<close> is \<open>v.content IS NULL\<close>, where the repository of
  articles reads the redaction time.
\<close>

definition joined_summary ::
  "article_row \<Rightarrow> article_live_row \<Rightarrow> article_version_row \<Rightarrow> article_summary res" where
  "joined_summary a l v =
     try_res (parse_state (ar_state a)) (\<lambda>state.
     Inr \<lparr>as_id = ar_id a, as_account_id = ar_account_id a, as_state = state,
          as_created_at = ar_created_at a, as_current_version = Some (al_current_version l),
          as_title = Some (av_title v), as_author_name = Some (unwrap_or [] (av_author_name v)),
          as_author_url = Some (unwrap_or [] (av_author_url v)), as_redacted = (av_content v = None),
          as_published_at = Some (al_published_at l), as_updated_at = Some (al_updated_at l),
          as_tombstone_reason = None, as_tombstoned_at = None\<rparr>)"

subsection \<open>The recommendation feed\<close>

text \<open>The cursor of a feed is a position; its JSON is the crate's.\<close>

record feed_ext =
  fx_page :: page_ext
  fx_pos_ser :: "int \<Rightarrow> string"
  fx_pos_de :: "string \<Rightarrow> string + int"

definition encode_position :: "feed_ext \<Rightarrow> int \<Rightarrow> string" where
  "encode_position x p = b64url_encode (fx_page x) (fx_pos_ser x p)"

definition decode_position :: "feed_ext \<Rightarrow> string \<Rightarrow> int res" where
  "decode_position x raw =
     try_res (map_err (\<lambda>e. InvalidCursor (''base64: '' @ e)) (b64url_decode (fx_page x) raw)) (\<lambda>bytes.
     map_err (\<lambda>e. InvalidCursor (''json: '' @ e)) (fx_pos_de x bytes))"

definition new_feed_rows :: "uuid \<Rightarrow> uuid list \<Rightarrow> feed_row list" where
  "new_feed_rows u ids =
     map (\<lambda>(idx, aid). \<lparr>fr_user_id = u, fr_position = wrap_i32 (int idx), fr_article_id = aid\<rparr>) (enumerate 0 ids)"

text \<open>One multi-row \<open>INSERT\<close>: all rows or none.\<close>

definition insert_feed_rows :: "uuid \<Rightarrow> feed_row list \<Rightarrow> db \<Rightarrow> headlines_error + db" where
  "insert_feed_rows u rows d =
     (if u \<in> us_id ` set (users d) \<and> pk fr_key (feed_recommendation d @ rows)
      then Inr (d\<lparr>feed_recommendation := feed_recommendation d @ rows\<rparr>)
      else Inl (Internal ''insert feed_recommendation''))"

definition feed_replace_tx :: "uuid \<Rightarrow> uuid list \<Rightarrow> db \<Rightarrow> headlines_error + (unit \<times> db)" where
  "feed_replace_tx u ids d =
     (let d1 = d\<lparr>feed_recommendation := filter (\<lambda>r. fr_user_id r \<noteq> u) (feed_recommendation d)\<rparr>
      in if ids = [] then Inr ((), d1)
         else try_res (insert_feed_rows u (new_feed_rows u ids) d1) (\<lambda>d2. Inr ((), d2)))"

definition feed_replace :: "uuid \<Rightarrow> uuid list \<Rightarrow> db \<Rightarrow> int res \<times> db" where
  "feed_replace u ids d =
     transaction (feed_replace_tx u ids) d (\<lambda>_ d'. (Inr (wrap_i32 (int (length ids))), d'))"

type_synonym feed_joined = "feed_row \<times> article_row \<times> article_live_row \<times> article_version_row"

definition feed_join :: "uuid \<Rightarrow> db \<Rightarrow> feed_joined list" where
  "feed_join u d =
     [(r, a, l, v). r \<leftarrow> feed_recommendation d, fr_user_id r = u,
        a \<leftarrow> articles d, ar_id a = fr_article_id r \<and> ar_state a = ''live'',
        (l, v) \<leftarrow> join_live d a]"

definition row_to_feed_item :: "feed_joined \<Rightarrow> (int \<times> article_summary) res" where
  "row_to_feed_item j =
     (case j of (r, a, l, v) \<Rightarrow> try_res (joined_summary a l v) (\<lambda>s. Inr (fr_position r, s)))"

definition feed_position :: "feed_joined \<Rightarrow> int" where
  "feed_position j = fr_position (fst j)"

definition after_position :: "int \<Rightarrow> feed_joined \<Rightarrow> bool" where
  "after_position c j \<longleftrightarrow> feed_position j > c"

definition feed_get ::
  "feed_ext \<Rightarrow> uuid \<Rightarrow> int \<Rightarrow> db \<Rightarrow> string \<Rightarrow> headlines_error + ((int \<times> article_summary) list \<times> string)" where
  "feed_get x u page_size d =
     list_page (encode_position x) (decode_position x) feed_position (order_asc feed_position)
       after_position row_to_feed_item (nat (clamp_page_size page_size)) (feed_join u d)"

subsection \<open>The follow feed\<close>

type_synonym article_joined = "article_row \<times> article_live_row \<times> article_version_row"

definition follow_join :: "uuid \<Rightarrow> db \<Rightarrow> article_joined list" where
  "follow_join u d =
     [(a, l, v). f \<leftarrow> follows d, fo_user_id f = u \<and> fo_status f = ''active'',
        a \<leftarrow> articles d, ar_account_id a = fo_account_id f,
        (l, v) \<leftarrow> join_live d a]"

definition joined_key :: "article_joined \<Rightarrow> timestamp \<times> uuid" where
  "joined_key j = (ar_created_at (fst j), ar_id (fst j))"

definition row_to_follow_feed_item :: "article_joined \<Rightarrow> article_summary res" where
  "row_to_follow_feed_item j = (case j of (a, l, v) \<Rightarrow> joined_summary a l v)"

definition follow_feed_get ::
  "page_ext \<Rightarrow> uuid \<Rightarrow> int \<Rightarrow> db \<Rightarrow> string \<Rightarrow> headlines_error + (article_summary list \<times> string)" where
  "follow_feed_get x u page_size d =
     list_page (encode_cursor x ''c'') (decode_cursor x ''c'') joined_key (order_desc joined_key)
       (after_desc joined_key) row_to_follow_feed_item (nat (clamp_page_size page_size)) (follow_join u d)"

subsection \<open>The account stream\<close>

text \<open>\<open>LEFT JOIN\<close>: the matching rows, or one absent row when there are none.\<close>

definition left_join :: "('r \<Rightarrow> bool) \<Rightarrow> 'r list \<Rightarrow> 'r option list" where
  "left_join p t = (case filter p t of [] \<Rightarrow> [None] | rs \<Rightarrow> map Some rs)"

type_synonym stream_joined =
  "article_row \<times> article_live_row option \<times> article_tombstone_row option \<times> article_version_row option"

definition stream_join :: "uuid \<Rightarrow> db \<Rightarrow> stream_joined list" where
  "stream_join acc d =
     [(a, l, t, v). a \<leftarrow> articles d, ar_account_id a = acc,
        l \<leftarrow> left_join (\<lambda>l. al_article_id l = ar_id a) (articles_live d),
        t \<leftarrow> left_join (\<lambda>t. at_article_id t = ar_id a) (articles_tombstone d),
        v \<leftarrow> left_join (\<lambda>v. av_article_id v = ar_id a \<and> Some (av_version v) = map_option al_current_version l)
               (article_versions d)]"

text \<open>
  \<open>COALESCE(l.updated_at, t.tombstoned_at)\<close>. A row with neither sorts last; it is dropped by
  the cursor's comparison and, without a cursor, fails to load when the page reaches it.
\<close>

definition event_at :: "stream_joined \<Rightarrow> timestamp option" where
  "event_at j = (case j of (a, l, t, v) \<Rightarrow> or_else (map_option al_updated_at l) (map_option at_tombstoned_at t))"

definition stream_key :: "stream_joined \<Rightarrow> timestamp \<times> uuid" where
  "stream_key j = (unwrap_or 0 (event_at j), ar_id (fst j))"

definition row_to_item :: "stream_joined \<Rightarrow> article_summary res" where
  "row_to_item j =
     (case j of (a, l, t, v) \<Rightarrow>
        try_res (parse_state (ar_state a)) (\<lambda>state.
        Inr (case state of
          Live \<Rightarrow> \<lparr>as_id = ar_id a, as_account_id = ar_account_id a, as_state = state,
            as_created_at = ar_created_at a, as_current_version = map_option al_current_version l,
            as_title = map_option av_title v,
            as_author_name = Some (unwrap_or [] (Option.bind v av_author_name)),
            as_author_url = Some (unwrap_or [] (Option.bind v av_author_url)),
            as_redacted = (Option.bind v av_content = None), as_published_at = map_option al_published_at l,
            as_updated_at = map_option al_updated_at l, as_tombstone_reason = None, as_tombstoned_at = None\<rparr>
        | Tombstone \<Rightarrow> \<lparr>as_id = ar_id a, as_account_id = ar_account_id a, as_state = state,
            as_created_at = ar_created_at a, as_current_version = None, as_title = None,
            as_author_name = None, as_author_url = None, as_redacted = False, as_published_at = None,
            as_updated_at = None, as_tombstone_reason = Option.bind t at_reason,
            as_tombstoned_at = map_option at_tombstoned_at t\<rparr>)))"

definition account_stream ::
  "page_ext \<Rightarrow> uuid \<Rightarrow> int \<Rightarrow> db \<Rightarrow> string \<Rightarrow> headlines_error + (article_summary list \<times> string)" where
  "account_stream x acc page_size d token =
     (let limit = nat (clamp_page_size page_size);
          keyed = filter (\<lambda>j. event_at j \<noteq> None) (stream_join acc d)
      in if token = [] \<and> length keyed < length (stream_join acc d) \<and> length keyed \<le> limit
         then Inl (Internal ''stream account_stream'')
         else list_page (encode_cursor x ''e'') (decode_cursor x ''e'') stream_key (order_asc stream_key)
           (after_asc stream_key) row_to_item limit keyed token)"

subsection \<open>The services\<close>

text \<open>The loop that parses the ids of a feed and refuses the first repetition.\<close>

fun parse_feed_ids :: "svc_ext \<Rightarrow> string list \<Rightarrow> uuid list \<Rightarrow> uuid list res" where
  "parse_feed_ids x [] parsed = Inr parsed"
| "parse_feed_ids x (raw # raws) parsed =
     try_res (parse_uuid x ''article_ids'' raw) (\<lambda>i.
     if i \<in> set parsed then Inl (DuplicateArticleId i)
     else parse_feed_ids x raws (parsed @ [i]))"

definition has_system_scope :: "subject \<Rightarrow> string \<Rightarrow> bool" where
  "has_system_scope subj scope \<longleftrightarrow> (case subj of System _ _ _ \<Rightarrow> has_scope subj scope | _ \<Rightarrow> False)"

definition replace_recommendation_feed ::
  "svc_ext \<Rightarrow> nat \<Rightarrow> subject \<Rightarrow> string \<Rightarrow> string list \<Rightarrow> db \<Rightarrow> int rpc \<times> db" where
  "replace_recommendation_feed x replace_max_items subj raw_user_id raw_ids d =
     try_st (dom_res (parse_uuid x ''user_id'' raw_user_id)) d (\<lambda>u.
     if \<not> has_system_scope subj ''feeds.recommendation.write''
     then (Inl (Denied ''feeds.recommendation.write required''), d)
     else if length raw_ids > replace_max_items
     then (Inl (Domain (FeedTooLarge (length raw_ids) replace_max_items)), d)
     else try_st (dom_res (parse_feed_ids x raw_ids [])) d (\<lambda>parsed.
     try_st (dom_res (user_get u d)) d (\<lambda>usr.
     if usr_status usr = UserDeletedStatus then (Inl (Domain (UserDeleted u)), d)
     else let (r, d') = feed_replace u parsed d
          in try_st (dom_res r) d' (\<lambda>n. (Inr n, d')))))"

definition get_recommendation_feed ::
  "svc_ext \<Rightarrow> feed_ext \<Rightarrow> subject \<Rightarrow> string \<Rightarrow> int \<Rightarrow> string \<Rightarrow> db \<Rightarrow>
   ((int \<times> article_summary_msg) list \<times> string) rpc" where
  "get_recommendation_feed x fx subj raw_user_id page_size page_token d =
     try_res (dom_res (parse_uuid x ''user_id'' raw_user_id)) (\<lambda>u.
     if \<not> self_or_scope subj (Some u) None ''feeds.recommendation.read'' then Inl (Domain (UserNotFound u))
     else try_res (dom_res (user_get u d)) (\<lambda>usr.
     if usr_status usr = UserDeletedStatus then Inl (Domain (UserDeleted u))
     else try_res (dom_res (feed_get fx u page_size d page_token)) (\<lambda>(items, token).
     Inr (map (\<lambda>(p, s). (p, article_summary_to_proto x s)) items, token))))"

definition get_follow_feed ::
  "svc_ext \<Rightarrow> page_ext \<Rightarrow> subject \<Rightarrow> string \<Rightarrow> int \<Rightarrow> string \<Rightarrow> db \<Rightarrow> (article_summary_msg list \<times> string) rpc" where
  "get_follow_feed x px subj raw_user_id page_size page_token d =
     try_res (dom_res (parse_uuid x ''user_id'' raw_user_id)) (\<lambda>u.
     if \<not> self_or_scope subj (Some u) None ''feeds.follow.read'' then Inl (Domain (UserNotFound u))
     else try_res (dom_res (user_get u d)) (\<lambda>usr.
     if usr_status usr = UserDeletedStatus then Inl (Domain (UserDeleted u))
     else try_res (dom_res (follow_feed_get px u page_size d page_token)) (\<lambda>(items, token).
     Inr (map (article_summary_to_proto x) items, token))))"

definition stream_account_articles ::
  "svc_ext \<Rightarrow> page_ext \<Rightarrow> subject \<Rightarrow> string \<Rightarrow> int \<Rightarrow> string \<Rightarrow> db \<Rightarrow> (article_summary_msg list \<times> string) rpc" where
  "stream_account_articles x px subj raw_account_id page_size page_token d =
     try_res (dom_res (parse_uuid x ''account_id'' raw_account_id)) (\<lambda>acc.
     if \<not> has_system_scope subj ''articles.stream'' then Inl (Denied ''articles.stream required'')
     else try_res (dom_res (account_get acc d)) (\<lambda>acct.
     if acc_status acct = AccountDeletedStatus then Inl (Domain (AccountDeleted acc))
     else try_res (dom_res (account_stream px acc page_size d page_token)) (\<lambda>(items, token).
     Inr (map (article_summary_to_proto x) items, token))))"

subsection \<open>Joins under the invariant\<close>

lemma filter_pk: "pk key t \<Longrightarrow> filter (\<lambda>r. key r = k) t = (case lookup key k t of None \<Rightarrow> [] | Some r \<Rightarrow> [r])"
proof (induction t)
  case (Cons r t)
  show ?case
  proof (cases "key r = k")
    case True
    with Cons.prems have "filter (\<lambda>r. key r = k) t = []"
      by (auto simp: pk_def filter_empty_conv) (metis image_eqI)
    with True show ?thesis
      by (simp add: lookup_Cons)
  qed (use Cons in \<open>simp add: lookup_Cons pk_def\<close>)
qed simp

lemma concat_map_if: "concat (map (\<lambda>x. if P x then f x else []) xs) = concat (map f (filter P xs))"
  by (induction xs) simp_all

lemma concat_map_option:
  "(\<And>x. x \<in> set xs \<Longrightarrow> h x = (case f x of None \<Rightarrow> [] | Some y \<Rightarrow> [y])) \<Longrightarrow>
   concat (map h xs) = map (\<lambda>x. the (f x)) (filter (\<lambda>x. f x \<noteq> None) xs)"
  by (induction xs) (auto split: option.splits)

lemma concat_map_singleton: "concat (map (\<lambda>x. [f x]) xs) = map f xs"
  by (induction xs) simp_all

lemma left_join_pk: "pk key t \<Longrightarrow> left_join (\<lambda>r. key r = k) t = [lookup key k t]"
  by (simp add: left_join_def filter_pk split: option.splits)

text \<open>The live row and the current version of an article, when it is live.\<close>

definition live_parts :: "db \<Rightarrow> uuid \<Rightarrow> (article_live_row \<times> article_version_row) option" where
  "live_parts d aid =
     Option.bind (lookup al_article_id aid (articles_live d)) (\<lambda>l.
       map_option (Pair l) (lookup av_key (aid, al_current_version l) (article_versions d)))"

lemma join_live_eq:
  assumes "articles_ok d"
  shows "join_live d a = (case live_parts d (ar_id a) of None \<Rightarrow> [] | Some p \<Rightarrow> [p])"
proof -
  have pk: "pk al_article_id (articles_live d)" "pk av_key (article_versions d)"
    using assms by (simp_all add: articles_ok_def)
  have v: "filter (\<lambda>v. av_article_id v = ar_id a \<and> av_version v = n) (article_versions d) =
      (case lookup av_key (ar_id a, n) (article_versions d) of None \<Rightarrow> [] | Some v \<Rightarrow> [v])" for n
    using filter_pk [OF pk(2), of "(ar_id a, n)"] by (simp add: av_key_def)
  show ?thesis
    unfolding join_live_def concat_map_if filter_pk [OF pk(1)]
    by (auto simp: live_parts_def concat_map_singleton v split: option.splits)
qed

definition article_live_in :: "db \<Rightarrow> uuid \<Rightarrow> bool" where
  "article_live_in d aid \<longleftrightarrow> (case lookup ar_id aid (articles d) of None \<Rightarrow> False | Some a \<Rightarrow> ar_state a = ''live'')"

text \<open>
  A live article joins with one live row and one version, and the joined summary is the one
  that a read returns; a tombstone joins with nothing.
\<close>

lemma live_item:
  assumes ok: "articles_ok d" and a: "a \<in> set (articles d)" and live: "ar_state a = ''live''"
  obtains l v art where "live_parts d (ar_id a) = Some (l, v)" "article_get (ar_id a) d = Inr art"
    "joined_summary a l v = Inr (a_summary art)" "as_id (a_summary art) = ar_id a"
proof -
  have la: "lookup ar_id (ar_id a) (articles d) = Some a"
    using ok a by (intro lookup_pk) (auto simp: articles_ok_def)
  have "ar_state a \<noteq> ''tombstone''"
    using live by simp
  from article_okD_live [OF articles_okD [OF ok] la this] obtain l where
    l: "lookup al_article_id (ar_id a) (articles_live d) = Some l" and "1 \<le> al_current_version l"
    and "\<And>v. lookup av_key (ar_id a, v) (article_versions d) \<noteq> None \<longleftrightarrow> 1 \<le> v \<and> v \<le> al_current_version l"
    by blast
  then obtain v where v: "lookup av_key (ar_id a, al_current_version l) (article_versions d) = Some v"
    by (metis option.exhaust order_refl)
  have "av_version v = al_current_version l"
    using lookup_SomeD [OF v] by (simp add: av_key_def)
  moreover have "av_content v = None \<longleftrightarrow> av_redacted_at v \<noteq> None"
    using ok v by (auto simp: articles_ok_def redaction_ok_def)
  ultimately show thesis
    using la l v live
    by (intro that [of l v "\<lparr>a_summary = live_summary a l v, a_content = av_content v\<rparr>"]) (simp_all add: live_parts_def article_get_def parse_state_def joined_summary_def
        live_summary_def version_to_summary_pieces_def)
qed

lemma tomb_item:
  assumes ok: "articles_ok d" and a: "a \<in> set (articles d)" and tomb: "ar_state a \<noteq> ''live''"
  shows "\<exists>t. ar_state a = ''tombstone'' \<and> lookup al_article_id (ar_id a) (articles_live d) = None \<and>
    lookup at_article_id (ar_id a) (articles_tombstone d) = Some t \<and>
    article_get (ar_id a) d = Inr \<lparr>a_summary = tombstone_summary a t, a_content = None\<rparr>"
proof -
  have la: "lookup ar_id (ar_id a) (articles d) = Some a"
    using ok a by (intro lookup_pk) (auto simp: articles_ok_def)
  with articles_okD [OF ok, of "ar_id a"] tomb obtain t where
    "ar_state a = ''tombstone''" "lookup al_article_id (ar_id a) (articles_live d) = None"
    "lookup at_article_id (ar_id a) (articles_tombstone d) = Some t"
    by (auto simp: article_ok_def)
  with la show ?thesis
    by (simp add: article_get_def parse_state_def)
qed

subsection \<open>The recommendation feed\<close>

definition feed_row_join :: "db \<Rightarrow> feed_row \<Rightarrow> feed_joined option" where
  "feed_row_join d r =
     Option.bind (lookup ar_id (fr_article_id r) (articles d)) (\<lambda>a.
       if ar_state a = ''live'' then map_option (\<lambda>(l, v). (r, a, l, v)) (live_parts d (ar_id a)) else None)"

lemma feed_join_eq:
  assumes ok: "articles_ok d"
  shows "feed_join u d = map (\<lambda>r. the (feed_row_join d r))
    (filter (\<lambda>r. feed_row_join d r \<noteq> None) (filter (\<lambda>r. fr_user_id r = u) (feed_recommendation d)))"
proof -
  have pk: "pk ar_id (articles d)"
    using ok by (simp add: articles_ok_def)
  have "filter (\<lambda>a. ar_id a = i \<and> ar_state a = ''live'') (articles d) =
      (case lookup ar_id i (articles d) of None \<Rightarrow> [] | Some a \<Rightarrow> if ar_state a = ''live'' then [a] else [])" for i
    using filter_pk [OF pk, of i] filter_filter [of "\<lambda>a. ar_state a = ''live''" "\<lambda>a. ar_id a = i" "articles d"]
    by (auto simp: conj_commute split: option.splits)
  then show ?thesis
    unfolding feed_join_def concat_map_if
    by (intro concat_map_option)
      (auto simp: feed_row_join_def join_live_eq [OF ok] split: option.splits)
qed

lemma feed_row_join_item:
  assumes ok: "articles_ok d" and j: "feed_row_join d r = Some j"
  shows "\<exists>art. row_to_feed_item j = Inr (fr_position r, a_summary art) \<and> feed_position j = fr_position r \<and>
    article_get (fr_article_id r) d = Inr art \<and> as_id (a_summary art) = fr_article_id r"
proof -
  obtain a l v where a: "lookup ar_id (fr_article_id r) (articles d) = Some a" "ar_state a = ''live''"
    and l: "live_parts d (ar_id a) = Some (l, v)" and jj: "j = (r, a, l, v)"
    using j by (auto simp: feed_row_join_def bind_eq_Some_conv split: if_splits)
  have m: "a \<in> set (articles d)" "ar_id a = fr_article_id r"
    using lookup_SomeD [OF a(1)] by simp_all
  from live_item [OF ok m(1) a(2)] obtain l' v' art where
    i: "live_parts d (ar_id a) = Some (l', v')" "article_get (ar_id a) d = Inr art"
      "joined_summary a l' v' = Inr (a_summary art)" "as_id (a_summary art) = ar_id a"
    by blast
  with l have "l' = l" "v' = v"
    by simp_all
  with i m(2) show ?thesis
    by (simp add: jj row_to_feed_item_def feed_position_def)
qed

lemma feed_row_join_iff: "articles_ok d \<Longrightarrow> feed_row_join d r \<noteq> None \<longleftrightarrow> article_live_in d (fr_article_id r)"
proof -
  assume ok: "articles_ok d"
  show ?thesis
  proof (cases "lookup ar_id (fr_article_id r) (articles d)")
    case (Some a)
    then have m: "a \<in> set (articles d)"
      using lookup_SomeD by fastforce
    show ?thesis
    proof (cases "ar_state a = ''live''")
      case True
      from live_item [OF ok m True] obtain l v where "live_parts d (ar_id a) = Some (l, v)"
        by blast
      with Some True show ?thesis
        by (simp add: feed_row_join_def article_live_in_def)
    qed (use Some in \<open>simp add: feed_row_join_def article_live_in_def\<close>)
  qed (simp add: feed_row_join_def article_live_in_def)
qed

lemma after_position_less: "after_position c = (\<lambda>j. c < feed_position j)"
  by (rule ext) (simp add: after_position_def)

interpretation position: keyset_order feed_position "order_asc feed_position" after_position
proof
  show "filter (after_position (feed_position r)) (order_asc feed_position rows) = ys"
    if "distinct (map feed_position rows)" "order_asc feed_position rows = xs @ r # ys" for rows xs r ys
    using sorted_suffix(1) [OF that(1), of xs r ys] that(2) by (simp add: order_asc_def after_position_less)
qed (simp_all add: order_asc_def filter_sort)

definition feed_ext_ok :: "feed_ext \<Rightarrow> bool" where
  "feed_ext_ok x \<longleftrightarrow> page_ext_ok (fx_page x) \<and>
     (\<forall>p. fx_pos_de x (fx_pos_ser x p) = Inr p \<and> fx_pos_ser x p \<noteq> [])"

lemma position_codec: "feed_ext_ok x \<Longrightarrow> cursor_codec (encode_position x) (decode_position x)"
  by unfold_locales (auto simp: feed_ext_ok_def page_ext_ok_def encode_position_def decode_position_def)

text \<open>The rows a replacement writes, and the table after it.\<close>

lemma new_feed_rows_alt:
  "length ids < 2 ^ 31 \<Longrightarrow> new_feed_rows u ids =
     map (\<lambda>(i, aid). \<lparr>fr_user_id = u, fr_position = int i, fr_article_id = aid\<rparr>) (enumerate 0 ids)"
  by (auto simp: new_feed_rows_def in_set_enumerate_eq)

lemma new_feed_positions: "length ids < 2 ^ 31 \<Longrightarrow> map fr_position (new_feed_rows u ids) = map int [0..<length ids]"
proof -
  assume len: "length ids < 2 ^ 31"
  have "map fr_position (new_feed_rows u ids) = map int (map fst (enumerate 0 ids))"
    unfolding new_feed_rows_alt [OF len] map_map by (rule map_cong) auto
  then show ?thesis
    by (simp only: map_fst_enumerate) simp
qed

lemma new_feed_users: "r \<in> set (new_feed_rows u ids) \<Longrightarrow> fr_user_id r = u"
  by (auto simp: new_feed_rows_def)

definition replaced_feed :: "uuid \<Rightarrow> uuid list \<Rightarrow> db \<Rightarrow> db" where
  "replaced_feed u ids d = d\<lparr>feed_recommendation :=
     filter (\<lambda>r. fr_user_id r \<noteq> u) (feed_recommendation d) @ new_feed_rows u ids\<rparr>"

lemma replaced_feed_pk:
  assumes "pk fr_key (feed_recommendation d)" "length ids < 2 ^ 31"
  shows "pk fr_key (feed_recommendation (replaced_feed u ids d))"
proof -
  have "distinct (map fr_position (new_feed_rows u ids))"
    by (simp add: new_feed_positions [OF assms(2)] distinct_map)
  then have "distinct (map fr_key (new_feed_rows u ids))"
    by (auto simp: distinct_map fr_key_def inj_on_def)
  then show ?thesis
    using assms(1) by (auto simp: replaced_feed_def pk_def distinct_map_filter fr_key_def dest: new_feed_users)
qed

lemma feed_replace_eq:
  assumes "pk fr_key (feed_recommendation d)" "length ids < 2 ^ 31" "lookup us_id u (users d) \<noteq> None"
  shows "feed_replace u ids d = (Inr (int (length ids)), replaced_feed u ids d)"
proof -
  have "u \<in> us_id ` set (users d)"
    using assms(3) by (simp add: lookup_None)
  then have "feed_replace_tx u ids d = Inr ((), replaced_feed u ids d)"
    using replaced_feed_pk [OF assms(1,2), of u]
    by (simp add: feed_replace_tx_def insert_feed_rows_def replaced_feed_def new_feed_rows_def Let_def)
  then show ?thesis
    using assms(2) by (simp add: feed_replace_def transaction_def)
qed

lemma replaced_feed_frame [simp]:
  "same_articles d (replaced_feed u ids d)" "articles (replaced_feed u ids d) = articles d"
  "live_parts (replaced_feed u ids d) aid = live_parts d aid"
  "feed_row_join (replaced_feed u ids d) r = feed_row_join d r"
proof -
  show l: "live_parts (replaced_feed u ids d) aid = live_parts d aid" for aid
    by (simp add: live_parts_def replaced_feed_def)
  show a: "articles (replaced_feed u ids d) = articles d"
    by (simp add: replaced_feed_def)
  show "same_articles d (replaced_feed u ids d)"
    by (simp add: same_articles_def replaced_feed_def)
  show "feed_row_join (replaced_feed u ids d) r = feed_row_join d r"
    unfolding feed_row_join_def l a ..
qed

lemma replaced_feed_join:
  assumes "articles_ok d"
  shows "feed_join u (replaced_feed u ids d) = map (\<lambda>r. the (feed_row_join d r))
      (filter (\<lambda>r. article_live_in d (fr_article_id r)) (new_feed_rows u ids))"
    and "w \<noteq> u \<Longrightarrow> feed_join w (replaced_feed u ids d) = feed_join w d"
proof -
  have ok: "articles_ok (replaced_feed u ids d)"
    using same_articles_cong(1) [of d "replaced_feed u ids d"] assms by simp
  have u: "filter (\<lambda>r. fr_user_id r = w) (feed_recommendation (replaced_feed u ids d)) =
      (if w = u then new_feed_rows u ids else filter (\<lambda>r. fr_user_id r = w) (feed_recommendation d))" for w
    using new_feed_users [of _ u ids]
    by (auto simp: replaced_feed_def filter_empty_conv intro: filter_cong)
  show "feed_join u (replaced_feed u ids d) = map (\<lambda>r. the (feed_row_join d r))
      (filter (\<lambda>r. article_live_in d (fr_article_id r)) (new_feed_rows u ids))"
    unfolding feed_join_eq [OF ok] u by (simp add: feed_row_join_iff [OF assms, simplified])
  show "w \<noteq> u \<Longrightarrow> feed_join w (replaced_feed u ids d) = feed_join w d"
    unfolding feed_join_eq [OF ok] feed_join_eq [OF assms] u by simp
qed

lemma feed_items:
  assumes "articles_ok d" "feed_row_join d r = Some j"
  shows "row_to_feed_item j = Inr (projr (row_to_feed_item j))"
    "feed_position j = fr_position r" "fst (projr (row_to_feed_item j)) = fr_position r"
    "as_id (snd (projr (row_to_feed_item j))) = fr_article_id r"
    "\<exists>art. article_get (fr_article_id r) d = Inr art \<and> a_summary art = snd (projr (row_to_feed_item j))"
  using feed_row_join_item [OF assms] by auto

subsection \<open>The follow feed\<close>

definition article_join :: "db \<Rightarrow> article_row \<Rightarrow> article_joined option" where
  "article_join d a = map_option (\<lambda>(l, v). (a, l, v)) (live_parts d (ar_id a))"

lemma fst_article_join: "article_join d a = Some j \<Longrightarrow> fst j = a"
  by (auto simp: article_join_def)

lemma article_join_item:
  assumes ok: "articles_ok d" and a: "a \<in> set (articles d)" and j: "article_join d a = Some j"
  shows "\<exists>art. row_to_follow_feed_item j = Inr (a_summary art) \<and> article_get (ar_id a) d = Inr art \<and>
    as_id (a_summary art) = ar_id a \<and> as_created_at (a_summary art) = ar_created_at a \<and> ar_state a = ''live''"
proof -
  have live: "ar_state a = ''live''"
  proof (rule ccontr)
    assume "ar_state a \<noteq> ''live''"
    from tomb_item [OF ok a this] have "lookup al_article_id (ar_id a) (articles_live d) = None"
      by blast
    with j show False
      by (simp add: article_join_def live_parts_def)
  qed
  from live_item [OF ok a this] obtain l v art where
    i: "live_parts d (ar_id a) = Some (l, v)" "article_get (ar_id a) d = Inr art"
      "joined_summary a l v = Inr (a_summary art)" "as_id (a_summary art) = ar_id a"
    by blast
  moreover have "as_created_at (projr (joined_summary a l v)) = ar_created_at a"
    using live by (simp add: joined_summary_def parse_state_def)
  with i(3) have "as_created_at (a_summary art) = ar_created_at a"
    by simp
  ultimately show ?thesis
    using j live by (auto simp: article_join_def row_to_follow_feed_item_def)
qed

lemma article_join_live:
  assumes "articles_ok d" "a \<in> set (articles d)"
  shows "article_join d a \<noteq> None \<longleftrightarrow> ar_state a = ''live''"
proof
  assume "ar_state a = ''live''"
  from live_item [OF assms this] obtain l v where "live_parts d (ar_id a) = Some (l, v)"
    by blast
  then show "article_join d a \<noteq> None"
    by (simp add: article_join_def)
qed (use article_join_item [OF assms] in blast)

lemma distinct_groups:
  assumes "distinct xs" "distinct (map k fs)"
  shows "distinct (concat (map (\<lambda>f. filter (\<lambda>a. P a \<and> c a = k f) xs) fs))"
  using assms(2)
proof (induction fs)
  case (Cons f fs)
  then show ?case
    using assms(1) by (auto simp: image_iff)
qed simp

text \<open>The articles a user's feed joins, one by one.\<close>

definition followed_articles :: "uuid \<Rightarrow> db \<Rightarrow> article_row list" where
  "followed_articles u d = concat (map (\<lambda>f. filter (\<lambda>a. article_join d a \<noteq> None \<and> ar_account_id a = fo_account_id f)
     (articles d)) (follows_by_user u False d))"

lemma follow_join_eq:
  assumes "articles_ok d"
  shows "follow_join u d = map (\<lambda>a. the (article_join d a)) (followed_articles u d)"
proof -
  have "concat (map (\<lambda>a. map (Pair a) (join_live d a)) (filter (\<lambda>a. ar_account_id a = k) (articles d))) =
      map (\<lambda>a. the (article_join d a)) (filter (\<lambda>a. article_join d a \<noteq> None) (filter (\<lambda>a. ar_account_id a = k) (articles d)))" for k
    by (rule concat_map_option) (auto simp: join_live_eq [OF assms] article_join_def split: option.splits)
  then show ?thesis
    unfolding follow_join_def concat_map_if followed_articles_def follows_by_user_def
    by (simp add: map_concat comp_def conj_commute del: not_None_eq)
qed

lemma followed_articles:
  assumes "articles_ok d" "follows_ok d"
  shows "distinct (followed_articles u d)" "set (followed_articles u d) \<subseteq> set (articles d)"
    "a \<in> set (followed_articles u d) \<longleftrightarrow>
       a \<in> set (articles d) \<and> ar_state a = ''live'' \<and> (u, ar_account_id a) \<in> following d"
proof -
  have "distinct (articles d)"
    using assms(1) by (auto simp: articles_ok_def pk_def distinct_map)
  then show "distinct (followed_articles u d)"
    unfolding followed_articles_def by (rule distinct_groups) (rule distinct_follow_rows(1) [OF assms(2)])
  show "set (followed_articles u d) \<subseteq> set (articles d)"
    by (auto simp: followed_articles_def)
  show "a \<in> set (followed_articles u d) \<longleftrightarrow>
       a \<in> set (articles d) \<and> ar_state a = ''live'' \<and> (u, ar_account_id a) \<in> following d"
    using article_join_live [OF assms(1), of a]
    by (auto simp: followed_articles_def following_rows [OF assms(2)] follows_by_user_def)
qed

lemma distinct_ids_keys:
  assumes "articles_ok d" "distinct rows" "set rows \<subseteq> set (articles d)"
  shows "distinct (map ar_id rows)" "length rows \<le> length (articles d)"
proof -
  have "inj_on ar_id (set (articles d))"
    using assms(1) by (simp add: articles_ok_def pk_def distinct_map)
  with assms(2,3) show "distinct (map ar_id rows)"
    by (simp add: distinct_map inj_on_subset)
  show "length rows \<le> length (articles d)"
    using card_mono [OF _ assms(3)] card_length [of "articles d"] assms(2) by (simp add: distinct_card)
qed

text \<open>
  A surface: rows \<open>a\<close> of some table, each joined to \<open>jn a\<close> and turned into an item \<open>g a\<close>.
  Its pages give the items of all rows, in key order.
\<close>

context keyset_order
begin

lemma walk_joined:
  assumes "cursor_codec enc dec" "0 < limit" "length rows < fuel" "distinct (map ident rows)"
    and h: "\<And>a. a \<in> set rows \<Longrightarrow> hydrate (jn a) = Inr (g a)"
    and "\<And>a. a \<in> set rows \<Longrightarrow> pick_ident (key (jn a)) = ident a"
    and "\<And>a. a \<in> set rows \<Longrightarrow> pick (g a) = key (jn a)"
  shows "\<exists>ss. walk (list_page enc dec key order after hydrate limit (map jn rows)) fuel [] = Some (Inr ss) \<and>
    mset ss = mset (map g rows) \<and> map pick ss = map key (order (map jn rows))"
proof -
  let ?g = "\<lambda>j. projr (hydrate j)"
  have g: "map ?g (map jn rows) = map g rows"
    using h by simp
  have "map pick_ident (map key (map jn rows)) = map ident rows"
    using assms(6) by simp
  then have dk: "distinct (map key (map jn rows))"
    using assms(4) distinct_map [of pick_ident] by metis
  have "walk (list_page enc dec key order after hydrate limit (map jn rows)) fuel [] =
      Some (Inr (map ?g (order (map jn rows))))"
    by (rule walk_complete [OF assms(1) dk assms(2)]) (use assms(3) h in auto)
  moreover have "mset (map ?g (order (map jn rows))) = mset (map g rows)"
    by (simp only: mset_map mset_order g [symmetric])
  moreover have "set (order (map jn rows)) = jn ` set rows"
    using mset_order [of "map jn rows"] by (metis list.set_map set_mset_mset)
  then have "map pick (map ?g (order (map jn rows))) = map key (order (map jn rows))"
    using assms(7) h by auto
  ultimately show ?thesis
    by blast
qed

end

text \<open>When the items carry the ids of the rows, no item comes twice.\<close>

lemma surface_ids:
  assumes "mset ss = mset (map g rows)" "list_all (\<lambda>a. as_id (g a) = ar_id a) rows" "distinct (map ar_id rows)"
  shows "distinct (map as_id ss)" "set (map as_id ss) = ar_id ` set rows" "set ss = g ` set rows"
proof -
  have "mset (map as_id ss) = mset (map as_id (map g rows))"
    by (simp only: mset_map assms(1))
  also have "map as_id (map g rows) = map ar_id rows"
    using assms(2) by (simp add: list_all_iff)
  finally have m: "mset (map as_id ss) = mset (map ar_id rows)" .
  show "distinct (map as_id ss)"
    using mset_eq_imp_distinct_iff [OF m] assms(3) by simp
  show "set (map as_id ss) = ar_id ` set rows"
    using mset_eq_setD [OF m] by simp
  show "set ss = g ` set rows"
    using mset_eq_setD [OF assms(1)] by simp
qed

lemma sorted_rev_desc: "sorted (rev (map key (order_desc key rows)))"
  by (simp add: order_desc_def rev_map)

subsection \<open>The account stream\<close>

definition stream_row :: "db \<Rightarrow> article_row \<Rightarrow> stream_joined" where
  "stream_row d a =
     (let l = lookup al_article_id (ar_id a) (articles_live d)
      in (a, l, lookup at_article_id (ar_id a) (articles_tombstone d),
          Option.bind l (\<lambda>l. lookup av_key (ar_id a, al_current_version l) (article_versions d))))"

lemma stream_join_eq:
  assumes "articles_ok d"
  shows "stream_join acc d = map (stream_row d) (filter (\<lambda>a. ar_account_id a = acc) (articles d))"
proof -
  have pk: "pk al_article_id (articles_live d)" "pk at_article_id (articles_tombstone d)" "pk av_key (article_versions d)"
    using assms by (simp_all add: articles_ok_def)
  have v: "left_join (\<lambda>v. av_article_id v = ar_id a \<and> Some (av_version v) = map_option al_current_version l)
      (article_versions d) = [Option.bind l (\<lambda>l. lookup av_key (ar_id a, al_current_version l) (article_versions d))]" for a l
  proof (cases l)
    case (Some l')
    then show ?thesis
      using left_join_pk [OF pk(3), of "(ar_id a, al_current_version l')"] by (simp add: av_key_def)
  qed (simp add: left_join_def)
  show ?thesis
    unfolding stream_join_def concat_map_if left_join_pk [OF pk(1)] left_join_pk [OF pk(2)] v
    by (simp add: stream_row_def Let_def concat_map_singleton)
qed

lemma stream_row_item:
  assumes ok: "articles_ok d" and a: "a \<in> set (articles d)"
  shows "\<exists>art. row_to_item (stream_row d a) = Inr (a_summary art) \<and> article_get (ar_id a) d = Inr art \<and>
    as_id (a_summary art) = ar_id a \<and>
    event_at (stream_row d a) = or_else (as_updated_at (a_summary art)) (as_tombstoned_at (a_summary art)) \<and>
    event_at (stream_row d a) \<noteq> None"
proof (cases "ar_state a = ''live''")
  case True
  from live_item [OF ok a True] obtain l v art where
    i: "live_parts d (ar_id a) = Some (l, v)" "article_get (ar_id a) d = Inr art"
      "joined_summary a l v = Inr (a_summary art)" "as_id (a_summary art) = ar_id a"
    by blast
  have l: "lookup al_article_id (ar_id a) (articles_live d) = Some l"
    "lookup av_key (ar_id a, al_current_version l) (article_versions d) = Some v"
    using i(1) by (auto simp: live_parts_def bind_eq_Some_conv)
  have s: "a_summary art = projr (joined_summary a l v)"
    using i(3) by simp
  show ?thesis
    using True i l
    by (intro exI [of _ art])
      (simp add: stream_row_def row_to_item_def event_at_def or_else_def s joined_summary_def parse_state_def)
next
  case False
  from tomb_item [OF ok a this] obtain t where
    t: "ar_state a = ''tombstone''" "lookup al_article_id (ar_id a) (articles_live d) = None"
    "lookup at_article_id (ar_id a) (articles_tombstone d) = Some t"
    "article_get (ar_id a) d = Inr \<lparr>a_summary = tombstone_summary a t, a_content = None\<rparr>"
    by blast
  then show ?thesis
    by (simp add: stream_row_def row_to_item_def event_at_def or_else_def parse_state_def tombstone_summary_def)
qed

lemma account_stream_eq:
  assumes "articles_ok d"
  shows "account_stream x acc n d = list_page (encode_cursor x ''e'') (decode_cursor x ''e'') stream_key
    (order_asc stream_key) (after_asc stream_key) row_to_item (nat (clamp_page_size n))
    (map (stream_row d) (filter (\<lambda>a. ar_account_id a = acc) (articles d)))"
proof -
  have "filter (\<lambda>j. event_at j \<noteq> None) (stream_join acc d) = stream_join acc d"
    unfolding stream_join_eq [OF assms] using stream_row_item [OF assms]
    by (auto simp: filter_id_conv simp del: not_None_eq)
  then show ?thesis
    by (intro ext) (simp add: account_stream_def stream_join_eq [OF assms] del: not_None_eq)
qed

lemma sorted_asc: "sorted (map key (order_asc key rows))"
  by (simp add: order_asc_def)

subsection \<open>Properties of the feeds\<close>

text \<open>C24. The recommendation feed is what the ranker last wrote: after a replacement the pages,
  walked to the end, give exactly the live ones of the given articles, in the given order
  and at the given positions, each as a read shows it; tombstoned and unknown ids are
  skipped, and nobody else's feed changes.
\<close>

theorem recommendation_feed_correct:
  assumes "articles_ok d" "pk fr_key (feed_recommendation d)" "feed_ext_ok x"
    and "lookup us_id u (users d) \<noteq> None" "length ids < 2 ^ 31" "length ids < fuel" "w \<noteq> u"
  shows "\<exists>d' items. feed_replace u ids d = (Inr (int (length ids)), d') \<and>
    walk (feed_get x u n d') fuel [] = Some (Inr items) \<and>
    map (\<lambda>(p, s). (p, as_id s)) items =
      filter (\<lambda>(p, aid). article_live_in d aid) (map (\<lambda>(i, aid). (int i, aid)) (enumerate 0 ids)) \<and>
    list_all (\<lambda>(p, s). \<exists>art. article_get (as_id s) d' = Inr art \<and> a_summary art = s) items \<and>
    feed_join w d' = feed_join w d \<and> pk fr_key (feed_recommendation d')"
proof -
  let ?d = "replaced_feed u ids d"
  let ?rows = "filter (\<lambda>r. article_live_in d (fr_article_id r)) (new_feed_rows u ids)"
  let ?J = "\<lambda>r. the (feed_row_join d r)"
  let ?g = "\<lambda>j. projr (row_to_feed_item j)"
  have J: "feed_row_join d r = Some (?J r)" if "r \<in> set ?rows" for r
    using that feed_row_join_iff [OF assms(1), of r] by auto
  note item = feed_items [OF assms(1) J]
  have pos: "map feed_position (map ?J ?rows) = map fr_position ?rows"
    using item(2) by simp
  have "sorted (map fr_position (new_feed_rows u ids))" "distinct (map fr_position (new_feed_rows u ids))"
    by (simp_all add: new_feed_positions [OF assms(5)] distinct_map sorted_map)
  then have sd: "sorted (map feed_position (map ?J ?rows))" "distinct (map feed_position (map ?J ?rows))"
    unfolding pos by (simp_all add: sorted_filter distinct_map_filter)
  have jn: "feed_join u ?d = map ?J ?rows"
    by (rule replaced_feed_join(1) [OF assms(1)])
  have len: "length (map ?J ?rows) < fuel"
    using assms(6) length_filter_le [of _ "new_feed_rows u ids"]
    by (auto simp: new_feed_rows_def intro: le_less_trans)
  have "walk (feed_get x u n ?d) fuel [] = Some (Inr (map ?g (order_asc feed_position (map ?J ?rows))))"
    unfolding feed_get_def jn
    by (rule position.walk_complete [OF position_codec [OF assms(3)] sd(2) clamp_page_size_pos _ len])
      (use item(1) in auto)
  then have w: "walk (feed_get x u n ?d) fuel [] = Some (Inr (map ?g (map ?J ?rows)))"
    using sd(1) by (simp only: order_asc_def sort_key_id_if_sorted)
  have "map (\<lambda>(p, s). (p, as_id s)) (map ?g (map ?J ?rows)) = map (\<lambda>r. (fr_position r, fr_article_id r)) ?rows"
    using item(3,4) by (auto simp: case_prod_beta)
  also have "\<dots> = filter (\<lambda>(p, aid). article_live_in d aid) (map (\<lambda>(i, aid). (int i, aid)) (enumerate 0 ids))"
    by (simp add: new_feed_rows_alt [OF assms(5)] filter_map comp_def case_prod_beta)
  finally have ids: "map (\<lambda>(p, s). (p, as_id s)) (map ?g (map ?J ?rows)) = \<dots>" .
  have get: "list_all (\<lambda>(p, s). \<exists>art. article_get (as_id s) ?d = Inr art \<and> a_summary art = s) (map ?g (map ?J ?rows))"
    using item(4,5) same_articles_cong(3) [OF replaced_feed_frame(1)]
    by (auto simp: list_all_iff case_prod_beta)
  show ?thesis
    using feed_replace_eq [OF assms(2,5,4)] w ids get replaced_feed_join(2) [OF assms(1,7)]
      replaced_feed_pk [OF assms(2,5)]
    by blast
qed

text \<open>C25. The follow feed is the live articles of the followed accounts: walking its pages gives
  each of them exactly once and nothing else, newest first, each as a read shows it.
\<close>

theorem follow_feed_correct:
  assumes "articles_ok d" "follows_ok d" "page_ext_ok x" "length (articles d) < fuel"
  shows "\<exists>ss. walk (follow_feed_get x u n d) fuel [] = Some (Inr ss) \<and> distinct (map as_id ss) \<and>
    set (map as_id ss) = {ar_id a |a. a \<in> set (articles d) \<and> ar_state a = ''live'' \<and> (u, ar_account_id a) \<in> following d} \<and>
    sorted (rev (map (\<lambda>s. (as_created_at s, as_id s)) ss)) \<and>
    list_all (\<lambda>s. \<exists>art. article_get (as_id s) d = Inr art \<and> a_summary art = s) ss"
proof -
  let ?rows = "followed_articles u d"
  let ?J = "\<lambda>a. the (article_join d a)"
  let ?g = "\<lambda>a. projr (row_to_follow_feed_item (?J a))"
  note rows = followed_articles [OF assms(1,2), where u = u]
  note ids = distinct_ids_keys [OF assms(1) rows(1,2)]
  have item: "row_to_follow_feed_item (?J a) = Inr (?g a)" "as_id (?g a) = ar_id a"
    "(as_created_at (?g a), as_id (?g a)) = joined_key (?J a)" "snd (joined_key (?J a)) = ar_id a"
    "\<exists>art. article_get (ar_id a) d = Inr art \<and> a_summary art = ?g a" if "a \<in> set ?rows" for a
  proof -
    have m: "a \<in> set (articles d)" "article_join d a = Some (?J a)"
      using that rows(2) article_join_live [OF assms(1), of a] rows(3) [where a = a] by auto
    show "row_to_follow_feed_item (?J a) = Inr (?g a)" "as_id (?g a) = ar_id a"
      "(as_created_at (?g a), as_id (?g a)) = joined_key (?J a)" "snd (joined_key (?J a)) = ar_id a"
      "\<exists>art. article_get (ar_id a) d = Inr art \<and> a_summary art = ?g a"
      using article_join_item [OF assms(1) m] fst_article_join [OF m(2)] by (auto simp: joined_key_def)
  qed
  have "length ?rows < fuel"
    using ids(2) assms(4) by simp
  from desc.walk_joined [where jn = ?J and g = ?g and pick = "\<lambda>s. (as_created_at s, as_id s)" and pick_ident = snd,
      OF cursor_codec_page_ext [OF assms(3)] clamp_page_size_pos this ids(1) item(1,4,3)]
  obtain ss where w: "walk (follow_feed_get x u n d) fuel [] = Some (Inr ss)" "mset ss = mset (map ?g ?rows)"
    "map (\<lambda>s. (as_created_at s, as_id s)) ss = map joined_key (order_desc joined_key (map ?J ?rows))"
    unfolding follow_feed_get_def follow_join_eq [OF assms(1)] by blast
  have "list_all (\<lambda>a. as_id (?g a) = ar_id a) ?rows"
    using item(2) by (simp add: list_all_iff)
  note ss = surface_ids [OF w(2) this ids(1)]
  have "ar_id ` set ?rows = {ar_id a |a. a \<in> set (articles d) \<and> ar_state a = ''live'' \<and> (u, ar_account_id a) \<in> following d}"
    using rows(3) by (auto simp: image_iff)
  with ss(2) have "set (map as_id ss) =
      {ar_id a |a. a \<in> set (articles d) \<and> ar_state a = ''live'' \<and> (u, ar_account_id a) \<in> following d}"
    by (rule trans)
  moreover have "list_all (\<lambda>s. \<exists>art. article_get (as_id s) d = Inr art \<and> a_summary art = s) ss"
    using item(2,5) by (auto simp: list_all_iff ss(3))
  moreover have "sorted (rev (map (\<lambda>s. (as_created_at s, as_id s)) ss))"
    unfolding w(3) by (rule sorted_rev_desc)
  ultimately show ?thesis
    by (intro exI [of _ ss] conjI w(1) ss(1))
qed

text \<open>The account stream is every article of the account, tombstones included: walking its
  pages gives each exactly once, in the order of its last change (the update of a live
  article, the tombstoning of the others), each as a read shows it.
\<close>

theorem account_stream_correct:
  assumes "articles_ok d" "page_ext_ok x" "length (articles d) < fuel"
  shows "\<exists>ss. walk (account_stream x acc n d) fuel [] = Some (Inr ss) \<and> distinct (map as_id ss) \<and>
    set (map as_id ss) = {ar_id a |a. a \<in> set (articles d) \<and> ar_account_id a = acc} \<and>
    sorted (map (\<lambda>s. (unwrap_or 0 (or_else (as_updated_at s) (as_tombstoned_at s)), as_id s)) ss) \<and>
    list_all (\<lambda>s. \<exists>art. article_get (as_id s) d = Inr art \<and> a_summary art = s) ss"
proof -
  let ?rows = "filter (\<lambda>a. ar_account_id a = acc) (articles d)"
  let ?g = "\<lambda>a. projr (row_to_item (stream_row d a))"
  let ?pick = "\<lambda>s. (unwrap_or 0 (or_else (as_updated_at s) (as_tombstoned_at s)), as_id s)"
  have item: "row_to_item (stream_row d a) = Inr (?g a)" "as_id (?g a) = ar_id a"
    "?pick (?g a) = stream_key (stream_row d a)" "snd (stream_key (stream_row d a)) = ar_id a"
    "\<exists>art. article_get (ar_id a) d = Inr art \<and> a_summary art = ?g a" if "a \<in> set ?rows" for a
  proof -
    have m: "a \<in> set (articles d)"
      using that by simp
    show "row_to_item (stream_row d a) = Inr (?g a)" "as_id (?g a) = ar_id a"
      "?pick (?g a) = stream_key (stream_row d a)" "snd (stream_key (stream_row d a)) = ar_id a"
      "\<exists>art. article_get (ar_id a) d = Inr art \<and> a_summary art = ?g a"
      using stream_row_item [OF assms(1) m] by (auto simp: stream_key_def stream_row_def Let_def)
  qed
  have "distinct ?rows"
    using assms(1) by (auto simp: articles_ok_def pk_def distinct_map)
  then have ids: "distinct (map ar_id ?rows)"
    by (intro distinct_ids_keys [OF assms(1)]) auto
  have "length ?rows < fuel"
    using assms(3) le_less_trans [OF length_filter_le] by blast
  from asc.walk_joined [where jn = "stream_row d" and g = ?g and pick = ?pick and pick_ident = snd,
      OF cursor_codec_page_ext [OF assms(2)] clamp_page_size_pos this ids item(1,4,3)]
  obtain ss where w: "walk (account_stream x acc n d) fuel [] = Some (Inr ss)" "mset ss = mset (map ?g ?rows)"
    "map ?pick ss = map stream_key (order_asc stream_key (map (stream_row d) ?rows))"
    unfolding account_stream_eq [OF assms(1)] by blast
  have "list_all (\<lambda>a. as_id (?g a) = ar_id a) ?rows"
    using item(2) by (simp add: list_all_iff)
  note ss = surface_ids [OF w(2) this ids]
  have "ar_id ` set ?rows = {ar_id a |a. a \<in> set (articles d) \<and> ar_account_id a = acc}"
    by auto
  with ss(2) have "set (map as_id ss) = {ar_id a |a. a \<in> set (articles d) \<and> ar_account_id a = acc}"
    by (rule trans)
  moreover have "list_all (\<lambda>s. \<exists>art. article_get (as_id s) d = Inr art \<and> a_summary art = s) ss"
    using item(2,5) by (auto simp: list_all_iff ss(3))
  moreover have "sorted (map ?pick ss)"
    unfolding w(3) by (rule sorted_asc)
  ultimately show ?thesis
    by (intro exI [of _ ss] conjI w(1) ss(1))
qed

subsection \<open>Witnesses\<close>

definition demo_feed_db :: db where
  "demo_feed_db = demo_db\<lparr>
     users := [\<lparr>us_id = 4, us_display_name = None, us_status = ''active'', us_deleted_at = None, us_created_at = 0\<rparr>],
     follows := [\<lparr>fo_user_id = 4, fo_account_id = 1, fo_status = ''active'', fo_created_at = 0,
       fo_unfollowed_at = None\<rparr>]\<rparr>"

definition demo_feed :: feed_ext where
  "demo_feed = \<lparr>fx_page = demo_page,
     fx_pos_ser = (\<lambda>p. CHR ''p'' # replicate (nat \<bar>p\<bar>) (if p < 0 then CHR ''b'' else CHR ''t'')),
     fx_pos_de = (\<lambda>s. Inr (if CHR ''b'' \<in> set (tl s) then - int (length (tl s)) else int (length (tl s))))\<rparr>"

lemma demo_feed_ok: "feed_ext_ok demo_feed"
  using demo_page_ok by (auto simp: feed_ext_ok_def demo_feed_def)

lemma demo_feed_db_tables:
  "articles demo_feed_db = [\<lparr>ar_id = 10, ar_account_id = 1, ar_state = ''live'', ar_created_at = 5\<rparr>]"
  "feed_recommendation demo_feed_db = []" "accounts demo_feed_db = [demo_account]"
  by (simp_all add: demo_feed_db_def demo_db_def article_publish_def transaction_def publish_tx_def
      demo_new_def demo_db0_def empty_db_def demo_account_def insert_article_def
      insert_article_live_def insert_article_version_def insert_checked_def)

lemma demo_feed_db_ok: "articles_ok demo_feed_db" "follows_ok demo_feed_db" "(4, 1) \<in> following demo_feed_db"
proof -
  have "same_articles demo_db demo_feed_db"
    by (simp add: same_articles_def demo_feed_db_def)
  from same_articles_cong(1) [OF this] demo_db_facts(1) show "articles_ok demo_feed_db"
    by simp
  show "follows_ok demo_feed_db" "(4, 1) \<in> following demo_feed_db"
    using demo_feed_db_tables(3)
    by (simp_all add: follows_ok_def following_def demo_feed_db_def demo_account_def pk_def lookup_Cons fo_key_def)
qed

theorem recommendation_feed_correct_witness:
  "\<exists>d' items. feed_replace 4 [12, 10] demo_feed_db = (Inr 2, d') \<and>
     walk (feed_get demo_feed 4 1 d') 3 [] = Some (Inr items) \<and> map (\<lambda>(p, s). (p, as_id s)) items = [(1, 10)]"
proof -
  have "lookup us_id 4 (users demo_feed_db) \<noteq> None"
    by (simp add: demo_feed_db_def lookup_Cons)
  moreover have "pk fr_key (feed_recommendation demo_feed_db)"
    by (simp add: demo_feed_db_tables pk_def)
  ultimately show ?thesis
    using recommendation_feed_correct [OF demo_feed_db_ok(1) _ demo_feed_ok, of 4 "[12, 10]" 3 5 1]
    by (auto simp: article_live_in_def demo_feed_db_tables lookup_Cons)
qed

theorem follow_feed_correct_witness:
  "\<exists>ss. walk (follow_feed_get demo_page 4 1 demo_feed_db) 2 [] = Some (Inr ss) \<and> set (map as_id ss) = {10}"
proof -
  have "{ar_id a |a. a \<in> set (articles demo_feed_db) \<and> ar_state a = ''live'' \<and>
      (4, ar_account_id a) \<in> following demo_feed_db} = {10}"
    using demo_feed_db_ok(3) by (auto simp: demo_feed_db_tables)
  then show ?thesis
    using follow_feed_correct [OF demo_feed_db_ok(1,2) demo_page_ok, of 2 4 1]
    by (auto simp: demo_feed_db_tables)
qed

theorem account_stream_correct_witness:
  "\<exists>ss. walk (account_stream demo_page 1 1 demo_feed_db) 2 [] = Some (Inr ss) \<and> set (map as_id ss) = {10}"
proof -
  have "{ar_id a |a. a \<in> set (articles demo_feed_db) \<and> ar_account_id a = 1} = {10}"
    by (auto simp: demo_feed_db_tables)
  then show ?thesis
    using account_stream_correct [OF demo_feed_db_ok(1) demo_page_ok, of 2 1 1]
    by (auto simp: demo_feed_db_tables)
qed

end
