(* ===== verification/Event.thy ===== *)
theory Event
  imports Article_Service
begin

text \<open>
  Behavioural events: the append-only \<open>events\<close> table (\<open>headlines-store/src/repo/events.rs\<close>)
  and the event service (\<open>headlines-api/src/services/event.rs\<close>). Shown: which events are
  accepted, that a batch is stored whole or not at all and answered in the order of the
  request, that what is read back is what was sent, and that a listing gives every matching
  event once.
\<close>

subsection \<open>Time\<close>

text \<open>
  An instant of \<open>chrono\<close> is a pair of seconds and nanoseconds, compared in this order. Which
  pairs it accepts, and the microseconds that the driver stores for one, are the crates'.
\<close>

type_synonym instant = "int \<times> int"

record event_ext =
  ee_svc :: svc_ext
  ee_in_range :: "int \<Rightarrow> int \<Rightarrow> bool"
  ee_micros :: "instant \<Rightarrow> timestamp"

definition proto_to_chrono :: "event_ext \<Rightarrow> int \<times> int \<Rightarrow> instant option" where
  "proto_to_chrono x t =
     (let nanos = snd t mod 2 ^ 32 in if ee_in_range x (fst t) nanos then Some (fst t, nanos) else None)"

definition tso_now :: "event_ext \<Rightarrow> string + tso \<Rightarrow> instant res" where
  "tso_now x now =
     try_res (map_err (\<lambda>e. Internal (''time source: '' @ e)) now) (\<lambda>tso.
     let ms = int (unat (physical_ms tso)); secs = ms div 1000; nanos = ms mod 1000 * 1000000
     in if ee_in_range x secs nanos then Inr (secs, nanos)
        else Inl (Internal ''TSO physical_ms out of range''))"

subsection \<open>The repository\<close>

record event_record =
  er_user_id :: uuid
  er_article_id :: "uuid option"
  er_type :: string
  er_occurred_at :: instant
  er_surface :: string
  er_properties :: json

definition event_types :: "string list" where
  "event_types = [''IMPRESSION'', ''OPEN'', ''DWELL'', ''LIKE'', ''UNLIKE'', ''SHARE'']"

definition new_event_row :: "event_ext \<Rightarrow> timestamp \<Rightarrow> uuid \<Rightarrow> event_record \<Rightarrow> event_row" where
  "new_event_row x received_at i r = \<lparr>ev_id = i, ev_user_id = er_user_id r, ev_article_id = er_article_id r,
     ev_type = er_type r, ev_occurred_at = ee_micros x (er_occurred_at r), ev_received_at = received_at,
     ev_surface = er_surface r, ev_properties = er_properties r\<rparr>"

text \<open>One \<open>INSERT\<close> of one or several rows: all or none. The table checks its type column.\<close>

definition insert_events :: "string \<Rightarrow> event_row list \<Rightarrow> db \<Rightarrow> headlines_error + db" where
  "insert_events ctx rows d =
     (if list_all (\<lambda>r. ev_type r \<in> set event_types) rows \<and> distinct (map ev_id rows) \<and>
         list_all (\<lambda>r. lookup ev_id (ev_id r) (events d) = None) rows
      then Inr (d\<lparr>events := events d @ rows\<rparr>) else Inl (Internal ctx))"

definition event_record_op ::
  "event_ext \<Rightarrow> timestamp \<Rightarrow> uuid \<Rightarrow> event_record \<Rightarrow> db \<Rightarrow> event_row res \<times> db" where
  "event_record_op x received_at i r d =
     (let row = new_event_row x received_at i r
      in case insert_events ''insert event'' [row] d of
           Inl e \<Rightarrow> (Inl e, d)
         | Inr d' \<Rightarrow> (Inr row, d'))"

definition record_batch ::
  "event_ext \<Rightarrow> timestamp \<Rightarrow> uuid list \<Rightarrow> event_record list \<Rightarrow> db \<Rightarrow> event_row list res \<times> db" where
  "record_batch x now ids records d =
     (if records = [] then (Inr [], d)
      else let rows = map (\<lambda>(r, i). new_event_row x now i r) (zip records ids)
           in case insert_events ''insert event batch'' rows d of
                Inl e \<Rightarrow> (Inl e, d)
              | Inr d' \<Rightarrow> (Inr rows, d'))"

record list_events_filter =
  ef_user_id :: "uuid option"
  ef_article_id :: "uuid option"
  ef_types :: "string list"
  ef_received_after :: "timestamp option"
  ef_received_before :: "timestamp option"

definition event_matches :: "list_events_filter \<Rightarrow> event_row \<Rightarrow> bool" where
  "event_matches f r \<longleftrightarrow>
     (case ef_user_id f of None \<Rightarrow> True | Some u \<Rightarrow> ev_user_id r = u) \<and>
     (case ef_article_id f of None \<Rightarrow> True | Some a \<Rightarrow> ev_article_id r = Some a) \<and>
     (ef_types f \<noteq> [] \<longrightarrow> ev_type r \<in> set (ef_types f)) \<and>
     (case ef_received_after f of None \<Rightarrow> True | Some t \<Rightarrow> ev_received_at r \<ge> t) \<and>
     (case ef_received_before f of None \<Rightarrow> True | Some t \<Rightarrow> ev_received_at r < t)"

definition event_key :: "event_row \<Rightarrow> timestamp \<times> uuid" where
  "event_key r = (ev_received_at r, ev_id r)"

definition event_list ::
  "page_ext \<Rightarrow> list_events_filter \<Rightarrow> int \<Rightarrow> db \<Rightarrow> string \<Rightarrow> headlines_error + (event_row list \<times> string)" where
  "event_list x f page_size d =
     list_page (encode_cursor x ''r'') (decode_cursor x ''r'') event_key (order_asc event_key)
       (after_asc event_key) Inr (nat (clamp_page_size page_size)) (filter (event_matches f) (events d))"

subsection \<open>Validation\<close>

datatype event_properties =
    Impression string int
  | OpenProps string int
  | Dwell int
  | Like
  | Unlike
  | Share string

record event_req =
  eq_user_id :: string
  eq_article_id :: string
  eq_type :: int
  eq_occurred_at :: "(int \<times> int) option"
  eq_surface :: string
  eq_properties :: "event_properties option"

definition event_type_string :: "int \<Rightarrow> string res" where
  "event_type_string t =
     (if 1 \<le> t \<and> t \<le> 6 then Inr (event_types ! nat (t - 1))
      else Inl (InvalidArgument ''type'' ''must not be EVENT_TYPE_UNSPECIFIED''))"

definition event_type_from_string :: "string \<Rightarrow> int" where
  "event_type_from_string s =
     (if s = ''IMPRESSION'' then 1 else if s = ''OPEN'' then 2 else if s = ''DWELL'' then 3
      else if s = ''LIKE'' then 4 else if s = ''UNLIKE'' then 5 else if s = ''SHARE'' then 6 else 0)"

definition surface_char :: "char \<Rightarrow> bool" where
  "surface_char c \<longleftrightarrow>
     (let n = (of_char c :: nat) in 97 \<le> n \<and> n \<le> 122 \<or> 48 \<le> n \<and> n \<le> 57 \<or> c = CHR ''_'' \<or> c = CHR ''-'')"

definition validate_surface :: "string \<Rightarrow> unit res" where
  "validate_surface s =
     (if s = [] then Inl (InvalidArgument ''surface'' ''must not be empty'')
      else if chars_count s > 32 then Inl (InvalidArgument ''surface'' ''must be <=32 chars'')
      else if \<not> list_all surface_char s then Inl (InvalidArgument ''surface'' ''contains disallowed char'')
      else Inr ())"

definition FEED_KINDS :: "string list" where
  "FEED_KINDS = [''recommendation'', ''follow'', ''account'', ''direct'']"

definition validate_feed_kind :: "string \<Rightarrow> unit res" where
  "validate_feed_kind s =
     (if s \<in> set FEED_KINDS then Inr ()
      else Inl (InvalidArgument ''feed_kind'' ''must be one of the feed kinds''))"

definition validate_position :: "int \<Rightarrow> unit res" where
  "validate_position p = (if p < 0 then Inl (InvalidArgument ''position'' ''must be >= 0'') else Inr ())"

definition validate_dwell_ms :: "int \<Rightarrow> unit res" where
  "validate_dwell_ms ms =
     (if \<not> (0 \<le> ms \<and> ms \<le> 86400000) then Inl (InvalidArgument ''dwell_ms'' ''must be in [0, 86400000]'')
      else Inr ())"

definition validate_share_target :: "string \<Rightarrow> unit res" where
  "validate_share_target t =
     (if t = [] then Inl (InvalidArgument ''target'' ''must not be empty'')
      else if chars_count t > 32 then Inl (InvalidArgument ''target'' ''must be <=32 chars'')
      else Inr ())"

definition properties_selector_name :: "event_properties option \<Rightarrow> string" where
  "properties_selector_name p =
     (case p of None \<Rightarrow> ''<unset>'' | Some (Impression _ _) \<Rightarrow> ''impression'' | Some (OpenProps _ _) \<Rightarrow> ''open''
      | Some (Dwell _) \<Rightarrow> ''dwell'' | Some Like \<Rightarrow> ''like'' | Some Unlike \<Rightarrow> ''unlike'' | Some (Share _) \<Rightarrow> ''share'')"

definition feed_json :: "string \<Rightarrow> int \<Rightarrow> json res" where
  "feed_json kind pos =
     try_res (validate_feed_kind kind) (\<lambda>_.
     try_res (validate_position pos) (\<lambda>_.
     Inr (JObj [(''feed_kind'', JStr kind), (''position'', JNum pos)])))"

definition validate_properties_for_type :: "string \<Rightarrow> event_properties option \<Rightarrow> json res" where
  "validate_properties_for_type ty p =
     (let mismatch = Inl (EventTypeMismatch ty (properties_selector_name p)) in
      case p of
        Some (Impression kind pos) \<Rightarrow> if ty = ''IMPRESSION'' then feed_json kind pos else mismatch
      | Some (OpenProps kind pos) \<Rightarrow> if ty = ''OPEN'' then feed_json kind pos else mismatch
      | Some (Dwell ms) \<Rightarrow>
          if ty = ''DWELL'' then try_res (validate_dwell_ms ms) (\<lambda>_. Inr (JObj [(''dwell_ms'', JNum ms)]))
          else mismatch
      | Some Like \<Rightarrow> if ty = ''LIKE'' then Inr (JObj []) else mismatch
      | Some Unlike \<Rightarrow> if ty = ''UNLIKE'' then Inr (JObj []) else mismatch
      | Some (Share target) \<Rightarrow>
          if ty = ''SHARE'' then try_res (validate_share_target target) (\<lambda>_. Inr (JObj [(''target'', JStr target)]))
          else mismatch
      | None \<Rightarrow> mismatch)"

text \<open>The window \<open>[now - 24h, now + 60s]\<close>; the error carries the instant in nanoseconds.\<close>

definition validate_occurred_at :: "instant \<Rightarrow> instant \<Rightarrow> unit res" where
  "validate_occurred_at occurred_at now =
     (let lower = (fst now - 24 * 3600, snd now); upper = (fst now + 60, snd now)
      in if occurred_at < lower \<or> occurred_at > upper
         then Inl (EventTimestampOutOfRange (fst occurred_at * 1000000000 + snd occurred_at))
         else Inr ())"

definition prepare_event :: "event_ext \<Rightarrow> event_req \<Rightarrow> subject \<Rightarrow> instant \<Rightarrow> event_record res" where
  "prepare_event x req subj now =
     try_res (parse_uuid (ee_svc x) ''user_id'' (eq_user_id req)) (\<lambda>user.
     try_res (parse_uuid (ee_svc x) ''article_id'' (eq_article_id req)) (\<lambda>art.
     try_res (event_type_string (eq_type req)) (\<lambda>ty.
     try_res (ok_or (InvalidArgument ''occurred_at'' ''missing or malformed'')
         (Option.bind (eq_occurred_at req) (proto_to_chrono x))) (\<lambda>occurred_at.
     try_res (validate_occurred_at occurred_at now) (\<lambda>_.
     try_res (validate_surface (eq_surface req)) (\<lambda>_.
     try_res (validate_properties_for_type ty (eq_properties req)) (\<lambda>props.
     try_res (case subj of
           User subject_user _ \<Rightarrow>
             if user \<noteq> subject_user then Inl (UnauthorizedUserId subject_user user) else Inr ()
         | _ \<Rightarrow> Inr ()) (\<lambda>_.
     Inr \<lparr>er_user_id = user, er_article_id = Some art, er_type = ty, er_occurred_at = occurred_at,
          er_surface = eq_surface req, er_properties = props\<rparr>))))))))"

subsection \<open>Messages\<close>

record event_msg =
  em_id :: string
  em_user_id :: string
  em_article_id :: string
  em_type :: int
  em_occurred_at :: "(int \<times> int) option"
  em_received_at :: "(int \<times> int) option"
  em_surface :: string
  em_properties :: "event_properties option"

definition json_get :: "string \<Rightarrow> json \<Rightarrow> json option" where
  "json_get k j = Option.bind (as_object j) (\<lambda>obj. map_of obj k)"

definition as_i64 :: "json \<Rightarrow> int option" where
  "as_i64 j = (case j of JNum n \<Rightarrow> if - (2 ^ 63) \<le> n \<and> n < 2 ^ 63 then Some n else None | _ \<Rightarrow> None)"

definition parse_feed_kind_and_position :: "json \<Rightarrow> (string \<times> int) res" where
  "parse_feed_kind_and_position j =
     try_res (ok_or (Internal ''stored event missing feed_kind'') (Option.bind (json_get ''feed_kind'' j) as_str)) (\<lambda>kind.
     try_res (ok_or (Internal ''stored event missing position'')
         (map_option wrap_i32 (Option.bind (json_get ''position'' j) as_i64))) (\<lambda>pos.
     Inr (kind, pos)))"

definition stored_properties :: "string \<Rightarrow> json \<Rightarrow> event_properties res" where
  "stored_properties ty j =
     (if ty = ''IMPRESSION'' then
        try_res (parse_feed_kind_and_position j) (\<lambda>(kind, pos). Inr (Impression kind pos))
      else if ty = ''OPEN'' then
        try_res (parse_feed_kind_and_position j) (\<lambda>(kind, pos). Inr (OpenProps kind pos))
      else if ty = ''DWELL'' then
        try_res (ok_or (Internal ''stored DWELL event missing dwell_ms'') (Option.bind (json_get ''dwell_ms'' j) as_i64))
          (\<lambda>ms. Inr (Dwell ms))
      else if ty = ''LIKE'' then Inr Like
      else if ty = ''UNLIKE'' then Inr Unlike
      else if ty = ''SHARE'' then
        try_res (ok_or (Internal ''stored SHARE event missing target'') (Option.bind (json_get ''target'' j) as_str))
          (\<lambda>target. Inr (Share target))
      else Inl (Internal (''stored event has unknown type: '' @ ty)))"

definition event_to_proto :: "svc_ext \<Rightarrow> event_row \<Rightarrow> event_msg res" where
  "event_to_proto x e =
     try_res (stored_properties (ev_type e) (ev_properties e)) (\<lambda>props.
     Inr \<lparr>em_id = uuid_show (sx_text x) (ev_id e), em_user_id = uuid_show (sx_text x) (ev_user_id e),
       em_article_id = unwrap_or [] (map_option (uuid_show (sx_text x)) (ev_article_id e)),
       em_type = event_type_from_string (ev_type e), em_occurred_at = Some (ts_to_proto (ev_occurred_at e)),
       em_received_at = Some (ts_to_proto (ev_received_at e)), em_surface = ev_surface e,
       em_properties = Some props\<rparr>)"

subsection \<open>The service\<close>

definition is_authorized_writer :: "subject \<Rightarrow> bool" where
  "is_authorized_writer subj =
     (case subj of User _ _ \<Rightarrow> True | System _ _ _ \<Rightarrow> has_scope subj ''events.write'' | _ \<Rightarrow> False)"

definition record_event ::
  "event_ext \<Rightarrow> string + tso \<Rightarrow> timestamp \<Rightarrow> uuid \<Rightarrow> subject \<Rightarrow> event_req \<Rightarrow> db \<Rightarrow> event_msg rpc \<times> db" where
  "record_event x now received_at i subj req d =
     (if \<not> is_authorized_writer subj then (Inl (Denied ''events.write required''), d)
      else try_st (dom_res (tso_now x now)) d (\<lambda>now_chrono.
      try_st (dom_res (prepare_event x req subj now_chrono)) d (\<lambda>prepared.
      let (r, d') = event_record_op x received_at i prepared d
      in try_st (dom_res r) d' (\<lambda>stored.
         try_st (dom_res (event_to_proto (ee_svc x) stored)) d' (\<lambda>proto. (Inr proto, d'))))))"

definition record_event_batch ::
  "event_ext \<Rightarrow> nat \<Rightarrow> string + tso \<Rightarrow> timestamp \<Rightarrow> uuid list \<Rightarrow> subject \<Rightarrow> event_req list \<Rightarrow> db \<Rightarrow>
   (event_msg list \<times> int) rpc \<times> db" where
  "record_event_batch x batch_max_items now received_at ids subj reqs d =
     (if \<not> is_authorized_writer subj then (Inl (Denied ''events.write required''), d)
      else if reqs = [] then
        (Inl (Domain (InvalidArgument ''events'' ''must contain at least one event'')), d)
      else if length reqs > batch_max_items then
        (Inl (Domain (BatchTooLarge (length reqs) batch_max_items)), d)
      else try_st (dom_res (tso_now x now)) d (\<lambda>now_chrono.
      try_st (dom_res (map_res (\<lambda>req. prepare_event x req subj now_chrono) reqs)) d (\<lambda>prepared.
      let (r, d') = record_batch x received_at ids prepared d
      in try_st (dom_res r) d' (\<lambda>stored.
         let stored_count = wrap_i32 (int (length stored))
         in try_st (dom_res (map_res (event_to_proto (ee_svc x)) stored)) d' (\<lambda>recorded.
            (Inr (recorded, stored_count), d'))))))"

record list_events_req =
  lq_user_id :: string
  lq_article_id :: string
  lq_types :: "int list"
  lq_received_after :: "(int \<times> int) option"
  lq_received_before :: "(int \<times> int) option"
  lq_page_size :: int
  lq_page_token :: string

definition optional_uuid :: "svc_ext \<Rightarrow> string \<Rightarrow> string \<Rightarrow> uuid option res" where
  "optional_uuid x fld raw = (if raw = [] then Inr None else try_res (parse_uuid x fld raw) (\<lambda>i. Inr (Some i)))"

definition event_filter :: "event_ext \<Rightarrow> list_events_req \<Rightarrow> list_events_filter res" where
  "event_filter x req =
     try_res (optional_uuid (ee_svc x) ''user_id'' (lq_user_id req)) (\<lambda>user.
     try_res (optional_uuid (ee_svc x) ''article_id'' (lq_article_id req)) (\<lambda>art.
     try_res (map_res event_type_string (lq_types req)) (\<lambda>types.
     Inr \<lparr>ef_user_id = user, ef_article_id = art, ef_types = types,
       ef_received_after = map_option (ee_micros x) (Option.bind (lq_received_after req) (proto_to_chrono x)),
       ef_received_before = map_option (ee_micros x) (Option.bind (lq_received_before req) (proto_to_chrono x))\<rparr>)))"

definition list_events ::
  "event_ext \<Rightarrow> page_ext \<Rightarrow> subject \<Rightarrow> list_events_req \<Rightarrow> db \<Rightarrow> (event_msg list \<times> string) rpc" where
  "list_events x px subj req d =
     (if \<not> (case subj of System _ _ _ \<Rightarrow> has_scope subj ''events.read'' | _ \<Rightarrow> False)
      then Inl (Denied ''events.read required'')
      else try_res (dom_res (event_filter x req)) (\<lambda>f.
      try_res (dom_res (event_list px f (lq_page_size req) d (lq_page_token req))) (\<lambda>(rows, token).
      try_res (dom_res (map_res (event_to_proto (ee_svc x)) rows)) (\<lambda>items.
      Inr (items, token)))))"

subsection \<open>What is accepted\<close>

fun properties_type :: "event_properties \<Rightarrow> int" where
  "properties_type (Impression _ _) = 1"
| "properties_type (OpenProps _ _) = 2"
| "properties_type (Dwell _) = 3"
| "properties_type Like = 4"
| "properties_type Unlike = 5"
| "properties_type (Share _) = 6"

fun properties_valid :: "event_properties \<Rightarrow> bool" where
  "properties_valid (Impression kind pos) \<longleftrightarrow> kind \<in> set FEED_KINDS \<and> 0 \<le> pos"
| "properties_valid (OpenProps kind pos) \<longleftrightarrow> kind \<in> set FEED_KINDS \<and> 0 \<le> pos"
| "properties_valid (Dwell ms) \<longleftrightarrow> 0 \<le> ms \<and> ms \<le> 24 * 60 * 60 * 1000"
| "properties_valid Like \<longleftrightarrow> True"
| "properties_valid Unlike \<longleftrightarrow> True"
| "properties_valid (Share target) \<longleftrightarrow> target \<noteq> [] \<and> chars_count target \<le> 32"

definition surface_valid :: "string \<Rightarrow> bool" where
  "surface_valid s \<longleftrightarrow> s \<noteq> [] \<and> chars_count s \<le> 32 \<and> list_all surface_char s"

lemma validate_surface_ok: "validate_surface s = Inr u \<longleftrightarrow> surface_valid s"
  by (auto simp: validate_surface_def surface_valid_def)

lemma occurred_at_ok:
  "validate_occurred_at t now = Inr u \<longleftrightarrow>
   (fst now - 24 * 60 * 60, snd now) \<le> t \<and> t \<le> (fst now + 60, snd now)"
  by (auto simp: validate_occurred_at_def Let_def not_less)

lemma event_type_string_cases:
  "event_type_string t = Inr ty \<longleftrightarrow>
   t = 1 \<and> ty = ''IMPRESSION'' \<or> t = 2 \<and> ty = ''OPEN'' \<or> t = 3 \<and> ty = ''DWELL'' \<or> t = 4 \<and> ty = ''LIKE'' \<or>
   t = 5 \<and> ty = ''UNLIKE'' \<or> t = 6 \<and> ty = ''SHARE''"
proof -
  have "1 \<le> t \<and> t \<le> 6 \<longleftrightarrow> t = 1 \<or> t = 2 \<or> t = 3 \<or> t = 4 \<or> t = 5 \<or> t = 6"
    by auto
  then show ?thesis
    by (auto simp: event_type_string_def event_types_def)
qed

lemma feed_json_ok: "feed_json kind pos = Inr j \<longleftrightarrow> kind \<in> set FEED_KINDS \<and> 0 \<le> pos \<and>
    j = JObj [(''feed_kind'', JStr kind), (''position'', JNum pos)]"
  by (auto simp: feed_json_def validate_feed_kind_def validate_position_def res_invert not_less)

definition props_json :: "event_properties \<Rightarrow> json" where
  "props_json p =
     (case p of Impression kind pos \<Rightarrow> JObj [(''feed_kind'', JStr kind), (''position'', JNum pos)]
      | OpenProps kind pos \<Rightarrow> JObj [(''feed_kind'', JStr kind), (''position'', JNum pos)]
      | Dwell ms \<Rightarrow> JObj [(''dwell_ms'', JNum ms)] | Like \<Rightarrow> JObj [] | Unlike \<Rightarrow> JObj []
      | Share target \<Rightarrow> JObj [(''target'', JStr target)])"

lemma properties_ok:
  assumes "event_type_string t = Inr ty"
  shows "validate_properties_for_type ty ps = Inr j \<longleftrightarrow>
    (\<exists>p. ps = Some p \<and> t = properties_type p \<and> properties_valid p \<and> j = props_json p)"
proof (cases ps)
  case (Some p)
  with assms show ?thesis
    by (cases p; auto simp: validate_properties_for_type_def event_type_string_cases feed_json_ok props_json_def
        validate_dwell_ms_def validate_share_target_def res_invert not_less)
qed (simp add: validate_properties_for_type_def)

text \<open>An accepted request and the record it becomes.\<close>

definition own_event :: "subject \<Rightarrow> uuid \<Rightarrow> bool" where
  "own_event subj u = (case subj of User me _ \<Rightarrow> u = me | _ \<Rightarrow> True)"

lemma prepare_event_Inr:
  "prepare_event x req subj now = Inr r \<longleftrightarrow>
   (\<exists>u a ty t p. uuid_parse (sx_text (ee_svc x)) (eq_user_id req) = Some u \<and>
      uuid_parse (sx_text (ee_svc x)) (eq_article_id req) = Some a \<and>
      Option.bind (eq_occurred_at req) (proto_to_chrono x) = Some t \<and>
      (fst now - 24 * 60 * 60, snd now) \<le> t \<and> t \<le> (fst now + 60, snd now) \<and>
      surface_valid (eq_surface req) \<and>
      eq_properties req = Some p \<and> eq_type req = properties_type p \<and> properties_valid p \<and> own_event subj u \<and>
      event_type_string (eq_type req) = Inr ty \<and>
      r = \<lparr>er_user_id = u, er_article_id = Some a, er_type = ty, er_occurred_at = t,
           er_surface = eq_surface req, er_properties = props_json p\<rparr>)"
proof -
  have own: "(case subj of User me k \<Rightarrow> if u \<noteq> me then Inl (UnauthorizedUserId me u) else Inr () | _ \<Rightarrow> Inr ()) = Inr v \<longleftrightarrow>
      own_event subj u" for u v
    by (auto simp: own_event_def split: subject.splits)
  show ?thesis
    unfolding prepare_event_def
    by (auto simp: res_invert parse_uuid_def occurred_at_ok validate_surface_ok own properties_ok)
qed

lemma properties_type_string: "\<exists>ty. event_type_string (properties_type p) = Inr ty"
  by (cases p) (simp_all add: event_type_string_def)

text \<open>An event is accepted exactly when its ids parse, it happened between a day before and
  a minute after now, its surface is a short lowercase name, its properties are those of its
  type and within their bounds, and a user reports only for itself.
\<close>

theorem event_accepted_iff:
  "is_ok (prepare_event x req subj now) \<longleftrightarrow>
   (\<exists>u a t p. uuid_parse (sx_text (ee_svc x)) (eq_user_id req) = Some u \<and>
      uuid_parse (sx_text (ee_svc x)) (eq_article_id req) = Some a \<and>
      Option.bind (eq_occurred_at req) (proto_to_chrono x) = Some t \<and>
      (fst now - 24 * 60 * 60, snd now) \<le> t \<and> t \<le> (fst now + 60, snd now) \<and>
      surface_valid (eq_surface req) \<and>
      eq_properties req = Some p \<and> eq_type req = properties_type p \<and> properties_valid p \<and>
      (case subj of User me _ \<Rightarrow> u = me | _ \<Rightarrow> True))"
  unfolding is_ok_iff prepare_event_Inr own_event_def [symmetric] by (auto simp: properties_type_string)

subsection \<open>Reading back\<close>

text \<open>A position is an \<open>i32\<close> on the wire.\<close>

fun props_i32 :: "event_properties \<Rightarrow> bool" where
  "props_i32 (Impression _ pos) \<longleftrightarrow> pos < 2 ^ 31"
| "props_i32 (OpenProps _ pos) \<longleftrightarrow> pos < 2 ^ 31"
| "props_i32 _ \<longleftrightarrow> True"

definition req_i32 :: "event_req \<Rightarrow> bool" where
  "req_i32 req = (case eq_properties req of None \<Rightarrow> True | Some p \<Rightarrow> props_i32 p)"

lemma stored_properties_json:
  assumes "event_type_string (properties_type p) = Inr ty" "properties_valid p" "props_i32 p"
  shows "stored_properties ty (props_json p) = Inr p" "event_type_from_string ty = properties_type p"
    "ty \<in> set event_types"
  using assms
  by (cases p; auto simp: event_type_string_cases stored_properties_def props_json_def json_get_def as_i64_def
      parse_feed_kind_and_position_def event_type_from_string_def event_types_def)+

text \<open>What the answer to a request repeats of it.\<close>

definition echoes :: "event_ext \<Rightarrow> timestamp \<Rightarrow> event_req \<Rightarrow> event_msg \<Rightarrow> bool" where
  "echoes x received_at req msg \<longleftrightarrow>
     (\<exists>u a t. uuid_parse (sx_text (ee_svc x)) (eq_user_id req) = Some u \<and>
        em_user_id msg = uuid_show (sx_text (ee_svc x)) u \<and>
        uuid_parse (sx_text (ee_svc x)) (eq_article_id req) = Some a \<and>
        em_article_id msg = uuid_show (sx_text (ee_svc x)) a \<and>
        Option.bind (eq_occurred_at req) (proto_to_chrono x) = Some t \<and>
        em_occurred_at msg = Some (ts_to_proto (ee_micros x t))) \<and>
     em_received_at msg = Some (ts_to_proto received_at) \<and> em_type msg = eq_type req \<and>
     em_surface msg = eq_surface req \<and> em_properties msg = eq_properties req"

lemma prepared_echo:
  assumes "prepare_event x req subj now = Inr r" "req_i32 req"
  shows "\<exists>msg. event_to_proto (ee_svc x) (new_event_row x received_at i r) = Inr msg \<and> echoes x received_at req msg"
    "er_type r \<in> set event_types"
proof -
  from assms obtain u a ty t p where r: "uuid_parse (sx_text (ee_svc x)) (eq_user_id req) = Some u"
    "uuid_parse (sx_text (ee_svc x)) (eq_article_id req) = Some a"
    "Option.bind (eq_occurred_at req) (proto_to_chrono x) = Some t"
    "eq_properties req = Some p" "eq_type req = properties_type p" "properties_valid p"
    "event_type_string (properties_type p) = Inr ty"
    "r = \<lparr>er_user_id = u, er_article_id = Some a, er_type = ty, er_occurred_at = t,
           er_surface = eq_surface req, er_properties = props_json p\<rparr>"
    unfolding prepare_event_Inr by auto
  note p = stored_properties_json [OF r(7,6)]
  have "props_i32 p"
    using assms(2) r(4) by (simp add: req_i32_def)
  with p r show "\<exists>msg. event_to_proto (ee_svc x) (new_event_row x received_at i r) = Inr msg \<and> echoes x received_at req msg"
    "er_type r \<in> set event_types"
    by (simp_all add: event_to_proto_def new_event_row_def echoes_def)
qed

subsection \<open>Batches\<close>

definition events_ok :: "svc_ext \<Rightarrow> db \<Rightarrow> bool" where
  "events_ok x d \<longleftrightarrow> pk ev_id (events d) \<and> list_all (\<lambda>r. is_ok (event_to_proto x r)) (events d)"

definition ids_fresh :: "uuid list \<Rightarrow> db \<Rightarrow> bool" where
  "ids_fresh ids d \<longleftrightarrow> distinct ids \<and> list_all (\<lambda>i. lookup ev_id i (events d) = None) ids"

lemma ev_id_new [simp]: "ev_id (new_event_row x t i r) = i"
  by (simp add: new_event_row_def)

lemma map_res_list_all2: "map_res f xs = Inr ys \<longleftrightarrow> list_all2 (\<lambda>x y. f x = Inr y) xs ys"
  by (induction xs arbitrary: ys) (auto simp: res_invert list_all2_Cons1)

lemma batch_rows:
  assumes "list_all2 (\<lambda>req r. prepare_event x req subj now = Inr r) reqs rs" "list_all req_i32 reqs"
    and "length ids = length reqs"
  shows "\<exists>msgs. map_res (event_to_proto (ee_svc x)) (map (\<lambda>(r, i). new_event_row x t i r) (zip rs ids)) = Inr msgs \<and>
      list_all2 (echoes x t) reqs msgs"
    "map ev_id (map (\<lambda>(r, i). new_event_row x t i r) (zip rs ids)) = ids"
    "list_all (\<lambda>r. ev_type r \<in> set event_types) (map (\<lambda>(r, i). new_event_row x t i r) (zip rs ids))"
proof -
  have "length rs = length ids"
    using assms(1,3) by (simp add: list_all2_lengthD)
  then show "map ev_id (map (\<lambda>(r, i). new_event_row x t i r) (zip rs ids)) = ids"
    by (simp add: case_prod_beta comp_def)
  show "\<exists>msgs. map_res (event_to_proto (ee_svc x)) (map (\<lambda>(r, i). new_event_row x t i r) (zip rs ids)) = Inr msgs \<and>
      list_all2 (echoes x t) reqs msgs"
    using assms
  proof (induction arbitrary: ids rule: list_all2_induct)
    case (Cons req reqs r rs)
    then obtain i js where ids: "ids = i # js" "length js = length reqs"
      by (cases ids) auto
    with Cons.IH [of js] Cons.prems prepared_echo(1) [OF Cons.hyps(1), of t i] show ?case
      by (auto intro: exI [of _ "_ # _"])
  qed simp
  show "list_all (\<lambda>r. ev_type r \<in> set event_types) (map (\<lambda>(r, i). new_event_row x t i r) (zip rs ids))"
    using assms
  proof (induction arbitrary: ids rule: list_all2_induct)
    case (Cons req reqs r rs)
    then show ?case
      using prepared_echo(2) [OF Cons.hyps(1)] by (cases ids) (auto simp: new_event_row_def)
  qed simp
qed

lemma batch_stored:
  assumes "is_authorized_writer subj" "reqs \<noteq> []" "length reqs \<le> max_items" "tso_now x now = Inr n"
    and "list_all (\<lambda>req. is_ok (prepare_event x req subj n)) reqs"
    and "length ids = length reqs" "ids_fresh ids d" "list_all req_i32 reqs"
  shows "\<exists>rows msgs. record_event_batch x max_items now t ids subj reqs d =
      (Inr (msgs, wrap_i32 (int (length reqs))), d\<lparr>events := events d @ rows\<rparr>) \<and>
    map ev_id rows = ids \<and> map_res (event_to_proto (ee_svc x)) rows = Inr msgs \<and> list_all2 (echoes x t) reqs msgs"
proof -
  have "is_ok (map_res (\<lambda>req. prepare_event x req subj n) reqs)"
    using assms(5) by (simp add: map_res_ok)
  then obtain rs where rs: "map_res (\<lambda>req. prepare_event x req subj n) reqs = Inr rs"
    by (auto simp: is_ok_iff)
  let ?rows = "map (\<lambda>(r, i). new_event_row x t i r) (zip rs ids)"
  have all: "list_all2 (\<lambda>req r. prepare_event x req subj n = Inr r) reqs rs"
    using rs by (simp add: map_res_list_all2)
  note b = batch_rows [OF all assms(8,6), where t = t]
  have "list_all (\<lambda>r. lookup ev_id (ev_id r) (events d) = None) ?rows \<longleftrightarrow>
      list_all (\<lambda>i. lookup ev_id i (events d) = None) (map ev_id ?rows)"
    by (simp add: list_all_iff)
  then have "insert_events ''insert event batch'' ?rows d = Inr (d\<lparr>events := events d @ ?rows\<rparr>)"
    using assms(7) b(2,3) by (simp only: insert_events_def ids_fresh_def) simp
  moreover have "rs \<noteq> []" "length ?rows = length reqs"
    using all assms(2,6) by (auto dest: list_all2_lengthD)
  ultimately show ?thesis
    using b(1) assms(1-4) rs
    by (intro exI [of _ ?rows]) (auto simp: record_event_batch_def record_batch_def Let_def b(2) simp del: map_map)
qed

lemma batch_refused:
  assumes "\<not> (is_authorized_writer subj \<and> reqs \<noteq> [] \<and> length reqs \<le> max_items \<and>
      (\<exists>n. tso_now x now = Inr n \<and> list_all (\<lambda>req. is_ok (prepare_event x req subj n)) reqs))"
  shows "\<exists>e. record_event_batch x max_items now t ids subj reqs d = (Inl e, d)"
proof (cases "tso_now x now")
  case (Inr n)
  show ?thesis
  proof (cases "map_res (\<lambda>req. prepare_event x req subj n) reqs")
    case (Inr rs)
    then have "list_all (\<lambda>req. is_ok (prepare_event x req subj n)) reqs"
      using map_res_ok [of "\<lambda>req. prepare_event x req subj n" reqs] by simp
    with assms \<open>tso_now x now = Inr n\<close> show ?thesis
      by (auto simp: record_event_batch_def not_le)
  qed (use Inr in \<open>simp add: record_event_batch_def\<close>)
qed (simp add: record_event_batch_def)

text \<open>C26. A batch of events is stored whole or not at all: it is accepted exactly when the caller
  may write, the batch is not empty and within the limit, and every event of it is valid; then
  the table grows by one row per event, in order, and the answer repeats the events; a refused
  batch leaves the database as it was.
\<close>

theorem event_batch_atomic:
  fixes x :: event_ext and max_items :: nat and now :: "string + tso" and t :: timestamp and subj :: subject
  assumes "length ids = length reqs" "ids_fresh ids d" "list_all req_i32 reqs"
  defines "out \<equiv> record_event_batch x max_items now t ids subj reqs d"
  shows "(is_ok (fst out) \<longleftrightarrow> is_authorized_writer subj \<and> reqs \<noteq> [] \<and> length reqs \<le> max_items \<and>
      (\<exists>n. tso_now x now = Inr n \<and> list_all (\<lambda>req. is_ok (prepare_event x req subj n)) reqs)) \<and>
    (case fst out of
        Inl e \<Rightarrow> snd out = d
      | Inr (msgs, cnt) \<Rightarrow> cnt = wrap_i32 (int (length reqs)) \<and> list_all2 (echoes x t) reqs msgs \<and>
          (\<exists>rows. snd out = d\<lparr>events := events d @ rows\<rparr> \<and> map ev_id rows = ids \<and>
             map_res (event_to_proto (ee_svc x)) rows = Inr msgs))"
proof -
  let ?g = "is_authorized_writer subj \<and> reqs \<noteq> [] \<and> length reqs \<le> max_items \<and>
      (\<exists>n. tso_now x now = Inr n \<and> list_all (\<lambda>req. is_ok (prepare_event x req subj n)) reqs)"
  have "?g \<Longrightarrow> \<exists>rows msgs. out = (Inr (msgs, wrap_i32 (int (length reqs))), d\<lparr>events := events d @ rows\<rparr>) \<and>
    map ev_id rows = ids \<and> map_res (event_to_proto (ee_svc x)) rows = Inr msgs \<and> list_all2 (echoes x t) reqs msgs"
    unfolding out_def using batch_stored [OF _ _ _ _ _ assms(1-3)] by blast
  moreover have "\<not> ?g \<Longrightarrow> \<exists>e. out = (Inl e, d)"
    unfolding out_def by (rule batch_refused)
  ultimately consider (stored) rows msgs where ?g
      "out = (Inr (msgs, wrap_i32 (int (length reqs))), d\<lparr>events := events d @ rows\<rparr>)"
      "map ev_id rows = ids" "map_res (event_to_proto (ee_svc x)) rows = Inr msgs" "list_all2 (echoes x t) reqs msgs"
    | (refused) e where "\<not> ?g" "out = (Inl e, d)"
    by metis
  then show ?thesis
    by cases auto
qed

subsection \<open>Listing\<close>

lemma distinct_event_keys: "pk ev_id (events d) \<Longrightarrow> distinct (map event_key (filter P (events d)))"
  by (auto simp: pk_def distinct_map event_key_def inj_on_def)

text \<open>
  Listing events: walking the pages of any filter gives every matching event exactly once,
  in the order of arrival, and every page can be answered, since each stored event reads back.
\<close>

theorem event_list_complete:
  assumes "events_ok (ee_svc x) d" "page_ext_ok px" "length (events d) < fuel"
  shows "\<exists>rows. walk (event_list px f n d) fuel [] = Some (Inr rows) \<and>
    mset rows = mset (filter (event_matches f) (events d)) \<and> sorted (map event_key rows) \<and>
    is_ok (map_res (event_to_proto (ee_svc x)) rows)"
proof -
  let ?rows = "filter (event_matches f) (events d)"
  have pk: "pk ev_id (events d)"
    using assms(1) by (simp add: events_ok_def)
  have "length ?rows < fuel"
    using assms(3) le_less_trans [OF length_filter_le] by blast
  then have "walk (event_list px f n d) fuel [] = Some (Inr (map (\<lambda>r. r) (order_asc event_key ?rows)))"
    unfolding event_list_def
    by (intro asc.walk_complete [OF cursor_codec_page_ext [OF assms(2)] distinct_event_keys [OF pk] clamp_page_size_pos])
      simp_all
  moreover have "is_ok (map_res (event_to_proto (ee_svc x)) (order_asc event_key ?rows))"
    using assms(1) by (auto simp: map_res_ok events_ok_def list_all_iff order_asc_def)
  ultimately show ?thesis
    by (simp add: order_asc_def)
qed

subsection \<open>Witnesses\<close>

definition demo_events :: event_ext where
  "demo_events = \<lparr>ee_svc = demo_svc, ee_in_range = (\<lambda>s n. 0 \<le> s \<and> n < 1000000000),
     ee_micros = (\<lambda>t. fst t * 1000000 + snd t div 1000)\<rparr>"

definition demo_event :: event_req where
  "demo_event = \<lparr>eq_user_id = ''xxxx'', eq_article_id = ''xx'', eq_type = 1, eq_occurred_at = Some (100, 5000),
     eq_surface = ''home'', eq_properties = Some (Impression ''follow'' 3)\<rparr>"

lemma demo_event_i32: "list_all req_i32 [demo_event, demo_event]"
  by (simp add: demo_event_def req_i32_def)

lemma demo_now: "tso_now demo_events (Inr (from_parts 100000 0)) = Inr (100, 0)"
  by (simp add: tso_now_def demo_events_def physical_ms_from_parts)

lemma demo_event_ok: "is_ok (prepare_event demo_events demo_event (User 4 5) (100, 0))"
proof -
  have "surface_valid ''home''"
    by (simp add: surface_valid_def surface_char_def chars_count_def is_cont_def)
  moreover have "uuid_parse (sx_text (ee_svc demo_events)) s = Some (of_nat (length s))" for s
    using demo_uuid_parse by (simp add: demo_events_def)
  ultimately show ?thesis
    by (auto simp: is_ok_iff prepare_event_Inr own_event_def event_type_string_def demo_event_def proto_to_chrono_def
        demo_events_def FEED_KINDS_def)
qed

theorem event_batch_atomic_witness:
  "is_ok (fst (record_event_batch demo_events 500 (Inr (from_parts 100000 0)) 7 [1, 2] (User 4 5)
       [demo_event, demo_event] empty_db)) \<and>
   snd (record_event_batch demo_events 500 (Inr (from_parts 100000 0)) 7 [1, 2] (User 3 5)
       [demo_event, demo_event] empty_db) = empty_db"
proof -
  have "ids_fresh [1, 2] empty_db"
    by (simp add: ids_fresh_def empty_db_def)
  note b = event_batch_atomic [OF _ this demo_event_i32, of demo_events 500 "Inr (from_parts 100000 0)" 7]
  have "\<not> is_ok (prepare_event demo_events demo_event (User 3 5) (100, 0))"
    using demo_uuid_parse by (auto simp: is_ok_iff prepare_event_Inr own_event_def demo_event_def demo_events_def)
  then show ?thesis
    using b [of "User 4 5"] b [of "User 3 5"] demo_event_ok
    by (auto simp: demo_now is_authorized_writer_def is_ok_iff split: sum.splits)
qed

theorem event_list_complete_witness:
  "\<exists>rows. walk (event_list demo_page \<lparr>ef_user_id = None, ef_article_id = None, ef_types = [''LIKE''],
       ef_received_after = Some 3, ef_received_before = None\<rparr> 1
     (empty_db\<lparr>events := map (\<lambda>(i, t). \<lparr>ev_id = i, ev_user_id = 4, ev_article_id = None, ev_type = ''LIKE'',
       ev_occurred_at = t, ev_received_at = t, ev_surface = ''home'', ev_properties = JObj []\<rparr>) [(1, 9), (2, 2), (3, 5)]\<rparr>))
     4 [] = Some (Inr rows) \<and> mset (map ev_id rows) = {#1, 3#}"
proof -
  let ?row = "\<lambda>(i, t). \<lparr>ev_id = i, ev_user_id = 4, ev_article_id = None, ev_type = ''LIKE'',
       ev_occurred_at = t, ev_received_at = t, ev_surface = ''home'', ev_properties = JObj []\<rparr>"
  let ?d = "empty_db\<lparr>events := map ?row [(1, 9), (2, 2), (3, 5)]\<rparr>"
  let ?f = "\<lparr>ef_user_id = None, ef_article_id = None, ef_types = [''LIKE''],
       ef_received_after = Some 3, ef_received_before = None\<rparr>"
  have "events_ok (ee_svc demo_events) ?d"
    by (simp add: events_ok_def pk_def event_to_proto_def stored_properties_def)
  from event_list_complete [OF this demo_page_ok, of 4 ?f 1] show ?thesis
    by (auto simp: event_matches_def)
qed

end
