(* ===== verification/Rest_Json.thy ===== *)
theory Rest_Json
  imports Draft_Service Feed Event
begin

text \<open>
  The JSON of the REST gateway (\<open>headlines-rest-gateway/src/lib.rs\<close>): the converters from
  protobuf messages to JSON and the readers of request bodies, written by hand in the source.
  Shown: its content converters agree with those of the article service, which the gateway
  repeats, and what it prints of content and of events is read back by its own readers.
\<close>

subsection \<open>Objects\<close>

text \<open>\<open>json!({..})\<close>: the entries are inserted one by one.\<close>

definition json_obj :: "(string \<times> json) list \<Rightarrow> json" where
  "json_obj entries = JObj (foldl (\<lambda>obj (k, v). json_insert k v obj) [] entries)"

fun as_array :: "json \<Rightarrow> json list option" where
  "as_array (JArr arr) = Some arr"
| "as_array _ = None"

fun as_bool :: "json \<Rightarrow> bool option" where
  "as_bool (JBool b) = Some b"
| "as_bool _ = None"

text \<open>\<open>v.get(k).and_then(Value::as_str).unwrap_or_default()\<close> and its like.\<close>

definition str_field :: "string \<Rightarrow> json \<Rightarrow> string" where
  "str_field k v = unwrap_or [] (Option.bind (json_get k v) as_str)"

definition i32_field :: "string \<Rightarrow> json \<Rightarrow> int" where
  "i32_field k v = unwrap_or 0 (map_option wrap_i32 (Option.bind (json_get k v) as_i64))"

definition str_array :: "string \<Rightarrow> json \<Rightarrow> string list" where
  "str_array k v = unwrap_or [] (map_option (List.map_filter as_str) (Option.bind (json_get k v) as_array))"

subsection \<open>Times and statuses\<close>

text \<open>
  \<open>chrono\<close>: printing an instant given by seconds and nanoseconds, when it is in range, and
  reading RFC 3339.
\<close>

record time_ext =
  tx_print :: "int \<Rightarrow> int \<Rightarrow> string option"
  tx_parse :: "string \<Rightarrow> (int \<times> int) option"

definition timestamp_to_rfc3339 :: "time_ext \<Rightarrow> int \<times> int \<Rightarrow> string" where
  "timestamp_to_rfc3339 x ts = unwrap_or [] (tx_print x (fst ts) (snd ts mod 2 ^ 32))"

definition parse_rfc3339_to_proto :: "time_ext \<Rightarrow> string \<Rightarrow> (int \<times> int) option" where
  "parse_rfc3339_to_proto x s = tx_parse x s"

definition opt_time :: "time_ext \<Rightarrow> (int \<times> int) option \<Rightarrow> json" where
  "opt_time x t = (case t of None \<Rightarrow> JNull | Some ts \<Rightarrow> JStr (timestamp_to_rfc3339 x ts))"

definition account_status_str :: "int \<Rightarrow> string" where
  "account_status_str v =
     (if v = 1 then ''ACCOUNT_STATUS_ACTIVE'' else if v = 2 then ''ACCOUNT_STATUS_DELETED''
      else ''ACCOUNT_STATUS_UNSPECIFIED'')"

definition user_status_str :: "int \<Rightarrow> string" where
  "user_status_str v =
     (if v = 1 then ''USER_STATUS_ACTIVE'' else if v = 2 then ''USER_STATUS_DELETED''
      else ''USER_STATUS_UNSPECIFIED'')"

definition key_status_str :: "int \<Rightarrow> string" where
  "key_status_str v =
     (if v = 1 then ''KEY_STATUS_ACTIVE'' else if v = 2 then ''KEY_STATUS_REVOKED''
      else ''KEY_STATUS_UNSPECIFIED'')"

definition article_state_str :: "int \<Rightarrow> string" where
  "article_state_str v =
     (if v = 1 then ''ARTICLE_STATE_LIVE'' else if v = 2 then ''ARTICLE_STATE_TOMBSTONE''
      else ''ARTICLE_STATE_UNSPECIFIED'')"

definition follow_status_str :: "int \<Rightarrow> string" where
  "follow_status_str v =
     (if v = 1 then ''FOLLOW_STATUS_ACTIVE'' else if v = 2 then ''FOLLOW_STATUS_UNFOLLOWED''
      else ''FOLLOW_STATUS_UNSPECIFIED'')"

definition event_type_str :: "int \<Rightarrow> string" where
  "event_type_str v =
     (if v = 1 then ''EVENT_TYPE_IMPRESSION'' else if v = 2 then ''EVENT_TYPE_OPEN''
      else if v = 3 then ''EVENT_TYPE_DWELL'' else if v = 4 then ''EVENT_TYPE_LIKE''
      else if v = 5 then ''EVENT_TYPE_UNLIKE'' else if v = 6 then ''EVENT_TYPE_SHARE''
      else ''EVENT_TYPE_UNSPECIFIED'')"

subsection \<open>Accounts, users, keys\<close>

definition account_to_json :: "time_ext \<Rightarrow> account_msg \<Rightarrow> json" where
  "account_to_json x a = json_obj
     [(''id'', JStr (am_id a)), (''short_name'', JStr (am_short_name a)), (''author_name'', JStr (am_author_name a)),
      (''author_url'', JStr (am_author_url a)), (''status'', JStr (account_status_str (am_status a))),
      (''deleted_at'', opt_time x (am_deleted_at a)), (''created_at'', opt_time x (am_created_at a)),
      (''updated_at'', opt_time x (am_updated_at a))]"

definition user_to_json :: "time_ext \<Rightarrow> user_msg \<Rightarrow> json" where
  "user_to_json x u = json_obj
     [(''id'', JStr (um_id u)), (''display_name'', JStr (um_display_name u)),
      (''status'', JStr (user_status_str (um_status u))), (''deleted_at'', opt_time x (um_deleted_at u)),
      (''created_at'', opt_time x (um_created_at u))]"

definition user_key_to_json :: "time_ext \<Rightarrow> key_msg \<Rightarrow> json" where
  "user_key_to_json x k = json_obj
     [(''user_id'', JStr (km_parent_id k)), (''key_id'', JStr (km_key_id k)), (''algo'', JStr (km_algo k)),
      (''public_key'', JStr (km_public_key k)), (''status'', JStr (key_status_str (km_status k))),
      (''created_at'', opt_time x (km_created_at k)), (''revoked_at'', opt_time x (km_revoked_at k))]"

definition parse_public_key :: "json \<Rightarrow> public_key_msg" where
  "parse_public_key v = \<lparr>pkm_algo = str_field ''algo'' v, pkm_public_key = str_field ''public_key'' v\<rparr>"

definition parse_field_mask :: "json \<Rightarrow> string list" where
  "parse_field_mask v = str_array ''paths'' v"

subsection \<open>Content\<close>

text \<open>The gateway's own copy of the converters of the article service.\<close>

fun rest_node_to_json :: "node \<Rightarrow> json" where
  "rest_node_to_json NoKind = JNull"
| "rest_node_to_json (Text t) = json_obj [(''text'', JStr t)]"
| "rest_node_to_json (Element tag attrs children) =
     (let obj = json_insert ''tag'' (JStr tag) [];
          obj = (if attrs \<noteq> [] then json_insert ''attrs'' (JObj (attrs_to_json attrs)) obj else obj);
          obj = (if children \<noteq> []
                 then json_insert ''children'' (JArr (map rest_node_to_json children)) obj else obj)
      in JObj obj)"

definition nodes_to_json_array :: "node list \<Rightarrow> json" where
  "nodes_to_json_array nodes = JArr (map rest_node_to_json nodes)"

function (sequential) parse_node :: "json \<Rightarrow> node" where
  "parse_node (JObj obj) =
     (case map_of obj ''text'' of
        Some (JStr t) \<Rightarrow> Text t
      | _ \<Rightarrow>
          Element (unwrap_or [] (Option.bind (map_of obj ''tag'') as_str))
            (unwrap_or [] (map_option str_entries (Option.bind (map_of obj ''attrs'') as_object)))
            (case map_of obj ''children'' of
               Some (JArr arr) \<Rightarrow> map parse_node arr
             | _ \<Rightarrow> []))"
| "parse_node _ = NoKind"
  by pat_completeness auto
termination
  by (relation "measure size") (auto intro: size_child)

definition parse_nodes :: "json \<Rightarrow> node list" where
  "parse_nodes v = (case v of JArr arr \<Rightarrow> map parse_node arr | _ \<Rightarrow> [])"

definition content_field :: "json \<Rightarrow> node list" where
  "content_field v = unwrap_or [] (map_option parse_nodes (json_get ''content'' v))"

subsection \<open>Articles and drafts\<close>

definition article_live_to_json :: "time_ext \<Rightarrow> article_live_msg \<Rightarrow> json" where
  "article_live_to_json x l = json_obj
     [(''current_version'', JNum (alm_current_version l)), (''title'', JStr (alm_title l)),
      (''author_name'', JStr (alm_author_name l)), (''author_url'', JStr (alm_author_url l)),
      (''content'', nodes_to_json_array (alm_content l)), (''redacted'', JBool (alm_redacted l)),
      (''published_at'', opt_time x (alm_published_at l)), (''updated_at'', opt_time x (alm_updated_at l))]"

definition article_live_summary_to_json :: "time_ext \<Rightarrow> article_live_summary_msg \<Rightarrow> json" where
  "article_live_summary_to_json x l = json_obj
     [(''current_version'', JNum (als_current_version l)), (''title'', JStr (als_title l)),
      (''author_name'', JStr (als_author_name l)), (''author_url'', JStr (als_author_url l)),
      (''redacted'', JBool (als_redacted l)), (''published_at'', opt_time x (als_published_at l)),
      (''updated_at'', opt_time x (als_updated_at l))]"

definition article_tombstone_to_json :: "time_ext \<Rightarrow> string \<Rightarrow> (int \<times> int) option \<Rightarrow> json" where
  "article_tombstone_to_json x rsn t = json_obj [(''reason'', JStr rsn), (''tombstoned_at'', opt_time x t)]"

definition article_tombstone_summary_to_json :: "time_ext \<Rightarrow> string \<Rightarrow> (int \<times> int) option \<Rightarrow> json" where
  "article_tombstone_summary_to_json x rsn t = json_obj [(''reason'', JStr rsn), (''tombstoned_at'', opt_time x t)]"

definition article_to_json :: "time_ext \<Rightarrow> article_msg \<Rightarrow> json" where
  "article_to_json x a = json_obj
     ([(''id'', JStr (arm_id a)), (''account_id'', JStr (arm_account_id a)),
       (''state'', JStr (article_state_str (arm_state a))), (''created_at'', opt_time x (arm_created_at a))] @
      (case arm_state_data a of
         Some (LiveData l) \<Rightarrow> [(''live'', article_live_to_json x l)]
       | Some (TombstoneData rsn t) \<Rightarrow> [(''tombstone'', article_tombstone_to_json x rsn t)]
       | None \<Rightarrow> []))"

definition article_summary_to_json :: "time_ext \<Rightarrow> article_summary_msg \<Rightarrow> json" where
  "article_summary_to_json x s = json_obj
     ([(''id'', JStr (asm_id s)), (''account_id'', JStr (asm_account_id s)),
       (''state'', JStr (article_state_str (asm_state s))), (''created_at'', opt_time x (asm_created_at s))] @
      (case asm_state_data s of
         Some (LiveSummaryData l) \<Rightarrow> [(''live'', article_live_summary_to_json x l)]
       | Some (TombstoneSummaryData rsn t) \<Rightarrow> [(''tombstone'', article_tombstone_summary_to_json x rsn t)]
       | None \<Rightarrow> []))"

definition draft_to_json :: "time_ext \<Rightarrow> draft_msg \<Rightarrow> json" where
  "draft_to_json x f = json_obj
     [(''id'', JStr (dm_id f)), (''account_id'', JStr (dm_account_id f)), (''title'', JStr (dm_title f)),
      (''author_name'', JStr (dm_author_name f)), (''author_url'', JStr (dm_author_url f)),
      (''content'', nodes_to_json_array (dm_content f)), (''created_at'', opt_time x (dm_created_at f)),
      (''updated_at'', opt_time x (dm_updated_at f))]"

definition draft_summary_to_json :: "time_ext \<Rightarrow> draft_summary_msg \<Rightarrow> json" where
  "draft_summary_to_json x s = json_obj
     [(''id'', JStr (dsm_id s)), (''account_id'', JStr (dsm_account_id s)), (''title'', JStr (dsm_title s)),
      (''created_at'', opt_time x (dsm_created_at s)), (''updated_at'', opt_time x (dsm_updated_at s))]"

subsection \<open>Follows and feeds\<close>

definition follow_to_json :: "time_ext \<Rightarrow> follow_msg \<Rightarrow> json" where
  "follow_to_json x f = json_obj
     [(''user_id'', JStr (fm_user_id f)), (''account_id'', JStr (fm_account_id f)),
      (''status'', JStr (follow_status_str (fm_status f))), (''created_at'', opt_time x (fm_created_at f)),
      (''unfollowed_at'', opt_time x (fm_unfollowed_at f))]"

definition feed_item_to_json :: "time_ext \<Rightarrow> int \<times> article_summary_msg \<Rightarrow> json" where
  "feed_item_to_json x it = json_obj
     [(''position'', JNum (fst it)), (''article'', article_summary_to_json x (snd it))]"

definition follow_feed_item_to_json :: "time_ext \<Rightarrow> article_summary_msg \<Rightarrow> json" where
  "follow_feed_item_to_json x s = json_obj [(''article'', article_summary_to_json x s)]"

definition account_stream_item_to_json :: "time_ext \<Rightarrow> article_summary_msg \<Rightarrow> json" where
  "account_stream_item_to_json x s = json_obj [(''article'', article_summary_to_json x s)]"

subsection \<open>Events\<close>

definition event_properties_to_json :: "event_properties option \<Rightarrow> json" where
  "event_properties_to_json p =
     (case p of
        None \<Rightarrow> JNull
      | Some (Impression kind pos) \<Rightarrow>
          json_obj [(''impression'', json_obj [(''feed_kind'', JStr kind), (''position'', JNum pos)])]
      | Some (OpenProps kind pos) \<Rightarrow>
          json_obj [(''open'', json_obj [(''feed_kind'', JStr kind), (''position'', JNum pos)])]
      | Some (Dwell ms) \<Rightarrow> json_obj [(''dwell'', json_obj [(''dwell_ms'', JNum ms)])]
      | Some Like \<Rightarrow> json_obj [(''like'', json_obj [])]
      | Some Unlike \<Rightarrow> json_obj [(''unlike'', json_obj [])]
      | Some (Share target) \<Rightarrow> json_obj [(''share'', json_obj [(''target'', JStr target)])])"

definition event_to_json :: "time_ext \<Rightarrow> event_msg \<Rightarrow> json" where
  "event_to_json x e = json_obj
     [(''id'', JStr (em_id e)), (''user_id'', JStr (em_user_id e)), (''article_id'', JStr (em_article_id e)),
      (''type'', JStr (event_type_str (em_type e))), (''occurred_at'', opt_time x (em_occurred_at e)),
      (''received_at'', opt_time x (em_received_at e)), (''surface'', JStr (em_surface e)),
      (''properties'', event_properties_to_json (em_properties e))]"

definition parse_event_type_str :: "string \<Rightarrow> int option" where
  "parse_event_type_str s =
     (let bare = unwrap_or s (strip_prefix ''EVENT_TYPE_'' s)
      in if bare = ''IMPRESSION'' then Some 1 else if bare = ''OPEN'' then Some 2
         else if bare = ''DWELL'' then Some 3 else if bare = ''LIKE'' then Some 4
         else if bare = ''UNLIKE'' then Some 5 else if bare = ''SHARE'' then Some 6
         else if bare = ''UNSPECIFIED'' then Some 0 else None)"

definition parse_record_event_properties :: "json \<Rightarrow> event_properties option" where
  "parse_record_event_properties v =
     (case json_get ''impression'' v of
        Some ob \<Rightarrow> Some (Impression (str_field ''feed_kind'' ob) (i32_field ''position'' ob))
      | None \<Rightarrow>
     (case json_get ''open'' v of
        Some ob \<Rightarrow> Some (OpenProps (str_field ''feed_kind'' ob) (i32_field ''position'' ob))
      | None \<Rightarrow>
     (case json_get ''dwell'' v of
        Some ob \<Rightarrow> Some (Dwell (unwrap_or 0 (Option.bind (json_get ''dwell_ms'' ob) as_i64)))
      | None \<Rightarrow>
     if json_get ''like'' v \<noteq> None then Some Like
     else if json_get ''unlike'' v \<noteq> None then Some Unlike
     else (case json_get ''share'' v of
        Some ob \<Rightarrow> Some (Share (str_field ''target'' ob))
      | None \<Rightarrow> None))))"

definition parse_record_event_request :: "time_ext \<Rightarrow> json \<Rightarrow> event_req" where
  "parse_record_event_request x v =
     \<lparr>eq_user_id = str_field ''user_id'' v, eq_article_id = str_field ''article_id'' v,
      eq_type = unwrap_or 0 (Option.bind (Option.bind (json_get ''type'' v) as_str) parse_event_type_str),
      eq_occurred_at = Option.bind (Option.bind (json_get ''occurred_at'' v) as_str) (parse_rfc3339_to_proto x),
      eq_surface = str_field ''surface'' v,
      eq_properties = Option.bind (json_get ''properties'' v) parse_record_event_properties\<rparr>"

subsection \<open>Notifications\<close>

record notification_payload =
  np_title :: string
  np_body :: string
  np_image_url :: string
  np_data :: "(string \<times> string) list"

record send_notification_req =
  sn_idempotency_key :: string
  sn_user_id :: string
  sn_article_id :: string
  sn_kind :: int
  sn_channels :: "int list"
  sn_payload :: "notification_payload option"

record quiet_hours =
  qh_enabled :: bool
  qh_timezone :: string
  qh_start_hour :: int
  qh_end_hour :: int

record notification_preferences =
  pf_user_id :: string
  pf_disabled_channels :: "int list"
  pf_disabled_kinds :: "int list"
  pf_quiet_hours :: "quiet_hours option"

definition parse_notification_kind_str :: "string \<Rightarrow> int option" where
  "parse_notification_kind_str s =
     (let bare = unwrap_or s (strip_prefix ''NOTIFICATION_KIND_'' s)
      in map_of (zip [''UNSPECIFIED'', ''NEW_ARTICLE'', ''NEW_FOLLOWER'', ''ARTICLE_TOMBSTONED'', ''ARTICLE_EDITED'',
           ''MENTION'', ''REPLY'', ''SYSTEM''] [0, 1, 2, 3, 4, 5, 6, 7]) bare)"

definition parse_notification_channel_str :: "string \<Rightarrow> int option" where
  "parse_notification_channel_str s =
     (let bare = unwrap_or s (strip_prefix ''NOTIFICATION_CHANNEL_'' s)
      in map_of (zip [''UNSPECIFIED'', ''PUSH'', ''EMAIL'', ''SMS'', ''IN_APP''] [0, 1, 2, 3, 4]) bare)"

definition parse_notification_payload :: "json \<Rightarrow> notification_payload" where
  "parse_notification_payload v =
     \<lparr>np_title = str_field ''title'' v, np_body = str_field ''body'' v, np_image_url = str_field ''image_url'' v,
      np_data = unwrap_or [] (map_option str_entries (Option.bind (json_get ''data'' v) as_object))\<rparr>"

definition parse_send_notification_request :: "json \<Rightarrow> send_notification_req" where
  "parse_send_notification_request v =
     \<lparr>sn_idempotency_key = str_field ''idempotency_key'' v, sn_user_id = str_field ''user_id'' v,
      sn_article_id = str_field ''article_id'' v,
      sn_kind = unwrap_or 0 (Option.bind (Option.bind (json_get ''kind'' v) as_str) parse_notification_kind_str),
      sn_channels = List.map_filter parse_notification_channel_str (str_array ''channels'' v),
      sn_payload = map_option parse_notification_payload (json_get ''payload'' v)\<rparr>"

definition parse_quiet_hours :: "json \<Rightarrow> quiet_hours" where
  "parse_quiet_hours v =
     \<lparr>qh_enabled = unwrap_or False (Option.bind (json_get ''enabled'' v) as_bool),
      qh_timezone = str_field ''timezone'' v, qh_start_hour = i32_field ''start_hour'' v,
      qh_end_hour = i32_field ''end_hour'' v\<rparr>"

definition parse_notification_preferences :: "json \<Rightarrow> notification_preferences" where
  "parse_notification_preferences v =
     \<lparr>pf_user_id = [],
      pf_disabled_channels = List.map_filter parse_notification_channel_str (str_array ''disabled_channels'' v),
      pf_disabled_kinds = List.map_filter parse_notification_kind_str (str_array ''disabled_kinds'' v),
      pf_quiet_hours = map_option parse_quiet_hours (json_get ''quiet_hours'' v)\<rparr>"

subsection \<open>Properties\<close>

lemma json_get_obj [simp]: "json_get k (JObj obj) = map_of obj k"
  by (simp add: json_get_def)

lemma map_of_json_insert: "map_of (json_insert k v obj) k' = (if k' = k then Some v else map_of obj k')"
  by (induction obj) auto

text \<open>What an object answers for a key is its last entry.\<close>

lemma json_get_json_obj: "json_get k (json_obj entries) = map_of (rev entries) k"
proof -
  have "map_of (foldl (\<lambda>obj (k, v). json_insert k v obj) obj entries) k =
      (case map_of (rev entries) k of None \<Rightarrow> map_of obj k | Some v \<Rightarrow> Some v)" for obj
    by (induction entries arbitrary: obj) (auto simp: map_of_json_insert map_add_def split: option.splits)
  then show ?thesis
    by (simp add: json_obj_def split: option.splits)
qed

lemma rest_node_eq: "rest_node_to_json n = node_to_json n"
  by (induction n) (simp_all add: json_obj_def Let_def cong: map_cong)

lemma parse_node_eq: "parse_node j = json_to_node j"
proof (induction j rule: parse_node.induct)
  case (1 obj)
  then show ?case
    by (auto split: option.splits json.splits)
qed simp_all

text \<open>The gateway's copy of the content converters agrees with the article service: it
  prints a node as the service stores it and reads a request body as the service reads the
  table.
\<close>

theorem rest_content_agrees:
  "nodes_to_json_array ns = nodes_to_json ns \<and> parse_nodes j = json_to_nodes j"
  by (simp add: nodes_to_json_array_def nodes_to_json_def parse_nodes_def json_to_nodes_def rest_node_eq
      parse_node_eq split: json.splits)

lemma event_type_roundtrip: "0 \<le> t \<Longrightarrow> t \<le> 6 \<Longrightarrow> parse_event_type_str (event_type_str t) = Some t"
proof -
  assume "0 \<le> t" "t \<le> 6"
  then have "t = 0 \<or> t = 1 \<or> t = 2 \<or> t = 3 \<or> t = 4 \<or> t = 5 \<or> t = 6"
    by auto
  then show ?thesis
    by (auto simp: parse_event_type_str_def event_type_str_def strip_prefix_def Let_def)
qed

fun props_fit :: "event_properties \<Rightarrow> bool" where
  "props_fit (Impression _ pos) \<longleftrightarrow> - (2 ^ 31) \<le> pos \<and> pos < 2 ^ 31"
| "props_fit (OpenProps _ pos) \<longleftrightarrow> - (2 ^ 31) \<le> pos \<and> pos < 2 ^ 31"
| "props_fit (Dwell ms) \<longleftrightarrow> - (2 ^ 63) \<le> ms \<and> ms < 2 ^ 63"
| "props_fit _ \<longleftrightarrow> True"

lemma event_properties_roundtrip:
  "props_fit p \<Longrightarrow> parse_record_event_properties (event_properties_to_json (Some p)) = Some p"
  by (cases p) (simp_all add: event_properties_to_json_def parse_record_event_properties_def json_get_json_obj
      str_field_def i32_field_def as_i64_def)

text \<open>
  Printing an event and reading it as a request gives the event's fields back.
\<close>

theorem rest_event_roundtrip:
  assumes "0 \<le> em_type e" "em_type e \<le> 6" "em_occurred_at e = Some t" "em_properties e = Some p" "props_fit p"
    and "parse_rfc3339_to_proto x (timestamp_to_rfc3339 x t) = Some t"
  shows "parse_record_event_request x (event_to_json x e) =
    \<lparr>eq_user_id = em_user_id e, eq_article_id = em_article_id e, eq_type = em_type e, eq_occurred_at = Some t,
     eq_surface = em_surface e, eq_properties = Some p\<rparr>"
  using event_type_roundtrip [OF assms(1,2)] event_properties_roundtrip [OF assms(5)] assms(3,4,6)
  by (simp add: parse_record_event_request_def event_to_json_def json_get_json_obj str_field_def opt_time_def)

end
