(* ===== verification/Rest_Error.thy ===== *)
theory Rest_Error
  imports Authorize Rest_Json
begin

text \<open>
  Errors on their way to a REST client: the text of a domain error and the
  \<open>tonic::Status\<close> with its \<open>ErrorInfo\<close> bytes (\<open>headlines-core/src/error.rs\<close>), and the gateway's
  error type with the HTTP status and JSON body it answers
  (\<open>headlines-rest-gateway/src/error.rs\<close>). Shown: every domain error reaches the client with its
  reason, domain and metadata and with a status that is never a success and that only depends
  on the reason.
\<close>

subsection \<open>Statuses\<close>

datatype tonic_code =
    TOk | TCancelled | TUnknown | TInvalidArgument | TDeadlineExceeded | TNotFound | TAlreadyExists
  | TPermissionDenied | TResourceExhausted | TFailedPrecondition | TAborted | TOutOfRange
  | TUnimplemented | TInternal | TUnavailable | TDataLoss | TUnauthenticated

text \<open>\<open>code as i32\<close>\<close>

fun code_number :: "tonic_code \<Rightarrow> int" where
  "code_number TOk = 0"
| "code_number TCancelled = 1"
| "code_number TUnknown = 2"
| "code_number TInvalidArgument = 3"
| "code_number TDeadlineExceeded = 4"
| "code_number TNotFound = 5"
| "code_number TAlreadyExists = 6"
| "code_number TPermissionDenied = 7"
| "code_number TResourceExhausted = 8"
| "code_number TFailedPrecondition = 9"
| "code_number TAborted = 10"
| "code_number TOutOfRange = 11"
| "code_number TUnimplemented = 12"
| "code_number TInternal = 13"
| "code_number TUnavailable = 14"
| "code_number TDataLoss = 15"
| "code_number TUnauthenticated = 16"

fun tonic_of :: "code \<Rightarrow> tonic_code" where
  "tonic_of Code_NotFound = TNotFound"
| "tonic_of Code_FailedPrecondition = TFailedPrecondition"
| "tonic_of Code_AlreadyExists = TAlreadyExists"
| "tonic_of Code_InvalidArgument = TInvalidArgument"
| "tonic_of Code_ResourceExhausted = TResourceExhausted"
| "tonic_of Code_PermissionDenied = TPermissionDenied"
| "tonic_of Code_Unauthenticated = TUnauthenticated"
| "tonic_of Code_Unimplemented = TUnimplemented"
| "tonic_of Code_Internal = TInternal"

record tonic_status =
  ts_code :: tonic_code
  ts_message :: string
  ts_details :: "u8 list"

text \<open>A status without details, as \<open>Status::permission_denied\<close> and its like build it.\<close>

definition plain_status :: "tonic_code \<Rightarrow> string \<Rightarrow> tonic_status" where
  "plain_status c msg = \<lparr>ts_code = c, ts_message = msg, ts_details = []\<rparr>"

record error_info =
  ei_reason :: string
  ei_domain :: string
  ei_metadata :: "(string \<times> string) list"

text \<open>
  Outside the source: how UUIDs and instants print, and the protobuf codec of
  \<open>google.rpc.Status\<close> (its list of \<open>Any\<close>, each a type URL with bytes) and of \<open>ErrorInfo\<close>.
  Maps have no order: decoding an \<open>ErrorInfo\<close> gives its entries in some order.
\<close>

record error_ext =
  xe_uuid :: "uuid \<Rightarrow> string"
  xe_rfc3339 :: "int \<Rightarrow> string"
  xe_time :: "int \<Rightarrow> string"
  xe_status_encode :: "tonic_code \<Rightarrow> string \<Rightarrow> (string \<times> u8 list) list \<Rightarrow> u8 list"
  xe_status_decode :: "u8 list \<Rightarrow> (string \<times> u8 list) list option"
  xe_info_encode :: "error_info \<Rightarrow> u8 list"
  xe_info_decode :: "u8 list \<Rightarrow> error_info option"

definition error_ext_ok :: "error_ext \<Rightarrow> bool" where
  "error_ext_ok x \<longleftrightarrow>
     (\<forall>c m ds. ds \<noteq> [] \<longrightarrow> xe_status_encode x c m ds \<noteq> []) \<and>
     (\<forall>c m ds. xe_status_decode x (xe_status_encode x c m ds) = Some ds) \<and>
     (\<forall>i. distinct (map fst (ei_metadata i)) \<longrightarrow>
        (\<exists>md. xe_info_decode x (xe_info_encode x i) = Some (i\<lparr>ei_metadata := md\<rparr>) \<and>
           distinct (map fst md) \<and> map_of md = map_of (ei_metadata i)))"

subsection \<open>Domain errors\<close>

fun show_headlines_error :: "error_ext \<Rightarrow> headlines_error \<Rightarrow> string" where
  "show_headlines_error x (AccountNotFound i) = ''account not found: '' @ xe_uuid x i"
| "show_headlines_error x (AccountDeleted i) = ''account deleted: '' @ xe_uuid x i"
| "show_headlines_error x (UserNotFound i) = ''user not found: '' @ xe_uuid x i"
| "show_headlines_error x (UserDeleted i) = ''user deleted: '' @ xe_uuid x i"
| "show_headlines_error x (ArticleNotFound i) = ''article not found: '' @ xe_uuid x i"
| "show_headlines_error x (ArticleTombstoned i) = ''article tombstoned: '' @ xe_uuid x i"
| "show_headlines_error x (DraftNotFound i) = ''draft not found: '' @ xe_uuid x i"
| "show_headlines_error x (DraftNotPublishable i r) = ''draft not publishable: '' @ xe_uuid x i @ '' ('' @ r @ '')''"
| "show_headlines_error x (FollowNotFound u a) =
     ''follow not found: user_id='' @ xe_uuid x u @ '', account_id='' @ xe_uuid x a"
| "show_headlines_error x SelfFollowForbidden = ''self-follow forbidden''"
| "show_headlines_error x (KeyNotFound k) = ''key not found: '' @ xe_uuid x k"
| "show_headlines_error x (KeyAlreadyRevoked k) = ''key already revoked: '' @ xe_uuid x k"
| "show_headlines_error x LastActiveKey = ''revoke would leave zero active keys''"
| "show_headlines_error x (InvalidPublicKey r) = ''invalid public key: '' @ r"
| "show_headlines_error x (UnsupportedAlgorithm a) = ''unsupported algorithm: '' @ a"
| "show_headlines_error x (RegistrationDisabled s) = ''registration disabled for surface '' @ s"
| "show_headlines_error x (ContentTooLarge n mx) =
     ''content too large: '' @ show_nat n @ '' bytes (max '' @ show_nat mx @ '')''"
| "show_headlines_error x (InvalidNodeTag t) = ''invalid node tag: '' @ t"
| "show_headlines_error x (InvalidNodeAttr t a) = ''invalid node attr '' @ a @ '' on tag '' @ t"
| "show_headlines_error x EmptyUpdateMask = ''update mask is empty''"
| "show_headlines_error x (UnallowedMaskPath p) = ''unallowed mask path: '' @ p"
| "show_headlines_error x (VersionNotFound a v) =
     ''article version not found: article_id='' @ xe_uuid x a @ '', version='' @ show_int v"
| "show_headlines_error x (VersionAlreadyRedacted a v) =
     ''version already redacted: article_id='' @ xe_uuid x a @ '', version='' @ show_int v"
| "show_headlines_error x (FeedTooLarge n mx) = ''feed too large: '' @ show_nat n @ '' (max '' @ show_nat mx @ '')''"
| "show_headlines_error x (DuplicateArticleId i) = ''duplicate article id in feed: '' @ xe_uuid x i"
| "show_headlines_error x (InvalidCursor r) = ''invalid cursor: '' @ r"
| "show_headlines_error x (EventTypeMismatch t p) = ''event type '' @ t @ '' does not match properties '' @ p"
| "show_headlines_error x (EventTimestampOutOfRange t) = ''event timestamp out of range: '' @ xe_time x t"
| "show_headlines_error x (BatchTooLarge n mx) = ''batch too large: '' @ show_nat n @ '' (max '' @ show_nat mx @ '')''"
| "show_headlines_error x (UnauthorizedUserId e g) =
     ''unauthorized user id: expected '' @ xe_uuid x e @ '', got '' @ xe_uuid x g"
| "show_headlines_error x (IdempotencyKeyMismatch k) = ''idempotency key conflict: '' @ k"
| "show_headlines_error x (NotImplementedInV1 r) = ''rpc not implemented in v1: '' @ r"
| "show_headlines_error x (InvalidArgument f r) = ''invalid argument: field='' @ f @ '', reason='' @ r"
| "show_headlines_error x (headlines_error.Unauthenticated r) = ''unauthenticated: '' @ r"
| "show_headlines_error x (Internal e) = ''internal: '' @ e"

definition ERROR_INFO_URL :: string where
  "ERROR_INFO_URL = ''type.googleapis.com/google.rpc.ErrorInfo''"

text \<open>\<open>From<HeadlinesError> for tonic::Status\<close>, down to the bytes of the details.\<close>

definition domain_status :: "error_ext \<Rightarrow> headlines_error \<Rightarrow> tonic_status" where
  "domain_status x e =
     (let c = tonic_of (error_code e); msg = show_headlines_error x e;
          info = \<lparr>ei_reason = reason e, ei_domain = ERROR_DOMAIN, ei_metadata = metadata (xe_uuid x) (xe_rfc3339 x) e\<rparr>
      in \<lparr>ts_code = c, ts_message = msg,
          ts_details = xe_status_encode x c msg [(ERROR_INFO_URL, xe_info_encode x info)]\<rparr>)"

fun rpc_tonic_status :: "error_ext \<Rightarrow> rpc_error \<Rightarrow> tonic_status" where
  "rpc_tonic_status x (Domain e) = domain_status x e"
| "rpc_tonic_status x (Denied msg) = plain_status TPermissionDenied msg"

fun layer_status :: "grpc_status \<Rightarrow> tonic_status" where
  "layer_status (UnauthenticatedStatus msg) = plain_status TUnauthenticated msg"
| "layer_status (PermissionDenied msg) = plain_status TPermissionDenied msg"

subsection \<open>The gateway's errors\<close>

datatype gateway_error =
    GrpcError tonic_status
  | TransportError string
  | JsonReject int tonic_code string

text \<open>\<open>axum\<close>'s rejection of a JSON body, with the text of the cause.\<close>

datatype json_rejection =
    MissingJsonContentType
  | JsonDataError string
  | JsonSyntaxError string
  | BytesRejection string
  | OtherRejection string

fun gateway_of_rejection :: "json_rejection \<Rightarrow> gateway_error" where
  "gateway_of_rejection MissingJsonContentType =
     JsonReject 415 TInvalidArgument ''expected request with Content-Type: application/json''"
| "gateway_of_rejection (JsonDataError e) = JsonReject 400 TInvalidArgument (''malformed JSON: '' @ e)"
| "gateway_of_rejection (JsonSyntaxError e) = JsonReject 400 TInvalidArgument (''malformed JSON: '' @ e)"
| "gateway_of_rejection (BytesRejection e) = JsonReject 429 TResourceExhausted (''request body too large: '' @ e)"
| "gateway_of_rejection (OtherRejection e) = JsonReject 400 TInvalidArgument e"

fun grpc_code_to_http :: "tonic_code \<Rightarrow> int" where
  "grpc_code_to_http TOk = 200"
| "grpc_code_to_http TInvalidArgument = 400"
| "grpc_code_to_http TUnauthenticated = 401"
| "grpc_code_to_http TPermissionDenied = 403"
| "grpc_code_to_http TNotFound = 404"
| "grpc_code_to_http TAlreadyExists = 409"
| "grpc_code_to_http TFailedPrecondition = 400"
| "grpc_code_to_http TResourceExhausted = 429"
| "grpc_code_to_http TUnimplemented = 501"
| "grpc_code_to_http TInternal = 500"
| "grpc_code_to_http TUnavailable = 503"
| "grpc_code_to_http _ = 500"

definition any_to_json_detail :: "error_ext \<Rightarrow> string \<times> u8 list \<Rightarrow> json" where
  "any_to_json_detail x a =
     (let type_url = fst a; stub = json_obj [(''@type'', JStr type_url)]
      in if type_url = ERROR_INFO_URL
         then (case xe_info_decode x (snd a) of
                 Some info \<Rightarrow>
                   let md = foldl (\<lambda>obj k. case map_of (ei_metadata info) k of
                              Some v \<Rightarrow> json_insert k (JStr v) obj | None \<Rightarrow> obj) []
                            (sort (map fst (ei_metadata info)))
                   in json_obj [(''@type'', JStr type_url), (''reason'', JStr (ei_reason info)),
                        (''domain'', JStr (ei_domain info)), (''metadata'', JObj md)]
               | None \<Rightarrow> stub)
         else stub)"

definition decode_status_details :: "error_ext \<Rightarrow> u8 list \<Rightarrow> json list" where
  "decode_status_details x details_bytes =
     (if details_bytes = [] then []
      else case xe_status_decode x details_bytes of
             None \<Rightarrow> []
           | Some ds \<Rightarrow> map (any_to_json_detail x) ds)"

definition into_response :: "error_ext \<Rightarrow> gateway_error \<Rightarrow> int \<times> json" where
  "into_response x err =
     (let (http, c, msg, details) =
        (case err of
           GrpcError s \<Rightarrow> (grpc_code_to_http (ts_code s), code_number (ts_code s), ts_message s,
                           decode_status_details x (ts_details s))
         | TransportError e \<Rightarrow> (503, code_number TUnavailable, e, [])
         | JsonReject http_status grpc_code msg \<Rightarrow> (http_status, code_number grpc_code, msg, []))
      in (http, json_obj [(''code'', JNum c), (''message'', JStr msg), (''details'', JArr details)]))"

subsection \<open>Properties\<close>

lemma metadata_distinct: "distinct (map fst (metadata us rfc e))"
  by (cases e) simp_all

lemma any_to_json_metadata:
  "any_to_json_detail x (ERROR_INFO_URL, bs) =
     (case xe_info_decode x bs of
        Some info \<Rightarrow> json_obj [(''@type'', JStr ERROR_INFO_URL), (''reason'', JStr (ei_reason info)),
          (''domain'', JStr (ei_domain info)), (''metadata'', JObj (attrs_to_json (ei_metadata info)))]
      | None \<Rightarrow> json_obj [(''@type'', JStr ERROR_INFO_URL)])"
  by (simp add: any_to_json_detail_def attrs_to_json_def Let_def option.case_eq_if cong: if_cong)

text \<open>Printing sorts the keys, so the order in which a map is listed does not show.\<close>

lemma attrs_to_json_cong:
  assumes "distinct (map fst xs)" "distinct (map fst ys)" "map_of xs = map_of ys"
  shows "attrs_to_json xs = attrs_to_json ys"
proof -
  have "set (map fst xs) = set (map fst ys)"
    using assms(3) by (metis dom_map_of_conv_image_fst list.set_map)
  then have "sort (map fst xs) = sort (map fst ys)"
    using assms(1,2) by (intro sorted_distinct_set_unique) simp_all
  with assms(3) show ?thesis
    by (simp add: attrs_to_json_def)
qed

lemma attrs_to_json_get:
  assumes "distinct (map fst attrs)"
  shows "map_of (attrs_to_json attrs) k = map_option JStr (map_of attrs k)"
proof -
  have "map_of (sort_key fst attrs) = map_of attrs"
    using assms by (subst map_of_inject_set) (simp_all add: map_fst_sort)
  then show ?thesis
    by (simp add: attrs_to_json_eq [OF assms] map_of_map)
qed

lemma domain_details:
  assumes "error_ext_ok x"
  shows "decode_status_details x (ts_details (domain_status x e)) =
    [json_obj [(''@type'', JStr ERROR_INFO_URL), (''reason'', JStr (reason e)), (''domain'', JStr ERROR_DOMAIN),
       (''metadata'', JObj (attrs_to_json (metadata (xe_uuid x) (xe_rfc3339 x) e)))]]"
proof -
  let ?i = "\<lparr>ei_reason = reason e, ei_domain = ERROR_DOMAIN, ei_metadata = metadata (xe_uuid x) (xe_rfc3339 x) e\<rparr>"
  obtain md where "xe_info_decode x (xe_info_encode x ?i) = Some (?i\<lparr>ei_metadata := md\<rparr>)"
    "distinct (map fst md)" "map_of md = map_of (ei_metadata ?i)"
    using assms metadata_distinct unfolding error_ext_ok_def by (metis error_info.select_convs(3))
  moreover have "xe_status_encode x c m [a] \<noteq> []" "xe_status_decode x (xe_status_encode x c m [a]) = Some [a]" for c m a
    using assms by (simp_all add: error_ext_ok_def)
  ultimately show ?thesis
    using attrs_to_json_cong [OF _ metadata_distinct, of md]
    by (simp add: decode_status_details_def domain_status_def Let_def any_to_json_metadata)
qed

lemma domain_http: "grpc_code_to_http (tonic_of (error_code e)) \<in> {400, 401, 403, 404, 409, 429, 500, 501}"
  by (cases "error_code e") simp_all

text \<open>C29. The error a REST client sees: whatever domain error a service answers, the HTTP status
  is one of the eight error statuses of the published table and the same for all errors with
  that reason, and the body carries the number of the gRPC code, the text of the error and
  exactly one detail with its reason, its domain and each entry of its metadata.
\<close>

theorem rest_error_envelope:
  assumes "error_ext_ok x"
  shows "\<exists>http body.
    into_response x (GrpcError (domain_status x e)) = (http, body) \<and>
    http \<in> {400, 401, 403, 404, 409, 429, 500, 501} \<and>
    (\<forall>e'. reason e' = reason e \<longrightarrow> fst (into_response x (GrpcError (domain_status x e'))) = http) \<and>
    json_get ''code'' body = Some (JNum (code_number (tonic_of (error_code e)))) \<and>
    json_get ''message'' body = Some (JStr (show_headlines_error x e)) \<and>
    (\<exists>detail md. json_get ''details'' body = Some (JArr [detail]) \<and>
       json_get ''reason'' detail = Some (JStr (reason e)) \<and>
       json_get ''domain'' detail = Some (JStr ''headlines.v1'') \<and>
       json_get ''metadata'' detail = Some md \<and>
       (\<forall>k. json_get k md = map_option JStr (map_of (metadata (xe_uuid x) (xe_rfc3339 x) e) k)))"
proof -
  let ?md = "metadata (xe_uuid x) (xe_rfc3339 x)"
  let ?detail = "\<lambda>e. json_obj [(''@type'', JStr ERROR_INFO_URL), (''reason'', JStr (reason e)),
    (''domain'', JStr ERROR_DOMAIN), (''metadata'', JObj (attrs_to_json (?md e)))]"
  let ?body = "json_obj [(''code'', JNum (code_number (tonic_of (error_code e)))),
    (''message'', JStr (show_headlines_error x e)), (''details'', JArr [?detail e])]"
  have same: "error_code e' = error_code e" if "reason e' = reason e" for e'
    using that status_determined_by_reason [of "xe_uuid x" "xe_rfc3339 x" e' e] by (simp add: status_from_def)
  have resp: "into_response x (GrpcError (domain_status x e')) =
      (grpc_code_to_http (tonic_of (error_code e')), json_obj [(''code'', JNum (code_number (tonic_of (error_code e')))),
         (''message'', JStr (show_headlines_error x e')), (''details'', JArr [?detail e'])])" for e'
    by (simp add: into_response_def domain_details [OF assms]) (simp add: domain_status_def Let_def)
  have md: "json_get k (JObj (attrs_to_json (?md e))) = map_option JStr (map_of (?md e) k)" for k
    by (simp add: attrs_to_json_get metadata_distinct)
  have d: "json_get ''reason'' (?detail e) = Some (JStr (reason e))"
    "json_get ''domain'' (?detail e) = Some (JStr ''headlines.v1'')"
    "json_get ''metadata'' (?detail e) = Some (JObj (attrs_to_json (?md e)))"
    by (simp_all add: json_get_json_obj ERROR_DOMAIN_def)
  show ?thesis
  proof (intro exI conjI)
    show "into_response x (GrpcError (domain_status x e)) = (grpc_code_to_http (tonic_of (error_code e)), ?body)"
      by (rule resp)
    show "grpc_code_to_http (tonic_of (error_code e)) \<in> {400, 401, 403, 404, 409, 429, 500, 501}"
      by (rule domain_http)
    show "\<forall>e'. reason e' = reason e \<longrightarrow>
        fst (into_response x (GrpcError (domain_status x e'))) = grpc_code_to_http (tonic_of (error_code e))"
      by (intro allI impI) (drule same, simp only: resp fst_conv)
    show "json_get ''details'' ?body = Some (JArr [?detail e])"
      by (simp add: json_get_json_obj)
    show "\<forall>k. json_get k (JObj (attrs_to_json (?md e))) = map_option JStr (map_of (?md e) k)"
      using md by blast
  qed (simp_all only: d, simp_all add: json_get_json_obj)
qed

subsection \<open>Witness\<close>

text \<open>A codec that marks each byte with \<open>1\<close> and the end of each string with \<open>0\<close>.\<close>

definition demo_enc :: "u8 list list \<Rightarrow> u8 list" where
  "demo_enc xss = concat (map (\<lambda>xs. concat (map (\<lambda>b. [1, b]) xs) @ [0]) xss)"

fun demo_dec :: "u8 list \<Rightarrow> u8 list \<Rightarrow> u8 list list" where
  "demo_dec acc [] = []"
| "demo_dec acc [b] = (if b = 0 then [rev acc] else [])"
| "demo_dec acc (b # c # rest) = (if b = 0 then rev acc # demo_dec [] (c # rest) else demo_dec (c # acc) rest)"

definition demo_bytes :: "string \<Rightarrow> u8 list" where
  "demo_bytes s = map (\<lambda>c. of_nat (of_char c)) s"

definition demo_string :: "u8 list \<Rightarrow> string" where
  "demo_string bs = map (\<lambda>b. char_of (unat b)) bs"

fun demo_pairs :: "'a list \<Rightarrow> ('a \<times> 'a) list" where
  "demo_pairs (a # b # rest) = (a, b) # demo_pairs rest"
| "demo_pairs _ = []"

lemma demo_dec_zero: "demo_dec acc (0 # rest) = rev acc # demo_dec [] rest"
  by (cases rest) simp_all

lemma demo_dec_string: "demo_dec acc (concat (map (\<lambda>b. [1, b]) xs) @ 0 # rest) = (rev acc @ xs) # demo_dec [] rest"
  by (induction xs arbitrary: acc) (simp_all add: demo_dec_zero)

lemma demo_dec_enc: "demo_dec [] (demo_enc xss) = xss"
  by (induction xss) (simp_all add: demo_enc_def demo_dec_string)

lemma demo_string_bytes: "demo_string (demo_bytes s) = s"
proof -
  have "char_of (unat (of_nat (of_char c) :: u8)) = c" for c
    by (simp add: unat_of_nat)
  then show ?thesis
    by (simp add: demo_string_def demo_bytes_def comp_def)
qed

lemma demo_pairs_concat: "demo_pairs (concat (map (\<lambda>(a, b). [f a, g b]) ps)) = map (\<lambda>(a, b). (f a, g b)) ps"
  by (induction ps) auto

definition demo_error_ext :: error_ext where
  "demo_error_ext = \<lparr>xe_uuid = (\<lambda>_. ''u''), xe_rfc3339 = (\<lambda>_. ''t''), xe_time = (\<lambda>_. ''t''),
     xe_status_encode = (\<lambda>_ _ ds. demo_enc (concat (map (\<lambda>(u, b). [demo_bytes u, b]) ds))),
     xe_status_decode = (\<lambda>bs. Some (map (\<lambda>(u, b). (demo_string u, b)) (demo_pairs (demo_dec [] bs)))),
     xe_info_encode = (\<lambda>i. demo_enc (concat (map (\<lambda>(a, b). [demo_bytes a, demo_bytes b])
       ((ei_reason i, ei_domain i) # ei_metadata i)))),
     xe_info_decode = (\<lambda>bs. case map (\<lambda>(a, b). (demo_string a, demo_string b)) (demo_pairs (demo_dec [] bs)) of
       (r, dm) # md \<Rightarrow> Some \<lparr>ei_reason = r, ei_domain = dm, ei_metadata = md\<rparr> | [] \<Rightarrow> None)\<rparr>"

lemma demo_error_ok: "error_ext_ok demo_error_ext"
proof -
  have enc_ne: "demo_enc (a # xss) \<noteq> []" for a xss
    by (simp add: demo_enc_def)
  have "demo_enc (concat (map (\<lambda>(u, b). [demo_bytes u, b]) ds)) \<noteq> []" if "ds \<noteq> []" for ds
    using that enc_ne by (cases ds) (auto split: prod.splits)
  moreover have "map (\<lambda>(u, b). (demo_string u, b)) (map (\<lambda>(u, b). (demo_bytes u, b)) ds) = ds" for ds :: "(string \<times> u8 list) list"
    by (induction ds) (auto simp: demo_string_bytes)
  moreover have "map (\<lambda>(u, b). (demo_string u, demo_string b)) (map (\<lambda>(u, b). (demo_bytes u, demo_bytes b)) ds) = ds"
    for ds :: "(string \<times> string) list"
    by (induction ds) (auto simp: demo_string_bytes)
  moreover have "\<exists>md. \<lparr>ei_reason = ei_reason i, ei_domain = ei_domain i, ei_metadata = ei_metadata i\<rparr> = i\<lparr>ei_metadata := md\<rparr> \<and>
      distinct (map fst md) \<and> map_of md = map_of (ei_metadata i)" if "distinct (map fst (ei_metadata i))" for i
    using that by (intro exI [of _ "ei_metadata i"]) simp
  ultimately show ?thesis
    using demo_pairs_concat [where f = demo_bytes and g = "\<lambda>b. b"] demo_pairs_concat [where f = demo_bytes and g = demo_bytes]
    by (auto simp: error_ext_ok_def demo_error_ext_def demo_dec_enc demo_string_bytes simp del: map_map)
qed

theorem rest_error_envelope_witness:
  "\<exists>detail. json_get ''details'' (snd (into_response demo_error_ext
      (GrpcError (domain_status demo_error_ext (ArticleTombstoned 1))))) = Some (JArr [detail]) \<and>
    json_get ''reason'' detail = Some (JStr ''ARTICLE_TOMBSTONED'')"
  using rest_error_envelope [OF demo_error_ok, of "ArticleTombstoned 1"] by (auto simp: reason_def)

end
