(* ===== verification/Store_Invariant.thy ===== *)
theory Store_Invariant
  imports Draft_Service Feed Event
begin

text \<open>
  The services on one database. Every RPC that writes is a constructor of \<open>api_call\<close>;
  \<open>serve\<close> runs its handler, as the router of \<open>headlines-server/src/main.rs\<close> does. The
  reachable databases are those that any sequence of calls, by any subjects and with fresh
  ids, leaves. Shown: the invariant of all tables holds in each of them, and a call that
  answers an error has changed nothing.
\<close>

subsection \<open>The invariant\<close>

text \<open>
  Accounts and users with their keys: unique ids, known states, every key belongs to someone
  and nobody is without a key.
\<close>

definition owners_ok :: "('r \<Rightarrow> uuid) \<Rightarrow> ('r \<Rightarrow> string) \<Rightarrow> 'r list \<Rightarrow> key_row list \<Rightarrow> bool" where
  "owners_ok id_of status_of owners keys \<longleftrightarrow> pk id_of owners \<and> pk kr_key keys \<and>
     list_all (\<lambda>r. status_of r \<in> {''active'', ''deleted''} \<and> id_of r \<in> kr_parent_id ` set keys) owners \<and>
     list_all (\<lambda>k. kr_status k \<in> {''active'', ''revoked''} \<and> kr_parent_id k \<in> id_of ` set owners) keys"

definition identities_ok :: "db \<Rightarrow> bool" where
  "identities_ok d \<longleftrightarrow> owners_ok ac_id ac_status (accounts d) (account_keys d) \<and>
     owners_ok us_id us_status (users d) (user_keys d)"

definition feeds_ok :: "db \<Rightarrow> bool" where
  "feeds_ok d \<longleftrightarrow> pk fr_key (feed_recommendation d) \<and>
     list_all (\<lambda>r. fr_user_id r \<in> us_id ` set (users d)) (feed_recommendation d)"

definition contents_ok :: "db \<Rightarrow> bool" where
  "contents_ok d \<longleftrightarrow> articles_ok d \<and> list_all (\<lambda>a. ar_account_id a \<in> ac_id ` set (accounts d)) (articles d) \<and>
     drafts_ok d \<and> list_all authors_ok (drafts d)"

definition store_ok :: "svc_ext \<Rightarrow> db \<Rightarrow> bool" where
  "store_ok x d \<longleftrightarrow> identities_ok d \<and> contents_ok d \<and> follows_ok d \<and> feeds_ok d \<and> events_ok x d"

lemma store_okI [intro?]:
  "identities_ok d \<Longrightarrow> contents_ok d \<Longrightarrow> follows_ok d \<Longrightarrow> feeds_ok d \<Longrightarrow> events_ok x d \<Longrightarrow> store_ok x d"
  by (simp add: store_ok_def)

lemma store_okD:
  assumes "store_ok x d"
  shows "identities_ok d" "contents_ok d" "follows_ok d" "feeds_ok d" "events_ok x d"
    "articles_ok d" "drafts_ok d"
  using assms by (simp_all add: store_ok_def contents_ok_def)

subsection \<open>Identities\<close>

lemma image_update_row: "(\<And>r. g (f r) = g r) \<Longrightarrow> g ` set (update_row key k f t) = g ` set t"
  by (induction t) (simp_all add: update_row_def)

lemma in_update_row: "r \<in> set (update_row key k f t) \<Longrightarrow> \<exists>r0 \<in> set t. r = r0 \<or> r = f r0"
  by (auto simp: update_row_def)

lemma update_row_absent: "k \<notin> key ` set t \<Longrightarrow> update_row key k f t = t"
  by (induction t) (auto simp: update_row_def)

lemma owners_ok_update:
  assumes "owners_ok id_of status_of owners keys"
    and "\<And>r. id_of (f r) = id_of r" "\<And>r. status_of (f r) \<in> {status_of r, ''deleted''}"
  shows "owners_ok id_of status_of (update_row id_of i f owners) keys"
proof -
  have "id_of ` set (update_row id_of i f owners) = id_of ` set owners"
    using assms(2) by (rule image_update_row)
  moreover have "list_all (\<lambda>r. status_of r \<in> {''active'', ''deleted''} \<and> id_of r \<in> kr_parent_id ` set keys)
      (update_row id_of i f owners)"
    unfolding list_all_iff
  proof
    fix r assume "r \<in> set (update_row id_of i f owners)"
    then obtain r0 where "r0 \<in> set owners" "r = r0 \<or> r = f r0"
      using in_update_row by metis
    then show "status_of r \<in> {''active'', ''deleted''} \<and> id_of r \<in> kr_parent_id ` set keys"
      using assms(1) assms(2,3) [of r0] by (auto simp: owners_ok_def list_all_iff)
  qed
  ultimately show ?thesis
    using assms(1,2) by (simp add: owners_ok_def pk_update_row)
qed

lemma owners_ok_revoke:
  assumes "owners_ok id_of status_of owners keys"
  shows "owners_ok id_of status_of owners (update_row kr_key k (revoke_row now) keys)"
proof -
  have "kr_parent_id ` set (update_row kr_key k (revoke_row now) keys) = kr_parent_id ` set keys"
    by (rule image_update_row) (simp add: revoke_row_def)
  moreover have "list_all (\<lambda>k. kr_status k \<in> {''active'', ''revoked''} \<and> kr_parent_id k \<in> id_of ` set owners)
      (update_row kr_key k (revoke_row now) keys)"
    using assms by (auto simp: owners_ok_def list_all_iff revoke_row_def dest!: in_update_row)
  ultimately show ?thesis
    using assms by (simp add: owners_ok_def pk_update_row)
qed

lemma owners_ok_key:
  assumes "owners_ok id_of status_of owners keys" "nk_parent_id new \<in> id_of ` set owners"
    and "lookup kr_key (kr_key (new_key_row now new)) keys = None"
  shows "owners_ok id_of status_of owners (keys @ [new_key_row now new])"
  using assms by (auto simp: owners_ok_def list_all_iff pk_snoc) (simp_all add: new_key_row_def)

lemma owners_ok_create:
  assumes "owners_ok id_of status_of owners keys" "lookup id_of (id_of r) owners = None"
    and "status_of r = ''active''" "nk_parent_id new = id_of r"
  shows "owners_ok id_of status_of (owners @ [r]) (keys @ [new_key_row now new])"
    "lookup kr_key (kr_key (new_key_row now new)) keys = None"
proof -
  show n: "lookup kr_key (kr_key (new_key_row now new)) keys = None"
    using assms by (force simp: owners_ok_def list_all_iff lookup_None kr_key_def new_key_row_def)
  show "owners_ok id_of status_of (owners @ [r]) (keys @ [new_key_row now new])"
    using assms n by (auto simp: owners_ok_def list_all_iff pk_snoc) (simp_all add: new_key_row_def)
qed

text \<open>The rest of the store only needs the accounts and users to stay.\<close>

lemma store_ok_identities:
  assumes "store_ok x d" "identities_ok (d\<lparr>accounts := as, account_keys := ak, users := us, user_keys := uk\<rparr>)"
    and "ac_id ` set (accounts d) \<subseteq> ac_id ` set as" "us_id ` set (users d) \<subseteq> us_id ` set us"
  shows "store_ok x (d\<lparr>accounts := as, account_keys := ak, users := us, user_keys := uk\<rparr>)"
proof
  let ?d = "d\<lparr>accounts := as, account_keys := ak, users := us, user_keys := uk\<rparr>"
  note d = store_okD [OF assms(1)]
  show "contents_ok ?d"
    using d(2) assms(3) same_articles_cong(1) [of d ?d]
    by (auto simp: contents_ok_def same_articles_def drafts_ok_def list_all_iff lookup_None)
  show "follows_ok ?d"
    using d(3) assms(3,4) by (auto simp: follows_ok_def list_all_iff lookup_None)
  show "feeds_ok ?d"
    using d(4) assms(4) by (auto simp: feeds_ok_def list_all_iff)
  show "events_ok x ?d"
    using d(5) by (simp add: events_ok_def)
qed (rule assms(2))

lemma store_ok_accounts:
  assumes "store_ok x d" "owners_ok ac_id ac_status as ak" "ac_id ` set (accounts d) \<subseteq> ac_id ` set as"
  shows "store_ok x (d\<lparr>accounts := as, account_keys := ak\<rparr>)"
  using store_ok_identities [OF assms(1), where as = as and ak = ak and us = "users d" and uk = "user_keys d"] assms(2,3) store_okD(1) [OF assms(1)]
  by (simp add: identities_ok_def)

lemma store_ok_users:
  assumes "store_ok x d" "owners_ok us_id us_status us uk" "us_id ` set (users d) \<subseteq> us_id ` set us"
  shows "store_ok x (d\<lparr>users := us, user_keys := uk\<rparr>)"
  using store_ok_identities [OF assms(1), where as = "accounts d" and ak = "account_keys d" and us = us and uk = uk] assms(2,3) store_okD(1) [OF assms(1)]
  by (simp add: identities_ok_def)

lemma account_owners: "store_ok x d \<Longrightarrow> owners_ok ac_id ac_status (accounts d) (account_keys d)"
  by (simp add: store_ok_def identities_ok_def)

lemma user_owners: "store_ok x d \<Longrightarrow> owners_ok us_id us_status (users d) (user_keys d)"
  by (simp add: store_ok_def identities_ok_def)

text \<open>Rows of known state load.\<close>

lemma account_row_loads:
  assumes "owners_ok ac_id ac_status as ak" "lookup ac_id i as = Some r"
  shows "\<exists>a. account_of_row r = Inr a"
  using assms lookup_SomeD [OF assms(2)] by (auto simp: owners_ok_def list_all_iff account_of_row_def)

lemma user_row_loads:
  assumes "owners_ok us_id us_status us uk" "lookup us_id i us = Some r"
  shows "\<exists>a. user_of_row r = Inr a"
  using assms lookup_SomeD [OF assms(2)] by (auto simp: owners_ok_def list_all_iff user_of_row_def)

lemma owners_ok_set_account:
  assumes "owners_ok ac_id ac_status as ak" "\<And>v r. ac_id (f v r) = ac_id r" "\<And>v r. ac_status (f v r) = ac_status r"
  shows "owners_ok ac_id ac_status (set_account i m f as) ak" "ac_id ` set (set_account i m f as) = ac_id ` set as"
  using owners_ok_update [OF assms(1), of "f (the m)" i] image_update_row [of ac_id "f (the m)" ac_id i as] assms
  by (auto simp: set_account_def split: option.splits)

lemma lookup_in_image: "lookup key k t \<noteq> None \<longleftrightarrow> k \<in> key ` set t"
  using lookup_None [of key k t] by simp

lemma account_update_keeps [keeps_intros]:
  assumes "store_ok x d"
  shows "keeps (store_ok x) d (account_update_op now i upd d)"
proof (cases "lookup ac_id i (accounts d)")
  case (Some row)
  show ?thesis
  proof (cases "ac_status row = ''deleted''")
    case False
    let ?t1 = "set_account i (au_short_name upd) (\<lambda>v r. r\<lparr>ac_short_name := v, ac_updated_at := now\<rparr>) (accounts d)"
    let ?t2 = "set_account i (au_author_name upd) (\<lambda>v r. r\<lparr>ac_author_name := v, ac_updated_at := now\<rparr>) ?t1"
    let ?t3 = "set_account i (au_author_url upd) (\<lambda>v r. r\<lparr>ac_author_url := null_if_empty v, ac_updated_at := now\<rparr>) ?t2"
    have o1: "owners_ok ac_id ac_status ?t1 (account_keys d)" "ac_id ` set ?t1 = ac_id ` set (accounts d)"
      by (rule owners_ok_set_account [OF account_owners [OF assms]]; simp)+
    have o2: "owners_ok ac_id ac_status ?t2 (account_keys d)" "ac_id ` set ?t2 = ac_id ` set ?t1"
      by (rule owners_ok_set_account [OF o1(1)]; simp)+
    have o3: "owners_ok ac_id ac_status ?t3 (account_keys d)" "ac_id ` set ?t3 = ac_id ` set ?t2"
      by (rule owners_ok_set_account [OF o2(1)]; simp)+
    obtain r where r: "lookup ac_id i ?t3 = Some r"
      using Some lookup_in_image [of ac_id i ?t3] lookup_in_image [of ac_id i "accounts d"] o1(2) o2(2) o3(2) by auto
    then obtain a where "account_of_row r = Inr a"
      using account_row_loads [OF o3(1)] by blast
    then have "account_update_op now i upd d = (Inr a, d\<lparr>accounts := ?t3\<rparr>)"
      using Some False r by (simp add: account_update_op_def Let_def)
    then show ?thesis
      using store_ok_accounts [OF assms o3(1)] o1(2) o2(2) o3(2) by (simp add: keeps_def)
  qed (use assms Some in \<open>simp add: account_update_op_def keeps_def\<close>)
qed (use assms in \<open>simp add: account_update_op_def keeps_def\<close>)

lemma account_soft_delete_keeps [keeps_intros]:
  assumes "store_ok x d"
  shows "keeps (store_ok x) d (account_soft_delete now i d)"
proof -
  let ?t = "update_row ac_id i (\<lambda>r. r\<lparr>ac_status := ''deleted'', ac_deleted_at := Some now, ac_updated_at := now\<rparr>)
    (accounts d)"
  have t: "owners_ok ac_id ac_status ?t (account_keys d)" "ac_id ` set ?t = ac_id ` set (accounts d)"
    by (rule owners_ok_update [OF account_owners [OF assms]]; simp) (rule image_update_row; simp)
  show ?thesis
  proof (cases "lookup ac_id i ?t")
    case None
    then have "?t = accounts d"
      using t(2) by (simp add: lookup_None update_row_absent)
    then show ?thesis
      using assms None by (simp add: account_soft_delete_def keeps_def)
  next
    case (Some r)
    with account_row_loads [OF t(1) Some] store_ok_accounts [OF assms t(1)] t(2) show ?thesis
      by (auto simp: account_soft_delete_def keeps_def)
  qed
qed

lemma user_update_keeps [keeps_intros]:
  assumes "store_ok x d"
  shows "keeps (store_ok x) d (user_update_op i name d)"
proof (cases "lookup us_id i (users d)")
  case (Some row)
  show ?thesis
  proof (cases "us_status row = ''deleted''")
    case False
    let ?t = "case name of None \<Rightarrow> users d
      | Some v \<Rightarrow> update_row us_id i (\<lambda>r. r\<lparr>us_display_name := null_if_empty v\<rparr>) (users d)"
    have t: "owners_ok us_id us_status ?t (user_keys d)" "us_id ` set ?t = us_id ` set (users d)"
      using user_owners [OF assms] by (auto split: option.split intro!: owners_ok_update image_update_row)
    obtain r where r: "lookup us_id i ?t = Some r"
      using Some lookup_in_image [of us_id i ?t] lookup_in_image [of us_id i "users d"] t(2) by auto
    then obtain u where "user_of_row r = Inr u"
      using user_row_loads [OF t(1)] by blast
    then have "user_update_op i name d = (Inr u, d\<lparr>users := ?t\<rparr>)"
      using Some False r by (simp add: user_update_op_def Let_def)
    then show ?thesis
      using store_ok_users [OF assms t(1)] t(2) by (simp add: keeps_def)
  qed (use assms Some in \<open>simp add: user_update_op_def keeps_def\<close>)
qed (use assms in \<open>simp add: user_update_op_def keeps_def\<close>)

lemma user_soft_delete_keeps [keeps_intros]:
  assumes "store_ok x d"
  shows "keeps (store_ok x) d (user_soft_delete now i d)"
proof -
  let ?t = "update_row us_id i (\<lambda>r. r\<lparr>us_status := ''deleted'', us_deleted_at := Some now\<rparr>) (users d)"
  have t: "owners_ok us_id us_status ?t (user_keys d)" "us_id ` set ?t = us_id ` set (users d)"
    by (rule owners_ok_update [OF user_owners [OF assms]]; simp) (rule image_update_row; simp)
  show ?thesis
  proof (cases "lookup us_id i ?t")
    case None
    then have "?t = users d"
      using t(2) by (simp add: lookup_None update_row_absent)
    then show ?thesis
      using assms None by (simp add: user_soft_delete_def keeps_def)
  next
    case (Some r)
    with user_row_loads [OF t(1) Some] store_ok_users [OF assms t(1)] t(2) show ?thesis
      by (auto simp: user_soft_delete_def keeps_def)
  qed
qed

lemma new_key_loads: "\<exists>s. key_of_row kind table (new_key_row now new) = Inr s"
  by (simp add: key_of_row_def parse_status_def new_key_row_def)

lemma key_create_keeps [keeps_intros]:
  assumes "store_ok x d"
  shows "keeps (store_ok x) d (key_create now new d)"
proof (cases "nk_kind new")
  case KAccount
  show ?thesis
  proof (cases "insert_checked (nk_parent_id new \<in> ac_id ` set (accounts d)) kr_key
      (Internal ''insert account_key'') (new_key_row now new) (account_keys d)")
    case (Inr t)
    then have "store_ok x (d\<lparr>accounts := accounts d, account_keys := t\<rparr>)"
      unfolding insert_checked_Inr using owners_ok_key [OF account_owners [OF assms]]
      by (intro store_ok_accounts [OF assms]) auto
    then show ?thesis
      using new_key_loads [of KAccount "''account_keys''" now new] Inr KAccount
      by (auto simp: key_create_def keeps_def)
  qed (use assms KAccount in \<open>simp add: key_create_def keeps_def\<close>)
next
  case KUser
  show ?thesis
  proof (cases "insert_checked (nk_parent_id new \<in> us_id ` set (users d)) kr_key
      (Internal ''insert user_key'') (new_key_row now new) (user_keys d)")
    case (Inr t)
    then have "store_ok x (d\<lparr>users := users d, user_keys := t\<rparr>)"
      unfolding insert_checked_Inr using owners_ok_key [OF user_owners [OF assms]]
      by (intro store_ok_users [OF assms]) auto
    then show ?thesis
      using new_key_loads [of KUser "''user_keys''" now new] Inr KUser
      by (auto simp: key_create_def keeps_def)
  qed (use assms KUser in \<open>simp add: key_create_def keeps_def\<close>)
qed (use assms in \<open>simp add: key_create_def keeps_def\<close>)

lemma revoked_key_loads:
  assumes "lookup kr_key k keys = Some row"
  shows "\<exists>r s. lookup kr_key k (update_row kr_key k (revoke_row now) keys) = Some r \<and>
    key_of_row kind table r = Inr s"
proof -
  have "lookup kr_key k (update_row kr_key k (revoke_row now) keys) = Some (revoke_row now row)"
    using assms by (simp add: lookup_update_row)
  then show ?thesis
    by (simp add: key_of_row_def parse_status_def revoke_row_def)
qed

lemma key_revoke_keeps [keeps_intros]:
  assumes "store_ok x d"
  shows "keeps (store_ok x) d (key_revoke now kind parent kid d)"
proof (cases kind)
  case KAccount
  show ?thesis
  proof (cases "lookup kr_key (parent, kid) (account_keys d)")
    case (Some row)
    with revoked_key_loads [OF Some, of now KAccount "''account_keys''"]
      store_ok_accounts [OF assms owners_ok_revoke [OF account_owners [OF assms]], of "(parent, kid)" now]
    show ?thesis
      using assms by (auto simp: key_revoke_def keeps_def KAccount Let_def)
  qed (use assms KAccount in \<open>simp add: key_revoke_def keeps_def\<close>)
next
  case KUser
  show ?thesis
  proof (cases "lookup kr_key (parent, kid) (user_keys d)")
    case (Some row)
    with revoked_key_loads [OF Some, of now KUser "''user_keys''"]
      store_ok_users [OF assms owners_ok_revoke [OF user_owners [OF assms]], of "(parent, kid)" now]
    show ?thesis
      using assms by (auto simp: key_revoke_def keeps_def KUser Let_def)
  qed (use assms KUser in \<open>simp add: key_revoke_def keeps_def\<close>)
qed (use assms in \<open>simp add: key_revoke_def keeps_def\<close>)

text \<open>
  Creating an account takes two statements; the key is never refused once the account is
  in, so no account is left without one.
\<close>

lemma create_account_keeps:
  assumes "store_ok x d"
  shows "keeps (store_ok x) d (create_account y algos mode now i k subj req d)"
proof -
  have "keeps (store_ok x) d
      (let (r, d1) = account_create now \<lparr>nac_id = i, nac_short_name = sn, nac_author_name = an, nac_author_url = au\<rparr> d
       in try_st r d1 (\<lambda>acct.
       let (r2, d2) = key_create now \<lparr>nk_kind = KAccount, nk_parent_id = i, nk_id = k, nk_algo = al, nk_public_key = pub\<rparr> d1
       in try_st r2 d2 (\<lambda>_. (Inr (account_to_proto y acct, uuid_show (sx_text y) k), d2))))" for sn an au al pub
  proof -
    let ?row = "\<lparr>ac_id = i, ac_short_name = sn, ac_author_name = an, ac_author_url = null_if_empty au,
      ac_status = ''active'', ac_deleted_at = None, ac_created_at = now, ac_updated_at = now\<rparr>"
    let ?new = "\<lparr>nk_kind = KAccount, nk_parent_id = i, nk_id = k, nk_algo = al, nk_public_key = pub\<rparr>"
    show ?thesis
    proof (cases "lookup ac_id i (accounts d)")
      case None
      have o: "owners_ok ac_id ac_status (accounts d @ [?row]) (account_keys d @ [new_key_row now ?new])"
        "lookup kr_key (kr_key (new_key_row now ?new)) (account_keys d) = None"
        using owners_ok_create [OF account_owners [OF assms], where r = ?row and new = ?new and now = now] None by simp_all
      have "store_ok x (d\<lparr>accounts := accounts d @ [?row], account_keys := account_keys d @ [new_key_row now ?new]\<rparr>)"
        by (rule store_ok_accounts [OF assms o(1)]) auto
      moreover have "\<exists>a. account_of_row ?row = Inr a"
        by (simp add: account_of_row_def)
      ultimately show ?thesis
        using None o(2) new_key_loads [of KAccount "''account_keys''" now ?new]
        by (auto simp: keeps_def account_create_def key_create_def insert_checked_def)
    next
      case (Some r)
      then show ?thesis
        using assms by (simp add: account_create_def insert_row_clash keeps_def)
    qed
  qed
  note step = this
  show ?thesis
    unfolding create_account_def by (intro keeps_if keeps_refuse keeps_try_st keeps_case_prod assms step)
qed

lemma create_user_keeps:
  assumes "store_ok x d"
  shows "keeps (store_ok x) d (create_user y algos mode now i k subj name key d)"
proof -
  have "keeps (store_ok x) d
      (let (r, d1) = user_create now i nm d
       in try_st r d1 (\<lambda>usr.
       let (r2, d2) = key_create now \<lparr>nk_kind = KUser, nk_parent_id = i, nk_id = k, nk_algo = al, nk_public_key = pub\<rparr> d1
       in try_st r2 d2 (\<lambda>_. (Inr (user_to_proto y usr, uuid_show (sx_text y) k), d2))))" for nm al pub
  proof -
    let ?row = "\<lparr>us_id = i, us_display_name = null_if_empty nm, us_status = ''active'', us_deleted_at = None,
      us_created_at = now\<rparr>"
    let ?new = "\<lparr>nk_kind = KUser, nk_parent_id = i, nk_id = k, nk_algo = al, nk_public_key = pub\<rparr>"
    show ?thesis
    proof (cases "lookup us_id i (users d)")
      case None
      have o: "owners_ok us_id us_status (users d @ [?row]) (user_keys d @ [new_key_row now ?new])"
        "lookup kr_key (kr_key (new_key_row now ?new)) (user_keys d) = None"
        using owners_ok_create [OF user_owners [OF assms], where r = ?row and new = ?new and now = now] None by simp_all
      have "store_ok x (d\<lparr>users := users d @ [?row], user_keys := user_keys d @ [new_key_row now ?new]\<rparr>)"
        by (rule store_ok_users [OF assms o(1)]) auto
      moreover have "\<exists>a. user_of_row ?row = Inr a"
        by (simp add: user_of_row_def)
      ultimately show ?thesis
        using None o(2) new_key_loads [of KUser "''user_keys''" now ?new]
        by (auto simp: keeps_def user_create_def key_create_def insert_checked_def)
    next
      case (Some r)
      then show ?thesis
        using assms by (simp add: user_create_def insert_row_clash keeps_def)
    qed
  qed
  note step = this
  show ?thesis
    unfolding create_user_def by (intro keeps_if keeps_refuse keeps_try_st keeps_case_prod assms step)
qed

lemma identity_handlers_keep:
  assumes "store_ok x d"
  shows "keeps (store_ok x) d (update_account y now subj msg umask d)"
    "keeps (store_ok x) d (delete_account y now subj raw d)"
    "keeps (store_ok x) d (add_account_key y algos now k subj raw pkm d)"
    "keeps (store_ok x) d (revoke_account_key y now subj raw raw2 d)"
    "keeps (store_ok x) d (update_user y subj um umask d)"
    "keeps (store_ok x) d (delete_user y now subj raw d)"
    "keeps (store_ok x) d (add_user_key y algos now k subj raw pkm d)"
    "keeps (store_ok x) d (revoke_user_key y now subj raw raw2 d)"
proof -
  note k = keeps_intros assms
  show "keeps (store_ok x) d (update_account y now subj msg umask d)"
    "keeps (store_ok x) d (delete_account y now subj raw d)"
    "keeps (store_ok x) d (update_user y subj um umask d)"
    "keeps (store_ok x) d (delete_user y now subj raw d)"
    "keeps (store_ok x) d (revoke_account_key y now subj raw raw2 d)"
    "keeps (store_ok x) d (revoke_user_key y now subj raw raw2 d)"
    unfolding update_account_def delete_account_def update_user_def delete_user_def
      revoke_account_key_def revoke_user_key_def
    by (intro k)+
  show "keeps (store_ok x) d (add_account_key y algos now k subj raw pkm d)"
    "keeps (store_ok x) d (add_user_key y algos now k subj raw pkm d)"
    unfolding add_account_key_def add_user_key_def by (intro k)+
qed

subsection \<open>Articles and drafts\<close>

definition same_others :: "db \<Rightarrow> db \<Rightarrow> bool" where
  "same_others d d' \<longleftrightarrow> accounts d' = accounts d \<and> account_keys d' = account_keys d \<and> users d' = users d \<and>
     user_keys d' = user_keys d \<and> follows d' = follows d \<and> feed_recommendation d' = feed_recommendation d \<and>
     events d' = events d"

lemma store_ok_contents: "store_ok x d \<Longrightarrow> same_others d d' \<Longrightarrow> contents_ok d' \<Longrightarrow> store_ok x d'"
  by (simp add: store_ok_def same_others_def identities_ok_def follows_ok_def feeds_ok_def events_ok_def)

text \<open>An operation on existing articles keeps their ids and owners.\<close>

lemma contents_ok_same_ids:
  assumes "contents_ok d" "articles_ok d'" "drafts d' = drafts d" "same_others d d'"
    and "ar_id ` set (articles d') = ar_id ` set (articles d)"
    and "ar_account_id ` set (articles d') = ar_account_id ` set (articles d)"
  shows "contents_ok d'"
proof -
  have "\<forall>a \<in> set (articles d'). ar_account_id a \<in> ac_id ` set (accounts d')"
    using assms(1,4,6) by (force simp: contents_ok_def list_all_iff same_others_def)
  then show ?thesis
    using assms(1-5) by (simp add: contents_ok_def drafts_ok_def lookup_None list_all_iff same_others_def)
qed

lemma contents_ok_publish:
  assumes "contents_ok d" "publish_tx now new d = Inr (u, d')" "lookup dr_id (na_id new) (drafts d) = None"
  shows "contents_ok d'" "same_others d d'"
proof -
  have "articles_ok d'"
    using assms(1) publish_tx_ok [OF _ assms(2)] by (simp add: contents_ok_def)
  moreover have a: "articles d' = articles d @ [\<lparr>ar_id = na_id new, ar_account_id = na_account_id new,
      ar_state = ''live'', ar_created_at = now\<rparr>]" "same_others d d'" "drafts d' = drafts d"
    "na_account_id new \<in> ac_id ` set (accounts d)"
    using assms(2) [unfolded publish_tx_Inr] lookup_in_image [of ac_id "na_account_id new" "accounts d"]
    by (simp_all add: same_others_def)
  moreover have "drafts_ok d'"
    using assms(1,3) a by (auto simp: contents_ok_def drafts_ok_def same_others_def lookup_append lookup_Cons)
  ultimately show "contents_ok d'" "same_others d d'"
    using assms(1) by (simp_all add: contents_ok_def same_others_def)
qed

text \<open>The transactions of the article repository on the whole store.\<close>

lemma keeps_store_transaction:
  assumes "store_ok x d" "keeps articles_ok d (transaction tx d (\<lambda>v d'. (f v d', d')))"
    and "\<And>v d'. tx d = Inr (v, d') \<Longrightarrow> contents_ok d' \<and> same_others d d'"
  shows "keeps (store_ok x) d (transaction tx d (\<lambda>v d'. (f v d', d')))"
proof (cases "tx d")
  case (Inr p)
  then obtain v d' where "tx d = Inr (v, d')"
    by (cases p) auto
  then show ?thesis
    using assms(2) assms(3) [of v d'] store_ok_contents [OF assms(1)] by (auto simp: keeps_def transaction_def)
qed (use assms(1) in \<open>simp add: keeps_def transaction_def\<close>)

lemma article_publish_keeps_store:
  assumes "store_ok x d" "lookup dr_id (na_id new) (drafts d) = None"
  shows "keeps (store_ok x) d (article_publish now new d)"
  unfolding article_publish_def
  by (rule keeps_store_transaction [OF assms(1) article_publish_keeps [OF store_okD(6) [OF assms(1)], unfolded article_publish_def]])
    (use contents_ok_publish [OF store_okD(2) [OF assms(1)] _ assms(2)] in blast)

lemma edit_tx_contents:
  assumes "contents_ok d" "edit_tx now aid edit d = Inr (u, d')"
  shows "contents_ok d' \<and> same_others d d'"
proof -
  have ok: "articles_ok d"
    using assms(1) by (simp add: contents_ok_def)
  have "same_others d d'" "articles d' = articles d" "drafts d' = drafts d"
    using assms(2) [unfolded edit_tx_Inr [OF articles_okD [OF ok]]] by (auto simp: same_others_def)
  then show ?thesis
    using contents_ok_same_ids [OF assms(1) edit_tx_ok [OF ok assms(2)]] by simp
qed

lemma tombstone_tx_contents:
  assumes "contents_ok d" "tombstone_tx now aid rsn d = Inr (u, d')"
  shows "contents_ok d' \<and> same_others d d'"
proof -
  have ok: "articles_ok d"
    using assms(1) by (simp add: contents_ok_def)
  have t: "same_others d d'" "articles d' = update_row ar_id aid (\<lambda>r. r\<lparr>ar_state := ''tombstone''\<rparr>) (articles d)"
    "drafts d' = drafts d"
    using assms(2) [unfolded tombstone_tx_Inr [OF articles_okD [OF ok]]] by (auto simp: same_others_def)
  have "ar_id ` set (articles d') = ar_id ` set (articles d)"
    "ar_account_id ` set (articles d') = ar_account_id ` set (articles d)"
    unfolding t(2) by (rule image_update_row; simp)+
  with t show ?thesis
    using contents_ok_same_ids [OF assms(1) tombstone_tx_ok [OF ok assms(2)]] by simp
qed

lemma redact_tx_contents:
  assumes "contents_ok d" "redact_tx now aid v rsn d = Inr (u, d')"
  shows "contents_ok d' \<and> same_others d d'"
proof -
  have ok: "articles_ok d"
    using assms(1) by (simp add: contents_ok_def)
  have "same_others d d'" "articles d' = articles d" "drafts d' = drafts d"
    using assms(2) [unfolded redact_tx_Inr [OF articles_okD [OF ok]]] by (auto simp: same_others_def)
  then show ?thesis
    using contents_ok_same_ids [OF assms(1) redact_tx_ok [OF ok assms(2)]] by simp
qed

lemma article_ops_keep_store [keeps_intros]:
  assumes "store_ok x d"
  shows "keeps (store_ok x) d (article_edit_op now aid edit d)"
    "keeps (store_ok x) d (article_tombstone_op now aid rsn d)"
    "keeps (store_ok x) d (article_redact_version now aid v rsn2 d)"
proof -
  note ok = store_okD(6,2) [OF assms]
  note lift = keeps_store_transaction [OF assms]
  show "keeps (store_ok x) d (article_edit_op now aid edit d)"
    using article_edit_keeps [OF ok(1)] unfolding article_edit_op_def
    by (rule lift) (rule edit_tx_contents [OF ok(2)])
  show "keeps (store_ok x) d (article_tombstone_op now aid rsn d)"
    using article_tombstone_keeps [OF ok(1)] unfolding article_tombstone_op_def
    by (rule lift) (rule tombstone_tx_contents [OF ok(2)])
  show "keeps (store_ok x) d (article_redact_version now aid v rsn2 d)"
    using article_redact_keeps [OF ok(1)] unfolding article_redact_version_def
    by (rule lift) (rule redact_tx_contents [OF ok(2)])
qed

lemma article_handlers_keep:
  assumes "store_ok x d"
  shows "lookup dr_id i (drafts d) = None \<Longrightarrow> keeps (store_ok x) d (publish_article y ser mx now i subj req d)"
    "keeps (store_ok x) d (edit_article y ser mx now subj raw edit paths d)"
    "keeps (store_ok x) d (tombstone_article y now subj raw rsn d)"
    "keeps (store_ok x) d (redact_article_version y now raw v rsn d)"
proof -
  note k = keeps_intros assms
  show "lookup dr_id i (drafts d) = None \<Longrightarrow> keeps (store_ok x) d (publish_article y ser mx now i subj req d)"
    unfolding publish_article_def respond_let by (intro k article_publish_keeps_store) simp_all
  show "keeps (store_ok x) d (edit_article y ser mx now subj raw edit paths d)"
    unfolding edit_article_def respond_let unfolding Let_def by (intro k)
  show "keeps (store_ok x) d (tombstone_article y now subj raw rsn d)"
    "keeps (store_ok x) d (redact_article_version y now raw v rsn d)"
    unfolding tombstone_article_def redact_article_version_def respond_let by (intro k)+
qed

text \<open>Drafts.\<close>

lemma contents_ok_drafts:
  assumes "contents_ok d" "drafts_ok (d\<lparr>drafts := t\<rparr>)" "list_all authors_ok t"
  shows "contents_ok (d\<lparr>drafts := t\<rparr>)"
  using assms by (simp add: contents_ok_def drafts_frame)

lemma same_others_drafts [simp]: "same_others d (d\<lparr>drafts := t\<rparr>)"
  by (simp add: same_others_def)

lemma draft_create_keeps:
  assumes "store_ok x d" "lookup ar_id (nd_id new) (articles d) = None"
  shows "keeps (store_ok x) d (draft_create now new d)"
proof (cases "draft_create now new d")
  case (Pair r d')
  show ?thesis
  proof (cases r)
    case (Inl e)
    then show ?thesis
      using Pair assms(1) by (auto simp: draft_create_def keeps_def Let_def try_st_def insert_checked_def split: sum.splits)
  next
    case (Inr f)
    let ?row = "\<lparr>dr_id = nd_id new, dr_account_id = nd_account_id new, dr_title = nd_title new,
      dr_author_name = null_if_empty (nd_author_name new), dr_author_url = null_if_empty (nd_author_url new),
      dr_content = nd_content new, dr_created_at = now, dr_updated_at = now\<rparr>"
    have d': "d' = d\<lparr>drafts := drafts d @ [?row]\<rparr>"
      using Pair Inr by (auto simp: draft_create_def Let_def try_st_Inr insert_checked_Inr)
    obtain row where "drafts_ok d'"
      using draft_create_ok [OF Pair [unfolded Inr] store_okD(7) [OF assms(1)] assms(2)] by metis
    moreover have "list_all authors_ok (drafts d @ [?row])"
      using store_okD(2) [OF assms(1)] by (simp add: contents_ok_def authors_ok_def null_if_empty_def)
    ultimately have "contents_ok d'"
      using contents_ok_drafts [OF store_okD(2) [OF assms(1)]] by (simp add: d')
    then show ?thesis
      using store_ok_contents [OF assms(1), of d'] Pair Inr by (simp add: d' keeps_def)
  qed
qed

lemma set_draft_ok:
  assumes "drafts_ok (d\<lparr>drafts := t\<rparr>)" "list_all authors_ok t"
    and "\<And>v r. dr_id (f v r) = dr_id r" "\<And>v r. dr_account_id (f v r) = dr_account_id r"
    and "\<And>v r. authors_ok r \<Longrightarrow> authors_ok (f v r)"
  shows "drafts_ok (d\<lparr>drafts := set_draft did m f t\<rparr>)" "list_all authors_ok (set_draft did m f t)"
proof -
  show "drafts_ok (d\<lparr>drafts := set_draft did m f t\<rparr>)"
  proof (cases m)
    case (Some v)
    have "lookup dr_id i (update_row dr_id did (f v) t) = Some r \<Longrightarrow>
        \<exists>r0. lookup dr_id i t = Some r0 \<and> dr_account_id r = dr_account_id r0" for i r
      using assms(3,4) by (auto simp: lookup_update_row split: if_splits)
    then show ?thesis
      using assms(1,3) Some by (fastforce simp: drafts_ok_def set_draft_def pk_update_row)
  qed (use assms(1) in \<open>simp add: set_draft_def\<close>)
  show "list_all authors_ok (set_draft did m f t)"
    using assms(2,5) by (auto simp: set_draft_def list_all_iff split: option.splits dest!: in_update_row)
qed

lemma set_draft_updated: "update_row dr_id did f t = set_draft did (Some ()) (\<lambda>_. f) t"
  by (simp add: set_draft_def)

lemma draft_update_keeps [keeps_intros]:
  assumes "store_ok x d"
  shows "keeps (store_ok x) d (draft_update_op now did upd d)"
proof (cases "draft_update_tx now did upd d")
  case (Inr p)
  obtain row d' where p: "p = (row, d')"
    by (cases p)
  let ?t1 = "set_draft did (du_title upd) (\<lambda>v r. r\<lparr>dr_title := v\<rparr>) (drafts d)"
  let ?t2 = "set_draft did (du_author_name upd) (\<lambda>v r. r\<lparr>dr_author_name := null_if_empty v\<rparr>) ?t1"
  let ?t3 = "set_draft did (du_author_url upd) (\<lambda>v r. r\<lparr>dr_author_url := null_if_empty v\<rparr>) ?t2"
  let ?t4 = "set_draft did (du_content upd) (\<lambda>v r. r\<lparr>dr_content := v\<rparr>) ?t3"
  let ?t5 = "update_row dr_id did (\<lambda>r. r\<lparr>dr_updated_at := now\<rparr>) ?t4"
  have d': "d' = d\<lparr>drafts := ?t5\<rparr>"
    using Inr p by (auto simp: draft_update_tx_def Let_def res_invert split: if_splits)
  note [simp] = authors_ok_def null_if_empty_def
  have t0: "drafts_ok (d\<lparr>drafts := drafts d\<rparr>)" "list_all authors_ok (drafts d)"
    using store_okD(2) [OF assms] by (simp_all add: contents_ok_def)
  have t1: "drafts_ok (d\<lparr>drafts := ?t1\<rparr>)" "list_all authors_ok ?t1"
    by (rule set_draft_ok [OF t0]; simp)+
  have t2: "drafts_ok (d\<lparr>drafts := ?t2\<rparr>)" "list_all authors_ok ?t2"
    by (rule set_draft_ok [OF t1]; simp)+
  have t3: "drafts_ok (d\<lparr>drafts := ?t3\<rparr>)" "list_all authors_ok ?t3"
    by (rule set_draft_ok [OF t2]; simp)+
  have t4: "drafts_ok (d\<lparr>drafts := ?t4\<rparr>)" "list_all authors_ok ?t4"
    by (rule set_draft_ok [OF t3]; simp)+
  have "drafts_ok (d\<lparr>drafts := ?t5\<rparr>)" "list_all authors_ok ?t5"
    unfolding set_draft_updated by (rule set_draft_ok [OF t4]; simp)+
  then have "contents_ok d'"
    unfolding d' by (rule contents_ok_drafts [OF store_okD(2) [OF assms]])
  then show ?thesis
    using store_ok_contents [OF assms, of d'] Inr p by (simp add: d' keeps_def draft_update_op_def transaction_def)
qed (use assms in \<open>simp add: draft_update_op_def transaction_def keeps_def\<close>)

lemma drafts_delete:
  assumes "contents_ok d"
  shows "contents_ok (d\<lparr>drafts := delete_row dr_id did (drafts d)\<rparr>)"
proof (rule contents_ok_drafts [OF assms])
  show "drafts_ok (d\<lparr>drafts := delete_row dr_id did (drafts d)\<rparr>)"
    using assms by (auto simp: contents_ok_def drafts_ok_def pk_delete_row split: if_splits)
  show "list_all authors_ok (delete_row dr_id did (drafts d))"
    using assms by (simp add: contents_ok_def list_all_iff delete_row_def)
qed

lemma draft_delete_keeps [keeps_intros]:
  assumes "store_ok x d"
  shows "keeps (store_ok x) d (draft_delete did d)"
  using assms store_ok_contents [OF assms same_others_drafts drafts_delete [OF store_okD(2) [OF assms]]]
  by (simp add: draft_delete_def keeps_def)

lemma draft_publish_keeps [keeps_intros]:
  assumes "store_ok x d"
  shows "keeps (store_ok x) d (draft_publish now did d)"
proof (cases "lookup dr_id did (drafts d)")
  case (Some r)
  have c: "articles_ok d" "drafts_ok d" "authors_ok r"
    using store_okD(2) [OF assms] lookup_SomeD [OF Some] by (auto simp: contents_ok_def list_all_iff)
  from draft_publish_step [OF c(1,2) Some c(3), of now] obtain a d' where
    p: "draft_publish now did d = (Inr a, d')" "articles_ok d'" "drafts_ok d'"
    by blast
  then obtain d1 where tx: "publish_tx now (new_of_draft r) d = Inr ((), d1)"
    and d': "d' = d1\<lparr>drafts := delete_row dr_id did (drafts d1)\<rparr>"
    by (auto simp: draft_publish_def draft_publish_tx_alt [OF Some c(3)] transaction_def try_res_def split: sum.splits)
  note t = tx [unfolded publish_tx_Inr]
  have "same_others d d'" "list_all authors_ok (drafts d')"
    "list_all (\<lambda>a. ar_account_id a \<in> ac_id ` set (accounts d')) (articles d')"
    using t store_okD(2) [OF assms] lookup_in_image [of ac_id "dr_account_id r" "accounts d"]
    by (auto simp: d' same_others_def contents_ok_def list_all_iff delete_row_def new_of_draft_def)
  then show ?thesis
    using p store_ok_contents [OF assms, of d'] by (simp add: contents_ok_def keeps_def)
qed (use assms in \<open>simp add: draft_publish_def draft_publish_tx_def transaction_def keeps_def\<close>)

lemma draft_handlers_keep:
  assumes "store_ok x d"
  shows "lookup ar_id i (articles d) = None \<Longrightarrow> keeps (store_ok x) d (create_draft y ser mx now i subj req d)"
    "keeps (store_ok x) d (update_draft y ser mx now subj msg umask d)"
    "keeps (store_ok x) d (delete_draft y subj raw d)"
    "keeps (store_ok x) d (publish_draft y ser mx now subj raw d)"
proof -
  note k = keeps_intros assms
  show "lookup ar_id i (articles d) = None \<Longrightarrow> keeps (store_ok x) d (create_draft y ser mx now i subj req d)"
    unfolding create_draft_def respond_let by (intro k draft_create_keeps) simp_all
  show "keeps (store_ok x) d (update_draft y ser mx now subj msg umask d)"
    "keeps (store_ok x) d (publish_draft y ser mx now subj raw d)"
    unfolding update_draft_def publish_draft_def respond_let unfolding Let_def by (intro k)+
  show "keeps (store_ok x) d (delete_draft y subj raw d)"
    unfolding delete_draft_def respond_let by (intro k)
qed

subsection \<open>Follows, feeds and events\<close>

lemma store_ok_follows: "store_ok x d \<Longrightarrow> follows_ok (d\<lparr>follows := t\<rparr>) \<Longrightarrow> store_ok x (d\<lparr>follows := t\<rparr>)"
  using same_articles_cong(1) [of d "d\<lparr>follows := t\<rparr>"]
  by (simp add: store_ok_def same_articles_def identities_ok_def contents_ok_def drafts_ok_def feeds_ok_def events_ok_def)

lemma follow_op_table: "\<exists>t. snd (follow_op now u a d) = d\<lparr>follows := t\<rparr>"
  by (auto simp: follow_op_def follow_upsert_def transaction_def try_res_def Let_def split: option.split sum.split)
    (metis db.surjective db.update_convs(12))+

lemma unfollow_op_table: "\<exists>t. snd (unfollow_op now u a d) = d\<lparr>follows := t\<rparr>"
  by (auto simp: unfollow_op_def split: option.split) (metis db.surjective db.update_convs(12))+

lemma keeps_store_follows:
  assumes "store_ok x d" "keeps follows_ok d out" "\<exists>t. snd out = d\<lparr>follows := t\<rparr>"
  shows "keeps (store_ok x) d out"
  using assms store_ok_follows [OF assms(1)] by (auto simp: keeps_def)

lemma follow_ops_keep_store [keeps_intros]:
  assumes "store_ok x d"
  shows "keeps (store_ok x) d (follow_op now u a d)" "keeps (store_ok x) d (unfollow_op now u a d)"
  by (rule keeps_store_follows [OF assms]; simp add: follow_op_keeps unfollow_op_keeps follow_op_table
      unfollow_op_table store_okD(3) [OF assms])+

lemma follow_handlers_keep:
  assumes "store_ok x d"
  shows "keeps (store_ok x) d (follow_rpc y now subj raw raw2 d)"
    "keeps (store_ok x) d (unfollow_rpc y now subj raw raw2 d)"
  unfolding follow_rpc_def unfollow_rpc_def by (intro keeps_intros assms)+

lemma store_ok_feeds:
  "store_ok x d \<Longrightarrow> feeds_ok (d\<lparr>feed_recommendation := t\<rparr>) \<Longrightarrow> store_ok x (d\<lparr>feed_recommendation := t\<rparr>)"
  using same_articles_cong(1) [of d "d\<lparr>feed_recommendation := t\<rparr>"]
  by (simp add: store_ok_def same_articles_def identities_ok_def contents_ok_def drafts_ok_def follows_ok_def events_ok_def)

lemma feed_replace_keeps [keeps_intros]:
  assumes "store_ok x d"
  shows "keeps (store_ok x) d (feed_replace u ids d)"
proof -
  let ?rest = "filter (\<lambda>r. fr_user_id r \<noteq> u) (feed_recommendation d)"
  have rest: "feeds_ok (d\<lparr>feed_recommendation := ?rest\<rparr>)"
    using store_okD(4) [OF assms] by (simp add: feeds_ok_def pk_def distinct_map_filter list_all_iff)
  have "feeds_ok d'" "\<exists>t. d' = d\<lparr>feed_recommendation := t\<rparr>" if tx: "feed_replace_tx u ids d = Inr (v, d')" for v d'
  proof -
    from tx rest show "feeds_ok d'"
      by (auto simp: feed_replace_tx_def Let_def res_invert insert_feed_rows_def feeds_ok_def list_all_iff new_feed_rows_def
          split: if_splits)
    from tx show "\<exists>t. d' = d\<lparr>feed_recommendation := t\<rparr>"
      by (auto simp: feed_replace_tx_def Let_def res_invert insert_feed_rows_def split: if_splits)
  qed
  then show ?thesis
    using assms store_ok_feeds [OF assms]
    by (fastforce simp: feed_replace_def transaction_def keeps_def split: sum.split)
qed

lemma replace_feed_keeps:
  assumes "store_ok x d"
  shows "keeps (store_ok x) d (replace_recommendation_feed y mx subj raw ids d)"
  unfolding replace_recommendation_feed_def respond_let by (intro keeps_intros assms)

lemma store_ok_events:
  "store_ok x d \<Longrightarrow> events_ok x (d\<lparr>events := t\<rparr>) \<Longrightarrow> store_ok x (d\<lparr>events := t\<rparr>)"
  using same_articles_cong(1) [of d "d\<lparr>events := t\<rparr>"]
  by (simp add: store_ok_def same_articles_def identities_ok_def contents_ok_def drafts_ok_def follows_ok_def feeds_ok_def)

lemma events_ok_append:
  assumes "events_ok x d" "ids_fresh (map ev_id rows) d" "list_all (\<lambda>r. is_ok (event_to_proto x r)) rows"
  shows "events_ok x (d\<lparr>events := events d @ rows\<rparr>)"
proof -
  have "set (map ev_id (events d)) \<inter> set (map ev_id rows) = {}"
    using assms(2) by (auto simp: ids_fresh_def list_all_iff lookup_None) (metis image_eqI)
  then show ?thesis
    using assms by (simp add: events_ok_def ids_fresh_def pk_def)
qed

lemma record_event_keeps:
  assumes "store_ok (ee_svc x) d" "req_i32 req"
  shows "keeps (store_ok (ee_svc x)) d (record_event x now t i subj req d)"
proof -
  have "keeps (store_ok (ee_svc x)) d (let (r, d') = event_record_op x t i p d
      in try_st (dom_res r) d' (\<lambda>stored.
         try_st (dom_res (event_to_proto (ee_svc x) stored)) d' (\<lambda>proto. (Inr proto, d'))))"
    if p: "prepare_event x req subj n = Inr p" for n p
  proof (cases "insert_events ''insert event'' [new_event_row x t i p] d")
    case (Inr d')
    from prepared_echo(1) [OF p assms(2), of t i] obtain msg where
      m: "event_to_proto (ee_svc x) (new_event_row x t i p) = Inr msg"
      by blast
    have "events_ok (ee_svc x) (d\<lparr>events := events d @ [new_event_row x t i p]\<rparr>)"
      using Inr m store_okD(5) [OF assms(1)]
      by (intro events_ok_append) (simp_all add: insert_events_def ids_fresh_def split: if_splits)
    then have "store_ok (ee_svc x) d'"
      using Inr store_ok_events [OF assms(1)] by (auto simp: insert_events_def split: if_splits)
    then show ?thesis
      using Inr m by (simp add: event_record_op_def keeps_def)
  qed (use assms(1) in \<open>simp add: event_record_op_def keeps_def\<close>)
  then show ?thesis
    unfolding record_event_def by (intro keeps_intros assms(1)) simp
qed

lemma record_event_batch_keeps:
  assumes "store_ok (ee_svc x) d" "length ids = length reqs" "ids_fresh ids d" "list_all req_i32 reqs"
  shows "keeps (store_ok (ee_svc x)) d (record_event_batch x mx now t ids subj reqs d)"
proof (cases "is_authorized_writer subj \<and> reqs \<noteq> [] \<and> length reqs \<le> mx \<and>
    (\<exists>n. tso_now x now = Inr n \<and> list_all (\<lambda>req. is_ok (prepare_event x req subj n)) reqs)")
  case True
  then obtain rows msgs where b: "record_event_batch x mx now t ids subj reqs d =
      (Inr (msgs, wrap_i32 (int (length reqs))), d\<lparr>events := events d @ rows\<rparr>)"
    "map ev_id rows = ids" "map_res (event_to_proto (ee_svc x)) rows = Inr msgs"
    using batch_stored [OF _ _ _ _ _ assms(2-4), where t = t] by blast
  have "list_all (\<lambda>r. is_ok (event_to_proto (ee_svc x) r)) rows"
    using b(3) map_res_ok [of "event_to_proto (ee_svc x)" rows] by simp
  then show ?thesis
    using b assms(3) store_okD(5) [OF assms(1)] store_ok_events [OF assms(1)]
    by (simp add: keeps_def events_ok_append)
next
  case False
  from batch_refused [OF this, of t ids d] assms(1) show ?thesis
    by (auto simp: keeps_def)
qed

subsection \<open>Calls\<close>

text \<open>What the server is configured with.\<close>

record api_ext =
  ax_events :: event_ext
  ax_algos :: "string \<Rightarrow> unit option"
  ax_account_mode :: bootstrap_mode
  ax_user_mode :: bootstrap_mode
  ax_ser :: "json \<Rightarrow> string option"
  ax_content_max :: nat
  ax_feed_max :: nat
  ax_batch_max :: nat

abbreviation ax_svc :: "api_ext \<Rightarrow> svc_ext" where
  "ax_svc x \<equiv> ee_svc (ax_events x)"

text \<open>The writing RPCs with their requests and the ids the handler draws.\<close>

datatype api_call =
    CreateAccount uuid uuid create_account_req
  | UpdateAccount "account_msg option" "string list option"
  | DeleteAccount string
  | AddAccountKey uuid string "public_key_msg option"
  | RevokeAccountKey string string
  | CreateUser uuid uuid string "public_key_msg option"
  | UpdateUser "user_msg option" "string list option"
  | DeleteUser string
  | AddUserKey uuid string "public_key_msg option"
  | RevokeUserKey string string
  | PublishArticle uuid publish_article_req
  | EditArticle string "article_edit_msg option" "string list option"
  | TombstoneArticle string string
  | RedactArticleVersion string int string
  | CreateDraft uuid publish_article_req
  | UpdateDraft "draft_msg option" "string list option"
  | DeleteDraft string
  | PublishDraft string
  | FollowAccount string string
  | UnfollowAccount string string
  | ReplaceRecommendationFeed string "string list"
  | RecordEvent uuid event_req "string + tso"
  | RecordEventBatch "uuid list" "event_req list" "string + tso"

abbreviation answered :: "'a rpc \<times> db \<Rightarrow> unit rpc \<times> db" where
  "answered \<equiv> respond (\<lambda>e. e) (\<lambda>_. ())"

abbreviation answered_dom :: "'a res \<times> db \<Rightarrow> unit rpc \<times> db" where
  "answered_dom \<equiv> respond Domain (\<lambda>_. ())"

fun serve :: "api_ext \<Rightarrow> timestamp \<Rightarrow> subject \<Rightarrow> api_call \<Rightarrow> db \<Rightarrow> unit rpc \<times> db" where
  "serve x now subj (CreateAccount i k req) d =
     answered_dom (create_account (ax_svc x) (ax_algos x) (ax_account_mode x) now i k subj req d)"
| "serve x now subj (UpdateAccount msg umask) d = answered_dom (update_account (ax_svc x) now subj msg umask d)"
| "serve x now subj (DeleteAccount raw) d = answered_dom (delete_account (ax_svc x) now subj raw d)"
| "serve x now subj (AddAccountKey k raw key) d =
     answered_dom (add_account_key (ax_svc x) (ax_algos x) now k subj raw key d)"
| "serve x now subj (RevokeAccountKey raw key) d = answered_dom (revoke_account_key (ax_svc x) now subj raw key d)"
| "serve x now subj (CreateUser i k name key) d =
     answered_dom (create_user (ax_svc x) (ax_algos x) (ax_user_mode x) now i k subj name key d)"
| "serve x now subj (UpdateUser msg umask) d = answered_dom (update_user (ax_svc x) subj msg umask d)"
| "serve x now subj (DeleteUser raw) d = answered_dom (delete_user (ax_svc x) now subj raw d)"
| "serve x now subj (AddUserKey k raw key) d =
     answered_dom (add_user_key (ax_svc x) (ax_algos x) now k subj raw key d)"
| "serve x now subj (RevokeUserKey raw key) d = answered_dom (revoke_user_key (ax_svc x) now subj raw key d)"
| "serve x now subj (PublishArticle i req) d =
     answered (publish_article (ax_svc x) (ax_ser x) (ax_content_max x) now i subj req d)"
| "serve x now subj (EditArticle raw edit umask) d =
     answered (edit_article (ax_svc x) (ax_ser x) (ax_content_max x) now subj raw edit umask d)"
| "serve x now subj (TombstoneArticle raw rsn) d = answered (tombstone_article (ax_svc x) now subj raw rsn d)"
| "serve x now subj (RedactArticleVersion raw v rsn) d = answered (redact_article_version (ax_svc x) now raw v rsn d)"
| "serve x now subj (CreateDraft i req) d =
     answered (create_draft (ax_svc x) (ax_ser x) (ax_content_max x) now i subj req d)"
| "serve x now subj (UpdateDraft msg umask) d =
     answered (update_draft (ax_svc x) (ax_ser x) (ax_content_max x) now subj msg umask d)"
| "serve x now subj (DeleteDraft raw) d = answered (delete_draft (ax_svc x) subj raw d)"
| "serve x now subj (PublishDraft raw) d =
     answered (publish_draft (ax_svc x) (ax_ser x) (ax_content_max x) now subj raw d)"
| "serve x now subj (FollowAccount raw raw2) d = answered_dom (follow_rpc (ax_svc x) now subj raw raw2 d)"
| "serve x now subj (UnfollowAccount raw raw2) d = answered_dom (unfollow_rpc (ax_svc x) now subj raw raw2 d)"
| "serve x now subj (ReplaceRecommendationFeed raw ids) d =
     answered (replace_recommendation_feed (ax_svc x) (ax_feed_max x) subj raw ids d)"
| "serve x now subj (RecordEvent i req tso) d = answered (record_event (ax_events x) tso now i subj req d)"
| "serve x now subj (RecordEventBatch ids reqs tso) d =
     answered (record_event_batch (ax_events x) (ax_batch_max x) tso now ids subj reqs d)"

text \<open>
  Fresh ids: the UUIDs that handlers draw for an article or a draft name neither yet, those of
  a batch are new and distinct. Positions are \<open>i32\<close> on the wire.
\<close>

definition call_fresh :: "api_call \<Rightarrow> db \<Rightarrow> bool" where
  "call_fresh c d \<longleftrightarrow>
     (case c of
        PublishArticle i _ \<Rightarrow> lookup dr_id i (drafts d) = None
      | CreateDraft i _ \<Rightarrow> lookup ar_id i (articles d) = None
      | RecordEvent _ req _ \<Rightarrow> req_i32 req
      | RecordEventBatch ids reqs _ \<Rightarrow> length ids = length reqs \<and> ids_fresh ids d \<and> list_all req_i32 reqs
      | _ \<Rightarrow> True)"

inductive api_reach :: "api_ext \<Rightarrow> db \<Rightarrow> bool" for x where
  start: "api_reach x empty_db"
| call: "api_reach x d \<Longrightarrow> call_fresh c d \<Longrightarrow> api_reach x (snd (serve x now subj c d))"

lemma serve_keeps:
  assumes "store_ok (ax_svc x) d" "call_fresh c d"
  shows "keeps (store_ok (ax_svc x)) d (serve x now subj c d)"
  using assms
  by (cases c) (auto simp: call_fresh_def intro!: keeps_respond create_account_keeps create_user_keeps
      identity_handlers_keep article_handlers_keep draft_handlers_keep follow_handlers_keep replace_feed_keeps
      record_event_keeps record_event_batch_keeps)

lemma store_ok_empty: "store_ok x empty_db"
  by (simp add: store_ok_def identities_ok_def owners_ok_def contents_ok_def articles_ok_empty drafts_ok_def
      follows_ok_def feeds_ok_def events_ok_def) (simp add: empty_db_def)

lemma reach_store_ok: "api_reach x d \<Longrightarrow> store_ok (ax_svc x) d"
  by (induction rule: api_reach.induct) (auto intro: store_ok_empty keeps_inv [OF serve_keeps])

subsection \<open>Properties of the store\<close>



text \<open>C20. What is stored can be read: on every database that the services can reach, each account,
  user, key and follow row loads into its domain type, every article can be fetched and every
  event can be turned into its message, so no read answers an internal error for its row.
\<close>

theorem stored_rows_load:
  assumes "api_reach x d"
  shows "list_all (\<lambda>r. is_ok (account_of_row r)) (accounts d) \<and> list_all (\<lambda>r. is_ok (user_of_row r)) (users d) \<and>
    list_all (\<lambda>k. is_ok (key_of_row KAccount ''account_keys'' k)) (account_keys d) \<and>
    list_all (\<lambda>k. is_ok (key_of_row KUser ''user_keys'' k)) (user_keys d) \<and>
    list_all (\<lambda>r. is_ok (follow_of_row r)) (follows d) \<and>
    list_all (\<lambda>a. is_ok (article_get (ar_id a) d)) (articles d) \<and>
    list_all (\<lambda>r. is_ok (event_to_proto (ax_svc x) r)) (events d)"
proof -
  note ok = reach_store_ok [OF assms]
  have "is_ok (article_get (ar_id a) d)" if "a \<in> set (articles d)" for a
    using that article_get_ok [OF store_okD(6) [OF ok], of "ar_id a"] lookup_in_image [of ar_id "ar_id a" "articles d"]
    by (auto simp: is_ok_iff)
  then have "list_all (\<lambda>a. is_ok (article_get (ar_id a) d)) (articles d)"
    by (simp add: list_all_iff)
  moreover have "list_all (\<lambda>r. is_ok (follow_of_row r)) (follows d)"
    using store_okD(3) [OF ok] by (auto simp: follows_ok_def list_all_iff follow_of_row_def)
  ultimately show ?thesis
    using account_owners [OF ok] user_owners [OF ok] store_okD(5) [OF ok]
    by (auto simp: owners_ok_def list_all_iff account_of_row_def user_of_row_def key_of_row_def parse_status_def
        events_ok_def)
qed

subsection \<open>Witnesses\<close>

definition demo_api :: api_ext where
  "demo_api = \<lparr>ax_events = demo_events, ax_algos = (\<lambda>_. Some ()), ax_account_mode = Open, ax_user_mode = Open, ax_ser = (\<lambda>_. Some []),
     ax_content_max = 100, ax_feed_max = 10, ax_batch_max = 500\<rparr>"

definition demo_reached :: db where
  "demo_reached = snd (serve demo_api 5 Anonymous (CreateUser 4 7 [] (Some \<lparr>pkm_algo = ''k'', pkm_public_key = []\<rparr>)) empty_db)"

lemma demo_reach: "api_reach demo_api demo_reached"
  unfolding demo_reached_def by (rule api_reach.call [OF api_reach.start]) (simp add: call_fresh_def)

lemma demo_reached_users: "map us_id (users demo_reached) = [4]"
  by code_simp



theorem stored_rows_load_witness:
  "map us_id (users demo_reached) = [4] \<and> list_all (\<lambda>r. is_ok (user_of_row r)) (users demo_reached)"
  using stored_rows_load [OF demo_reach] demo_reached_users by simp

end
