(* ===== verification/Rest_Gateway.thy ===== *)
theory Rest_Gateway
  imports Rest_Error Store_Invariant
begin

text \<open>
  The REST gateway (\<open>headlines-rest-gateway/src/lib.rs\<close>): one definition per handler, the
  authentication that every handler runs on the REST request, the call of the service through
  the trusted listener, and the table of routes; with it the notification service
  (\<open>headlines-api/src/services/notification.rs\<close>), which answers that it is not implemented.
  The router's path matching, the protobuf encoder, the URL decoder and the text form of a
  subject are parameters; the gateway and the services run on one database, and the calls
  between them do not get lost.
\<close>

subsection \<open>Messages and state\<close>

text \<open>The request messages that the gateway sends, and the RPC each of them belongs to.\<close>

datatype grpc_msg =
    CreateAccountMsg create_account_req
  | GetAccountMsg string
  | CreateUserMsg string "public_key_msg option"
  | GetUserMsg string
  | UpdateUserMsg "user_msg option" "string list option"
  | DeleteUserMsg string
  | AddUserKeyMsg string "public_key_msg option"
  | RevokeUserKeyMsg string string
  | PublishArticleMsg publish_article_req
  | GetArticleMsg string
  | ListAccountArticlesMsg string int string bool
  | EditArticleMsg string "article_edit_msg option" "string list option"
  | TombstoneArticleMsg string string
  | RedactArticleVersionMsg string int string
  | CreateDraftMsg publish_article_req
  | GetDraftMsg string
  | UpdateDraftMsg "draft_msg option" "string list option"
  | DeleteDraftMsg string
  | ListAccountDraftsMsg string int string
  | PublishDraftMsg string
  | FollowMsg string string
  | UnfollowMsg string string
  | GetFollowMsg string string
  | ListUserFollowsMsg string int string bool
  | ListAccountFollowersMsg string int string bool
  | ReplaceRecommendationFeedMsg string "string list"
  | GetRecommendationFeedMsg string int string
  | GetFollowFeedMsg string int string
  | StreamAccountArticlesMsg string int string
  | RecordEventMsg event_req
  | RecordEventBatchMsg "event_req list"
  | ListEventsMsg list_events_req
  | SendNotificationMsg send_notification_req
  | SendNotificationBatchMsg "send_notification_req list"
  | ListUserNotificationsMsg string int string bool
  | MarkNotificationReadMsg string
  | MarkAllUserNotificationsReadMsg string
  | GetUserNotificationPreferencesMsg string
  | UpdateUserNotificationPreferencesMsg "notification_preferences option" "string list option"

fun rpc_path :: "grpc_msg \<Rightarrow> string" where
  "rpc_path (CreateAccountMsg _) = ''/headlines.v1.AccountService/CreateAccount''"
| "rpc_path (GetAccountMsg _) = ''/headlines.v1.AccountService/GetAccount''"
| "rpc_path (CreateUserMsg _ _) = ''/headlines.v1.UserService/CreateUser''"
| "rpc_path (GetUserMsg _) = ''/headlines.v1.UserService/GetUser''"
| "rpc_path (UpdateUserMsg _ _) = ''/headlines.v1.UserService/UpdateUser''"
| "rpc_path (DeleteUserMsg _) = ''/headlines.v1.UserService/DeleteUser''"
| "rpc_path (AddUserKeyMsg _ _) = ''/headlines.v1.UserService/AddUserKey''"
| "rpc_path (RevokeUserKeyMsg _ _) = ''/headlines.v1.UserService/RevokeUserKey''"
| "rpc_path (PublishArticleMsg _) = ''/headlines.v1.ArticleService/PublishArticle''"
| "rpc_path (GetArticleMsg _) = ''/headlines.v1.ArticleService/GetArticle''"
| "rpc_path (ListAccountArticlesMsg _ _ _ _) = ''/headlines.v1.ArticleService/ListAccountArticles''"
| "rpc_path (EditArticleMsg _ _ _) = ''/headlines.v1.ArticleService/EditArticle''"
| "rpc_path (TombstoneArticleMsg _ _) = ''/headlines.v1.ArticleService/TombstoneArticle''"
| "rpc_path (RedactArticleVersionMsg _ _ _) = ''/headlines.v1.ArticleService/RedactArticleVersion''"
| "rpc_path (CreateDraftMsg _) = ''/headlines.v1.DraftService/CreateDraft''"
| "rpc_path (GetDraftMsg _) = ''/headlines.v1.DraftService/GetDraft''"
| "rpc_path (UpdateDraftMsg _ _) = ''/headlines.v1.DraftService/UpdateDraft''"
| "rpc_path (DeleteDraftMsg _) = ''/headlines.v1.DraftService/DeleteDraft''"
| "rpc_path (ListAccountDraftsMsg _ _ _) = ''/headlines.v1.DraftService/ListAccountDrafts''"
| "rpc_path (PublishDraftMsg _) = ''/headlines.v1.DraftService/PublishDraft''"
| "rpc_path (FollowMsg _ _) = ''/headlines.v1.FollowService/Follow''"
| "rpc_path (UnfollowMsg _ _) = ''/headlines.v1.FollowService/Unfollow''"
| "rpc_path (GetFollowMsg _ _) = ''/headlines.v1.FollowService/GetFollow''"
| "rpc_path (ListUserFollowsMsg _ _ _ _) = ''/headlines.v1.FollowService/ListUserFollows''"
| "rpc_path (ListAccountFollowersMsg _ _ _ _) = ''/headlines.v1.FollowService/ListAccountFollowers''"
| "rpc_path (ReplaceRecommendationFeedMsg _ _) =
     ''/headlines.v1.FeedRecommendationService/ReplaceRecommendationFeed''"
| "rpc_path (GetRecommendationFeedMsg _ _ _) =
     ''/headlines.v1.FeedRecommendationService/GetRecommendationFeed''"
| "rpc_path (GetFollowFeedMsg _ _ _) = ''/headlines.v1.FeedFollowService/GetFollowFeed''"
| "rpc_path (StreamAccountArticlesMsg _ _ _) = ''/headlines.v1.AccountStreamService/StreamAccountArticles''"
| "rpc_path (RecordEventMsg _) = ''/headlines.v1.EventService/RecordEvent''"
| "rpc_path (RecordEventBatchMsg _) = ''/headlines.v1.EventService/RecordEventBatch''"
| "rpc_path (ListEventsMsg _) = ''/headlines.v1.EventService/ListEvents''"
| "rpc_path (SendNotificationMsg _) = ''/headlines.v1.NotificationService/SendNotification''"
| "rpc_path (SendNotificationBatchMsg _) = ''/headlines.v1.NotificationService/SendNotificationBatch''"
| "rpc_path (ListUserNotificationsMsg _ _ _ _) = ''/headlines.v1.NotificationService/ListUserNotifications''"
| "rpc_path (MarkNotificationReadMsg _) = ''/headlines.v1.NotificationService/MarkNotificationRead''"
| "rpc_path (MarkAllUserNotificationsReadMsg _) =
     ''/headlines.v1.NotificationService/MarkAllUserNotificationsRead''"
| "rpc_path (GetUserNotificationPreferencesMsg _) =
     ''/headlines.v1.NotificationService/GetUserNotificationPreferences''"
| "rpc_path (UpdateUserNotificationPreferencesMsg _ _) =
     ''/headlines.v1.NotificationService/UpdateUserNotificationPreferences''"

text \<open>
  A REST request as the handlers see it: \<open>rr_params\<close> are the values the router took from the
  path, \<open>rr_body\<close> is the body as JSON or the reason it is none.
\<close>

record rest_request =
  rr_method :: string
  rr_path :: string
  rr_query :: "string option"
  rr_headers :: "(string \<times> string) list"
  rr_params :: "string list"
  rr_body :: "json_rejection + json"

record 'c gateway_state =
  gs_nonces :: 'c
  gs_db :: db

record 'c gateway_ext =
  gx_api :: api_ext
  gx_http :: http_ext
  gx_table :: auth_table
  gx_authenticate :: "signed_request_parts \<Rightarrow> 'c \<Rightarrow> (auth_error + subject) \<times> 'c"
  gx_encode :: "grpc_msg \<Rightarrow> u8 list"
  gx_subject_json :: "subject \<Rightarrow> string option"
  gx_metadata :: "string \<Rightarrow> string option"
  gx_form :: "string \<Rightarrow> (string \<times> string) list"
  gx_match :: "string list \<Rightarrow> string \<Rightarrow> (string \<times> string list) option"
  gx_openapi :: json
  gx_time :: time_ext
  gx_feed :: feed_ext
  gx_errors :: error_ext

abbreviation gx_svc :: "'c gateway_ext \<Rightarrow> svc_ext" where
  "gx_svc g \<equiv> ax_svc (gx_api g)"

abbreviation gx_page :: "'c gateway_ext \<Rightarrow> page_ext" where
  "gx_page g \<equiv> fx_page (gx_feed g)"

text \<open>What the services draw while they handle the request: the time, fresh ids, a timestamp.\<close>

record draws =
  dw_now :: timestamp
  dw_id :: uuid
  dw_key_id :: uuid
  dw_event_ids :: "nat \<Rightarrow> uuid"
  dw_tso :: "string + tso"

text \<open>A failed handler answers with the gateway's envelope; an extractor answers plain text.\<close>

datatype rest_failure =
    Envelope gateway_error
  | Plain int string

subsection \<open>Authentication\<close>

definition auth_err_to_gateway_err :: "auth_error \<Rightarrow> gateway_error" where
  "auth_err_to_gateway_err e = GrpcError (plain_status TUnauthenticated (show_auth_error e))"

definition malformed_header :: gateway_error where
  "malformed_header = GrpcError (plain_status TUnauthenticated ''malformed_authorization_header'')"

definition rest_signed_parts :: "'c gateway_ext \<Rightarrow> rest_request \<Rightarrow> grpc_msg \<Rightarrow> parsed_auth_header \<Rightarrow> signed_request_parts" where
  "rest_signed_parts g rq msg parsed =
     \<lparr>srp_method = rr_method rq, srp_path = rr_path rq,
      srp_canonical_query = canonicalize_query (unwrap_or [] (rr_query rq)),
      srp_request_hash = sha256 (gx_http g) (gx_encode g msg), srp_key_id = pah_key_id parsed,
      srp_algo = pah_algo parsed, srp_ts = pah_ts parsed, srp_nonce = pah_nonce parsed,
      srp_signature = pah_signature parsed\<rparr>"

definition rest_subject :: "'c gateway_ext \<Rightarrow> rest_request \<Rightarrow> grpc_msg \<Rightarrow> 'c \<Rightarrow> (gateway_error + subject) \<times> 'c" where
  "rest_subject g rq msg c =
     (case map_of (rr_headers rq) ''authorization'' of
        None \<Rightarrow> (Inr Anonymous, c)
      | Some v \<Rightarrow>
          try_st (ok_or malformed_header (to_str (gx_http g) v)) c (\<lambda>raw.
          try_st (map_err (\<lambda>_. malformed_header) (parse_authorization_header (sx_text (gx_svc g)) raw)) c (\<lambda>parsed.
          let (r, c') = gx_authenticate g (rest_signed_parts g rq msg parsed) c
          in (map_err auth_err_to_gateway_err r, c'))))"

text \<open>The value of the trusted-subject metadata that the outgoing call carries.\<close>

definition attach_auth :: "'c gateway_ext \<Rightarrow> rest_request \<Rightarrow> grpc_msg \<Rightarrow> 'c \<Rightarrow> (gateway_error + string) \<times> 'c" where
  "attach_auth g rq msg c =
     (let (r, c') = rest_subject g rq msg c
      in try_st r c' (\<lambda>subj.
         try_st (ok_or (GrpcError (plain_status TInternal ''subject serialization failed''))
             (gx_subject_json g subj)) c' (\<lambda>js.
         (ok_or (GrpcError (plain_status TInternal ''subject metadata encode failed'')) (gx_metadata g js), c'))))"

subsection \<open>Calling a service\<close>

text \<open>A gRPC frame: no compression, the length in four bytes, the message.\<close>

definition grpc_frame :: "u8 list \<Rightarrow> u8 list" where
  "grpc_frame bs = 0 # map (\<lambda>k. of_nat (length bs div 256 ^ k)) [3, 2, 1, 0] @ bs"

definition grpc_request :: "'c gateway_ext \<Rightarrow> grpc_msg \<Rightarrow> string \<Rightarrow> request" where
  "grpc_request g msg v = \<lparr>req_method = ''POST'', req_path = rpc_path msg, req_query = None,
     req_headers = [(TRUSTED_SUBJECT_HEADER, v)], req_body = Some (grpc_frame (gx_encode g msg)), req_subject = None\<rparr>"

definition grpc_call ::
  "'c gateway_ext \<Rightarrow> grpc_msg \<Rightarrow> string \<Rightarrow> (subject \<Rightarrow> db \<Rightarrow> 'r rpc \<times> db) \<Rightarrow> db \<Rightarrow> (gateway_error + 'r) \<times> db" where
  "grpc_call g msg v handler d =
     (case trusted_listener (gx_http g) (gx_table g) (grpc_request g msg v) of
        Reply s \<Rightarrow> (Inl (GrpcError (layer_status s)), d)
      | Forward req \<Rightarrow>
          respond (\<lambda>e. GrpcError (rpc_tonic_status (gx_errors g) e)) (\<lambda>r. r)
            (handler (unwrap_or Anonymous (req_subject req)) d))"

text \<open>What every handler ends with: \<open>attach_auth(..)?\<close>, the call with \<open>?\<close>, the answer as JSON.\<close>

definition forward ::
  "'c gateway_ext \<Rightarrow> rest_request \<Rightarrow> grpc_msg \<Rightarrow> (subject \<Rightarrow> db \<Rightarrow> 'r rpc \<times> db) \<Rightarrow> ('r \<Rightarrow> json) \<Rightarrow>
   'c gateway_state \<Rightarrow> (rest_failure + json) \<times> 'c gateway_state" where
  "forward g rq msg handler conv st =
     (let (r, c) = attach_auth g rq msg (gs_nonces st); st' = st\<lparr>gs_nonces := c\<rparr>
      in try_st (map_err Envelope r) st' (\<lambda>v.
         let (r, d) = grpc_call g msg v handler (gs_db st)
         in (map_sum Envelope conv r, st'\<lparr>gs_db := d\<rparr>)))"

text \<open>Services whose handlers only answer domain errors, and reading services.\<close>

abbreviation dom_rpc :: "'a res \<times> db \<Rightarrow> 'a rpc \<times> db" where
  "dom_rpc \<equiv> respond Domain (\<lambda>a. a)"

abbreviation read_rpc :: "(db \<Rightarrow> 'a rpc) \<Rightarrow> db \<Rightarrow> 'a rpc \<times> db" where
  "read_rpc f d \<equiv> (f d, d)"

text \<open>The extractors: one or two path parameters, the JSON body, the query as a map.\<close>

definition path1 :: "rest_request \<Rightarrow> 's \<Rightarrow> (string \<Rightarrow> (rest_failure + 'a) \<times> 's) \<Rightarrow> (rest_failure + 'a) \<times> 's" where
  "path1 rq st k = (case rr_params rq of [a] \<Rightarrow> k a | _ \<Rightarrow> (Inl (Plain 500 ''Wrong number of path arguments''), st))"

definition path2 :: "rest_request \<Rightarrow> 's \<Rightarrow> (string \<Rightarrow> string \<Rightarrow> (rest_failure + 'a) \<times> 's) \<Rightarrow> (rest_failure + 'a) \<times> 's" where
  "path2 rq st k = (case rr_params rq of [a, b] \<Rightarrow> k a b | _ \<Rightarrow> (Inl (Plain 500 ''Wrong number of path arguments''), st))"

definition envelope_json :: "rest_request \<Rightarrow> 's \<Rightarrow> (json \<Rightarrow> (rest_failure + 'a) \<times> 's) \<Rightarrow> (rest_failure + 'a) \<times> 's" where
  "envelope_json rq st k = try_st (map_err (\<lambda>e. Envelope (gateway_of_rejection e)) (rr_body rq)) st k"

definition query_pairs_of :: "'c gateway_ext \<Rightarrow> rest_request \<Rightarrow> (string \<times> string) list" where
  "query_pairs_of g rq = gx_form g (unwrap_or [] (rr_query rq))"

definition query_get :: "'c gateway_ext \<Rightarrow> rest_request \<Rightarrow> string \<Rightarrow> string option" where
  "query_get g rq k = map_of (rev (query_pairs_of g rq)) k"

text \<open>\<open>i32::from_str\<close>: a sign, decimal digits, in range.\<close>

fun digits_value :: "nat \<Rightarrow> string \<Rightarrow> nat option" where
  "digits_value acc [] = Some acc"
| "digits_value acc (c # cs) = Option.bind (digit_of c) (\<lambda>v. digits_value (acc * 10 + v) cs)"

definition parse_i32 :: "string \<Rightarrow> int option" where
  "parse_i32 s =
     (let (neg, ds) = (case s of c # cs \<Rightarrow> if c = CHR ''-'' then (True, cs) else if c = CHR ''+'' then (False, cs)
                                            else (False, s) | [] \<Rightarrow> (False, []))
      in if ds = [] then None
         else Option.bind (digits_value 0 ds) (\<lambda>n.
           let i = (if neg then - int n else int n) in if - (2 ^ 31) \<le> i \<and> i < 2 ^ 31 then Some i else None))"

definition query_page_size :: "'c gateway_ext \<Rightarrow> rest_request \<Rightarrow> int" where
  "query_page_size g rq = unwrap_or 0 (Option.bind (query_get g rq ''page_size'') parse_i32)"

definition query_page_token :: "'c gateway_ext \<Rightarrow> rest_request \<Rightarrow> string" where
  "query_page_token g rq = unwrap_or [] (query_get g rq ''page_token'')"

definition query_flag :: "'c gateway_ext \<Rightarrow> rest_request \<Rightarrow> string \<Rightarrow> bool" where
  "query_flag g rq k = unwrap_or False (map_option (\<lambda>v. v = ''true'') (query_get g rq k))"

definition page_json :: "('a \<Rightarrow> json) \<Rightarrow> 'a list \<times> string \<Rightarrow> json" where
  "page_json conv p = json_obj [(''items'', JArr (map conv (fst p))), (''next_page_token'', JStr (snd p))]"

definition update_mask_field :: "json \<Rightarrow> string list option" where
  "update_mask_field body = map_option parse_field_mask (json_get ''update_mask'' body)"

subsection \<open>Accounts and users\<close>

definition rest_create_account ::
  "'c gateway_ext \<Rightarrow> draws \<Rightarrow> rest_request \<Rightarrow> 'c gateway_state \<Rightarrow> (rest_failure + json) \<times> 'c gateway_state" where
  "rest_create_account g dw rq st =
     envelope_json rq st (\<lambda>body.
     let req = \<lparr>car_short_name = str_field ''short_name'' body, car_author_name = str_field ''author_name'' body,
           car_author_url = str_field ''author_url'' body,
           car_initial_key = map_option parse_public_key (json_get ''initial_key'' body)\<rparr>
     in forward g rq (CreateAccountMsg req)
          (\<lambda>subj d. dom_rpc (create_account (gx_svc g) (ax_algos (gx_api g)) (ax_account_mode (gx_api g)) (dw_now dw) (dw_id dw)
             (dw_key_id dw) subj req d))
          (\<lambda>(a, k). json_obj [(''account'', account_to_json (gx_time g) a), (''key_id'', JStr k)]) st)"

definition rest_get_account ::
  "'c gateway_ext \<Rightarrow> draws \<Rightarrow> rest_request \<Rightarrow> 'c gateway_state \<Rightarrow> (rest_failure + json) \<times> 'c gateway_state" where
  "rest_get_account g dw rq st =
     path1 rq st (\<lambda>i. forward g rq (GetAccountMsg i)
       (\<lambda>subj. read_rpc (\<lambda>d. dom_res (get_account (gx_svc g) i d))) (account_to_json (gx_time g)) st)"

definition rest_create_user ::
  "'c gateway_ext \<Rightarrow> draws \<Rightarrow> rest_request \<Rightarrow> 'c gateway_state \<Rightarrow> (rest_failure + json) \<times> 'c gateway_state" where
  "rest_create_user g dw rq st =
     envelope_json rq st (\<lambda>body.
     let display_name = str_field ''display_name'' body;
         initial_key = map_option parse_public_key (json_get ''initial_key'' body)
     in forward g rq (CreateUserMsg display_name initial_key)
          (\<lambda>subj d. dom_rpc (create_user (gx_svc g) (ax_algos (gx_api g)) (ax_user_mode (gx_api g)) (dw_now dw) (dw_id dw)
             (dw_key_id dw) subj display_name initial_key d))
          (\<lambda>(u, k). json_obj [(''user'', user_to_json (gx_time g) u), (''key_id'', JStr k)]) st)"

definition rest_get_user ::
  "'c gateway_ext \<Rightarrow> draws \<Rightarrow> rest_request \<Rightarrow> 'c gateway_state \<Rightarrow> (rest_failure + json) \<times> 'c gateway_state" where
  "rest_get_user g dw rq st =
     path1 rq st (\<lambda>i. forward g rq (GetUserMsg i)
       (\<lambda>subj. read_rpc (\<lambda>d. dom_res (get_user (gx_svc g) subj i d))) (user_to_json (gx_time g)) st)"

definition rest_update_user ::
  "'c gateway_ext \<Rightarrow> draws \<Rightarrow> rest_request \<Rightarrow> 'c gateway_state \<Rightarrow> (rest_failure + json) \<times> 'c gateway_state" where
  "rest_update_user g dw rq st =
     path1 rq st (\<lambda>i. envelope_json rq st (\<lambda>body.
     let user = Some \<lparr>um_id = i, um_display_name = str_field ''display_name'' body, um_status = 0,
           um_deleted_at = None, um_created_at = None\<rparr>;
         update_mask = update_mask_field body
     in forward g rq (UpdateUserMsg user update_mask)
          (\<lambda>subj d. dom_rpc (update_user (gx_svc g) subj user update_mask d)) (user_to_json (gx_time g)) st))"

definition rest_delete_user ::
  "'c gateway_ext \<Rightarrow> draws \<Rightarrow> rest_request \<Rightarrow> 'c gateway_state \<Rightarrow> (rest_failure + json) \<times> 'c gateway_state" where
  "rest_delete_user g dw rq st =
     path1 rq st (\<lambda>i. forward g rq (DeleteUserMsg i)
       (\<lambda>subj d. dom_rpc (delete_user (gx_svc g) (dw_now dw) subj i d)) (user_to_json (gx_time g)) st)"

definition rest_add_user_key ::
  "'c gateway_ext \<Rightarrow> draws \<Rightarrow> rest_request \<Rightarrow> 'c gateway_state \<Rightarrow> (rest_failure + json) \<times> 'c gateway_state" where
  "rest_add_user_key g dw rq st =
     path1 rq st (\<lambda>i. envelope_json rq st (\<lambda>body.
     let key = map_option parse_public_key (json_get ''key'' body)
     in forward g rq (AddUserKeyMsg i key)
          (\<lambda>subj d. dom_rpc (add_user_key (gx_svc g) (ax_algos (gx_api g)) (dw_now dw) (dw_key_id dw) subj i key d))
          (user_key_to_json (gx_time g)) st))"

definition rest_revoke_user_key ::
  "'c gateway_ext \<Rightarrow> draws \<Rightarrow> rest_request \<Rightarrow> 'c gateway_state \<Rightarrow> (rest_failure + json) \<times> 'c gateway_state" where
  "rest_revoke_user_key g dw rq st =
     path2 rq st (\<lambda>i key_id. forward g rq (RevokeUserKeyMsg i key_id)
       (\<lambda>subj d. dom_rpc (revoke_user_key (gx_svc g) (dw_now dw) subj i key_id d)) (user_key_to_json (gx_time g)) st)"

subsection \<open>Articles\<close>

definition rest_publish_article ::
  "'c gateway_ext \<Rightarrow> draws \<Rightarrow> rest_request \<Rightarrow> 'c gateway_state \<Rightarrow> (rest_failure + json) \<times> 'c gateway_state" where
  "rest_publish_article g dw rq st =
     path1 rq st (\<lambda>account_id. envelope_json rq st (\<lambda>body.
     let req = \<lparr>par_account_id = account_id, par_title = str_field ''title'' body,
           par_author_name = str_field ''author_name'' body, par_author_url = str_field ''author_url'' body,
           par_content = content_field body\<rparr>
     in forward g rq (PublishArticleMsg req)
          (\<lambda>subj. publish_article (gx_svc g) (ax_ser (gx_api g)) (ax_content_max (gx_api g)) (dw_now dw) (dw_id dw) subj req)
          (article_to_json (gx_time g)) st))"

definition rest_get_article ::
  "'c gateway_ext \<Rightarrow> draws \<Rightarrow> rest_request \<Rightarrow> 'c gateway_state \<Rightarrow> (rest_failure + json) \<times> 'c gateway_state" where
  "rest_get_article g dw rq st =
     path1 rq st (\<lambda>i. forward g rq (GetArticleMsg i)
       (\<lambda>subj. read_rpc (get_article (gx_svc g) i)) (article_to_json (gx_time g)) st)"

definition rest_list_account_articles ::
  "'c gateway_ext \<Rightarrow> draws \<Rightarrow> rest_request \<Rightarrow> 'c gateway_state \<Rightarrow> (rest_failure + json) \<times> 'c gateway_state" where
  "rest_list_account_articles g dw rq st =
     path1 rq st (\<lambda>account_id.
     let page_size = query_page_size g rq; page_token = query_page_token g rq;
         include_tombstoned = query_flag g rq ''include_tombstoned''
     in forward g rq (ListAccountArticlesMsg account_id page_size page_token include_tombstoned)
          (\<lambda>subj. read_rpc (list_account_articles (gx_svc g) (gx_page g) account_id include_tombstoned page_size page_token))
          (page_json (article_summary_to_json (gx_time g))) st)"

definition rest_edit_article ::
  "'c gateway_ext \<Rightarrow> draws \<Rightarrow> rest_request \<Rightarrow> 'c gateway_state \<Rightarrow> (rest_failure + json) \<times> 'c gateway_state" where
  "rest_edit_article g dw rq st =
     path1 rq st (\<lambda>i. envelope_json rq st (\<lambda>body.
     let edit = map_option (\<lambda>v. \<lparr>aem_title = str_field ''title'' v, aem_author_name = str_field ''author_name'' v,
           aem_author_url = str_field ''author_url'' v, aem_content = content_field v\<rparr>) (json_get ''edit'' body);
         update_mask = update_mask_field body
     in forward g rq (EditArticleMsg i edit update_mask)
          (\<lambda>subj. edit_article (gx_svc g) (ax_ser (gx_api g)) (ax_content_max (gx_api g)) (dw_now dw) subj i edit update_mask)
          (article_to_json (gx_time g)) st))"

definition rest_tombstone_article ::
  "'c gateway_ext \<Rightarrow> draws \<Rightarrow> rest_request \<Rightarrow> 'c gateway_state \<Rightarrow> (rest_failure + json) \<times> 'c gateway_state" where
  "rest_tombstone_article g dw rq st =
     path1 rq st (\<lambda>i. envelope_json rq st (\<lambda>body.
     let rsn = str_field ''reason'' body
     in forward g rq (TombstoneArticleMsg i rsn)
          (\<lambda>subj. tombstone_article (gx_svc g) (dw_now dw) subj i rsn) (article_to_json (gx_time g)) st))"

definition rest_redact_article_version ::
  "'c gateway_ext \<Rightarrow> draws \<Rightarrow> rest_request \<Rightarrow> 'c gateway_state \<Rightarrow> (rest_failure + json) \<times> 'c gateway_state" where
  "rest_redact_article_version g dw rq st =
     path2 rq st (\<lambda>article_id version. envelope_json rq st (\<lambda>body.
     try_st (ok_or (Envelope (GrpcError (plain_status TInvalidArgument ''version must be an int''))) (parse_i32 version)) st (\<lambda>v.
     let redaction_reason = str_field ''redaction_reason'' body
     in forward g rq (RedactArticleVersionMsg article_id v redaction_reason)
          (\<lambda>subj. redact_article_version (gx_svc g) (dw_now dw) article_id v redaction_reason) (\<lambda>_. json_obj []) st)))"

subsection \<open>Drafts\<close>

definition rest_create_draft ::
  "'c gateway_ext \<Rightarrow> draws \<Rightarrow> rest_request \<Rightarrow> 'c gateway_state \<Rightarrow> (rest_failure + json) \<times> 'c gateway_state" where
  "rest_create_draft g dw rq st =
     path1 rq st (\<lambda>account_id. envelope_json rq st (\<lambda>body.
     let req = \<lparr>par_account_id = account_id, par_title = str_field ''title'' body,
           par_author_name = str_field ''author_name'' body, par_author_url = str_field ''author_url'' body,
           par_content = content_field body\<rparr>
     in forward g rq (CreateDraftMsg req)
          (\<lambda>subj. create_draft (gx_svc g) (ax_ser (gx_api g)) (ax_content_max (gx_api g)) (dw_now dw) (dw_id dw) subj req)
          (draft_to_json (gx_time g)) st))"

definition rest_get_draft ::
  "'c gateway_ext \<Rightarrow> draws \<Rightarrow> rest_request \<Rightarrow> 'c gateway_state \<Rightarrow> (rest_failure + json) \<times> 'c gateway_state" where
  "rest_get_draft g dw rq st =
     path1 rq st (\<lambda>i. forward g rq (GetDraftMsg i)
       (\<lambda>subj. read_rpc (get_draft (gx_svc g) subj i)) (draft_to_json (gx_time g)) st)"

definition rest_update_draft ::
  "'c gateway_ext \<Rightarrow> draws \<Rightarrow> rest_request \<Rightarrow> 'c gateway_state \<Rightarrow> (rest_failure + json) \<times> 'c gateway_state" where
  "rest_update_draft g dw rq st =
     path1 rq st (\<lambda>i. envelope_json rq st (\<lambda>body.
     let draft = map_option (\<lambda>v. \<lparr>dm_id = i, dm_account_id = [], dm_title = str_field ''title'' v,
           dm_author_name = str_field ''author_name'' v, dm_author_url = str_field ''author_url'' v,
           dm_content = content_field v, dm_created_at = None, dm_updated_at = None\<rparr>) (json_get ''draft'' body);
         update_mask = update_mask_field body
     in forward g rq (UpdateDraftMsg draft update_mask)
          (\<lambda>subj. update_draft (gx_svc g) (ax_ser (gx_api g)) (ax_content_max (gx_api g)) (dw_now dw) subj draft update_mask)
          (draft_to_json (gx_time g)) st))"

definition rest_delete_draft ::
  "'c gateway_ext \<Rightarrow> draws \<Rightarrow> rest_request \<Rightarrow> 'c gateway_state \<Rightarrow> (rest_failure + json) \<times> 'c gateway_state" where
  "rest_delete_draft g dw rq st =
     path1 rq st (\<lambda>i. forward g rq (DeleteDraftMsg i)
       (\<lambda>subj. delete_draft (gx_svc g) subj i) (\<lambda>_. json_obj []) st)"

definition rest_list_account_drafts ::
  "'c gateway_ext \<Rightarrow> draws \<Rightarrow> rest_request \<Rightarrow> 'c gateway_state \<Rightarrow> (rest_failure + json) \<times> 'c gateway_state" where
  "rest_list_account_drafts g dw rq st =
     path1 rq st (\<lambda>account_id.
     let page_size = query_page_size g rq; page_token = query_page_token g rq
     in forward g rq (ListAccountDraftsMsg account_id page_size page_token)
          (\<lambda>subj. read_rpc (list_account_drafts (gx_svc g) (gx_page g) subj account_id page_size page_token))
          (page_json (draft_summary_to_json (gx_time g))) st)"

definition rest_publish_draft ::
  "'c gateway_ext \<Rightarrow> draws \<Rightarrow> rest_request \<Rightarrow> 'c gateway_state \<Rightarrow> (rest_failure + json) \<times> 'c gateway_state" where
  "rest_publish_draft g dw rq st =
     path1 rq st (\<lambda>i. forward g rq (PublishDraftMsg i)
       (\<lambda>subj. publish_draft (gx_svc g) (ax_ser (gx_api g)) (ax_content_max (gx_api g)) (dw_now dw) subj i)
       (article_to_json (gx_time g)) st)"

subsection \<open>Follows\<close>

definition rest_follow_user ::
  "'c gateway_ext \<Rightarrow> draws \<Rightarrow> rest_request \<Rightarrow> 'c gateway_state \<Rightarrow> (rest_failure + json) \<times> 'c gateway_state" where
  "rest_follow_user g dw rq st =
     path1 rq st (\<lambda>user. envelope_json rq st (\<lambda>body.
     let account = str_field ''account_id'' body
     in forward g rq (FollowMsg user account)
          (\<lambda>subj d. dom_rpc (follow_rpc (gx_svc g) (dw_now dw) subj user account d)) (follow_to_json (gx_time g)) st))"

definition rest_unfollow_user ::
  "'c gateway_ext \<Rightarrow> draws \<Rightarrow> rest_request \<Rightarrow> 'c gateway_state \<Rightarrow> (rest_failure + json) \<times> 'c gateway_state" where
  "rest_unfollow_user g dw rq st =
     path2 rq st (\<lambda>user account. forward g rq (UnfollowMsg user account)
       (\<lambda>subj d. dom_rpc (unfollow_rpc (gx_svc g) (dw_now dw) subj user account d)) (follow_to_json (gx_time g)) st)"

definition rest_get_follow ::
  "'c gateway_ext \<Rightarrow> draws \<Rightarrow> rest_request \<Rightarrow> 'c gateway_state \<Rightarrow> (rest_failure + json) \<times> 'c gateway_state" where
  "rest_get_follow g dw rq st =
     path2 rq st (\<lambda>user account. forward g rq (GetFollowMsg user account)
       (\<lambda>subj. read_rpc (\<lambda>d. dom_res (get_follow (gx_svc g) subj user account d))) (follow_to_json (gx_time g)) st)"

definition rest_list_user_follows ::
  "'c gateway_ext \<Rightarrow> draws \<Rightarrow> rest_request \<Rightarrow> 'c gateway_state \<Rightarrow> (rest_failure + json) \<times> 'c gateway_state" where
  "rest_list_user_follows g dw rq st =
     path1 rq st (\<lambda>user.
     let page_size = query_page_size g rq; page_token = query_page_token g rq;
         include_unfollowed = query_flag g rq ''include_unfollowed''
     in forward g rq (ListUserFollowsMsg user page_size page_token include_unfollowed)
          (\<lambda>subj. read_rpc (\<lambda>d. dom_res (list_user_follows (gx_svc g) (gx_page g) subj user include_unfollowed page_size
             page_token d)))
          (page_json (follow_to_json (gx_time g))) st)"

definition rest_list_account_followers ::
  "'c gateway_ext \<Rightarrow> draws \<Rightarrow> rest_request \<Rightarrow> 'c gateway_state \<Rightarrow> (rest_failure + json) \<times> 'c gateway_state" where
  "rest_list_account_followers g dw rq st =
     path1 rq st (\<lambda>account.
     let page_size = query_page_size g rq; page_token = query_page_token g rq;
         include_unfollowed = query_flag g rq ''include_unfollowed''
     in forward g rq (ListAccountFollowersMsg account page_size page_token include_unfollowed)
          (\<lambda>subj. read_rpc (\<lambda>d. dom_res (list_account_followers (gx_svc g) (gx_page g) subj account include_unfollowed page_size
             page_token d)))
          (page_json (follow_to_json (gx_time g))) st)"

subsection \<open>Feeds\<close>

definition rest_replace_recommendation_feed ::
  "'c gateway_ext \<Rightarrow> draws \<Rightarrow> rest_request \<Rightarrow> 'c gateway_state \<Rightarrow> (rest_failure + json) \<times> 'c gateway_state" where
  "rest_replace_recommendation_feed g dw rq st =
     path1 rq st (\<lambda>user. envelope_json rq st (\<lambda>body.
     let article_ids = str_array ''article_ids'' body
     in forward g rq (ReplaceRecommendationFeedMsg user article_ids)
          (\<lambda>subj. replace_recommendation_feed (gx_svc g) (ax_feed_max (gx_api g)) subj user article_ids)
          (\<lambda>n. json_obj [(''stored_count'', JNum n)]) st))"

definition rest_get_recommendation_feed ::
  "'c gateway_ext \<Rightarrow> draws \<Rightarrow> rest_request \<Rightarrow> 'c gateway_state \<Rightarrow> (rest_failure + json) \<times> 'c gateway_state" where
  "rest_get_recommendation_feed g dw rq st =
     path1 rq st (\<lambda>user.
     let page_size = query_page_size g rq; page_token = query_page_token g rq
     in forward g rq (GetRecommendationFeedMsg user page_size page_token)
          (\<lambda>subj. read_rpc (get_recommendation_feed (gx_svc g) (gx_feed g) subj user page_size page_token))
          (page_json (feed_item_to_json (gx_time g))) st)"

definition rest_get_follow_feed ::
  "'c gateway_ext \<Rightarrow> draws \<Rightarrow> rest_request \<Rightarrow> 'c gateway_state \<Rightarrow> (rest_failure + json) \<times> 'c gateway_state" where
  "rest_get_follow_feed g dw rq st =
     path1 rq st (\<lambda>user.
     let page_size = query_page_size g rq; page_token = query_page_token g rq
     in forward g rq (GetFollowFeedMsg user page_size page_token)
          (\<lambda>subj. read_rpc (get_follow_feed (gx_svc g) (gx_page g) subj user page_size page_token))
          (page_json (follow_feed_item_to_json (gx_time g))) st)"

definition rest_stream_account_articles ::
  "'c gateway_ext \<Rightarrow> draws \<Rightarrow> rest_request \<Rightarrow> 'c gateway_state \<Rightarrow> (rest_failure + json) \<times> 'c gateway_state" where
  "rest_stream_account_articles g dw rq st =
     path1 rq st (\<lambda>account.
     let page_size = query_page_size g rq; page_token = query_page_token g rq
     in forward g rq (StreamAccountArticlesMsg account page_size page_token)
          (\<lambda>subj. read_rpc (stream_account_articles (gx_svc g) (gx_page g) subj account page_size page_token))
          (page_json (account_stream_item_to_json (gx_time g))) st)"

subsection \<open>Events\<close>

definition rest_record_event ::
  "'c gateway_ext \<Rightarrow> draws \<Rightarrow> rest_request \<Rightarrow> 'c gateway_state \<Rightarrow> (rest_failure + json) \<times> 'c gateway_state" where
  "rest_record_event g dw rq st =
     envelope_json rq st (\<lambda>body.
     let req = parse_record_event_request (gx_time g) body
     in forward g rq (RecordEventMsg req)
          (\<lambda>subj. record_event (ax_events (gx_api g)) (dw_tso dw) (dw_now dw) (dw_id dw) subj req)
          (event_to_json (gx_time g)) st)"

definition rest_record_event_batch ::
  "'c gateway_ext \<Rightarrow> draws \<Rightarrow> rest_request \<Rightarrow> 'c gateway_state \<Rightarrow> (rest_failure + json) \<times> 'c gateway_state" where
  "rest_record_event_batch g dw rq st =
     envelope_json rq st (\<lambda>body.
     let reqs = unwrap_or [] (map_option (map (parse_record_event_request (gx_time g)))
           (Option.bind (json_get ''events'' body) as_array))
     in forward g rq (RecordEventBatchMsg reqs)
          (\<lambda>subj. record_event_batch (ax_events (gx_api g)) (ax_batch_max (gx_api g)) (dw_tso dw) (dw_now dw)
             (map (dw_event_ids dw) [0..<length reqs]) subj reqs)
          (\<lambda>(recorded, n). json_obj [(''recorded'', JArr (map (event_to_json (gx_time g)) recorded)),
             (''stored_count'', JNum n)]) st)"

definition event_query_step :: "time_ext \<Rightarrow> list_events_req \<Rightarrow> string \<times> string \<Rightarrow> list_events_req" where
  "event_query_step x req kv =
     (let (k, v) = kv
      in if k = ''user_id'' then req\<lparr>lq_user_id := v\<rparr>
         else if k = ''article_id'' then req\<lparr>lq_article_id := v\<rparr>
         else if k = ''page_size'' then req\<lparr>lq_page_size := unwrap_or 0 (parse_i32 v)\<rparr>
         else if k = ''page_token'' then req\<lparr>lq_page_token := v\<rparr>
         else if k = ''received_after'' then req\<lparr>lq_received_after := parse_rfc3339_to_proto x v\<rparr>
         else if k = ''received_before'' then req\<lparr>lq_received_before := parse_rfc3339_to_proto x v\<rparr>
         else if k = ''types'' \<or> k = ''types[]''
         then (case parse_event_type_str v of Some t \<Rightarrow> req\<lparr>lq_types := lq_types req @ [t]\<rparr> | None \<Rightarrow> req)
         else req)"

definition rest_list_events ::
  "'c gateway_ext \<Rightarrow> draws \<Rightarrow> rest_request \<Rightarrow> 'c gateway_state \<Rightarrow> (rest_failure + json) \<times> 'c gateway_state" where
  "rest_list_events g dw rq st =
     (let req = foldl (event_query_step (gx_time g))
           \<lparr>lq_user_id = [], lq_article_id = [], lq_types = [], lq_received_after = None, lq_received_before = None,
            lq_page_size = 0, lq_page_token = []\<rparr> (query_pairs_of g rq)
      in forward g rq (ListEventsMsg req)
           (\<lambda>subj. read_rpc (list_events (ax_events (gx_api g)) (gx_page g) subj req))
           (page_json (event_to_json (gx_time g))) st)"

subsection \<open>Notifications\<close>

text \<open>The notification service: each RPC names itself in the error it answers.\<close>

definition unimpl :: "string \<Rightarrow> rpc_error" where
  "unimpl rpc_name = Domain (NotImplementedInV1 rpc_name)"

definition send_notification :: "send_notification_req \<Rightarrow> unit rpc" where
  "send_notification req = Inl (unimpl ''NotificationService/SendNotification'')"

definition send_notification_batch :: "(send_notification_req list) \<Rightarrow> unit rpc" where
  "send_notification_batch req = Inl (unimpl ''NotificationService/SendNotificationBatch'')"

definition list_user_notifications :: "(string \<times> int \<times> string \<times> bool) \<Rightarrow> unit rpc" where
  "list_user_notifications req = Inl (unimpl ''NotificationService/ListUserNotifications'')"

definition mark_notification_read :: "string \<Rightarrow> unit rpc" where
  "mark_notification_read req = Inl (unimpl ''NotificationService/MarkNotificationRead'')"

definition mark_all_user_notifications_read :: "string \<Rightarrow> unit rpc" where
  "mark_all_user_notifications_read req = Inl (unimpl ''NotificationService/MarkAllUserNotificationsRead'')"

definition get_user_notification_preferences :: "string \<Rightarrow> unit rpc" where
  "get_user_notification_preferences req = Inl (unimpl ''NotificationService/GetUserNotificationPreferences'')"

definition update_user_notification_preferences :: "(notification_preferences option \<times> string list option) \<Rightarrow> unit rpc" where
  "update_user_notification_preferences req = Inl (unimpl ''NotificationService/UpdateUserNotificationPreferences'')"

definition rest_send_notification ::
  "'c gateway_ext \<Rightarrow> draws \<Rightarrow> rest_request \<Rightarrow> 'c gateway_state \<Rightarrow> (rest_failure + json) \<times> 'c gateway_state" where
  "rest_send_notification g dw rq st =
     envelope_json rq st (\<lambda>body.
     let req = parse_send_notification_request body
     in forward g rq (SendNotificationMsg req) (\<lambda>subj. read_rpc (\<lambda>_. send_notification req)) (\<lambda>_. json_obj []) st)"

definition rest_send_notification_batch ::
  "'c gateway_ext \<Rightarrow> draws \<Rightarrow> rest_request \<Rightarrow> 'c gateway_state \<Rightarrow> (rest_failure + json) \<times> 'c gateway_state" where
  "rest_send_notification_batch g dw rq st =
     envelope_json rq st (\<lambda>body.
     let reqs = unwrap_or [] (map_option (map parse_send_notification_request)
           (Option.bind (json_get ''notifications'' body) as_array))
     in forward g rq (SendNotificationBatchMsg reqs) (\<lambda>subj. read_rpc (\<lambda>_. send_notification_batch reqs))
          (\<lambda>_. json_obj []) st)"

definition rest_list_user_notifications ::
  "'c gateway_ext \<Rightarrow> draws \<Rightarrow> rest_request \<Rightarrow> 'c gateway_state \<Rightarrow> (rest_failure + json) \<times> 'c gateway_state" where
  "rest_list_user_notifications g dw rq st =
     path1 rq st (\<lambda>user.
     let page_size = query_page_size g rq; page_token = query_page_token g rq; unread_only = query_flag g rq ''unread_only''
     in forward g rq (ListUserNotificationsMsg user page_size page_token unread_only)
          (\<lambda>subj. read_rpc (\<lambda>_. list_user_notifications (user, page_size, page_token, unread_only))) (\<lambda>_. json_obj []) st)"

definition rest_mark_notification_read ::
  "'c gateway_ext \<Rightarrow> draws \<Rightarrow> rest_request \<Rightarrow> 'c gateway_state \<Rightarrow> (rest_failure + json) \<times> 'c gateway_state" where
  "rest_mark_notification_read g dw rq st =
     path1 rq st (\<lambda>i. forward g rq (MarkNotificationReadMsg i)
       (\<lambda>subj. read_rpc (\<lambda>_. mark_notification_read i)) (\<lambda>_. json_obj []) st)"

definition rest_mark_all_user_notifications_read ::
  "'c gateway_ext \<Rightarrow> draws \<Rightarrow> rest_request \<Rightarrow> 'c gateway_state \<Rightarrow> (rest_failure + json) \<times> 'c gateway_state" where
  "rest_mark_all_user_notifications_read g dw rq st =
     path1 rq st (\<lambda>user. forward g rq (MarkAllUserNotificationsReadMsg user)
       (\<lambda>subj. read_rpc (\<lambda>_. mark_all_user_notifications_read user)) (\<lambda>_. json_obj []) st)"

definition rest_get_user_notification_preferences ::
  "'c gateway_ext \<Rightarrow> draws \<Rightarrow> rest_request \<Rightarrow> 'c gateway_state \<Rightarrow> (rest_failure + json) \<times> 'c gateway_state" where
  "rest_get_user_notification_preferences g dw rq st =
     path1 rq st (\<lambda>user. forward g rq (GetUserNotificationPreferencesMsg user)
       (\<lambda>subj. read_rpc (\<lambda>_. get_user_notification_preferences user)) (\<lambda>_. json_obj []) st)"

definition rest_update_user_notification_preferences ::
  "'c gateway_ext \<Rightarrow> draws \<Rightarrow> rest_request \<Rightarrow> 'c gateway_state \<Rightarrow> (rest_failure + json) \<times> 'c gateway_state" where
  "rest_update_user_notification_preferences g dw rq st =
     path1 rq st (\<lambda>user. envelope_json rq st (\<lambda>body.
     let prefs = (unwrap_or \<lparr>pf_user_id = [], pf_disabled_channels = [], pf_disabled_kinds = [], pf_quiet_hours = None\<rparr>
           (map_option parse_notification_preferences (json_get ''preferences'' body)))\<lparr>pf_user_id := user\<rparr>;
         update_mask = update_mask_field body
     in forward g rq (UpdateUserNotificationPreferencesMsg (Some prefs) update_mask)
          (\<lambda>subj. read_rpc (\<lambda>_. update_user_notification_preferences (Some prefs, update_mask))) (\<lambda>_. json_obj []) st))"

subsection \<open>The router\<close>

definition get_healthz ::
  "'c gateway_ext \<Rightarrow> draws \<Rightarrow> rest_request \<Rightarrow> 'c gateway_state \<Rightarrow> (rest_failure + json) \<times> 'c gateway_state" where
  "get_healthz g dw rq st =
     (Inr (json_obj [(''status'', JStr ''ok'')]), st)"

definition get_openapi ::
  "'c gateway_ext \<Rightarrow> draws \<Rightarrow> rest_request \<Rightarrow> 'c gateway_state \<Rightarrow> (rest_failure + json) \<times> 'c gateway_state" where
  "get_openapi g dw rq st =
     (Inr (gx_openapi g), st)"

type_synonym 'c rest_handler =
  "'c gateway_ext \<Rightarrow> draws \<Rightarrow> rest_request \<Rightarrow> 'c gateway_state \<Rightarrow> (rest_failure + json) \<times> 'c gateway_state"

definition routes :: "(string \<times> (string \<times> 'c rest_handler) list) list" where
  "routes =
     [(''/healthz'', [(''GET'', get_healthz)]),
      (''/openapi.json'', [(''GET'', get_openapi)]),
      (''/v1/accounts'', [(''POST'', rest_create_account)]),
      (''/v1/accounts/:id'', [(''GET'', rest_get_account)]),
      (''/v1/users'', [(''POST'', rest_create_user)]),
      (''/v1/users/:id'', [(''GET'', rest_get_user), (''PATCH'', rest_update_user), (''DELETE'', rest_delete_user)]),
      (''/v1/users/:id/keys'', [(''POST'', rest_add_user_key)]),
      (''/v1/users/:id/keys/:key_id/revoke'', [(''POST'', rest_revoke_user_key)]),
      (''/v1/accounts/:account_id/articles'', [(''POST'', rest_publish_article), (''GET'', rest_list_account_articles)]),
      (''/v1/articles/:id'', [(''GET'', rest_get_article), (''PATCH'', rest_edit_article)]),
      (''/v1/articles/:id/tombstone'', [(''POST'', rest_tombstone_article)]),
      (''/v1/articles/:article_id/versions/:version/redact'', [(''POST'', rest_redact_article_version)]),
      (''/v1/accounts/:account_id/drafts'', [(''POST'', rest_create_draft), (''GET'', rest_list_account_drafts)]),
      (''/v1/drafts/:id'', [(''GET'', rest_get_draft), (''PATCH'', rest_update_draft), (''DELETE'', rest_delete_draft)]),
      (''/v1/drafts/:id/publish'', [(''POST'', rest_publish_draft)]),
      (''/v1/users/:user_id/follows'', [(''POST'', rest_follow_user), (''GET'', rest_list_user_follows)]),
      (''/v1/users/:user_id/follows/:account_id'', [(''GET'', rest_get_follow), (''DELETE'', rest_unfollow_user)]),
      (''/v1/accounts/:account_id/followers'', [(''GET'', rest_list_account_followers)]),
      (''/v1/users/:user_id/feed/recommendation'', [(''PUT'', rest_replace_recommendation_feed), (''GET'', rest_get_recommendation_feed)]),
      (''/v1/users/:user_id/feed/follow'', [(''GET'', rest_get_follow_feed)]),
      (''/v1/accounts/:account_id/article-stream'', [(''GET'', rest_stream_account_articles)]),
      (''/v1/events'', [(''POST'', rest_record_event), (''GET'', rest_list_events)]),
      (''/v1/events:batch'', [(''POST'', rest_record_event_batch)]),
      (''/v1/notifications'', [(''POST'', rest_send_notification)]),
      (''/v1/notifications:batch'', [(''POST'', rest_send_notification_batch)]),
      (''/v1/users/:user_id/notifications'', [(''GET'', rest_list_user_notifications)]),
      (''/v1/notifications/:id/read'', [(''POST'', rest_mark_notification_read)]),
      (''/v1/users/:user_id/notifications:mark-all-read'', [(''POST'', rest_mark_all_user_notifications_read)]),
      (''/v1/users/:user_id/notification-preferences'', [(''GET'', rest_get_user_notification_preferences), (''PATCH'', rest_update_user_notification_preferences)])]"

text \<open>\<open>axum\<close> answers \<open>HEAD\<close> with the handler of \<open>GET\<close>.\<close>

definition find_method :: "string \<Rightarrow> (string \<times> 'h) list \<Rightarrow> 'h option" where
  "find_method m ms = (case map_of ms m of Some h \<Rightarrow> Some h | None \<Rightarrow> if m = ''HEAD'' then map_of ms ''GET'' else None)"

definition find_route :: "'c gateway_ext \<Rightarrow> rest_request \<Rightarrow> rest_failure + 'c rest_handler \<times> string list" where
  "find_route g rq =
     (case gx_match g (map fst (routes :: (string \<times> (string \<times> 'c rest_handler) list) list)) (rr_path rq) of
        None \<Rightarrow> Inl (Plain 404 [])
      | Some (pat, params) \<Rightarrow>
          (case Option.bind (map_of routes pat) (find_method (rr_method rq)) of
             None \<Rightarrow> Inl (Plain 405 [])
           | Some h \<Rightarrow> Inr (h, params)))"

definition rest_app :: "'c rest_handler" where
  "rest_app g dw rq st =
     try_st (find_route g rq) st (\<lambda>(h, params). h g dw (rq\<lparr>rr_params := params\<rparr>) st)"

text \<open>The HTTP answer: its status and, where it is JSON, its body.\<close>

fun http_answer :: "error_ext \<Rightarrow> rest_failure + json \<Rightarrow> int \<times> json option" where
  "http_answer x (Inr j) = (200, Some j)"
| "http_answer x (Inl (Envelope e)) = map_prod id Some (into_response x e)"
| "http_answer x (Inl (Plain http t)) = (http, None)"

end
