(* ===== verification/Rest_Safety.thy ===== *)
theory Rest_Safety
  imports Rest_Gateway
begin

text \<open>
  What the REST gateway guarantees as a whole, over all its routes: whoever gets through it was
  authenticated for this very REST request and is allowed the RPC it is translated to; what it
  does to the database is what one service call by that subject does; and an answer other than
  success has changed nothing.
\<close>

subsection \<open>Specification\<close>

text \<open>
  \<open>serde\<close> and \<open>http\<close> give back the subject that was put into the metadata.
\<close>

definition subject_codec_ok :: "'c gateway_ext \<Rightarrow> bool" where
  "subject_codec_ok g \<longleftrightarrow>
     (\<forall>s j v. gx_subject_json g s = Some j \<longrightarrow> gx_metadata g j = Some v \<longrightarrow>
        Option.bind (to_str (gx_http g) v) (subject_of_json (gx_http g)) = Some s)"

text \<open>
  The REST request was signed, in its own method, path and query and over the message it is
  translated to, by a key of \<open>subj\<close>, or it has no credential and \<open>subj\<close> is Anonymous; and the
  authorization table allows \<open>subj\<close> the RPC.
\<close>

definition admitted :: "'c gateway_ext \<Rightarrow> rest_request \<Rightarrow> grpc_msg \<Rightarrow> 'c \<Rightarrow> subject \<Rightarrow> 'c \<Rightarrow> bool" where
  "admitted g rq msg c subj c' \<longleftrightarrow>
     (\<exists>spec. table_lookup (gx_table g) (rpc_path msg) = Some spec \<and> is_allowed subj spec) \<and>
     (map_of (rr_headers rq) ''authorization'' = None \<and> subj = Anonymous \<and> c' = c \<or>
      (\<exists>v raw parsed. map_of (rr_headers rq) ''authorization'' = Some v \<and> to_str (gx_http g) v = Some raw \<and>
         parse_authorization_header (sx_text (gx_svc g)) raw = Inr parsed \<and>
         gx_authenticate g (rest_signed_parts g rq msg parsed) c = (Inr subj, c')))"

text \<open>The ids drawn are new, and those of a batch, as many as its limit allows, distinct.\<close>

definition draws_fresh :: "api_ext \<Rightarrow> draws \<Rightarrow> db \<Rightarrow> bool" where
  "draws_fresh x dw d \<longleftrightarrow>
     lookup dr_id (dw_id dw) (drafts d) = None \<and> lookup ar_id (dw_id dw) (articles d) = None \<and>
     ids_fresh (map (dw_event_ids dw) [0..<ax_batch_max x]) d"

text \<open>
  The service call a message asks for, with the ids drawn for it; the other messages read, and a
  batch over the limit asks for nothing.
\<close>

fun msg_call :: "api_ext \<Rightarrow> draws \<Rightarrow> grpc_msg \<Rightarrow> api_call option" where
  "msg_call x dw (CreateAccountMsg req) = Some (CreateAccount (dw_id dw) (dw_key_id dw) req)"
| "msg_call x dw (CreateUserMsg name key) = Some (CreateUser (dw_id dw) (dw_key_id dw) name key)"
| "msg_call x dw (UpdateUserMsg user umask) = Some (UpdateUser user umask)"
| "msg_call x dw (DeleteUserMsg raw) = Some (DeleteUser raw)"
| "msg_call x dw (AddUserKeyMsg raw key) = Some (AddUserKey (dw_key_id dw) raw key)"
| "msg_call x dw (RevokeUserKeyMsg raw kid) = Some (RevokeUserKey raw kid)"
| "msg_call x dw (PublishArticleMsg req) = Some (PublishArticle (dw_id dw) req)"
| "msg_call x dw (EditArticleMsg raw edit umask) = Some (EditArticle raw edit umask)"
| "msg_call x dw (TombstoneArticleMsg raw rsn) = Some (TombstoneArticle raw rsn)"
| "msg_call x dw (RedactArticleVersionMsg raw v rsn) = Some (RedactArticleVersion raw v rsn)"
| "msg_call x dw (CreateDraftMsg req) = Some (CreateDraft (dw_id dw) req)"
| "msg_call x dw (UpdateDraftMsg draft umask) = Some (UpdateDraft draft umask)"
| "msg_call x dw (DeleteDraftMsg raw) = Some (DeleteDraft raw)"
| "msg_call x dw (PublishDraftMsg raw) = Some (PublishDraft raw)"
| "msg_call x dw (FollowMsg user account) = Some (FollowAccount user account)"
| "msg_call x dw (UnfollowMsg user account) = Some (UnfollowAccount user account)"
| "msg_call x dw (ReplaceRecommendationFeedMsg user ids) = Some (ReplaceRecommendationFeed user ids)"
| "msg_call x dw (RecordEventMsg req) = Some (RecordEvent (dw_id dw) req (dw_tso dw))"
| "msg_call x dw (RecordEventBatchMsg reqs) =
     (if length reqs \<le> ax_batch_max x
      then Some (RecordEventBatch (map (dw_event_ids dw) [0..<length reqs]) reqs (dw_tso dw)) else None)"
| "msg_call x dw _ = None"

definition serves :: "api_ext \<Rightarrow> draws \<Rightarrow> grpc_msg \<Rightarrow> subject \<Rightarrow> db \<Rightarrow> 'a rpc \<times> db \<Rightarrow> bool" where
  "serves x dw msg subj d out \<longleftrightarrow>
     (case msg_call x dw msg of
        None \<Rightarrow> snd out = d
      | Some c \<Rightarrow> serve x (dw_now dw) subj c d = respond (\<lambda>e. e) (\<lambda>_. ()) out \<and> (draws_fresh x dw d \<longrightarrow> call_fresh c d))"

text \<open>The outcome of a REST request.\<close>

definition refused :: "'c gateway_ext \<Rightarrow> 'c gateway_state \<Rightarrow> (rest_failure + json) \<times> 'c gateway_state \<Rightarrow> bool" where
  "refused g st out \<longleftrightarrow> gs_db (snd out) = gs_db st \<and>
     (\<exists>e. fst out = Inl e \<and> 400 \<le> fst (http_answer (gx_errors g) (Inl e)))"

definition handled :: "'c gateway_ext \<Rightarrow> draws \<Rightarrow> rest_request \<Rightarrow> 'c gateway_state \<Rightarrow> (rest_failure + json) \<times> 'c gateway_state \<Rightarrow> bool" where
  "handled g dw rq st out \<longleftrightarrow>
     (\<exists>msg subj (ans :: unit rpc). admitted g rq msg (gs_nonces st) subj (gs_nonces (snd out)) \<and>
        serves (gx_api g) dw msg subj (gs_db st) (ans, gs_db (snd out)) \<and> is_ok ans = is_ok (fst out)) \<and>
     (\<forall>e. fst out = Inl e \<longrightarrow> 400 \<le> fst (http_answer (gx_errors g) (Inl e)))"

definition rest_ok :: "'c gateway_ext \<Rightarrow> draws \<Rightarrow> rest_request \<Rightarrow> 'c gateway_state \<Rightarrow> (rest_failure + json) \<times> 'c gateway_state \<Rightarrow> bool" where
  "rest_ok g dw rq st out \<longleftrightarrow> refused g st out \<or> handled g dw rq st out \<or>
     snd out = st \<and> fst out \<in> {Inr (gx_openapi g), Inr (json_obj [(''status'', JStr ''ok'')])}"

named_theorems rest_intros \<open>outcomes of REST handlers\<close>

subsection \<open>Statuses\<close>

lemma grpc_error_http: "fst (http_answer x (Inl (Envelope (GrpcError s)))) = grpc_code_to_http (ts_code s)"
  by (simp add: into_response_def)

lemma plain_status_http: "ts_code (plain_status c m) = c"
  by (simp add: plain_status_def)

lemma layer_status_http: "400 \<le> grpc_code_to_http (ts_code (layer_status s))"
  by (cases s) (simp_all add: plain_status_http)

lemma rpc_status_http: "400 \<le> grpc_code_to_http (ts_code (rpc_tonic_status x e))"
proof (cases e)
  case (Domain h)
  then show ?thesis
    using domain_http [of h] by (auto simp: domain_status_def Let_def)
qed (simp add: plain_status_http)

lemma rejection_http: "400 \<le> fst (http_answer x (Inl (Envelope (gateway_of_rejection e))))"
  by (cases e) (simp_all add: into_response_def)

subsection \<open>Forwarding\<close>

lemma trusted_listener_Forward:
  assumes "subject_codec_ok g" "gx_subject_json g s = Some j" "gx_metadata g j = Some v"
    and "trusted_listener (gx_http g) (gx_table g) (grpc_request g msg v) = Forward req"
  shows "req_subject req = Some s" "\<exists>spec. table_lookup (gx_table g) (rpc_path msg) = Some spec \<and> is_allowed s spec"
proof -
  have "Option.bind (to_str (gx_http g) v) (subject_of_json (gx_http g)) = Some s"
    using assms(1-3) by (simp add: subject_codec_ok_def)
  then obtain raw where "to_str (gx_http g) v = Some raw" "subject_of_json (gx_http g) raw = Some s"
    by (auto simp: bind_eq_Some_conv)
  with assms(4) show "req_subject req = Some s"
    "\<exists>spec. table_lookup (gx_table g) (rpc_path msg) = Some spec \<and> is_allowed s spec"
    by (auto simp: trusted_listener_def trusted_subject_call_def grpc_request_def get_header_def
        authorization_call_Forward)
qed

lemma attach_auth_cases:
  assumes "attach_auth g rq msg c = (r, c')"
  obtains (error) e where "r = Inl e" "400 \<le> fst (http_answer x (Inl (Envelope e)))"
  | (subject) s j v where "r = Inr v" "gx_subject_json g s = Some j" "gx_metadata g j = Some v"
      "rest_subject g rq msg c = (Inr s, c')"
proof -
  have e: "400 \<le> fst (http_answer x (Inl (Envelope e)))" if "rest_subject g rq msg c = (Inl e, c')" for e
    using that by (auto simp: rest_subject_def malformed_header_def auth_err_to_gateway_err_def grpc_error_http
        plain_status_http try_st_def ok_or_def map_err_def split: option.splits sum.splits prod.splits
        simp del: http_answer.simps)
  show thesis
  proof (cases "rest_subject g rq msg c")
    case (Pair r0 c0)
    show ?thesis
    proof (cases r0)
      case (Inl e0)
      with assms Pair error e show ?thesis
        by (auto simp: attach_auth_def simp del: http_answer.simps)
    next
      case (Inr s)
      with assms Pair error subject show ?thesis
        by (auto simp: attach_auth_def grpc_error_http plain_status_http try_st_def ok_or_def split: option.splits
            simp del: http_answer.simps)
    qed
  qed
qed

lemma rest_subject_admitted:
  assumes "rest_subject g rq msg c = (Inr s, c')"
    and "table_lookup (gx_table g) (rpc_path msg) = Some spec" "is_allowed s spec"
  shows "admitted g rq msg c s c'"
  using assms unfolding admitted_def rest_subject_def
  by (auto simp: try_st_def ok_or_def map_err_def split: option.splits sum.splits prod.splits)

lemma serves_unit: "serves x dw msg subj d out \<Longrightarrow> serves x dw msg subj d (map_sum (\<lambda>e. e) (\<lambda>_. ()) (fst out), snd out)"
  by (cases out; cases "fst out") (auto simp: serves_def respond_def split: option.splits)

lemma forward_ok [rest_intros]:
  assumes "subject_codec_ok g" "\<And>subj d. serves (gx_api g) dw msg subj d (handler subj d)"
  shows "rest_ok g dw rq st (forward g rq msg handler conv st)"
proof -
  obtain r c' where a: "attach_auth g rq msg (gs_nonces st) = (r, c')"
    by fastforce
  from a show ?thesis
  proof (cases rule: attach_auth_cases [where x = "gx_errors g"])
    case (error e)
    with a have "refused g st (forward g rq msg handler conv st)"
      by (simp add: refused_def forward_def)
    then show ?thesis
      by (simp add: rest_ok_def)
  next
    case (subject s j v)
    show ?thesis
    proof (cases "trusted_listener (gx_http g) (gx_table g) (grpc_request g msg v)")
      case (Reply p)
      with a subject(1) have "refused g st (forward g rq msg handler conv st)"
        using layer_status_http [of p]
        by (simp add: refused_def forward_def grpc_call_def grpc_error_http del: http_answer.simps)
      then show ?thesis
        by (simp add: rest_ok_def)
    next
      case (Forward req)
      note t = trusted_listener_Forward [OF assms(1) subject(2,3) Forward]
      then obtain spec where spec: "table_lookup (gx_table g) (rpc_path msg) = Some spec" "is_allowed s spec"
        by blast
      obtain ans d' where h: "handler s (gs_db st) = (ans, d')"
        by fastforce
      have out: "forward g rq msg handler conv st =
          (map_sum (\<lambda>e. Envelope (GrpcError (rpc_tonic_status (gx_errors g) e))) conv ans,
           st\<lparr>gs_nonces := c', gs_db := d'\<rparr>)"
        using a subject(1) Forward t(1) h by (cases ans) (simp_all add: forward_def grpc_call_def respond_def)
      have "admitted g rq msg (gs_nonces st) s c'"
        using subject(4) spec by (rule rest_subject_admitted)
      moreover have "serves (gx_api g) dw msg s (gs_db st) (map_sum (\<lambda>e. e) (\<lambda>_. ()) ans, d')"
        using serves_unit [OF assms(2), of s "gs_db st"] h by simp
      moreover have "is_ok (map_sum (\<lambda>e. e) (\<lambda>_. ()) ans) = is_ok (map_sum (\<lambda>e. Envelope (GrpcError (rpc_tonic_status (gx_errors g) e))) conv ans)"
        by (cases ans) (simp_all add: is_ok_def)
      moreover have "400 \<le> fst (http_answer (gx_errors g) (Inl e))"
        if "map_sum (\<lambda>e. Envelope (GrpcError (rpc_tonic_status (gx_errors g) e))) conv ans = Inl e" for e
        using that by (cases ans) (auto simp: rpc_status_http grpc_error_http simp del: http_answer.simps rpc_tonic_status.simps)
      ultimately have "handled g dw rq st (forward g rq msg handler conv st)"
        unfolding handled_def out
        by (intro conjI exI [of _ msg] exI [of _ s] exI [of _ "map_sum (\<lambda>e. e) (\<lambda>_. ()) ans"] allI impI)
          (simp_all del: http_answer.simps)
      then show ?thesis
        by (simp add: rest_ok_def)
    qed
  qed
qed

subsection \<open>The extractors\<close>

lemma rest_refuse [rest_intros]: "400 \<le> fst (http_answer (gx_errors g) (Inl e)) \<Longrightarrow> rest_ok g dw rq st (Inl e, st)"
  by (simp add: rest_ok_def refused_def)

lemma path1_ok [rest_intros]: "(\<And>a. rest_ok g dw rq st (k a)) \<Longrightarrow> rest_ok g dw rq st (path1 rq st k)"
  by (auto simp: path1_def rest_refuse split: list.split)

lemma path2_ok [rest_intros]: "(\<And>a b. rest_ok g dw rq st (k a b)) \<Longrightarrow> rest_ok g dw rq st (path2 rq st k)"
  by (auto simp: path2_def rest_refuse split: list.split)

lemma envelope_json_ok [rest_intros]:
  "(\<And>body. rest_ok g dw rq st (k body)) \<Longrightarrow> rest_ok g dw rq st (envelope_json rq st k)"
  using rejection_http by (cases "rr_body rq") (auto simp: envelope_json_def intro!: rest_refuse simp del: http_answer.simps)

lemma rest_guard [rest_intros]:
  "400 \<le> fst (http_answer (gx_errors g) (Inl e)) \<Longrightarrow> (\<And>a. rest_ok g dw rq st (k a)) \<Longrightarrow>
   rest_ok g dw rq st (try_st (ok_or e m) st k)"
  by (cases m) (auto intro: rest_refuse)

subsection \<open>The services behind the routes\<close>

lemma respond_respond: "respond f g (respond f' g' out) = respond (\<lambda>e. f (f' e)) (\<lambda>a. g (g' a)) out"
  by (cases out; cases "fst out") (auto simp: respond_def)

lemma serves_read [rest_intros]: "msg_call x dw msg = None \<Longrightarrow> serves x dw msg subj d (f, d)"
  by (simp add: serves_def)

lemma servesI:
  "msg_call x dw msg = Some c \<Longrightarrow> serve x (dw_now dw) subj c d = respond (\<lambda>e. e) (\<lambda>_. ()) out \<Longrightarrow>
   (draws_fresh x dw d \<Longrightarrow> call_fresh c d) \<Longrightarrow> serves x dw msg subj d out"
  by (simp add: serves_def)

lemma serves_identity [rest_intros]:
  "serves x dw (CreateAccountMsg areq) subj d (dom_rpc (create_account (ax_svc x) (ax_algos x) (ax_account_mode x) (dw_now dw)
     (dw_id dw) (dw_key_id dw) subj areq d))"
  "serves x dw (CreateUserMsg name key) subj d (dom_rpc (create_user (ax_svc x) (ax_algos x) (ax_user_mode x) (dw_now dw)
     (dw_id dw) (dw_key_id dw) subj name key d))"
  "serves x dw (UpdateUserMsg umsg umask) subj d (dom_rpc (update_user (ax_svc x) subj umsg umask d))"
  "serves x dw (DeleteUserMsg raw) subj d (dom_rpc (delete_user (ax_svc x) (dw_now dw) subj raw d))"
  "serves x dw (AddUserKeyMsg raw key) subj d (dom_rpc (add_user_key (ax_svc x) (ax_algos x) (dw_now dw) (dw_key_id dw)
     subj raw key d))"
  "serves x dw (RevokeUserKeyMsg raw raw2) subj d (dom_rpc (revoke_user_key (ax_svc x) (dw_now dw) subj raw raw2 d))"
  by (rule servesI, rule msg_call.simps, simp add: respond_respond, simp add: call_fresh_def)+

lemma serves_articles [rest_intros]:
  "serves x dw (PublishArticleMsg preq) subj d
     (publish_article (ax_svc x) (ax_ser x) (ax_content_max x) (dw_now dw) (dw_id dw) subj preq d)"
  "serves x dw (EditArticleMsg raw edit umask) subj d
     (edit_article (ax_svc x) (ax_ser x) (ax_content_max x) (dw_now dw) subj raw edit umask d)"
  "serves x dw (TombstoneArticleMsg raw rsn) subj d (tombstone_article (ax_svc x) (dw_now dw) subj raw rsn d)"
  "serves x dw (RedactArticleVersionMsg raw v rsn) subj d (redact_article_version (ax_svc x) (dw_now dw) raw v rsn d)"
  "serves x dw (CreateDraftMsg preq) subj d
     (create_draft (ax_svc x) (ax_ser x) (ax_content_max x) (dw_now dw) (dw_id dw) subj preq d)"
  "serves x dw (UpdateDraftMsg dmsg umask) subj d
     (update_draft (ax_svc x) (ax_ser x) (ax_content_max x) (dw_now dw) subj dmsg umask d)"
  "serves x dw (DeleteDraftMsg raw) subj d (delete_draft (ax_svc x) subj raw d)"
  "serves x dw (PublishDraftMsg raw) subj d
     (publish_draft (ax_svc x) (ax_ser x) (ax_content_max x) (dw_now dw) subj raw d)"
  by (rule servesI, rule msg_call.simps, simp, simp add: call_fresh_def draws_fresh_def)+

lemma serves_follows [rest_intros]:
  "serves x dw (FollowMsg raw raw2) subj d (dom_rpc (follow_rpc (ax_svc x) (dw_now dw) subj raw raw2 d))"
  "serves x dw (UnfollowMsg raw raw2) subj d (dom_rpc (unfollow_rpc (ax_svc x) (dw_now dw) subj raw raw2 d))"
  "serves x dw (ReplaceRecommendationFeedMsg raw ids) subj d
     (replace_recommendation_feed (ax_svc x) (ax_feed_max x) subj raw ids d)"
  by (rule servesI, rule msg_call.simps, simp add: respond_respond, simp add: call_fresh_def)+

text \<open>A position that came through JSON is in range.\<close>

lemma parsed_event_i32: "req_i32 (parse_record_event_request x j)"
proof -
  have "wrap_i32 n < 2 ^ 31" for n
    by (simp add: wrap_i32_def)
  then have "props_i32 p" if "parse_record_event_properties v = Some p" for v p
    using that
    by (auto simp: parse_record_event_properties_def i32_field_def unwrap_or_def split: if_splits option.splits)
  then show ?thesis
    by (auto simp: req_i32_def parse_record_event_request_def bind_eq_Some_conv split: option.splits)
qed

lemma fresh_event_ids:
  assumes "draws_fresh x dw d" "n \<le> ax_batch_max x"
  shows "ids_fresh (map (dw_event_ids dw) [0..<n]) d"
  using assms by (auto simp: draws_fresh_def ids_fresh_def list_all_iff distinct_map intro: inj_on_subset)

lemma parsed_events_i32: "list_all req_i32 (unwrap_or [] (map_option (map (parse_record_event_request x)) arr))"
  by (cases arr) (simp_all add: unwrap_or_def list_all_iff parsed_event_i32)

lemma serves_event [rest_intros]:
  "req_i32 req \<Longrightarrow> serves x dw (RecordEventMsg req) subj d
     (record_event (ax_events x) (dw_tso dw) (dw_now dw) (dw_id dw) subj req d)"
  by (rule servesI, rule msg_call.simps, simp, simp add: call_fresh_def)

lemma serves_event_batch [rest_intros]:
  assumes "list_all req_i32 reqs"
  shows "serves x dw (RecordEventBatchMsg reqs) subj d
     (record_event_batch (ax_events x) (ax_batch_max x) (dw_tso dw) (dw_now dw)
        (map (dw_event_ids dw) [0..<length reqs]) subj reqs d)"
proof (cases "length reqs \<le> ax_batch_max x")
  case True
  then show ?thesis
    using assms fresh_event_ids [of x dw d "length reqs"] by (simp add: serves_def call_fresh_def)
next
  case False
  then show ?thesis
    by (simp add: serves_def record_event_batch_def)
qed

subsection \<open>All routes\<close>

lemmas rest_handler_defs =
  rest_create_account_def rest_get_account_def rest_create_user_def rest_get_user_def rest_update_user_def
  rest_delete_user_def rest_add_user_key_def rest_revoke_user_key_def rest_publish_article_def rest_get_article_def
  rest_list_account_articles_def rest_edit_article_def rest_tombstone_article_def rest_redact_article_version_def
  rest_create_draft_def rest_get_draft_def rest_update_draft_def rest_delete_draft_def rest_list_account_drafts_def
  rest_publish_draft_def rest_follow_user_def rest_unfollow_user_def rest_get_follow_def rest_list_user_follows_def
  rest_list_account_followers_def rest_replace_recommendation_feed_def rest_get_recommendation_feed_def
  rest_get_follow_feed_def rest_stream_account_articles_def rest_record_event_def rest_record_event_batch_def
  rest_list_events_def rest_send_notification_def rest_send_notification_batch_def rest_list_user_notifications_def
  rest_mark_notification_read_def rest_mark_all_user_notifications_read_def rest_get_user_notification_preferences_def
  rest_update_user_notification_preferences_def

lemma version_error_http:
  "400 \<le> fst (http_answer x (Inl (Envelope (GrpcError (plain_status TInvalidArgument m)))))"
  by (simp add: grpc_error_http plain_status_http del: http_answer.simps)

lemma rest_handlers_ok:
  assumes "subject_codec_ok g"
  shows
    "rest_ok g dw rq st (rest_create_account g dw rq st)"
    "rest_ok g dw rq st (rest_get_account g dw rq st)"
    "rest_ok g dw rq st (rest_create_user g dw rq st)"
    "rest_ok g dw rq st (rest_get_user g dw rq st)"
    "rest_ok g dw rq st (rest_update_user g dw rq st)"
    "rest_ok g dw rq st (rest_delete_user g dw rq st)"
    "rest_ok g dw rq st (rest_add_user_key g dw rq st)"
    "rest_ok g dw rq st (rest_revoke_user_key g dw rq st)"
    "rest_ok g dw rq st (rest_publish_article g dw rq st)"
    "rest_ok g dw rq st (rest_get_article g dw rq st)"
    "rest_ok g dw rq st (rest_list_account_articles g dw rq st)"
    "rest_ok g dw rq st (rest_edit_article g dw rq st)"
    "rest_ok g dw rq st (rest_tombstone_article g dw rq st)"
    "rest_ok g dw rq st (rest_redact_article_version g dw rq st)"
    "rest_ok g dw rq st (rest_create_draft g dw rq st)"
    "rest_ok g dw rq st (rest_get_draft g dw rq st)"
    "rest_ok g dw rq st (rest_update_draft g dw rq st)"
    "rest_ok g dw rq st (rest_delete_draft g dw rq st)"
    "rest_ok g dw rq st (rest_list_account_drafts g dw rq st)"
    "rest_ok g dw rq st (rest_publish_draft g dw rq st)"
    "rest_ok g dw rq st (rest_follow_user g dw rq st)"
    "rest_ok g dw rq st (rest_unfollow_user g dw rq st)"
    "rest_ok g dw rq st (rest_get_follow g dw rq st)"
    "rest_ok g dw rq st (rest_list_user_follows g dw rq st)"
    "rest_ok g dw rq st (rest_list_account_followers g dw rq st)"
    "rest_ok g dw rq st (rest_replace_recommendation_feed g dw rq st)"
    "rest_ok g dw rq st (rest_get_recommendation_feed g dw rq st)"
    "rest_ok g dw rq st (rest_get_follow_feed g dw rq st)"
    "rest_ok g dw rq st (rest_stream_account_articles g dw rq st)"
    "rest_ok g dw rq st (rest_record_event g dw rq st)"
    "rest_ok g dw rq st (rest_record_event_batch g dw rq st)"
    "rest_ok g dw rq st (rest_list_events g dw rq st)"
    "rest_ok g dw rq st (rest_send_notification g dw rq st)"
    "rest_ok g dw rq st (rest_send_notification_batch g dw rq st)"
    "rest_ok g dw rq st (rest_list_user_notifications g dw rq st)"
    "rest_ok g dw rq st (rest_mark_notification_read g dw rq st)"
    "rest_ok g dw rq st (rest_mark_all_user_notifications_read g dw rq st)"
    "rest_ok g dw rq st (rest_get_user_notification_preferences g dw rq st)"
    "rest_ok g dw rq st (rest_update_user_notification_preferences g dw rq st)"
  by (unfold rest_handler_defs Let_def) (intro rest_intros assms version_error_http msg_call.simps parsed_event_i32 parsed_events_i32)+

lemma routes_ok:
  assumes "subject_codec_ok g"
  shows "list_all (\<lambda>(pat, ms). list_all (\<lambda>(m, h). \<forall>rq. rest_ok g dw rq st (h g dw rq st)) ms) routes"
proof -
  have "rest_ok g dw rq st (get_healthz g dw rq st)" "rest_ok g dw rq st (get_openapi g dw rq st)" for rq
    by (simp_all add: rest_ok_def get_healthz_def get_openapi_def)
  with rest_handlers_ok [OF assms] show ?thesis
    by (simp add: routes_def)
qed

lemma find_route_ok:
  assumes "subject_codec_ok g" "find_route g rq = Inr (h, params)"
  shows "rest_ok g dw rq' st (h g dw rq' st)"
proof -
  obtain pat ms m where "map_of routes pat = Some ms" "map_of ms m = Some h"
    using assms(2) by (auto simp: find_route_def find_method_def bind_eq_Some_conv split: option.splits if_splits)
  then have "(pat, ms) \<in> set routes" "(m, h) \<in> set ms"
    by (simp_all add: map_of_SomeD)
  with routes_ok [OF assms(1), of dw st] show ?thesis
    by (fastforce simp: list_all_iff)
qed

lemma admitted_params [simp]: "admitted g (rq\<lparr>rr_params := ps\<rparr>) msg c subj c' = admitted g rq msg c subj c'"
  by (simp add: admitted_def rest_signed_parts_def)

lemma rest_app_ok:
  assumes "subject_codec_ok g"
  shows "rest_ok g dw rq st (rest_app g dw rq st)"
proof (cases "find_route g rq")
  case (Inl e)
  then have "400 \<le> fst (http_answer (gx_errors g) (Inl e))"
    by (auto simp: find_route_def split: option.splits prod.splits)
  with Inl show ?thesis
    by (auto simp: rest_app_def intro: rest_refuse)
next
  case (Inr hp)
  obtain h ps where "hp = (h, ps)"
    by fastforce
  with Inr find_route_ok [OF assms, of rq h ps dw "rq\<lparr>rr_params := ps\<rparr>" st] show ?thesis
    by (simp add: rest_app_def rest_ok_def handled_def)
qed

subsection \<open>Properties\<close>



text \<open>An answer that is not an error is the service's, turned into JSON.\<close>

lemma forward_Inr:
  assumes "forward g rq msg handler conv st = (Inr j, st')"
  obtains subj ans where "handler subj (gs_db st) = (Inr ans, gs_db st')" "j = conv ans"
proof -
  obtain v c' where "attach_auth g rq msg (gs_nonces st) = (Inr v, c')"
    using assms by (auto simp: forward_def try_st_def map_err_def split: prod.splits sum.splits)
  with assms obtain subj ans where "handler subj (gs_db st) = (Inr ans, gs_db st')" "j = conv ans"
    by (auto simp: forward_def grpc_call_def respond_def try_st_def map_err_def split: prod.splits sum.splits outcome.splits)
  then show thesis
    by (rule that)
qed

lemma forward_as:
  assumes "subject_codec_ok g" "rest_subject g rq msg (gs_nonces st) = (Inr s, c)"
    and "Option.bind (gx_subject_json g s) (gx_metadata g) \<noteq> None"
    and "table_lookup (gx_table g) (rpc_path msg) = Some spec" "is_allowed s spec"
    and "handler s (gs_db st) = (Inr ans, d)"
  shows "forward g rq msg handler conv st = (Inr (conv ans), st\<lparr>gs_nonces := c, gs_db := d\<rparr>)"
proof -
  obtain j v where s: "gx_subject_json g s = Some j" "gx_metadata g j = Some v"
    using assms(3) by (auto simp: bind_eq_Some_conv)
  then obtain raw where "to_str (gx_http g) v = Some raw" "subject_of_json (gx_http g) raw = Some s"
    using assms(1) by (force simp: subject_codec_ok_def bind_eq_Some_conv)
  then obtain req where "trusted_listener (gx_http g) (gx_table g) (grpc_request g msg v) = Forward req"
    "req_subject req = Some s"
    using assms(4,5) by (auto simp: trusted_listener_def trusted_subject_call_def grpc_request_def get_header_def
        authorization_call_def Let_def remove_header_def)
  then show ?thesis
    using s assms(2,6) by (simp add: forward_def attach_auth_def grpc_call_def respond_def)
qed

text \<open>A public request: the table allows Anonymous and the request has no credential.\<close>

definition public_request :: "'c gateway_ext \<Rightarrow> rest_request \<Rightarrow> grpc_msg \<Rightarrow> bool" where
  "public_request g rq msg \<longleftrightarrow> map_of (rr_headers rq) ''authorization'' = None \<and>
     Option.bind (gx_subject_json g Anonymous) (gx_metadata g) \<noteq> None \<and>
     (case table_lookup (gx_table g) (rpc_path msg) of None \<Rightarrow> False | Some spec \<Rightarrow> is_allowed Anonymous spec)"

lemma forward_public:
  assumes "subject_codec_ok g" "public_request g rq msg" "handler Anonymous (gs_db st) = (Inr ans, d)"
  shows "forward g rq msg handler conv st = (Inr (conv ans), st\<lparr>gs_db := d\<rparr>)"
proof -
  obtain spec where "table_lookup (gx_table g) (rpc_path msg) = Some spec" "is_allowed Anonymous spec"
    using assms(2) by (auto simp: public_request_def split: option.splits)
  moreover have "rest_subject g rq msg (gs_nonces st) = (Inr Anonymous, gs_nonces st)"
    using assms(2) by (simp add: public_request_def rest_subject_def)
  ultimately show ?thesis
    using forward_as [OF assms(1), where s = Anonymous and handler = handler and st = st] assms(2,3)
    by (simp add: public_request_def)
qed

text \<open>C30. Publishing over REST and reading over REST: when the gateway answers a publication with
  a document, then a public \<open>GET\<close> of the id in that document answers the same document and
  changes nothing.
\<close>

theorem rest_publish_then_get:
  assumes "subject_codec_ok g" "text_ext_ok (sx_text (gx_svc g))"
    and "rest_publish_article g dw rq st = (Inr j, st')" "json_get ''id'' j = Some (JStr i)"
    and "rr_params rq' = [i]" "public_request g rq' (GetArticleMsg i)"
  shows "rest_get_article g dw' rq' st' = (Inr j, st')"
proof -
  obtain msg req where f: "forward g rq msg (\<lambda>subj. publish_article (gx_svc g) (ax_ser (gx_api g))
      (ax_content_max (gx_api g)) (dw_now dw) (dw_id dw) subj req) (article_to_json (gx_time g)) st = (Inr j, st')"
    using assms(3) by (auto simp: rest_publish_article_def path1_def envelope_json_def Let_def try_st_def map_err_def
        split: list.splits sum.splits)
  then obtain subj ans where ans: "publish_article (gx_svc g) (ax_ser (gx_api g)) (ax_content_max (gx_api g)) (dw_now dw)
      (dw_id dw) subj req (gs_db st) = (Inr ans, gs_db st')" and j: "j = article_to_json (gx_time g) ans"
    by (rule forward_Inr)
  have "arm_id ans = i"
    using assms(4) by (simp add: j article_to_json_def json_get_json_obj split: option.splits article_state_data.splits)
  with published_get [OF assms(2) ans] show ?thesis
    using assms(5) forward_public [OF assms(1,6), of "\<lambda>subj. read_rpc (get_article (gx_svc g) i)" st' ans "gs_db st'"]
    by (simp add: rest_get_article_def path1_def j)
qed

text \<open>
  The gateway hashes the bytes that the public listener hashes for the same message, so a
  client signs one hash on both.
\<close>

lemma rest_hash_agrees: "proto_hash sha (grpc_frame bs) = Inr (hash_proto_request sha bs)"
  by (simp add: proto_hash_def grpc_frame_def hash_proto_request_def)

subsection \<open>Witnesses\<close>

text \<open>
  A gateway whose router matches paths literally, whose strategy accepts everything as the
  account with id \<open>1\<close>, and whose table lets Anonymous register and read and accounts publish.
\<close>

definition demo_rest_http :: http_ext where
  "demo_rest_http = \<lparr>to_str = Some, sha256 = (\<lambda>_. []),
     subject_of_json = (\<lambda>v. if v = ''account'' then Some (Account 1 2) else if v = ''anonymous'' then Some Anonymous else None)\<rparr>"

definition demo_gateway :: "unit gateway_ext" where
  "demo_gateway = \<lparr>gx_api = demo_api, gx_http = demo_rest_http,
     gx_table = [(''/headlines.v1.UserService/CreateUser'', \<lparr>allowed = [AnonymousClass], spec_scopes = []\<rparr>),
       (''/headlines.v1.ArticleService/PublishArticle'', \<lparr>allowed = [AccountSelf], spec_scopes = []\<rparr>),
       (''/headlines.v1.ArticleService/GetArticle'', \<lparr>allowed = [AnonymousClass], spec_scopes = []\<rparr>)],
     gx_authenticate = (\<lambda>_ c. (Inr (Account 1 2), c)), gx_encode = (\<lambda>_. []),
     gx_subject_json = (\<lambda>s. if s = Account 1 2 then Some ''account'' else if s = Anonymous then Some ''anonymous'' else None),
     gx_metadata = Some, gx_form = (\<lambda>_. []), gx_match = (\<lambda>pats p. if p \<in> set pats then Some (p, []) else None),
     gx_openapi = JNull, gx_time = \<lparr>tx_print = (\<lambda>_ _. None), tx_parse = (\<lambda>_. None)\<rparr>, gx_feed = demo_feed,
     gx_errors = demo_error_ext\<rparr>"

lemma demo_subject_codec: "subject_codec_ok demo_gateway"
  by (simp add: subject_codec_ok_def demo_gateway_def demo_rest_http_def)

definition demo_draws :: draws where
  "demo_draws = \<lparr>dw_now = 5, dw_id = 10, dw_key_id = 11, dw_event_ids = of_nat, dw_tso = Inl ''off''\<rparr>"

definition demo_state :: "db \<Rightarrow> unit gateway_state" where
  "demo_state d = \<lparr>gs_nonces = (), gs_db = d\<rparr>"

definition demo_rest :: "string \<Rightarrow> string list \<Rightarrow> (string \<times> string) list \<Rightarrow> json \<Rightarrow> rest_request" where
  "demo_rest path params headers body = \<lparr>rr_method = ''POST'', rr_path = path, rr_query = None, rr_headers = headers,
     rr_params = params, rr_body = Inr body\<rparr>"

definition demo_signup :: rest_request where
  "demo_signup = demo_rest ''/v1/users'' [] [] (JObj [(''initial_key'', JObj [(''algo'', JStr ''k'')])])"

lemma demo_signup_route:
  "rest_app demo_gateway dw demo_signup st = rest_create_user demo_gateway dw demo_signup st"
  by (simp add: rest_app_def find_route_def routes_def demo_gateway_def demo_signup_def demo_rest_def find_method_def)

lemma demo_signup_create:
  "map us_id (users (snd (create_user (ax_svc demo_api) (ax_algos demo_api) (ax_user_mode demo_api) 5 10 11 Anonymous []
     (Some \<lparr>pkm_algo = ''k'', pkm_public_key = []\<rparr>) empty_db))) = [10]"
  "is_ok (fst (create_user (ax_svc demo_api) (ax_algos demo_api) (ax_user_mode demo_api) 5 10 11 Anonymous []
     (Some \<lparr>pkm_algo = ''k'', pkm_public_key = []\<rparr>) empty_db))"
  by code_simp+

lemma demo_signup_app:
  "\<exists>j st'. rest_app demo_gateway demo_draws demo_signup (demo_state empty_db) = (Inr j, st') \<and>
     map us_id (users (gs_db st')) = [10]"
proof -
  obtain ans d where c: "create_user (ax_svc demo_api) (ax_algos demo_api) (ax_user_mode demo_api) 5 10 11 Anonymous []
     (Some \<lparr>pkm_algo = ''k'', pkm_public_key = []\<rparr>) empty_db = (Inr ans, d)" "map us_id (users d) = [10]"
    using demo_signup_create by (metis is_ok_iff prod.collapse)
  have p: "public_request demo_gateway demo_signup (CreateUserMsg n k)" for n k
    by (simp add: public_request_def demo_gateway_def demo_signup_def demo_rest_def table_lookup_def is_allowed_def
        class_matches_def)
  have "rest_app demo_gateway demo_draws demo_signup (demo_state empty_db) =
    (Inr ((\<lambda>(u, k). json_obj [(''user'', user_to_json (gx_time demo_gateway) u), (''key_id'', JStr k)]) ans),
     (demo_state empty_db)\<lparr>gs_db := d\<rparr>)"
    unfolding demo_signup_route rest_create_user_def
    by (simp add: envelope_json_def demo_signup_def demo_rest_def Let_def)
      (rule forward_public [OF demo_subject_codec p [unfolded demo_signup_def demo_rest_def]],
       simp add: c demo_gateway_def demo_draws_def demo_state_def str_field_def parse_public_key_def respond_def unwrap_or_def)
  with c(2) show ?thesis
    by auto
qed


lemma demo_draws_fresh: "draws_fresh demo_api demo_draws empty_db"
  by (simp add: draws_fresh_def ids_fresh_def demo_draws_def empty_db_def lookup_def list_all_iff distinct_map inj_on_def
      demo_api_def word_of_nat_eq_iff take_bit_nat_eq_self)


definition demo_header :: parsed_auth_header where
  "demo_header = \<lparr>pah_key_id = 2, pah_algo = ''ed25519'', pah_ts = from_parts 1000 0, pah_nonce = [1, 2],
     pah_signature = [255]\<rparr>"

definition demo_article :: json where
  "demo_article = JObj [(''title'', JStr '' t''), (''content'', JArr
     [JObj [(''tag'', JStr ''p''), (''children'', JArr
        [JObj [(''tag'', JStr ''img''), (''attrs'', JObj [(''src'', JStr ''u''), (''alt'', JStr ''v'')])],
         JObj [(''text'', JStr ''hi'')]])], JNull])]"

definition demo_post :: rest_request where
  "demo_post = demo_rest ''/v1/accounts/x/articles'' [''x'']
     [(''authorization'', render_header demo_text demo_header)] demo_article"

lemma demo_post_content: "content_field demo_article = demo_nodes"
  by code_simp

lemma demo_post_header: "parse_authorization_header demo_text (render_header demo_text demo_header) = Inr demo_header"
  by (rule parse_render_header [OF demo_text_ok]) (auto simp: demo_header_def token_char_def)

lemma demo_posted:
  "\<exists>ans d. rest_publish_article demo_gateway demo_draws demo_post (demo_state demo_db0) =
     (Inr (article_to_json (gx_time demo_gateway) ans), demo_state d) \<and> arm_id ans = uuid_show demo_text 10"
proof -
  obtain ans d where p: "publish_article demo_svc (\<lambda>_. Some []) 100 5 10 (Account 1 2) demo_req demo_db0 = (Inr ans, d)"
    and i: "arm_id ans = uuid_show demo_text 10"
    using demo_publish by (auto simp: demo_svc_def)
  have q: "\<lparr>par_account_id = ''x'', par_title = str_field ''title'' demo_article, par_author_name = str_field ''author_name'' demo_article,
      par_author_url = str_field ''author_url'' demo_article, par_content = content_field demo_article\<rparr> = demo_req"
    unfolding demo_post_content demo_req_def by (simp add: str_field_def demo_article_def unwrap_or_def)
  have subj: "rest_subject demo_gateway demo_post (PublishArticleMsg demo_req) () = (Inr (Account 1 2), ())"
    using demo_post_header
    by (simp add: rest_subject_def demo_post_def demo_rest_def demo_gateway_def demo_rest_http_def demo_api_def demo_events_def
        demo_svc_def)
  have a: "Option.bind (gx_subject_json demo_gateway (Account 1 2)) (gx_metadata demo_gateway) \<noteq> None"
    and t: "table_lookup (gx_table demo_gateway) (rpc_path (PublishArticleMsg demo_req)) = Some \<lparr>allowed = [AccountSelf], spec_scopes = []\<rparr>"
    and l: "is_allowed (Account 1 2) \<lparr>allowed = [AccountSelf], spec_scopes = []\<rparr>"
    by (simp_all add: demo_gateway_def table_lookup_def is_allowed_def class_matches_def)
  have h: "publish_article (gx_svc demo_gateway) (ax_ser (gx_api demo_gateway)) (ax_content_max (gx_api demo_gateway))
      (dw_now demo_draws) (dw_id demo_draws) (Account 1 2) demo_req (gs_db (demo_state demo_db0)) = (Inr ans, d)"
    by (simp add: p demo_gateway_def demo_api_def demo_events_def demo_draws_def demo_state_def)
  have "forward demo_gateway demo_post (PublishArticleMsg demo_req)
      (\<lambda>subj. publish_article (gx_svc demo_gateway) (ax_ser (gx_api demo_gateway)) (ax_content_max (gx_api demo_gateway))
         (dw_now demo_draws) (dw_id demo_draws) subj demo_req) (article_to_json (gx_time demo_gateway)) (demo_state demo_db0) =
    (Inr (article_to_json (gx_time demo_gateway) ans), (demo_state demo_db0)\<lparr>gs_nonces := (), gs_db := d\<rparr>)"
    by (rule forward_as [OF demo_subject_codec _ a t l]) (simp_all add: subj h)
  then show ?thesis
    using i q by (auto simp: rest_publish_article_def path1_def envelope_json_def demo_post_def demo_rest_def demo_state_def)
qed

theorem rest_publish_then_get_witness:
  "\<exists>j st' i. rest_publish_article demo_gateway demo_draws demo_post (demo_state demo_db0) = (Inr j, st') \<and>
     rest_get_article demo_gateway demo_draws (demo_rest ''/v1/articles/i'' [i] [] JNull) st' = (Inr j, st')"
proof -
  obtain ans d where p: "rest_publish_article demo_gateway demo_draws demo_post (demo_state demo_db0) =
     (Inr (article_to_json (gx_time demo_gateway) ans), demo_state d)"
    using demo_posted by blast
  have "text_ext_ok (sx_text (gx_svc demo_gateway))"
    using demo_text_ok by (simp add: demo_gateway_def demo_api_def demo_events_def demo_svc_def)
  moreover have "json_get ''id'' (article_to_json x ans) = Some (JStr (arm_id ans))" for x
    by (simp add: article_to_json_def json_get_json_obj split: option.splits article_state_data.splits)
  moreover have "public_request demo_gateway (demo_rest ''/v1/articles/i'' [arm_id ans] [] JNull) (GetArticleMsg (arm_id ans))"
    by (simp add: public_request_def demo_gateway_def demo_rest_def table_lookup_def is_allowed_def class_matches_def)
  ultimately show ?thesis
    using p rest_publish_then_get [OF demo_subject_codec _ p, of "arm_id ans"
        "demo_rest ''/v1/articles/i'' [arm_id ans] [] JNull" demo_draws]
    by (auto simp: demo_rest_def)
qed

end
