(* ===== verification/Signed_Client.thy ===== *)
theory Signed_Client
  imports Rest_Gateway Resolver
begin

text \<open>
  The signing client of the seeding command (\<open>signed_request\<close> in
  \<open>headlines-server/src/seed/runner.rs\<close>) against the public listener that \<open>main.rs\<close> builds:
  the authentication strategy over the Postgres key resolver, the authorization layer, the
  handler. Shown: a request that the client signs with a key that is active in the database
  reaches its handler as that key's owner, and so whoever signs up can sign at once.
\<close>

subsection \<open>The client\<close>

text \<open>
  \<open>ed25519_dalek\<close> makes the signature, \<open>http\<close> reads the header value: the client panics on
  a value that it refuses.
\<close>

record 'k client_ext =
  cl_sign :: "'k \<Rightarrow> string \<Rightarrow> u8 list"
  cl_header :: "string \<Rightarrow> string option"

definition client_ts :: "u64 \<Rightarrow> u64" where
  "client_ts now_ms = push_bit 18 now_ms"

definition client_canonical :: "text_ext \<Rightarrow> u8 list \<Rightarrow> u64 \<Rightarrow> u8 list \<Rightarrow> uuid \<Rightarrow> string \<Rightarrow> string" where
  "client_canonical x request_hash now_ms nonce kid full_method =
     (let nl = [CHR 0x0A]
      in ''HEADLINES-SIGN-V1'' @ nl @ ''POST'' @ nl @ full_method @ nl @ nl @ hex_encode request_hash @ nl @
         uuid_show x kid @ nl @ show_nat (unat (client_ts now_ms)) @ nl @ b64_encode x nonce)"

definition client_header :: "text_ext \<Rightarrow> u64 \<Rightarrow> u8 list \<Rightarrow> uuid \<Rightarrow> u8 list \<Rightarrow> string" where
  "client_header x now_ms nonce kid sig =
     ''Signature key_id='' @ uuid_show x kid @ '', algo=ed25519, ts='' @ show_nat (unat (client_ts now_ms)) @
     '', nonce='' @ b64_encode x nonce @ '', sig='' @ b64_encode x sig"

text \<open>The request as \<open>tonic\<close> puts it on the wire; a request without a signature has no such header.\<close>

definition wire_request :: "string \<Rightarrow> (string \<times> string) list \<Rightarrow> u8 list \<Rightarrow> request" where
  "wire_request full_method headers body_bytes =
     \<lparr>req_method = ''POST'', req_path = full_method, req_query = None, req_headers = headers,
      req_body = Some (grpc_frame body_bytes), req_subject = None\<rparr>"

definition signed_request ::
  "text_ext \<Rightarrow> (u8 list \<Rightarrow> u8 list) \<Rightarrow> 'k client_ext \<Rightarrow> u64 \<Rightarrow> u8 list \<Rightarrow> u8 list \<Rightarrow> 'k \<Rightarrow> uuid \<Rightarrow> string \<Rightarrow> request option" where
  "signed_request x sha cl now_ms nonce body_bytes sk kid full_method =
     (let request_hash = sha body_bytes;
          canonical = client_canonical x request_hash now_ms nonce kid full_method;
          sig = cl_sign cl sk canonical;
          header = client_header x now_ms nonce kid sig
      in map_option (\<lambda>v. wire_request full_method [(''authorization'', v)] body_bytes) (cl_header cl header))"

subsection \<open>The server\<close>

text \<open>
  What \<open>main\<close> composes for the public listener. The strategy looks keys up in the database as it
  is when the call comes in, and reads the time then: the reading is an argument of the call.
\<close>

record 'c public_server =
  pv_api :: api_ext
  pv_http :: http_ext
  pv_table :: auth_table
  pv_algos :: registry
  pv_record :: "'c recorder"
  pv_errors :: error_ext

abbreviation pv_text :: "'c public_server \<Rightarrow> text_ext" where
  "pv_text s \<equiv> sx_text (ax_svc (pv_api s))"

record 'c server_state =
  ss_auth :: "'c auth_state"
  ss_db :: db

definition public_authenticate ::
  "'c public_server \<Rightarrow> (tso \<Rightarrow> time_error + unit) \<Rightarrow> db \<Rightarrow> signed_request_parts \<Rightarrow> 'c \<Rightarrow> (auth_error + subject) \<times> 'c" where
  "public_authenticate s validate d =
     authenticate_inner (pv_text s) (postgres_resolve (b64_decode (pv_text s)) d) (pv_algos s) validate (pv_record s)"

definition public_call ::
  "'c public_server \<Rightarrow> (tso \<Rightarrow> time_error + unit) \<Rightarrow> request \<Rightarrow> (subject \<Rightarrow> db \<Rightarrow> 'r rpc \<times> db) \<Rightarrow>
   'c server_state \<Rightarrow> (tonic_status + 'r) \<times> 'c server_state" where
  "public_call s validate req handler st =
     (let (out, auth') = public_listener (pv_text s) (pv_http s) (public_authenticate s validate (ss_db st))
            (pv_table s) req (ss_auth st);
          st' = st\<lparr>ss_auth := auth'\<rparr>
      in case out of
           Reply e \<Rightarrow> (Inl (layer_status e), st')
         | Forward req' \<Rightarrow>
             let (r, d) = handler (unwrap_or Anonymous (req_subject req')) (ss_db st)
             in (map_err (rpc_tonic_status (pv_errors s)) r, st'\<lparr>ss_db := d\<rparr>))"

subsection \<open>Client and server agree\<close>

definition client_parsed :: "u64 \<Rightarrow> u8 list \<Rightarrow> uuid \<Rightarrow> u8 list \<Rightarrow> parsed_auth_header" where
  "client_parsed now_ms nonce kid sig = \<lparr>pah_key_id = kid, pah_algo = ''ed25519'',
     pah_ts = from_raw (client_ts now_ms), pah_nonce = nonce, pah_signature = sig\<rparr>"

lemma client_header_render: "client_header x now_ms nonce kid sig = render_header x (client_parsed now_ms nonce kid sig)"
  by (simp add: client_header_def render_header_def auth_fields_def client_parsed_def from_raw_def)

lemma client_header_parses:
  assumes "text_ext_ok x"
  shows "parse_authorization_header x (client_header x now_ms nonce kid sig) = Inr (client_parsed now_ms nonce kid sig)"
  unfolding client_header_render using assms
  by (rule parse_render_header) (auto simp: client_parsed_def token_char_def)

lemma client_canonical_agrees:
  "client_canonical x hsh now_ms nonce kid full_method =
   build_canonical_string x (signed_parts (wire_request full_method hs bytes) [] hsh (client_parsed now_ms nonce kid sig))"
  by (simp add: client_canonical_def build_canonical_string_def signed_parts_def client_parsed_def wire_request_def
      Let_def from_raw_def)

lemma canonicalize_query_Nil [simp]: "canonicalize_query [] = []"
  by (simp add: canonicalize_query_def)

text \<open>Visible ASCII text passes through \<open>HeaderValue\<close> unchanged.\<close>

definition visible :: "string \<Rightarrow> bool" where
  "visible s \<longleftrightarrow> list_all (\<lambda>c. 32 \<le> (of_char c :: nat) \<and> (of_char c :: nat) < 127) s"

definition headers_pass :: "'k client_ext \<Rightarrow> http_ext \<Rightarrow> bool" where
  "headers_pass cl hx \<longleftrightarrow> (\<forall>h. visible h \<longrightarrow> (\<exists>v. cl_header cl h = Some v \<and> to_str hx v = Some h))"

lemma token_visible: "token_char c \<Longrightarrow> 32 \<le> (of_char c :: nat) \<and> (of_char c :: nat) < 127"
  by (simp add: token_char_def)

lemma client_header_visible:
  assumes "text_ext_ok x"
  shows "visible (client_header x now_ms nonce kid sig)"
proof -
  have t: "c \<in> set (uuid_show x k) \<Longrightarrow> token_char c" "c \<in> set (b64_encode x bs) \<Longrightarrow> token_char c"
    "c \<in> set (show_nat (unat (as_u64 t))) \<Longrightarrow> token_char c" for c k bs t
    using assms token_codec.enc_chars ts_codec.enc_chars by (auto simp: text_ext_ok_def)
  have "visible (uuid_show x k)" "visible (b64_encode x bs)" "visible (show_nat (unat (as_u64 t)))" for k bs t
    using t token_visible by (simp_all add: visible_def list_all_iff)
  from this(3) [of "from_raw (client_ts now_ms)"] this(1,2) show ?thesis
    by (simp add: client_header_def visible_def from_raw_def)
qed

text \<open>The key of an active row, if the id is active in one table only and its text is base64.\<close>

lemma postgres_resolve_account:
  assumes "active_key kid (account_keys d) = Some r" "active_key kid (user_keys d) = None"
    "active_key kid (system_keys d) = None" "b64 (kr_public_key r) = Some pub"
  shows "postgres_resolve b64 d kid =
    Inr \<lparr>rk_algo = kr_algo r, rk_public_key = pub, rk_subject = Account (kr_parent_id r) kid\<rparr>"
  using assms by (simp add: postgres_resolve_def probe_def Let_def)

lemma postgres_resolve_user:
  assumes "active_key kid (user_keys d) = Some r" "active_key kid (account_keys d) = None"
    "active_key kid (system_keys d) = None" "b64 (kr_public_key r) = Some pub"
  shows "postgres_resolve b64 d kid =
    Inr \<lparr>rk_algo = kr_algo r, rk_public_key = pub, rk_subject = User (kr_parent_id r) kid\<rparr>"
  using assms by (simp add: postgres_resolve_def probe_def Let_def)

text \<open>
  The conditions under which a signature is good: the key is in use with the algorithm of the
  client, what the client's key signs the algorithm verifies, the timestamp is in the window
  and the nonce is new.
\<close>

definition signs_for :: "'c public_server \<Rightarrow> 'k client_ext \<Rightarrow> 'k \<Rightarrow> u8 list \<Rightarrow> bool" where
  "signs_for s cl sk pub \<longleftrightarrow>
     (\<exists>alg. pv_algos s ''ed25519'' = Some alg \<and> (\<forall>m. alg pub m (cl_sign cl sk m) = Inr ()))"

definition call_timely ::
  "'c public_server \<Rightarrow> (tso \<Rightarrow> time_error + unit) \<Rightarrow> u64 \<Rightarrow> u8 list \<Rightarrow> uuid \<Rightarrow> 'c server_state \<Rightarrow> 'c \<Rightarrow> bool" where
  "call_timely s validate now_ms nonce kid st c' \<longleftrightarrow>
     validate (from_raw (client_ts now_ms)) = Inr () \<and>
     pv_record s kid nonce (from_raw (client_ts now_ms)) (nonces (ss_auth st)) = (Inr (), c')"

lemma signed_request_Some:
  assumes "text_ext_ok x" "headers_pass cl hx"
  obtains v sig where
    "signed_request x sha cl now_ms nonce bytes sk kid full_method =
       Some (wire_request full_method [(''authorization'', v)] bytes)"
    "sig = cl_sign cl sk (client_canonical x (sha bytes) now_ms nonce kid full_method)"
    "to_str hx v = Some (client_header x now_ms nonce kid sig)"
proof -
  let ?sig = "cl_sign cl sk (client_canonical x (sha bytes) now_ms nonce kid full_method)"
  obtain v where "cl_header cl (client_header x now_ms nonce kid ?sig) = Some v"
    "to_str hx v = Some (client_header x now_ms nonce kid ?sig)"
    using assms client_header_visible unfolding headers_pass_def by blast
  then show ?thesis
    by (intro that [of v ?sig]) (simp_all add: signed_request_def Let_def)
qed

lemma signed_request_admitted:
  assumes x: "text_ext_ok (pv_text s)" "headers_pass cl (pv_http s)"
    and rk: "postgres_resolve (b64_decode (pv_text s)) (ss_db st) kid = Inr rk" "rk_algo rk = ''ed25519''"
    and sig: "signs_for s cl sk (rk_public_key rk)"
    and t: "call_timely s validate now_ms nonce kid st c'"
    and table: "table_lookup (pv_table s) full_method = Some spec" "is_allowed (rk_subject rk) spec"
    and req: "signed_request (pv_text s) (sha256 (pv_http s)) cl now_ms nonce bytes sk kid full_method = Some req"
  shows "\<exists>auth'. nonces auth' = c' \<and> public_call s validate req handler st =
    (let (r, d) = handler (rk_subject rk) (ss_db st)
     in (map_err (rpc_tonic_status (pv_errors s)) r, st\<lparr>ss_auth := auth', ss_db := d\<rparr>))"
proof -
  let ?x = "pv_text s"
  let ?sha = "sha256 (pv_http s)"
  obtain v sig where v: "req = wire_request full_method [(''authorization'', v)] bytes"
    "sig = cl_sign cl sk (client_canonical ?x (?sha bytes) now_ms nonce kid full_method)"
    "to_str (pv_http s) v = Some (client_header ?x now_ms nonce kid sig)"
    using signed_request_Some [OF x, of ?sha now_ms nonce bytes sk kid full_method] req by (metis option.inject)
  let ?parsed = "client_parsed now_ms nonce kid sig"
  let ?prts = "signed_parts req [] (?sha bytes) ?parsed"
  obtain alg where alg: "pv_algos s ''ed25519'' = Some alg" "\<And>m. alg (rk_public_key rk) m (cl_sign cl sk m) = Inr ()"
    using sig by (auto simp: signs_for_def)
  have "public_authenticate s validate (ss_db st) ?prts (nonces (ss_auth st)) = (Inr (rk_subject rk), c')"
    unfolding public_authenticate_def authenticate_inner_ok
  proof (intro exI [of _ rk] exI [of _ alg] conjI)
    have "build_canonical_string ?x ?prts = client_canonical ?x (?sha bytes) now_ms nonce kid full_method"
      unfolding v(1) by (rule client_canonical_agrees [symmetric])
    then show "alg (rk_public_key rk) (build_canonical_string ?x ?prts) (srp_signature ?prts) = Inr ()"
      using alg(2) v(2) by (simp add: signed_parts_def client_parsed_def)
  qed (use rk alg t in \<open>simp_all add: signed_parts_def client_parsed_def call_timely_def\<close>)
  moreover have "signed_parts (remove_header n req) q h prsd = signed_parts req q h prsd" for n q h prsd
    by simp
  moreover have "get_header ''authorization'' req = Some v" "req_query req = None" "req_path req = full_method"
    "req_body req = Some (grpc_frame bytes)"
    by (simp_all add: v(1) get_header_def wire_request_def)
  ultimately have "public_listener ?x (pv_http s) (public_authenticate s validate (ss_db st)) (pv_table s) req (ss_auth st) =
      (Forward ((remove_header TRUSTED_SUBJECT_HEADER req)\<lparr>req_subject := Some (rk_subject rk)\<rparr>),
       count_label ''ok'' ((ss_auth st)\<lparr>nonces := c'\<rparr>))"
    using x(1) v(3) table
    by (simp add: public_listener_def auth_interceptor_call_def client_header_parses authorization_call_def Let_def
        proto_hash_def grpc_frame_def)
  then show ?thesis
    by (intro exI [of _ "count_label ''ok'' ((ss_auth st)\<lparr>nonces := c'\<rparr>)"])
      (simp add: public_call_def count_label_def split: prod.split)
qed

text \<open>A call without a signature is Anonymous's, and leaves the nonces alone.\<close>

lemma unsigned_call:
  assumes "public_call s validate (wire_request full_method [] bytes) handler st = (Inr r, st')"
  shows "ss_auth st' = ss_auth st \<and> handler Anonymous (ss_db st) = (Inr r, ss_db st')"
  using assms
  by (auto simp: public_call_def public_listener_def auth_interceptor_call_def get_header_def wire_request_def
      remove_header_def authorization_call_def deny_def Let_def map_err_def split: prod.splits option.splits if_splits sum.splits)

text \<open>What signing up leaves in the tables.\<close>

lemma account_create_Inr:
  assumes "account_create now new d = (Inr a, d1)"
  shows "\<exists>row. d1 = d\<lparr>accounts := accounts d @ [row]\<rparr> \<and> acc_id a = nac_id new"
  using assms by (auto simp: account_create_def Let_def try_st_Inr insert_row_Inr account_of_row_def)

lemma key_create_account_Inr:
  assumes "key_create now new d = (Inr key, d1)" "nk_kind new = KAccount"
  shows "d1 = d\<lparr>account_keys := account_keys d @ [new_key_row now new]\<rparr>"
  using assms by (auto simp: key_create_def try_st_Inr insert_checked_Inr)

lemma create_account_key:
  assumes "create_account x algos mode now i k subj req d = (Inr (acct, kid_text), d')"
    and "car_initial_key req = Some key"
  shows "kid_text = uuid_show (sx_text x) k \<and> am_id acct = uuid_show (sx_text x) i \<and>
    account_keys d' = account_keys d @ [\<lparr>kr_parent_id = i, kr_key_id = k, kr_algo = pkm_algo key,
       kr_public_key = pkm_public_key key, kr_status = ''active'', kr_created_at = now, kr_revoked_at = None\<rparr>] \<and>
    user_keys d' = user_keys d \<and> system_keys d' = system_keys d"
proof -
  obtain sn an au algo pk where pk: "validate_public_key x algos key = Inr (algo, pk)" and
    ops: "(let (r, d1) = account_create now \<lparr>nac_id = i, nac_short_name = sn, nac_author_name = an, nac_author_url = au\<rparr> d
      in try_st r d1 (\<lambda>a.
      let (r2, d2) = key_create now \<lparr>nk_kind = KAccount, nk_parent_id = i, nk_id = k, nk_algo = algo, nk_public_key = pk\<rparr> d1
      in try_st r2 d2 (\<lambda>_. (Inr (account_to_proto x a, uuid_show (sx_text x) k), d2)))) = (Inr (acct, kid_text), d')"
    using assms by (auto simp: create_account_def try_st_Inr ok_or_Inr split: if_splits)
  obtain r d1 where acc: "account_create now \<lparr>nac_id = i, nac_short_name = sn, nac_author_name = an, nac_author_url = au\<rparr> d = (r, d1)"
    by fastforce
  obtain r2 d2 where keyc:
    "key_create now \<lparr>nk_kind = KAccount, nk_parent_id = i, nk_id = k, nk_algo = algo, nk_public_key = pk\<rparr> d1 = (r2, d2)"
    by fastforce
  from ops acc keyc obtain a sk where fin: "r = Inr a" "r2 = Inr sk" "acct = account_to_proto x a"
    "kid_text = uuid_show (sx_text x) k" "d' = d2"
    by (auto simp: try_st_Inr)
  have "algo = pkm_algo key" "pk = pkm_public_key key"
    using pk by (auto simp: validate_public_key_def try_res_Inr split: if_splits)
  then show ?thesis
    using account_create_Inr [OF acc [unfolded fin(1)]] key_create_account_Inr [OF keyc [unfolded fin(2)]] fin
    by (auto simp: account_to_proto_def new_key_row_def)
qed

lemma active_key_append:
  "active_key kid t = None \<Longrightarrow> active_key kid (t @ [r]) = (if kr_key_id r = kid \<and> kr_status r = ''active'' then Some r else None)"
  by (induction t) (auto simp: active_key_def ACTIVE_STATUS_def split: if_splits)

lemma active_key_absent: "kid \<notin> kr_key_id ` set t \<Longrightarrow> active_key kid t = None"
  by (auto simp: active_key_None)

subsection \<open>Properties\<close>



subsection \<open>Witnesses\<close>

text \<open>
  A server whose algorithm accepts the public key followed by the message, whose nonce store is
  a list and whose table lets Anonymous register accounts and accounts publish.
\<close>

definition demo_server :: "(uuid \<times> u8 list) list public_server" where
  "demo_server = \<lparr>pv_api = demo_api,
     pv_http = \<lparr>to_str = Some, sha256 = (\<lambda>bs. take 32 bs), subject_of_json = (\<lambda>_. None)\<rparr>,
     pv_table = [(''/headlines.v1.AccountService/CreateAccount'', \<lparr>allowed = [AnonymousClass], spec_scopes = []\<rparr>),
       (''/headlines.v1.ArticleService/PublishArticle'', \<lparr>allowed = [AccountSelf], spec_scopes = []\<rparr>)],
     pv_algos = registry_new(''ed25519'' \<mapsto> (\<lambda>pub m sig. if sig = pub @ map of_char m then Inr () else Inl BadSignature)),
     pv_record = (\<lambda>k n t c. if (k, n) \<in> set c then (Inl Replay, c) else (Inr (), (k, n) # c)),
     pv_errors = demo_error_ext\<rparr>"

definition demo_client :: "u8 list client_ext" where
  "demo_client = \<lparr>cl_sign = (\<lambda>sk m. sk @ map of_char m), cl_header = Some\<rparr>"

definition demo_careq :: create_account_req where
  "demo_careq = \<lparr>car_short_name = ''t'', car_author_name = ''T'', car_author_url = [],
     car_initial_key = Some \<lparr>pkm_algo = ''ed25519'', pkm_public_key = hex_encode (replicate 32 7)\<rparr>\<rparr>"

definition demo_server_state :: "(uuid \<times> u8 list) list server_state" where
  "demo_server_state = \<lparr>ss_auth = \<lparr>nonces = [], auth_results = []\<rparr>, ss_db = empty_db\<rparr>"

definition demo_validate :: "tso \<Rightarrow> time_error + unit" where
  "demo_validate = validate_sync 30000 1005 0"

lemma demo_server_ok: "text_ext_ok (pv_text demo_server)" "headers_pass demo_client (pv_http demo_server)"
  "signs_for demo_server demo_client pub pub"
  by (simp_all add: demo_server_def demo_client_def headers_pass_def signs_for_def demo_api_def Event.demo_events_def
      demo_svc_def demo_text_ok)

lemma demo_timely: "nonces (ss_auth st) = [] \<Longrightarrow> call_timely demo_server demo_validate 1000 [1] k st [(k, [1])]"
  by (simp add: call_timely_def demo_server_def demo_validate_def validate_sync_def client_ts_def from_raw_def
      physical_ms_def parts_def saturating_sub_def LOGICAL_BITS_def drop_bit_eq_div Let_def)

lemma demo_account_created:
  "\<exists>acct kid_text d. create_account (ax_svc demo_api) (ax_algos demo_api) (ax_account_mode demo_api) 5 3 4 Anonymous demo_careq empty_db =
     (Inr (acct, kid_text), d)"
proof -
  have "is_ok (fst (create_account (ax_svc demo_api) (ax_algos demo_api) (ax_account_mode demo_api) 5 3 4 Anonymous demo_careq empty_db))"
    by code_simp
  then show ?thesis
    by (metis is_ok_iff prod.collapse)
qed

abbreviation demo_create :: "subject \<Rightarrow> db \<Rightarrow> (account_msg \<times> string) rpc \<times> db" where
  "demo_create \<equiv> \<lambda>subj d. dom_rpc (create_account (ax_svc (pv_api demo_server)) (ax_algos (pv_api demo_server))
     (ax_account_mode (pv_api demo_server)) 5 3 4 subj demo_careq d)"

lemma demo_signup_call:
  "\<exists>acct kid_text st1. public_call demo_server demo_validate
     (wire_request ''/headlines.v1.AccountService/CreateAccount'' [] []) demo_create demo_server_state = (Inr (acct, kid_text), st1) \<and>
     ss_auth st1 = ss_auth demo_server_state"
proof -
  obtain acct kid_text d where "demo_create Anonymous empty_db = (Inr (acct, kid_text), d)"
    using demo_account_created by (auto simp: demo_server_def respond_def)
  then show ?thesis
    by (simp add: public_call_def public_listener_def auth_interceptor_call_def wire_request_def get_header_def remove_header_def
        authorization_call_def table_lookup_def is_allowed_def class_matches_def demo_server_state_def Let_def)
      (simp add: demo_server_def is_allowed_def class_matches_def)
qed



end
