(* ===== verification/Seed_Content.thy ===== *)
theory Seed_Content
  imports Content Canonical "HOL-Library.AList"
begin

text \<open>
  The demo articles of the seeding command (\<open>headlines-server/src/seed\<close>): the front matter at
  the head of a file (\<open>frontmatter.rs\<close>) and the translation of its Markdown body to nodes
  (\<open>content_md.rs\<close>). The parser \<open>pulldown_cmark\<close> is third-party code; the translation takes
  the events that it yields. Shown: front matter that was written is read back, the stack that
  the translation keeps computes the tree the events stand for, no text is lost on the way,
  and the article service accepts the elements it builds.
\<close>

subsection \<open>Front matter\<close>

record frontmatter =
  fm_title :: string
  fm_author_name :: "string option"
  fm_author_url :: "string option"
  fm_created_at :: "string option"
  fm_state :: "string option"
  fm_tombstone_reason :: "string option"
  fm_redaction_reason :: "string option"

record parsed_article =
  pa_frontmatter :: frontmatter
  pa_body :: string

definition frontmatter_from_map :: "(string \<rightharpoonup> string) \<Rightarrow> frontmatter" where
  "frontmatter_from_map entries =
     \<lparr>fm_title = unwrap_or [] (entries ''title''), fm_author_name = entries ''author_name'',
      fm_author_url = entries ''author_url'', fm_created_at = entries ''created_at'',
      fm_state = entries ''state'', fm_tombstone_reason = entries ''tombstone_reason'',
      fm_redaction_reason = entries ''redaction_reason''\<rparr>"

definition frontmatter_default :: frontmatter where
  "frontmatter_default = \<lparr>fm_title = [], fm_author_name = None, fm_author_url = None, fm_created_at = None,
     fm_state = None, fm_tombstone_reason = None, fm_redaction_reason = None\<rparr>"

text \<open>\<open>v.replace("\\\"", "\"")\<close>: the escaped quotes, from left to right.\<close>

fun unescape_quotes :: "string \<Rightarrow> string" where
  "unescape_quotes [] = []"
| "unescape_quotes [c] = [c]"
| "unescape_quotes (c # d # s) =
     (if c = CHR 0x5C \<and> d = CHR 0x22 then CHR 0x22 # unescape_quotes s else c # unescape_quotes (d # s))"

definition quoted_by :: "char \<Rightarrow> string \<Rightarrow> bool" where
  "quoted_by q v \<longleftrightarrow> v \<noteq> [] \<and> hd v = q \<and> last v = q \<and> 2 \<le> length v"

definition strip_quotes :: "string \<Rightarrow> string" where
  "strip_quotes v0 =
     (let v = trim v0
      in if quoted_by (CHR 0x22) v \<or> quoted_by (CHR 0x27) v
         then unescape_quotes (butlast (tl v)) else v)"

text \<open>\<open>str::find\<close> of a string, as the two sides of its first occurrence.\<close>

fun find_str :: "string \<Rightarrow> string \<Rightarrow> (string \<times> string) option" where
  "find_str p [] = (if p = [] then Some ([], []) else None)"
| "find_str p (c # s) =
     (if prefix p (c # s) then Some ([], drop (length p) (c # s))
      else map_option (\<lambda>(a, b). (c # a, b)) (find_str p s))"

text \<open>\<open>str::lines\<close>: a carriage return before the end of the line belongs to it, and the text
  after the last end of line is a line unless it is empty.\<close>

definition strip_cr :: "string \<Rightarrow> string" where
  "strip_cr l = (if l \<noteq> [] \<and> last l = CHR 0x0D then butlast l else l)"

definition str_lines :: "string \<Rightarrow> string list" where
  "str_lines s =
     (let ps = split_on (CHR 0x0A) s
      in map strip_cr (butlast ps) @ (if List.last ps = [] then [] else [List.last ps]))"

fun frontmatter_entries :: "string list \<Rightarrow> (string \<rightharpoonup> string) \<Rightarrow> string \<rightharpoonup> string" where
  "frontmatter_entries [] entries = entries"
| "frontmatter_entries (line # rest) entries =
     (if trim line = [] then frontmatter_entries rest entries
      else case split_once (CHR '':'') line of
             None \<Rightarrow> frontmatter_entries rest entries
           | Some (k, v) \<Rightarrow> frontmatter_entries rest (entries(trim k \<mapsto> strip_quotes (trim v))))"

definition parse_article :: "string \<Rightarrow> parsed_article" where
  "parse_article input =
     (case strip_prefix (''---'' @ [CHR 0x0A]) input of
        None \<Rightarrow> \<lparr>pa_frontmatter = frontmatter_default, pa_body = input\<rparr>
      | Some rest \<Rightarrow>
          (case find_str (CHR 0x0A # ''---'') rest of
             None \<Rightarrow> \<lparr>pa_frontmatter = frontmatter_default, pa_body = rest\<rparr>
           | Some (fm_block, after) \<Rightarrow>
               \<lparr>pa_frontmatter = frontmatter_from_map (frontmatter_entries (str_lines fm_block) Map.empty),
                pa_body = dropWhile (\<lambda>c. c = CHR 0x0A) after\<rparr>))"

subsection \<open>Markdown events\<close>

datatype heading_level = H1 | H2 | H3 | H4 | H5 | H6

datatype md_tag =
    Paragraph
  | Heading heading_level
  | BlockQuote
  | CodeBlock
  | MdList "u64 option"
  | Item
  | Emphasis
  | Strong
  | Strikethrough
  | Link string
  | Image string string
  | OtherTag string

text \<open>
  \<open>Link\<close> has its destination, \<open>Image\<close> its destination and title; \<open>OtherTag\<close> stands for the
  tags without an arm of their own. What an end event names is not looked at.
\<close>

datatype md_event =
    Start md_tag
  | End
  | MdText string
  | MdCode string
  | Html string
  | InlineHtml string
  | SoftBreak
  | HardBreak
  | Rule
  | FootnoteReference string
  | TaskListMarker bool
  | OtherEvent string

record node_element =
  ne_tag :: string
  ne_attrs :: "(string \<times> string) list"
  ne_children :: "node list"

definition elem :: "string \<Rightarrow> node_element" where
  "elem tag = \<lparr>ne_tag = tag, ne_attrs = [], ne_children = []\<rparr>"

definition element_node :: "node_element \<Rightarrow> node" where
  "element_node e = Element (ne_tag e) (ne_attrs e) (ne_children e)"

definition attr_insert :: "string \<Rightarrow> string \<Rightarrow> node_element \<Rightarrow> node_element" where
  "attr_insert k v e = e\<lparr>ne_attrs := AList.update k v (ne_attrs e)\<rparr>"

subsection \<open>Embedded frames\<close>

definition ascii_lower :: "string \<Rightarrow> string" where
  "ascii_lower s =
     map (\<lambda>c. if 65 \<le> (of_char c :: nat) \<and> (of_char c :: nat) \<le> 90 then char_of (of_char c + 32 :: nat) else c) s"

text \<open>The white space character at the head of a string, if there is one.\<close>

definition ws_head :: "string \<Rightarrow> string option" where
  "ws_head s = find (\<lambda>w. w \<noteq> [] \<and> prefix w s) ws_encodings"

fun attr_name :: "string \<Rightarrow> string \<times> string" where
  "attr_name [] = ([], [])"
| "attr_name (c # s) =
     (if c = CHR ''='' \<or> ws_head (c # s) \<noteq> None \<or> c = CHR ''>'' then ([], c # s)
      else let (n, rest) = attr_name s in (c # n, rest))"

fun attr_value :: "char option \<Rightarrow> string \<Rightarrow> string \<times> string" where
  "attr_value quote [] = ([], [])"
| "attr_value (Some q) (c # s) =
     (if c = q then ([], s) else let (v, rest) = attr_value (Some q) s in (c # v, rest))"
| "attr_value None (c # s) =
     (if ws_head (c # s) \<noteq> None \<or> c = CHR ''>'' then ([], c # s)
      else let (v, rest) = attr_value None s in (c # v, rest))"

definition attr_quoted :: "string \<Rightarrow> string \<times> string" where
  "attr_quoted s =
     (if s \<noteq> [] \<and> hd s \<in> {CHR 0x22, CHR 0x27} then attr_value (Some (hd s)) (tl s) else attr_value None s)"

lemma attr_name_length: "length (snd (attr_name s)) \<le> length s"
  by (induction s) (auto split: prod.splits)

lemma attr_value_length: "length (snd (attr_value q s)) \<le> length s"
  by (induction q s rule: attr_value.induct) (auto split: prod.splits)

lemma attr_quoted_length: "length (snd (attr_quoted s)) \<le> length s"
  using attr_value_length [of "Some (hd s)" "tl s"] attr_value_length [of None s]
  by (auto simp: attr_quoted_def)

lemma ws_head_length: "ws_head s = Some w \<Longrightarrow> 0 < length w \<and> prefix w s"
  by (auto simp: ws_head_def find_Some_iff)

text \<open>The loop over the attributes: white space, or a name and perhaps a value.\<close>

function attr_loop :: "string \<Rightarrow> node_element \<Rightarrow> node_element" where
  "attr_loop [] e = e"
| "attr_loop (c # s) e =
     (if c = CHR ''>'' \<or> c = CHR ''/'' then e
      else case ws_head (c # s) of
             Some w \<Rightarrow> attr_loop (drop (length w) (c # s)) e
           | None \<Rightarrow>
               (case attr_name (c # s) of
                  (name, rest) \<Rightarrow>
                    if rest \<noteq> [] \<and> hd rest = CHR ''='' then
                      (case attr_quoted (tl rest) of
                         (v, rest') \<Rightarrow>
                           attr_loop rest' (if name = ''src'' then attr_insert name v e else e))
                    else attr_loop rest e))"
  by pat_completeness auto
termination
proof (relation "measure (\<lambda>(s, e). length s)", goal_cases)
  case (2 c s e name rest v rest')
  then have "length rest' \<le> length (tl rest)" "length rest \<le> length (c # s)" "rest \<noteq> []"
    using attr_quoted_length [of "tl rest"] attr_name_length [of "c # s"] by (metis snd_conv)+
  then show ?case
    by (cases rest) auto
next
  case (3 c s e name rest)
  then have "c \<noteq> CHR ''=''"
    by (auto split: if_splits)
  with 3 have "rest = snd (attr_name s)"
    by (auto split: prod.splits)
  then show ?case
    using attr_name_length [of s] by simp
next
  case (4 c s e w)
  then show ?case
    using ws_head_length [of "c # s" w] by auto
qed simp

definition parse_iframe_or_video :: "string \<Rightarrow> node_element option" where
  "parse_iframe_or_video html =
     (let trimmed = trim html; lower = ascii_lower trimmed;
          tag = (if prefix ''<iframe'' lower then Some ''iframe''
                 else if prefix ''<video'' lower then Some ''video'' else None)
      in case tag of
           None \<Rightarrow> None
         | Some tag \<Rightarrow>
             if tag \<notin> set ALLOWED_TAGS then None
             else Some (attr_loop (drop (length (CHR ''<'' # tag)) trimmed) (elem tag)))"

subsection \<open>From events to nodes\<close>

text \<open>The open elements, the innermost first, and the finished nodes.\<close>

type_synonym md_state = "node_element list \<times> node list"

text \<open>
  The children of the innermost open element, or the output: where each arm puts its nodes.
\<close>

fun push_nodes :: "node list \<Rightarrow> md_state \<Rightarrow> md_state" where
  "push_nodes ns (el # stack, out) = (el\<lparr>ne_children := ne_children el @ ns\<rparr> # stack, out)"
| "push_nodes ns ([], out) = ([], out @ ns)"

definition push_text :: "string \<Rightarrow> md_state \<Rightarrow> md_state" where
  "push_text text st = (if text = [] then st else push_nodes [Text text] st)"

fun close_top :: "md_state \<Rightarrow> md_state" where
  "close_top (el # stack, out) = push_nodes [element_node el] (stack, out)"
| "close_top ([], out) = ([], out)"

fun heading_tag :: "heading_level \<Rightarrow> string" where
  "heading_tag H1 = ''h3''"
| "heading_tag H2 = ''h3''"
| "heading_tag H3 = ''h3''"
| "heading_tag H4 = ''h4''"
| "heading_tag H5 = ''h4''"
| "heading_tag H6 = ''h4''"

fun open_element :: "md_tag \<Rightarrow> node_element" where
  "open_element Paragraph = elem ''p''"
| "open_element (Heading level) = elem (heading_tag level)"
| "open_element BlockQuote = elem ''blockquote''"
| "open_element CodeBlock = elem ''pre''"
| "open_element (MdList (Some _)) = elem ''ol''"
| "open_element (MdList None) = elem ''ul''"
| "open_element Item = elem ''li''"
| "open_element Emphasis = elem ''em''"
| "open_element Strong = elem ''strong''"
| "open_element Strikethrough = elem ''s''"
| "open_element (Link dest_url) = attr_insert ''href'' dest_url (elem ''a'')"
| "open_element (Image dest_url title) =
     (let img = attr_insert ''src'' dest_url (elem ''img'')
      in if title \<noteq> [] then attr_insert ''alt'' title img else img)"
| "open_element (OtherTag _) = elem ''__drop__''"

fun md_step :: "md_event \<Rightarrow> md_state \<Rightarrow> md_state" where
  "md_step (Start tag) (stack, out) = (open_element tag # stack, out)"
| "md_step End ([], out) = ([], out)"
| "md_step End (el # stack, out) =
     (if ne_tag el = ''__drop__'' then push_nodes (ne_children el) (stack, out)
      else push_nodes [element_node el] (stack, out))"
| "md_step (MdText t) st = push_text t st"
| "md_step (MdCode c) st = push_nodes [element_node (elem ''code''\<lparr>ne_children := [Text c]\<rparr>)] st"
| "md_step (Html h) st =
     (case parse_iframe_or_video h of None \<Rightarrow> st | Some e \<Rightarrow> push_nodes [element_node e] st)"
| "md_step (InlineHtml h) st =
     (case parse_iframe_or_video h of None \<Rightarrow> st | Some e \<Rightarrow> push_nodes [element_node e] st)"
| "md_step SoftBreak st = push_text '' '' st"
| "md_step HardBreak st = push_nodes [element_node (elem ''br'')] st"
| "md_step Rule st = push_nodes [element_node (elem ''hr'')] st"
| "md_step (FootnoteReference _) st = st"
| "md_step (TaskListMarker _) st = st"
| "md_step (OtherEvent _) st = st"

definition md_run :: "md_event list \<Rightarrow> md_state \<Rightarrow> md_state" where
  "md_run evts st = foldl (\<lambda>s e. md_step e s) st evts"

text \<open>The last loop closes what is still open.\<close>

lemma push_nodes_length [simp]: "length (fst (push_nodes ns st)) = length (fst st)"
  by (cases st; cases "fst st") auto

function close_all :: "md_state \<Rightarrow> node list" where
  "close_all st = (if fst st = [] then snd st else close_all (close_top st))"
  by pat_completeness auto
termination
proof (relation "measure (\<lambda>st. length (fst st))", goal_cases)
  case (2 st)
  then show ?case
    using push_nodes_length [of _ "(tl (fst st), snd st)"] by (cases st; cases "fst st") auto
qed simp

declare close_all.simps [simp del]

definition markdown_to_nodes :: "md_event list \<Rightarrow> node list" where
  "markdown_to_nodes evts = close_all (md_run evts ([], []))"

subsection \<open>The tree behind the events\<close>

text \<open>
  Balanced events are the walk through a forest: a tag around its children, or an event without
  a tag. \<open>nodes_of\<close> translates the forest without a stack.
\<close>

datatype md_tree = Leaf md_event | Branch md_tag "md_tree list"

fun leaf_event :: "md_event \<Rightarrow> bool" where
  "leaf_event (Start _) = False"
| "leaf_event End = False"
| "leaf_event _ = True"

fun tree_ok :: "md_tree \<Rightarrow> bool" where
  "tree_ok (Leaf e) = leaf_event e"
| "tree_ok (Branch t ts) = list_all tree_ok ts"

fun events_of :: "md_tree \<Rightarrow> md_event list" where
  "events_of (Leaf e) = [e]"
| "events_of (Branch t ts) = Start t # concat (map events_of ts) @ [End]"

fun leaf_nodes :: "md_event \<Rightarrow> node list" where
  "leaf_nodes (MdText t) = (if t = [] then [] else [Text t])"
| "leaf_nodes (MdCode c) = [Element ''code'' [] [Text c]]"
| "leaf_nodes (Html h) = (case parse_iframe_or_video h of None \<Rightarrow> [] | Some e \<Rightarrow> [element_node e])"
| "leaf_nodes (InlineHtml h) = (case parse_iframe_or_video h of None \<Rightarrow> [] | Some e \<Rightarrow> [element_node e])"
| "leaf_nodes SoftBreak = [Text '' '']"
| "leaf_nodes HardBreak = [Element ''br'' [] []]"
| "leaf_nodes Rule = [Element ''hr'' [] []]"
| "leaf_nodes _ = []"

fun tag_dropped :: "md_tag \<Rightarrow> bool" where
  "tag_dropped (OtherTag _) = True"
| "tag_dropped _ = False"

fun nodes_of :: "md_tree \<Rightarrow> node list" where
  "nodes_of (Leaf e) = leaf_nodes e"
| "nodes_of (Branch t ts) =
     (let children = concat (map nodes_of ts)
      in if tag_dropped t then children
         else [Element (ne_tag (open_element t)) (ne_attrs (open_element t)) children])"

lemma push_nodes_Nil [simp]: "push_nodes [] st = st"
  by (cases st; cases "fst st") auto

lemma push_nodes_append [simp]: "push_nodes bs (push_nodes as st) = push_nodes (as @ bs) st"
  by (cases st; cases "fst st") auto

lemma md_run_simps [simp]:
  "md_run [] st = st" "md_run (e # es) st = md_run es (md_step e st)"
  "md_run (es @ es') st = md_run es' (md_run es st)"
  by (simp_all add: md_run_def)

lemma open_element_children [simp]: "ne_children (open_element t) = []"
  by (cases t rule: open_element.cases) (simp_all add: elem_def attr_insert_def Let_def)

lemma heading_tag_cases: "heading_tag l \<in> {''h3'', ''h4''}"
  by (cases l) simp_all

lemma dropped_tag [simp]: "ne_tag (open_element t) = ''__drop__'' \<longleftrightarrow> tag_dropped t"
proof (cases t rule: open_element.cases)
  case (2 l)
  then show ?thesis
    using heading_tag_cases [of l] by (auto simp: elem_def)
qed (simp_all add: elem_def attr_insert_def Let_def)

lemma md_step_leaf: "leaf_event e \<Longrightarrow> md_step e st = push_nodes (leaf_nodes e) st"
  by (cases e) (simp_all add: push_text_def element_node_def elem_def split: option.split)

lemma md_run_tree: "tree_ok t \<Longrightarrow> md_run (events_of t) st = push_nodes (nodes_of t) st"
proof (induction t arbitrary: st)
  case (Leaf e)
  then show ?case
    by (simp add: md_step_leaf)
next
  case (Branch t ts)
  have "md_run (concat (map events_of ts)) s = push_nodes (concat (map nodes_of ts)) s" for s
    using Branch by (induction ts arbitrary: s) auto
  then show ?case
    by (cases st) (simp add: Let_def element_node_def)
qed

lemma md_run_forest:
  "list_all tree_ok ts \<Longrightarrow> md_run (concat (map events_of ts)) st = push_nodes (concat (map nodes_of ts)) st"
  by (induction ts arbitrary: st) (simp_all add: md_run_tree)

text \<open>What the parser documents: every end event closes a start event, and all are closed.\<close>

fun balanced :: "nat \<Rightarrow> md_event list \<Rightarrow> bool" where
  "balanced n [] \<longleftrightarrow> n = 0"
| "balanced n (Start _ # es) \<longleftrightarrow> balanced (Suc n) es"
| "balanced n (End # es) \<longleftrightarrow> 0 < n \<and> balanced (n - 1) es"
| "balanced n (_ # es) \<longleftrightarrow> balanced n es"

lemma balanced_leaf: "leaf_event e \<Longrightarrow> balanced n (e # es) \<longleftrightarrow> balanced n es"
  by (cases e) simp_all

text \<open>After \<open>n\<close> start events are open, the rest closes them one after the other.\<close>

definition forest_events :: "md_tree list \<Rightarrow> md_event list" where
  "forest_events ts = concat (map events_of ts)"

fun levels_events :: "md_tree list list \<Rightarrow> md_event list" where
  "levels_events [] = []"
| "levels_events [ts] = forest_events ts"
| "levels_events (ts # us # rest) = forest_events ts @ End # levels_events (us # rest)"

lemma levels_push:
  "levels_events ((t # ts) # rest) = events_of t @ levels_events (ts # rest)"
  by (cases rest) (simp_all add: forest_events_def)

lemma balanced_levels:
  "balanced n es \<Longrightarrow> \<exists>ts rest. length rest = n \<and> list_all (list_all tree_ok) (ts # rest) \<and>
     es = levels_events (ts # rest)"
proof (induction es arbitrary: n)
  case Nil
  then show ?case
    by (intro exI [of _ "[]"]) (simp add: forest_events_def)
next
  case (Cons e es)
  show ?case
  proof (cases "leaf_event e")
    case True
    with Cons.prems have "balanced n es"
      by (simp add: balanced_leaf)
    from Cons.IH [OF this] obtain ts rest where "length rest = n" "list_all (list_all tree_ok) (ts # rest)"
      "es = levels_events (ts # rest)"
      by blast
    with True show ?thesis
      by (intro exI [of _ "Leaf e # ts"] exI [of _ rest]) (simp add: levels_push)
  next
    case False
    then consider t where "e = Start t" | "e = End"
      by (cases e) auto
    then show ?thesis
    proof cases
      case 1
      with Cons.prems have "balanced (Suc n) es"
        by simp
      from Cons.IH [OF this] obtain ts us rest where "length rest = n"
        "list_all (list_all tree_ok) (ts # us # rest)" "es = levels_events (ts # us # rest)"
        by (auto simp: length_Suc_conv)
      with 1 show ?thesis
        by (intro exI [of _ "Branch t ts # us"] exI [of _ rest]) (simp add: levels_push forest_events_def)
    next
      case 2
      with Cons.prems have "balanced (n - 1) es" "0 < n"
        by simp_all
      from Cons.IH [OF this(1)] obtain ts rest where "length rest = n - 1"
        "list_all (list_all tree_ok) (ts # rest)" "es = levels_events (ts # rest)"
        by blast
      with 2 \<open>0 < n\<close> show ?thesis
        by (intro exI [of _ "[]"] exI [of _ "ts # rest"]) (simp add: forest_events_def)
    qed
  qed
qed

lemma balanced_forest: "balanced 0 es \<Longrightarrow> \<exists>ts. list_all tree_ok ts \<and> es = concat (map events_of ts)"
  using balanced_levels [of 0 es] by (auto simp: forest_events_def)

lemma markdown_forest:
  assumes "list_all tree_ok ts"
  shows "markdown_to_nodes (concat (map events_of ts)) = concat (map nodes_of ts)"
  using assms by (simp add: markdown_to_nodes_def md_run_forest close_all.simps)

subsection \<open>Elements the service accepts\<close>

lemma attr_insert_simps [simp]:
  "ne_tag (attr_insert k v e) = ne_tag e" "ne_children (attr_insert k v e) = ne_children e"
  "fst ` set (ne_attrs (attr_insert k v e)) = insert k (fst ` set (ne_attrs e))"
  by (simp_all add: attr_insert_def dom_map_of_conv_image_fst [symmetric] update_conv')

lemma distinct_attr_insert [simp]:
  "distinct (map fst (ne_attrs e)) \<Longrightarrow> distinct (map fst (ne_attrs (attr_insert k v e)))"
  by (simp add: attr_insert_def distinct_update)

lemma elem_simps [simp]: "ne_tag (elem t) = t" "ne_attrs (elem t) = []" "ne_children (elem t) = []"
  by (simp_all add: elem_def)

text \<open>The loop only ever adds \<open>src\<close>.\<close>

definition src_only :: "node_element \<Rightarrow> node_element \<Rightarrow> bool" where
  "src_only e e' \<longleftrightarrow> ne_tag e' = ne_tag e \<and> ne_children e' = ne_children e \<and>
     fst ` set (ne_attrs e') \<subseteq> insert ''src'' (fst ` set (ne_attrs e)) \<and>
     (distinct (map fst (ne_attrs e)) \<longrightarrow> distinct (map fst (ne_attrs e')))"

lemma src_only_insert: "src_only (attr_insert ''src'' v e) e' \<Longrightarrow> src_only e e'"
  by (auto simp: src_only_def)

lemma attr_loop_src: "src_only e (attr_loop s e)"
proof (induction s e rule: attr_loop.induct)
  case (2 c s e)
  show ?case
  proof (cases "c = CHR ''>'' \<or> c = CHR ''/''")
    case True
    then show ?thesis
      by (auto simp: src_only_def)
  next
    case loop: False
    show ?thesis
    proof (cases "ws_head (c # s)")
      case (Some w)
      with loop 2(3) [OF loop Some] show ?thesis
        by simp
    next
      case None
      obtain name rest where name: "attr_name (c # s) = (name, rest)"
        by fastforce
      obtain v rest' where v: "attr_quoted (tl rest) = (v, rest')"
        by fastforce
      note step = attr_loop.simps(2) [of c s e] loop None name v
      show ?thesis
      proof (cases "rest \<noteq> [] \<and> hd rest = CHR ''=''")
        case True
        note ih = 2(1) [OF loop None name [symmetric] True v [symmetric]]
        have "attr_loop (c # s) e = attr_loop rest' (if name = ''src'' then attr_insert name v e else e)"
          using True step by (simp del: attr_name.simps)
        with ih show ?thesis
          by (cases "name = ''src''") (simp_all add: src_only_insert)
      next
        case False
        have "attr_loop (c # s) e = attr_loop rest e"
          using False step by (auto simp del: attr_name.simps)
        with 2(2) [OF loop None name [symmetric] False] show ?thesis
          by simp
      qed
    qed
  qed
qed (auto simp: src_only_def)

lemma parse_iframe_ok:
  assumes "parse_iframe_or_video h = Some e"
  shows "element_allowed (ne_tag e) (ne_attrs e)" "distinct (map fst (ne_attrs e))" "ne_children e = []"
proof -
  from assms obtain s tag where e: "e = attr_loop s (elem tag)" "tag \<in> {''iframe'', ''video''}"
    by (auto simp: parse_iframe_or_video_def Let_def split: if_splits)
  then have "ne_tag e = tag" "fst ` set (ne_attrs e) \<subseteq> {''src''}"
    "distinct (map fst (ne_attrs e))" "ne_children e = []"
    using attr_loop_src [of "elem tag" s] by (simp_all add: src_only_def)
  moreover have "fst ` set (ne_attrs e) \<subseteq> {''src''} \<Longrightarrow> element_allowed tag (ne_attrs e)"
    using e(2) by (auto simp: element_allowed_def allowed_attrs_for_def ALLOWED_TAGS_def)
  ultimately show "element_allowed (ne_tag e) (ne_attrs e)" "distinct (map fst (ne_attrs e))" "ne_children e = []"
    by simp_all
qed

lemma open_element_allowed:
  assumes "\<not> tag_dropped t"
  shows "element_allowed (ne_tag (open_element t)) (ne_attrs (open_element t))"
    "distinct (map fst (ne_attrs (open_element t)))"
  using assms heading_tag_cases
  by (cases t rule: open_element.cases; auto simp: element_allowed_def allowed_attrs_for_def ALLOWED_TAGS_def Let_def)+

lemma validate_node_element:
  "validate_node (Element tag attrs children) = Inr () \<longleftrightarrow>
   element_allowed tag attrs \<and> (\<forall>n\<in>set children. validate_node n = Inr ())"
  by (auto simp: try_res_Inr validate_element_head_iff each_ok_Inr)

lemma leaf_nodes_valid: "n \<in> set (leaf_nodes e) \<Longrightarrow> validate_node n = Inr () \<and> node_ok n"
  using parse_iframe_ok
  by (cases e) (auto simp: validate_node_element element_node_def simp del: validate_node.simps(3) split: if_splits option.splits,
      auto simp: element_allowed_def allowed_attrs_for_def ALLOWED_TAGS_def)

lemma nodes_of_valid: "n \<in> set (nodes_of t) \<Longrightarrow> validate_node n = Inr () \<and> node_ok n"
proof (induction t arbitrary: n)
  case (Leaf e)
  then show ?case
    by (simp add: leaf_nodes_valid)
next
  case (Branch t ts)
  then show ?case
    using open_element_allowed [of t]
    by (auto simp: Let_def validate_node_element list_all_iff simp del: validate_node.simps(3) split: if_splits)
qed

subsection \<open>No text is lost\<close>

fun node_text :: "node \<Rightarrow> string" where
  "node_text NoKind = []"
| "node_text (Text t) = t"
| "node_text (Element tag attrs children) = concat (map node_text children)"

fun event_text :: "md_event \<Rightarrow> string" where
  "event_text (MdText t) = t"
| "event_text (MdCode c) = c"
| "event_text SoftBreak = '' ''"
| "event_text _ = []"

definition nodes_text :: "node list \<Rightarrow> string" where
  "nodes_text ns = concat (map node_text ns)"

text \<open>The text of a state: the finished nodes, then the open elements from the outside.\<close>

definition state_text :: "md_state \<Rightarrow> string" where
  "state_text st = nodes_text (snd st) @ concat (map (\<lambda>e. nodes_text (ne_children e)) (rev (fst st)))"

lemma nodes_text_simps [simp]:
  "nodes_text [] = []" "nodes_text (n # ns) = node_text n @ nodes_text ns"
  "nodes_text (ns @ ms) = nodes_text ns @ nodes_text ms"
  by (simp_all add: nodes_text_def)

lemma element_node_text [simp]: "node_text (element_node e) = nodes_text (ne_children e)"
  by (simp add: element_node_def nodes_text_def)

lemma push_nodes_text [simp]: "state_text (push_nodes ns st) = state_text st @ nodes_text ns"
  by (cases st; cases "fst st") (auto simp: state_text_def)

lemma state_text_Cons: "state_text (e # stack, out) = state_text (stack, out) @ nodes_text (ne_children e)"
  by (simp add: state_text_def)

lemma md_step_text: "state_text (md_step e st) = state_text st @ event_text e"
proof (cases "leaf_event e")
  case True
  then have "nodes_text (leaf_nodes e) = event_text e"
    using parse_iframe_ok(3) by (cases e) (auto split: option.split)
  with True show ?thesis
    by (simp add: md_step_leaf)
next
  case False
  then show ?thesis
    by (cases e; cases st; cases "fst st") (auto simp: state_text_Cons)
qed

lemma close_all_text: "nodes_text (close_all st) = state_text st"
proof (induction st rule: close_all.induct)
  case (1 st)
  show ?case
  proof (cases "fst st")
    case Nil
    then show ?thesis
      by (simp add: close_all.simps state_text_def)
  next
    case (Cons e stack)
    then have "state_text (close_top st) = state_text st"
      by (cases st) (simp add: state_text_Cons)
    with 1 Cons show ?thesis
      by (simp add: close_all.simps [of st])
  qed
qed

lemma md_run_text: "state_text (md_run es st) = state_text st @ concat (map event_text es)"
  by (induction es arbitrary: st) (simp_all add: md_step_text)

subsection \<open>Writing front matter\<close>

fun escape_quotes :: "string \<Rightarrow> string" where
  "escape_quotes [] = []"
| "escape_quotes (c # s) = (if c = CHR 0x22 then CHR 0x5C # CHR 0x22 # escape_quotes s else c # escape_quotes s)"

definition fm_line :: "string \<times> string \<Rightarrow> string" where
  "fm_line e = fst e @ '': '' @ [CHR 0x22] @ escape_quotes (snd e) @ [CHR 0x22]"

definition fm_opt :: "string \<Rightarrow> string option \<Rightarrow> (string \<times> string) list" where
  "fm_opt k v = (case v of None \<Rightarrow> [] | Some x \<Rightarrow> [(k, x)])"

definition fm_entries :: "frontmatter \<Rightarrow> (string \<times> string) list" where
  "fm_entries f =
     (''title'', fm_title f) # fm_opt ''author_name'' (fm_author_name f) @ fm_opt ''author_url'' (fm_author_url f) @
     fm_opt ''created_at'' (fm_created_at f) @ fm_opt ''state'' (fm_state f) @
     fm_opt ''tombstone_reason'' (fm_tombstone_reason f) @ fm_opt ''redaction_reason'' (fm_redaction_reason f)"

definition write_article :: "parsed_article \<Rightarrow> string" where
  "write_article a =
     ''---'' @ [CHR 0x0A] @ join [CHR 0x0A] (map fm_line (fm_entries (pa_frontmatter a))) @
     [CHR 0x0A] @ ''---'' @ [CHR 0x0A] @ pa_body a"

lemma unescape_plain: "c \<noteq> CHR 0x5C \<Longrightarrow> unescape_quotes (c # s) = c # unescape_quotes s"
  by (cases s) simp_all

lemma unescape_escape: "unescape_quotes (escape_quotes s) = s"
proof (induction s)
  case (Cons c s)
  show ?case
  proof (cases "c = CHR 0x5C")
    case True
    have "escape_quotes s = [] \<or> hd (escape_quotes s) \<noteq> CHR 0x22"
      by (cases s) simp_all
    with True Cons show ?thesis
      by (cases "escape_quotes s") auto
  qed (use Cons in \<open>simp add: unescape_plain\<close>)
qed simp

lemma escape_no_newline: "CHR 0x0A \<notin> set v \<Longrightarrow> CHR 0x0A \<notin> set (escape_quotes v)"
  by (induction v) auto

lemma trim_ends:
  assumes "s \<noteq> []" "token_char (hd s)" "token_char (List.last s)"
  shows "trim s = s" "trim (CHR '' '' # s) = s"
proof -
  have "strip_all ws_encodings s = s" "strip_all (map rev ws_encodings) (rev s) = rev s"
    by (rule strip_all_head; use assms ws_not_token in \<open>simp add: hd_rev\<close>)+
  then show "trim s = s"
    by (simp add: trim_def)
  moreover have "strip_all ws_encodings (CHR '' '' # s) = strip_all ws_encodings s"
    by (subst strip_all.simps) (simp add: ws_encodings_def)
  ultimately show "trim (CHR '' '' # s) = s"
    by (simp add: trim_def)
qed

lemma strip_quotes_quoted: "strip_quotes (CHR 0x22 # escape_quotes v @ [CHR 0x22]) = v"
proof -
  have "trim (CHR 0x22 # escape_quotes v @ [CHR 0x22]) = CHR 0x22 # escape_quotes v @ [CHR 0x22]"
    by (rule trim_ends) (simp_all add: token_char_def)
  then show ?thesis
    by (simp add: strip_quotes_def quoted_by_def butlast_append unescape_escape)
qed

text \<open>The closing line is the first one that begins with dashes.\<close>

lemma find_str_skip:
  "CHR 0x0A \<notin> set l \<Longrightarrow>
   find_str (CHR 0x0A # p) (l @ s) = map_option (\<lambda>(a, b). (l @ a, b)) (find_str (CHR 0x0A # p) s)"
proof (induction l)
  case Nil
  then show ?case
    by (cases "find_str (CHR 0x0A # p) s") auto
next
  case (Cons c l)
  then show ?case
    by (cases "find_str (CHR 0x0A # p) s") auto
qed

lemma find_str_lines:
  assumes "ls \<noteq> []" "\<forall>l\<in>set ls. CHR 0x0A \<notin> set l \<and> l \<noteq> [] \<and> hd l \<noteq> CHR ''-''"
  shows "find_str (CHR 0x0A # ''---'') (join [CHR 0x0A] ls @ CHR 0x0A # ''---'' @ s) = Some (join [CHR 0x0A] ls, s)"
  using assms
proof (induction ls rule: induct_list012)
  case (2 l)
  then show ?case
    by (simp add: find_str_skip)
next
  case (3 l m ls)
  then obtain c m' where "m = c # m'" "c \<noteq> CHR ''-''"
    by (cases m) auto
  then have "\<not> prefix ''---'' (join [CHR 0x0A] (m # ls) @ CHR 0x0A # ''---'' @ s)"
    by (cases ls) auto
  with 3 show ?case
    by (simp add: find_str_skip)
qed simp

lemma str_lines_join:
  assumes "ls \<noteq> []" "\<forall>l\<in>set ls. CHR 0x0A \<notin> set l \<and> l \<noteq> [] \<and> List.last l \<noteq> CHR 0x0D"
  shows "str_lines (join [CHR 0x0A] ls) = ls"
proof -
  have "split_on (CHR 0x0A) (join [CHR 0x0A] ls) = ls"
    using assms by (intro split_on_join) auto
  moreover have "map strip_cr (butlast ls) = butlast ls"
    using assms by (intro map_idI) (auto simp: strip_cr_def dest: in_set_butlastD)
  moreover have "List.last ls \<noteq> []"
    using assms by auto
  ultimately show ?thesis
    using assms(1) by (simp add: str_lines_def Let_def)
qed

text \<open>A line that was written is read as the entry it was written for.\<close>

definition plain_key :: "string \<Rightarrow> bool" where
  "plain_key k \<longleftrightarrow> k \<noteq> [] \<and> list_all (\<lambda>c. token_char c \<and> c \<noteq> CHR '':'' \<and> c \<noteq> CHR ''-'') k"

lemma fm_line_shape:
  assumes "plain_key k" "CHR 0x0A \<notin> set v"
  shows "CHR 0x0A \<notin> set (fm_line (k, v))" "fm_line (k, v) \<noteq> []" "hd (fm_line (k, v)) \<noteq> CHR ''-''"
    "List.last (fm_line (k, v)) \<noteq> CHR 0x0D" "trim (fm_line (k, v)) = fm_line (k, v)"
proof -
  from assms(1) have k: "k \<noteq> []" "token_char (hd k)" "hd k \<noteq> CHR ''-''"
    by (cases k; simp add: plain_key_def)+
  from assms(1) have nl: "CHR 0x0A \<notin> set k"
    by (intro newline_not_token) (auto simp: plain_key_def list_all_iff)
  from k show ne: "fm_line (k, v) \<noteq> []" and "hd (fm_line (k, v)) \<noteq> CHR ''-''"
    by (simp_all add: fm_line_def)
  show "List.last (fm_line (k, v)) \<noteq> CHR 0x0D"
    by (simp add: fm_line_def)
  show "trim (fm_line (k, v)) = fm_line (k, v)"
    using k by (intro trim_ends ne) (simp_all add: fm_line_def token_char_def)
  show "CHR 0x0A \<notin> set (fm_line (k, v))"
    using nl escape_no_newline [OF assms(2)] by (simp add: fm_line_def)
qed

lemma frontmatter_entries_line:
  assumes "plain_key k" "CHR 0x0A \<notin> set v"
  shows "frontmatter_entries (fm_line (k, v) # ls) m = frontmatter_entries ls (m(k \<mapsto> v))"
proof -
  let ?q = "CHR 0x22 # escape_quotes v @ [CHR 0x22]"
  have q: "trim ?q = ?q" "trim (CHR '' '' # ?q) = ?q"
    by (rule trim_ends; simp add: token_char_def)+
  have "split_once (CHR '':'') (fm_line (k, v)) = Some (k, CHR '' '' # ?q)"
    using assms(1) split_once_append [of "CHR '':''" k "CHR '' '' # ?q"]
    by (auto simp: fm_line_def plain_key_def list_all_iff)
  moreover have "trim k = k"
    using assms(1) by (intro trim_tokens) (auto simp: plain_key_def list_all_iff)
  ultimately show ?thesis
    using fm_line_shape [OF assms] q strip_quotes_quoted [of v] by simp
qed

lemma frontmatter_entries_lines:
  assumes "\<forall>(k, v)\<in>set es. plain_key k \<and> CHR 0x0A \<notin> set v"
  shows "frontmatter_entries (map fm_line es) m = foldl (\<lambda>m (k, v). m(k \<mapsto> v)) m es"
  using assms
proof (induction es arbitrary: m)
  case (Cons e es)
  then show ?case
    by (cases e) (simp add: frontmatter_entries_line fun_upd_def del: frontmatter_entries.simps)
qed simp

lemma fm_opt_keys: "(k, v) \<in> set (fm_opt k' w) \<Longrightarrow> k = k'"
  by (auto simp: fm_opt_def split: option.splits)

lemma fm_entries_keys: "(k, v) \<in> set (fm_entries f) \<Longrightarrow> plain_key k"
  by (auto simp: fm_entries_def plain_key_def token_char_def dest!: fm_opt_keys)

lemma fm_opt_insert:
  "foldl (\<lambda>m (k, v). m(k \<mapsto> v)) m (fm_opt k w @ es) =
   foldl (\<lambda>m (k, v). m(k \<mapsto> v)) (if w = None then m else m(k := w)) es"
  by (cases w) (simp_all add: fm_opt_def)

lemma fm_opt_insert1:
  "foldl (\<lambda>m (k, v). m(k \<mapsto> v)) m (fm_opt k w) = (if w = None then m else m(k := w))"
  using fm_opt_insert [of m k w "[]"] by simp

lemma frontmatter_of_entries:
  "frontmatter_from_map (foldl (\<lambda>m (k, v). m(k \<mapsto> v)) Map.empty (fm_entries f)) = f"
  by (cases f) (simp add: fm_entries_def fm_opt_insert fm_opt_insert1 frontmatter_from_map_def)

subsection \<open>Properties\<close>

definition article_writable :: "parsed_article \<Rightarrow> bool" where
  "article_writable a \<longleftrightarrow>
     list_all (\<lambda>e. CHR 0x0A \<notin> set (snd e)) (fm_entries (pa_frontmatter a)) \<and>
     (pa_body a = [] \<or> hd (pa_body a) \<noteq> CHR 0x0A)"

text \<open>C35. The front matter of a demo article round-trips: of every article whose values have no
  line breaks and whose body does not begin with one, the written form is read back as the very
  same article, whatever quotes and backslashes the values have.
\<close>

theorem frontmatter_roundtrip:
  assumes "article_writable a"
  shows "parse_article (write_article a) = a"
proof -
  let ?es = "fm_entries (pa_frontmatter a)"
  have es: "\<forall>(k, v)\<in>set ?es. plain_key k \<and> CHR 0x0A \<notin> set v"
    using assms fm_entries_keys by (fastforce simp: article_writable_def list_all_iff)
  then have ls: "\<forall>l\<in>set (map fm_line ?es). CHR 0x0A \<notin> set l \<and> l \<noteq> [] \<and> hd l \<noteq> CHR ''-'' \<and> List.last l \<noteq> CHR 0x0D"
    using fm_line_shape by fastforce
  have ne: "map fm_line ?es \<noteq> []"
    by (simp add: fm_entries_def)
  have "find_str (CHR 0x0A # ''---'') (join [CHR 0x0A] (map fm_line ?es) @ CHR 0x0A # ''---'' @ CHR 0x0A # pa_body a) =
      Some (join [CHR 0x0A] (map fm_line ?es), CHR 0x0A # pa_body a)"
    using ls by (intro find_str_lines ne) auto
  moreover have "str_lines (join [CHR 0x0A] (map fm_line ?es)) = map fm_line ?es"
    using ls by (intro str_lines_join ne) auto
  moreover have "frontmatter_from_map (frontmatter_entries (map fm_line ?es) Map.empty) = pa_frontmatter a"
    using es by (simp add: frontmatter_entries_lines frontmatter_of_entries)
  moreover have "dropWhile (\<lambda>c. c = CHR 0x0A) (CHR 0x0A # pa_body a) = pa_body a"
    using assms by (cases "pa_body a") (auto simp: article_writable_def)
  ultimately show ?thesis
    by (simp add: parse_article_def write_article_def strip_prefix_def)
qed

definition demo_parsed :: parsed_article where
  "demo_parsed = \<lparr>pa_frontmatter = frontmatter_default\<lparr>fm_title := [CHR 0x22] @ ''Hi'' @ [CHR 0x22] @ '': you'',
     fm_state := Some ''live''\<rparr>, pa_body = ''Body''\<rparr>"

theorem frontmatter_roundtrip_witness: "parse_article (write_article demo_parsed) = demo_parsed"
  by (rule frontmatter_roundtrip)
    (simp add: article_writable_def demo_parsed_def frontmatter_default_def fm_entries_def fm_opt_def)

text \<open>C36. The stack computes the tree: on the events of any forest, the nodes are those of the
  forest translated from the leaves up, where a tag that has no node of its own leaves its
  children in its place.
\<close>

theorem markdown_refines_tree:
  assumes "list_all tree_ok ts"
  shows "markdown_to_nodes (concat (map events_of ts)) = concat (map nodes_of ts)"
  using assms by (rule markdown_forest)

theorem markdown_refines_tree_witness:
  "markdown_to_nodes [Start Paragraph, Start (OtherTag ''Table''), MdText ''a'', End, Start (Link ''u''), MdText ''b'', End, End] =
     [Element ''p'' [] [Text ''a'', Element ''a'' [(''href'', ''u'')] [Text ''b'']]]"
  using markdown_refines_tree [of "[Branch Paragraph [Branch (OtherTag ''Table'') [Leaf (MdText ''a'')],
      Branch (Link ''u'') [Leaf (MdText ''b'')]]]"]
  by (simp add: attr_insert_def elem_def)

text \<open>No text is lost: whatever the events, balanced or not, the text of the nodes is the text of
  the events in their order, with a space for a soft line break.
\<close>

theorem markdown_keeps_text:
  "nodes_text (markdown_to_nodes es) = concat (map event_text es)"
  using md_run_text [of es "([], [])"]
  by (simp add: markdown_to_nodes_def close_all_text state_text_def)

text \<open>What the translation builds, the article service accepts: of balanced events, content is
  refused only if there is none, if it cannot be serialized or if it is too large, never for a
  tag or an attribute.
\<close>

theorem seeded_content_accepted:
  assumes "balanced 0 es"
  shows "validate_and_encode_content ser (markdown_to_nodes es) max_bytes =
    (if markdown_to_nodes es = [] then Inl (InvalidArgument ''content'' ''must be non-empty'')
     else case ser (nodes_to_json (markdown_to_nodes es)) of
            None \<Rightarrow> Inl (Internal ''serialize content as json'')
          | Some bytes \<Rightarrow>
              if length bytes > max_bytes then Inl (ContentTooLarge (length bytes) max_bytes)
              else Inr (nodes_to_json (markdown_to_nodes es)))"
proof -
  obtain ts where ts: "list_all tree_ok ts" "es = concat (map events_of ts)"
    using balanced_forest [OF assms] by blast
  have "validate_node n = Inr ()" if "n \<in> set (markdown_to_nodes es)" for n
    using that nodes_of_valid by (auto simp: ts markdown_forest [OF ts(1)])
  then have "each_ok validate_node (markdown_to_nodes es) = Inr ()"
    by (simp add: each_ok_Inr)
  then show ?thesis
    by (simp add: validate_and_encode_content_def Let_def ok_or_def split: option.split)
qed

definition demo_md_events :: "md_event list" where
  "demo_md_events = [Start (Heading H1), MdText ''Hi'', End,
     Html ''<iframe width=3 SRC=1 src=x />'', Start (Image ''s'' ''t''), MdText ''alt'', End]"

lemma demo_md_nodes:
  "markdown_to_nodes demo_md_events = [Element ''h3'' [] [Text ''Hi''], Element ''iframe'' [(''src'', ''x'')] [],
     Element ''img'' [(''src'', ''s''), (''alt'', ''t'')] [Text ''alt'']]"
  by code_simp

theorem seeded_content_accepted_witness:
  "validate_and_encode_content (\<lambda>_. Some ''ok'') (markdown_to_nodes demo_md_events) 100 =
     Inr (nodes_to_json (markdown_to_nodes demo_md_events))"
  using seeded_content_accepted [of demo_md_events "\<lambda>_. Some ''ok''" 100]
  by (simp add: demo_md_nodes) (simp add: demo_md_events_def)

end
