(* ===== verification/Seed_Runner.thy ===== *)
theory Seed_Runner
  imports Signed_Client Seed_Content
begin

text \<open>
  The seeding command (\<open>headlines-server/src/seed\<close>): the plan (\<open>plan.rs\<close>), the record of what was
  seeded (\<open>state.rs\<close>), the files it reads (\<open>keys.rs\<close>, \<open>articles.rs\<close>) and the steps
  (\<open>runner.rs\<close>), each a loop over calls to the public listener and statements on the database.
  The theory \<open>Seed_Rerun\<close> states what they keep.
\<close>

subsection \<open>The plan\<close>

record account_spec =
  as_short_name :: string
  as_author_name :: string
  as_author_url :: string

definition ACCOUNTS :: "(string \<times> account_spec) list" where
  "ACCOUNTS =
     [(''techblog'', \<lparr>as_short_name = ''techblog'', as_author_name = ''TechBlog Editorial'',
         as_author_url = ''https://example.com/techblog''\<rparr>),
      (''worldnews'', \<lparr>as_short_name = ''worldnews'', as_author_name = ''World News Desk'',
         as_author_url = ''https://example.com/worldnews''\<rparr>),
      (''tutorials'', \<lparr>as_short_name = ''tutorials'', as_author_name = ''Tutorials Team'',
         as_author_url = ''https://example.com/tutorials''\<rparr>),
      (''opinion'', \<lparr>as_short_name = ''opinion'', as_author_name = ''Opinion Page'',
         as_author_url = ''https://example.com/opinion''\<rparr>),
      (''videos'', \<lparr>as_short_name = ''videos'', as_author_name = ''Videos Studio'',
         as_author_url = ''https://example.com/videos''\<rparr>)]"

definition USERS :: "(string \<times> string) list" where
  "USERS = [(''alice'', ''Alice Reader''), (''bob'', ''Bob Reader''), (''carol'', ''Carol Reader''),
     (''dave'', ''Dave Reader''), (''eve'', ''Eve Reader''), (''frank'', ''Frank Reader''), (''grace'', ''Grace Reader'')]"

definition SYSTEMS :: "(string \<times> string list) list" where
  "SYSTEMS =
     [(''demo-ranker'', [''feeds.recommendation.write'', ''feeds.recommendation.read'', ''events.read'', ''articles.stream'']),
      (''demo-admin'', [''accounts.write'', ''accounts.admin'', ''accounts.delete'', ''articles.write'', ''articles.tombstone'',
         ''articles.redact'', ''articles.stream'', ''events.read'', ''events.write'', ''users.admin'',
         ''feeds.recommendation.write'', ''feeds.recommendation.read'', ''admin.*''])]"

definition FOLLOWS :: "(string \<times> string list) list" where
  "FOLLOWS =
     [(''alice'', [''techblog'', ''tutorials'']), (''bob'', [''worldnews'']),
      (''carol'', [''techblog'', ''worldnews'', ''tutorials'', ''opinion'', ''videos'']),
      (''dave'', [''opinion'', ''videos'']), (''eve'', [''techblog'', ''videos'']),
      (''frank'', [''worldnews'', ''opinion'']), (''grace'', [''tutorials''])]"

subsection \<open>The record of a run\<close>

text \<open>A \<open>BTreeMap\<close> is the list of its entries in the order of their keys.\<close>

fun bt_insert :: "string \<Rightarrow> 'v \<Rightarrow> (string \<times> 'v) list \<Rightarrow> (string \<times> 'v) list" where
  "bt_insert k v [] = [(k, v)]"
| "bt_insert k v ((k', v') # m) =
     (if k = k' then (k, v) # m else if k < k' then (k, v) # (k', v') # m else (k', v') # bt_insert k v m)"

lemma map_of_bt_insert [simp]: "map_of (bt_insert k v m) = (map_of m)(k \<mapsto> v)"
  by (induction m) (auto simp: fun_eq_iff)

record id_record =
  ir_id :: string
  ir_key_id :: string

record seed_state =
  st_accounts :: "(string \<times> id_record) list"
  st_users :: "(string \<times> id_record) list"
  st_systems :: "(string \<times> id_record) list"
  st_articles :: "(string \<times> string) list"
  st_drafts :: "(string \<times> string) list"

definition seed_state_default :: seed_state where
  "seed_state_default = \<lparr>st_accounts = [], st_users = [], st_systems = [], st_articles = [], st_drafts = []\<rparr>"

datatype seed_error =
    RpcFailed string tonic_status
  | HeaderPanic
  | NoScopePlan string
  | NoAccountPlan string
  | MissingAccount string
  | BadUuid string
  | SqlFailed string
  | FileFailed string
  | BadKeyLength string nat
  | RankerMissing string

subsection \<open>Files\<close>

text \<open>
  A directory is the list of its entries with their contents, \<open>None\<close> for one that cannot be read.
  \<open>has_ext\<close> is \<open>Path::extension\<close> against a given one: something stands before the dot.
\<close>

type_synonym dir = "(string \<times> string option) list"

definition has_ext :: "string \<Rightarrow> string \<Rightarrow> bool" where
  "has_ext ext name \<longleftrightarrow> suffix (CHR ''.'' # ext) name \<and> name \<noteq> CHR ''.'' # ext"

record loaded_article =
  la_account :: string
  la_filename :: string
  la_article :: parsed_article

definition load_account_articles :: "dir option \<Rightarrow> string \<Rightarrow> seed_error + loaded_article list" where
  "load_account_articles dir account =
     (case dir of
        None \<Rightarrow> Inr []
      | Some files \<Rightarrow>
          map_res (\<lambda>(name, content).
              try_res (ok_or (FileFailed name) content) (\<lambda>raw.
              Inr \<lparr>la_account = account, la_filename = name, la_article = parse_article raw\<rparr>))
            (sort_key fst (filter (\<lambda>e. has_ext ''md'' (fst e)) files)))"

record 'k loaded_key =
  lk_name :: string
  lk_signing_key :: 'k
  lk_public_b64 :: string

definition load_pair ::
  "text_ext \<Rightarrow> (u8 list \<Rightarrow> 'k) \<Rightarrow> (string \<Rightarrow> string option) \<Rightarrow> string \<Rightarrow> seed_error + 'k loaded_key" where
  "load_pair x from_bytes read name =
     (let priv_path = name @ ''.private''; pub_path = name @ ''.public''
      in try_res (ok_or (FileFailed priv_path) (read priv_path)) (\<lambda>priv_raw.
         try_res (ok_or (FileFailed priv_path) (b64_decode x (trim priv_raw))) (\<lambda>priv_bytes.
         if length priv_bytes \<noteq> 32 then Inl (BadKeyLength priv_path (length priv_bytes))
         else try_res (ok_or (FileFailed pub_path) (read pub_path)) (\<lambda>pub_raw.
         Inr \<lparr>lk_name = name, lk_signing_key = from_bytes priv_bytes, lk_public_b64 = trim pub_raw\<rparr>))))"

definition load_kind ::
  "text_ext \<Rightarrow> (u8 list \<Rightarrow> 'k) \<Rightarrow> dir option \<Rightarrow> seed_error + 'k loaded_key list" where
  "load_kind x from_bytes dir =
     (case dir of
        None \<Rightarrow> Inl (FileFailed ''keys'')
      | Some files \<Rightarrow>
          let names = sort (map (\<lambda>e. take (length (fst e) - length ''.private'') (fst e))
                 (filter (\<lambda>e. has_ext ''private'' (fst e)) files))
          in map_res (load_pair x from_bytes (\<lambda>f. Option.bind (map_of files f) (\<lambda>c. c))) names)"

subsection \<open>Calling the server\<close>

text \<open>
  The generator of random numbers: a number in a range, a choice, a shuffle, each with the next
  state.
\<close>

record 'g rng_ext =
  rg_range :: "int \<Rightarrow> int \<Rightarrow> 'g \<Rightarrow> int \<times> 'g"
  rg_choose :: "string list \<Rightarrow> 'g \<Rightarrow> string option \<times> 'g"
  rg_shuffle :: "string list \<Rightarrow> 'g \<Rightarrow> string list \<times> 'g"
  rg_seed :: "u64 \<Rightarrow> 'g"

text \<open>
  What the command is run with: the server and what it draws at each of its calls, counted by a
  tick; the client; the files; the crates. \<open>se_utc\<close> is the client's clock in seconds and
  nanoseconds, at a tick and for an event of the batch; \<open>se_sys_ids\<close> the ids it draws for a system
  and its key.
\<close>

record ('c, 'k, 'g) seed_ext =
  se_server :: "'c public_server"
  se_draws :: "nat \<Rightarrow> draws"
  se_validate :: "nat \<Rightarrow> tso \<Rightarrow> time_error + unit"
  se_client :: "'k client_ext"
  se_encode :: "grpc_msg \<Rightarrow> u8 list"
  se_now_ms :: "nat \<Rightarrow> u64"
  se_nonce :: "nat \<Rightarrow> u8 list"
  se_utc :: "nat \<Rightarrow> nat \<Rightarrow> int \<times> int"
  se_sys_ids :: "nat \<Rightarrow> uuid \<times> uuid"
  se_dir :: "string \<Rightarrow> string \<Rightarrow> dir option"
  se_from_bytes :: "u8 list \<Rightarrow> 'k"
  se_markdown :: "string \<Rightarrow> md_event list"
  se_rfc3339 :: "string \<Rightarrow> timestamp option"
  se_rng :: "'g rng_ext"

record system_row =
  sy_id :: uuid
  sy_name :: string
  sy_status :: string

text \<open>
  The state of a run: the record in memory and in its file, the server, the table of systems. The
  file \<open>seed-state.json\<close> may be missing, hold a text that is not a record (\<open>Inl\<close>) or hold a record.
\<close>

record 'c seed_run =
  sr_state :: seed_state
  sr_file :: "(string + seed_state) option"
  sr_server :: "'c server_state"
  sr_systems :: "system_row list"
  sr_tick :: nat

abbreviation sr_db :: "'c seed_run \<Rightarrow> db" where
  "sr_db run \<equiv> ss_db (sr_server run)"

definition set_db :: "db \<Rightarrow> 'c seed_run \<Rightarrow> 'c seed_run" where
  "set_db d run = run\<lparr>sr_server := (sr_server run)\<lparr>ss_db := d\<rparr>\<rparr>"

abbreviation se_api :: "('c, 'k, 'g) seed_ext \<Rightarrow> api_ext" where
  "se_api e \<equiv> pv_api (se_server e)"

abbreviation se_svc :: "('c, 'k, 'g) seed_ext \<Rightarrow> svc_ext" where
  "se_svc e \<equiv> ax_svc (se_api e)"

abbreviation se_text :: "('c, 'k, 'g) seed_ext \<Rightarrow> text_ext" where
  "se_text e \<equiv> pv_text (se_server e)"

definition send ::
  "('c, 'k, 'g) seed_ext \<Rightarrow> request \<Rightarrow> (draws \<Rightarrow> subject \<Rightarrow> db \<Rightarrow> 'r rpc \<times> db) \<Rightarrow> 'c seed_run \<Rightarrow>
   (tonic_status + 'r) \<times> 'c seed_run" where
  "send e req handler run =
     (let n = sr_tick run;
          (r, srv) = public_call (se_server e) (se_validate e n) req (handler (se_draws e n)) (sr_server run)
      in (r, run\<lparr>sr_server := srv, sr_tick := Suc n\<rparr>))"

definition anonymous_rpc ::
  "('c, 'k, 'g) seed_ext \<Rightarrow> string \<Rightarrow> grpc_msg \<Rightarrow> (draws \<Rightarrow> subject \<Rightarrow> db \<Rightarrow> 'r rpc \<times> db) \<Rightarrow> 'c seed_run \<Rightarrow>
   (seed_error + 'r) \<times> 'c seed_run" where
  "anonymous_rpc e ctx msg handler run =
     (let (r, run1) = send e (wire_request (rpc_path msg) [] (se_encode e msg)) handler run
      in (map_err (RpcFailed ctx) r, run1))"

definition signed_rpc ::
  "('c, 'k, 'g) seed_ext \<Rightarrow> string \<Rightarrow> grpc_msg \<Rightarrow> 'k \<Rightarrow> uuid \<Rightarrow> string \<Rightarrow> (draws \<Rightarrow> subject \<Rightarrow> db \<Rightarrow> 'r rpc \<times> db) \<Rightarrow>
   'c seed_run \<Rightarrow> (seed_error + 'r) \<times> 'c seed_run" where
  "signed_rpc e ctx msg sk kid full_method handler run =
     (let n = sr_tick run
      in try_st (ok_or HeaderPanic (signed_request (se_text e) (sha256 (pv_http (se_server e))) (se_client e) (se_now_ms e n)
             (se_nonce e n) (se_encode e msg) sk kid full_method)) run (\<lambda>req.
         let (r, run1) = send e req handler run
         in (map_err (RpcFailed ctx) r, run1)))"

definition parse_id :: "('c, 'k, 'g) seed_ext \<Rightarrow> string \<Rightarrow> seed_error + uuid" where
  "parse_id e s = ok_or (BadUuid s) (uuid_parse (se_text e) s)"

text \<open>A loop with \<open>?\<close> in its body.\<close>

fun seed_each :: "('a \<Rightarrow> 's \<Rightarrow> ('e + unit) \<times> 's) \<Rightarrow> 'a list \<Rightarrow> 's \<Rightarrow> ('e + unit) \<times> 's" where
  "seed_each f [] s = (Inr (), s)"
| "seed_each f (x # xs) s = (let (r, s') = f x s in try_st r s' (\<lambda>_. seed_each f xs s'))"

subsection \<open>Systems, by SQL\<close>

definition insert_system :: "system_row \<Rightarrow> 'c seed_run \<Rightarrow> (seed_error + unit) \<times> 'c seed_run" where
  "insert_system row run =
     try_st (insert_checked (sy_name row \<notin> sy_name ` set (sr_systems run)) sy_id (SqlFailed ''systems'') row (sr_systems run)) run
       (\<lambda>t. (Inr (), run\<lparr>sr_systems := t\<rparr>))"

definition insert_system_key :: "key_row \<Rightarrow> 'c seed_run \<Rightarrow> (seed_error + unit) \<times> 'c seed_run" where
  "insert_system_key row run =
     try_st (insert_checked (kr_parent_id row \<in> sy_id ` set (sr_systems run)) kr_key (SqlFailed ''system_keys'') row
         (system_keys (sr_db run))) run
       (\<lambda>t. (Inr (), set_db ((sr_db run)\<lparr>system_keys := t\<rparr>) run))"

definition insert_system_scope :: "uuid \<Rightarrow> string \<Rightarrow> 'c seed_run \<Rightarrow> (seed_error + unit) \<times> 'c seed_run" where
  "insert_system_scope sid scope run =
     try_st (insert_checked (sid \<in> sy_id ` set (sr_systems run)) (\<lambda>r. (sc_system_id r, sc_scope r)) (SqlFailed ''system_scopes'')
         \<lparr>sc_system_id = sid, sc_scope = scope\<rparr> (system_scopes (sr_db run))) run
       (\<lambda>t. (Inr (), set_db ((sr_db run)\<lparr>system_scopes := t\<rparr>) run))"

definition record_system :: "string \<Rightarrow> string \<Rightarrow> string \<Rightarrow> 'c seed_run \<Rightarrow> 'c seed_run" where
  "record_system name sid kid run = run\<lparr>sr_state := (sr_state run)\<lparr>st_systems :=
     bt_insert name \<lparr>ir_id = sid, ir_key_id = kid\<rparr> (st_systems (sr_state run))\<rparr>\<rparr>"

definition seed_system :: "('c, 'k, 'g) seed_ext \<Rightarrow> 'k loaded_key \<Rightarrow> 'c seed_run \<Rightarrow> (seed_error + unit) \<times> 'c seed_run" where
  "seed_system e key run =
     (let name = lk_name key
      in if map_of (st_systems (sr_state run)) name \<noteq> None then (Inr (), run)
         else try_st (ok_or (NoScopePlan name) (map_of SYSTEMS name)) run (\<lambda>scopes.
           let (system_id, kid) = se_sys_ids e (sr_tick run); run = run\<lparr>sr_tick := Suc (sr_tick run)\<rparr>
           in case find (\<lambda>r. sy_name r = name) (sr_systems run) of
                Some existing \<Rightarrow>
                  let kid = (case find (\<lambda>k. kr_parent_id k = sy_id existing) (system_keys (sr_db run)) of
                               Some k \<Rightarrow> uuid_show (se_text e) (kr_key_id k) | None \<Rightarrow> [])
                  in (Inr (), record_system name (uuid_show (se_text e) (sy_id existing)) kid run)
              | None \<Rightarrow>
                  let (r1, run1) = insert_system \<lparr>sy_id = system_id, sy_name = name, sy_status = ''active''\<rparr> run
                  in try_st r1 run1 (\<lambda>_.
                  let (r2, run2) = insert_system_key \<lparr>kr_parent_id = system_id, kr_key_id = kid, kr_algo = ''ed25519'',
                        kr_public_key = lk_public_b64 key, kr_status = ''active'',
                        kr_created_at = dw_now (se_draws e (sr_tick run1)), kr_revoked_at = None\<rparr> run1
                  in try_st r2 run2 (\<lambda>_.
                  let (r3, run3) = seed_each (insert_system_scope system_id) scopes run2
                  in try_st r3 run3 (\<lambda>_.
                  (Inr (), record_system name (uuid_show (se_text e) system_id) (uuid_show (se_text e) kid) run3))))))"

subsection \<open>Accounts and users\<close>

definition seed_account :: "('c, 'k, 'g) seed_ext \<Rightarrow> 'k loaded_key \<Rightarrow> 'c seed_run \<Rightarrow> (seed_error + unit) \<times> 'c seed_run" where
  "seed_account e key run =
     (let name = lk_name key
      in if map_of (st_accounts (sr_state run)) name \<noteq> None then (Inr (), run)
         else try_st (ok_or (NoAccountPlan name) (map_of ACCOUNTS name)) run (\<lambda>spec.
           let req = \<lparr>car_short_name = as_short_name spec, car_author_name = as_author_name spec,
                 car_author_url = as_author_url spec,
                 car_initial_key = Some \<lparr>pkm_algo = ''ed25519'', pkm_public_key = lk_public_b64 key\<rparr>\<rparr>;
               (r, run1) = anonymous_rpc e (''CreateAccount('' @ name @ '')'') (CreateAccountMsg req)
                 (\<lambda>dw subj d. dom_rpc (create_account (se_svc e) (ax_algos (se_api e)) (ax_account_mode (se_api e))
                    (dw_now dw) (dw_id dw) (dw_key_id dw) subj req d)) run
           in try_st r run1 (\<lambda>(acct, kid).
              (Inr (), run1\<lparr>sr_state := (sr_state run1)\<lparr>st_accounts :=
                 bt_insert name \<lparr>ir_id = am_id acct, ir_key_id = kid\<rparr> (st_accounts (sr_state run1))\<rparr>\<rparr>))))"

definition seed_user :: "('c, 'k, 'g) seed_ext \<Rightarrow> 'k loaded_key \<Rightarrow> 'c seed_run \<Rightarrow> (seed_error + unit) \<times> 'c seed_run" where
  "seed_user e key run =
     (let name = lk_name key
      in if map_of (st_users (sr_state run)) name \<noteq> None then (Inr (), run)
         else
           let display = unwrap_or name (map_of USERS name);
               initial_key = Some \<lparr>pkm_algo = ''ed25519'', pkm_public_key = lk_public_b64 key\<rparr>;
               (r, run1) = anonymous_rpc e (''CreateUser('' @ name @ '')'') (CreateUserMsg display initial_key)
                 (\<lambda>dw subj d. dom_rpc (create_user (se_svc e) (ax_algos (se_api e)) (ax_user_mode (se_api e))
                    (dw_now dw) (dw_id dw) (dw_key_id dw) subj display initial_key d)) run
           in try_st r run1 (\<lambda>(u, kid).
              (Inr (), run1\<lparr>sr_state := (sr_state run1)\<lparr>st_users :=
                 bt_insert name \<lparr>ir_id = um_id u, ir_key_id = kid\<rparr> (st_users (sr_state run1))\<rparr>\<rparr>)))"

subsection \<open>Articles and drafts\<close>

definition article_request :: "('c, 'k, 'g) seed_ext \<Rightarrow> uuid \<Rightarrow> loaded_article \<Rightarrow> publish_article_req" where
  "article_request e account la =
     (let fm = pa_frontmatter (la_article la)
      in \<lparr>par_account_id = uuid_show (se_text e) account, par_title = fm_title fm,
          par_author_name = unwrap_or ''Demo Author'' (fm_author_name fm),
          par_author_url = unwrap_or ''https://example.com'' (fm_author_url fm),
          par_content = markdown_to_nodes (se_markdown e (pa_body (la_article la)))\<rparr>)"

text \<open>The two updates that go to the database directly.\<close>

definition override_created_at :: "uuid \<Rightarrow> timestamp \<Rightarrow> 'c seed_run \<Rightarrow> 'c seed_run" where
  "override_created_at article_id t run =
     set_db ((sr_db run)\<lparr>articles := update_row ar_id article_id (\<lambda>r. r\<lparr>ar_created_at := t\<rparr>) (articles (sr_db run))\<rparr>) run"

definition redact_first_version :: "uuid \<Rightarrow> timestamp \<Rightarrow> string \<Rightarrow> 'c seed_run \<Rightarrow> 'c seed_run" where
  "redact_first_version article_id now rsn run =
     set_db ((sr_db run)\<lparr>article_versions := update_row av_key (article_id, 1)
       (\<lambda>r. r\<lparr>av_content := None, av_redacted_at := Some now, av_redaction_reason := Some rsn\<rparr>)
       (article_versions (sr_db run))\<rparr>) run"

definition apply_article_state ::
  "('c, 'k, 'g) seed_ext \<Rightarrow> uuid \<Rightarrow> 'k \<Rightarrow> frontmatter \<Rightarrow> string \<Rightarrow> uuid \<Rightarrow> string \<Rightarrow> 'c seed_run \<Rightarrow> (seed_error + unit) \<times> 'c seed_run" where
  "apply_article_state e kid sk fm raw_id article_id map_key run =
     (if fm_state fm = Some ''tombstone'' then
        let rsn = unwrap_or ''demo tombstone'' (fm_tombstone_reason fm);
            (r, run1) = signed_rpc e (''TombstoneArticle('' @ map_key @ '')'') (TombstoneArticleMsg raw_id rsn) sk kid
              ''/headlines.v1.ArticleService/TombstoneArticle''
              (\<lambda>dw subj. tombstone_article (se_svc e) (dw_now dw) subj raw_id rsn) run
        in try_st r run1 (\<lambda>_. (Inr (), run1))
      else if fm_state fm = Some ''redacted-current'' then
        (Inr (), redact_first_version article_id (dw_now (se_draws e (sr_tick run)))
           (unwrap_or ''demo redaction'' (fm_redaction_reason fm)) run)
      else (Inr (), run))"

definition publish_one ::
  "('c, 'k, 'g) seed_ext \<Rightarrow> uuid \<Rightarrow> uuid \<Rightarrow> 'k \<Rightarrow> loaded_article \<Rightarrow> string \<Rightarrow> 'c seed_run \<Rightarrow> (seed_error + unit) \<times> 'c seed_run" where
  "publish_one e account kid sk la map_key run =
     (let fm = pa_frontmatter (la_article la); req = article_request e account la;
          (r, run1) = signed_rpc e (''PublishArticle('' @ map_key @ '')'') (PublishArticleMsg req) sk kid
            ''/headlines.v1.ArticleService/PublishArticle''
            (\<lambda>dw subj. publish_article (se_svc e) (ax_ser (se_api e)) (ax_content_max (se_api e)) (dw_now dw) (dw_id dw) subj req) run
      in try_st r run1 (\<lambda>resp.
         try_st (parse_id e (arm_id resp)) run1 (\<lambda>article_id.
         let run2 = run1\<lparr>sr_state := (sr_state run1)\<lparr>st_articles :=
               bt_insert map_key (arm_id resp) (st_articles (sr_state run1))\<rparr>\<rparr>;
             run3 = (case Option.bind (fm_created_at fm) (se_rfc3339 e) of
                       None \<Rightarrow> run2 | Some t \<Rightarrow> override_created_at article_id t run2)
         in apply_article_state e kid sk fm (arm_id resp) article_id map_key run3)))"

definition map_key_of :: "'k loaded_key \<Rightarrow> loaded_article \<Rightarrow> string" where
  "map_key_of key la = lk_name key @ ''/'' @ la_filename la"

definition seed_article ::
  "('c, 'k, 'g) seed_ext \<Rightarrow> uuid \<Rightarrow> uuid \<Rightarrow> 'k loaded_key \<Rightarrow> loaded_article \<Rightarrow> 'c seed_run \<Rightarrow> (seed_error + unit) \<times> 'c seed_run" where
  "seed_article e account kid key la run =
     (let map_key = map_key_of key la
      in if map_of (st_articles (sr_state run)) map_key \<noteq> None then (Inr (), run)
         else publish_one e account kid (lk_signing_key key) la map_key run)"

definition seed_account_articles ::
  "('c, 'k, 'g) seed_ext \<Rightarrow> 'k loaded_key \<Rightarrow> 'c seed_run \<Rightarrow> (seed_error + unit) \<times> 'c seed_run" where
  "seed_account_articles e key run =
     try_st (load_account_articles (se_dir e ''articles'' (lk_name key)) (lk_name key)) run (\<lambda>las.
     try_st (ok_or (MissingAccount (lk_name key)) (map_of (st_accounts (sr_state run)) (lk_name key))) run (\<lambda>rec.
     try_st (parse_id e (ir_id rec)) run (\<lambda>account.
     try_st (parse_id e (ir_key_id rec)) run (\<lambda>kid.
     seed_each (seed_article e account kid key) las run))))"

definition seed_draft ::
  "('c, 'k, 'g) seed_ext \<Rightarrow> uuid \<Rightarrow> uuid \<Rightarrow> 'k loaded_key \<Rightarrow> loaded_article \<Rightarrow> 'c seed_run \<Rightarrow> (seed_error + unit) \<times> 'c seed_run" where
  "seed_draft e account kid key la run =
     (let map_key = map_key_of key la
      in if map_of (st_drafts (sr_state run)) map_key \<noteq> None then (Inr (), run)
         else
           let req = article_request e account la;
               (r, run1) = signed_rpc e (''CreateDraft('' @ map_key @ '')'') (CreateDraftMsg req) (lk_signing_key key) kid
                 ''/headlines.v1.DraftService/CreateDraft''
                 (\<lambda>dw subj. create_draft (se_svc e) (ax_ser (se_api e)) (ax_content_max (se_api e)) (dw_now dw) (dw_id dw) subj req) run
           in try_st r run1 (\<lambda>resp.
              (Inr (), run1\<lparr>sr_state := (sr_state run1)\<lparr>st_drafts :=
                 bt_insert map_key (dm_id resp) (st_drafts (sr_state run1))\<rparr>\<rparr>)))"

definition seed_account_drafts ::
  "('c, 'k, 'g) seed_ext \<Rightarrow> 'k loaded_key \<Rightarrow> 'c seed_run \<Rightarrow> (seed_error + unit) \<times> 'c seed_run" where
  "seed_account_drafts e key run =
     try_st (load_account_articles (se_dir e ''drafts'' (lk_name key)) (lk_name key)) run (\<lambda>las.
     case map_of (st_accounts (sr_state run)) (lk_name key) of
       None \<Rightarrow> (Inr (), run)
     | Some rec \<Rightarrow>
         try_st (parse_id e (ir_id rec)) run (\<lambda>account.
         try_st (parse_id e (ir_key_id rec)) run (\<lambda>kid.
         seed_each (seed_draft e account kid key) las run)))"

subsection \<open>Follows\<close>

definition seed_follow ::
  "('c, 'k, 'g) seed_ext \<Rightarrow> string \<Rightarrow> uuid \<Rightarrow> uuid \<Rightarrow> 'k loaded_key \<Rightarrow> string \<Rightarrow> 'c seed_run \<Rightarrow> (seed_error + unit) \<times> 'c seed_run" where
  "seed_follow e user_name user kid key acct run =
     (case map_of (st_accounts (sr_state run)) acct of
        None \<Rightarrow> (Inr (), run)
      | Some rec \<Rightarrow>
          let raw_user = uuid_show (se_text e) user;
              (r, run1) = signed_rpc e (''Follow('' @ user_name @ '' '' @ acct @ '')'') (FollowMsg raw_user (ir_id rec))
                (lk_signing_key key) kid ''/headlines.v1.FollowService/Follow''
                (\<lambda>dw subj d. dom_rpc (follow_rpc (se_svc e) (dw_now dw) subj raw_user (ir_id rec) d)) run
          in case r of
               Inr _ \<Rightarrow> (Inr (), run1)
             | Inl (RpcFailed ctx s) \<Rightarrow> if ts_code s = TAlreadyExists then (Inr (), run1) else (Inl (RpcFailed ctx s), run1)
             | Inl err \<Rightarrow> (Inl err, run1))"

definition find_key :: "string \<Rightarrow> 'k loaded_key list \<Rightarrow> 'k loaded_key option" where
  "find_key name keys = map_of (map (\<lambda>k. (lk_name k, k)) (rev keys)) name"

definition seed_user_follows ::
  "('c, 'k, 'g) seed_ext \<Rightarrow> 'k loaded_key list \<Rightarrow> string \<times> string list \<Rightarrow> 'c seed_run \<Rightarrow> (seed_error + unit) \<times> 'c seed_run" where
  "seed_user_follows e keys entry run =
     (let (user_name, accts) = entry
      in case find_key user_name keys of None \<Rightarrow> (Inr (), run)
       | Some key \<Rightarrow>
         (case map_of (st_users (sr_state run)) user_name of None \<Rightarrow> (Inr (), run)
          | Some rec \<Rightarrow>
            (case uuid_parse (se_text e) (ir_id rec) of None \<Rightarrow> (Inr (), run)
             | Some user \<Rightarrow>
               (case uuid_parse (se_text e) (ir_key_id rec) of None \<Rightarrow> (Inr (), run)
                | Some kid \<Rightarrow> seed_each (seed_follow e user_name user kid key) accts run))))"

subsection \<open>Recommendation feeds\<close>

definition seed_user_feed ::
  "('c, 'k, 'g) seed_ext \<Rightarrow> 'k loaded_key \<Rightarrow> uuid \<Rightarrow> string list \<Rightarrow> string \<times> id_record \<Rightarrow> 'g \<times> 'c seed_run \<Rightarrow>
   (seed_error + unit) \<times> 'g \<times> 'c seed_run" where
  "seed_user_feed e ranker kid all_articles entry gr =
     (let (g, run) = gr; (pool, g1) = rg_shuffle (se_rng e) all_articles g;
          pick = take 15 pool; raw_user = ir_id (snd entry);
          (r, run1) = signed_rpc e ''ReplaceRecommendationFeed'' (ReplaceRecommendationFeedMsg raw_user pick)
            (lk_signing_key ranker) kid ''/headlines.v1.FeedRecommendationService/ReplaceRecommendationFeed''
            (\<lambda>dw subj. replace_recommendation_feed (se_svc e) (ax_feed_max (se_api e)) subj raw_user pick) run
      in try_st r (g1, run1) (\<lambda>_. (Inr (), (g1, run1))))"

definition seed_recommendation_feeds ::
  "('c, 'k, 'g) seed_ext \<Rightarrow> 'k loaded_key list \<Rightarrow> u64 \<Rightarrow> 'c seed_run \<Rightarrow> (seed_error + unit) \<times> 'c seed_run" where
  "seed_recommendation_feeds e system_ks rng_seed run =
     try_st (ok_or (RankerMissing ''key'') (find (\<lambda>k. lk_name k = ''demo-ranker'') system_ks)) run (\<lambda>ranker.
     try_st (ok_or (RankerMissing ''system'') (map_of (st_systems (sr_state run)) ''demo-ranker'')) run (\<lambda>rec.
     try_st (parse_id e (ir_key_id rec)) run (\<lambda>kid.
     let all_articles = map snd (st_articles (sr_state run))
     in if all_articles = [] then (Inr (), run)
        else let (r, g, run1) = seed_each (seed_user_feed e ranker kid all_articles) (st_users (sr_state run))
               (rg_seed (se_rng e) rng_seed, run)
             in (r, run1))))"

subsection \<open>Events\<close>

definition pick_surface :: "'g rng_ext \<Rightarrow> 'g \<Rightarrow> string \<times> 'g" where
  "pick_surface rx g =
     (let (r, g1) = rg_range rx 0 100 g
      in (if r < 60 then ''web'' else if r < 90 then ''mobile'' else ''tablet'', g1))"

definition lognormal_dwell :: "'g rng_ext \<Rightarrow> 'g \<Rightarrow> int \<times> 'g" where
  "lognormal_dwell rx g =
     (let (base, g1) = rg_range rx 500 5000 g; (n, g2) = rg_range rx 0 10 g1; amplifier = (if n = 0 then 10 else 1)
      in (base * amplifier, g2))"

definition now_minus_jitter :: "'g rng_ext \<Rightarrow> int \<times> int \<Rightarrow> 'g \<Rightarrow> (int \<times> int) \<times> 'g" where
  "now_minus_jitter rx now g =
     (let (jitter_minutes, g1) = rg_range rx 0 (6 * 60) g
      in ((fst now - jitter_minutes * 60, snd now), g1))"

text \<open>The kind of an event by its draw: half impressions, then opens, dwells and likes.\<close>

definition pick_properties :: "'g rng_ext \<Rightarrow> 'g \<Rightarrow> (int \<times> event_properties) \<times> 'g" where
  "pick_properties rx g =
     (let (pick, g1) = rg_range rx 0 100 g
      in if pick < 50 then let (pos, g2) = rg_range rx 0 20 g1 in ((1, Impression ''follow'' pos), g2)
         else if pick < 75 then let (pos, g2) = rg_range rx 0 20 g1 in ((2, OpenProps ''recommendation'' pos), g2)
         else if pick < 90 then let (ms, g2) = lognormal_dwell rx g1 in ((3, Dwell ms), g2)
         else ((4, Like), g1))"

definition gen_event ::
  "('c, 'k, 'g) seed_ext \<Rightarrow> int \<times> int \<Rightarrow> string \<Rightarrow> string list \<Rightarrow> 'g \<Rightarrow> event_req \<times> 'g" where
  "gen_event e now raw_user arts g =
     (let (art, g1) = rg_choose (se_rng e) arts g;
          ((etype, props), g2) = pick_properties (se_rng e) g1;
          (occurred_at, g3) = now_minus_jitter (se_rng e) now g2;
          (surface, g4) = pick_surface (se_rng e) g3
      in (\<lparr>eq_user_id = raw_user, eq_article_id = unwrap_or (uuid_show (se_text e) 0) art, eq_type = etype,
           eq_occurred_at = Some occurred_at, eq_surface = surface, eq_properties = Some props\<rparr>, g4))"

text \<open>The events of a batch, one for each reading of the client's clock.\<close>

fun gen_events ::
  "('c, 'k, 'g) seed_ext \<Rightarrow> (int \<times> int) list \<Rightarrow> string \<Rightarrow> string list \<Rightarrow> 'g \<Rightarrow> event_req list \<times> 'g" where
  "gen_events e [] raw_user arts g = ([], g)"
| "gen_events e (now # nows) raw_user arts g =
     (let (req, g1) = gen_event e now raw_user arts g; (reqs, g2) = gen_events e nows raw_user arts g1
      in (req # reqs, g2))"

text \<open>\<open>stored_count as usize\<close>, of an \<open>i32\<close>.\<close>

definition i32_as_usize :: "int \<Rightarrow> nat" where
  "i32_as_usize n = (let v = wrap_i32 n in if v < 0 then nat (v + 2 ^ 64) else nat v)"

lemma i32_as_usize_0: "i32_as_usize n = 0 \<longleftrightarrow> wrap_i32 n = 0"
  using wrap_i32_range [of n] by (auto simp: i32_as_usize_def Let_def)

text \<open>The batches of one user, until as many are stored as wanted or a batch stores none.\<close>

function user_events_loop ::
  "('c, 'k, 'g) seed_ext \<Rightarrow> 'k loaded_key \<Rightarrow> uuid \<Rightarrow> string \<Rightarrow> string list \<Rightarrow> nat \<Rightarrow> nat \<Rightarrow> 'g \<times> 'c seed_run \<Rightarrow>
   (seed_error + unit) \<times> 'g \<times> 'c seed_run" where
  "user_events_loop e key kid raw_user arts target emitted gr =
     (if emitted < target then
        (let (g, run) = gr; batch_size = min (target - emitted) 100;
             (reqs, g1) = gen_events e (map (se_utc e (sr_tick run)) [0..<batch_size]) raw_user arts g;
             (r, run1) = signed_rpc e ''RecordEventBatch'' (RecordEventBatchMsg reqs) (lk_signing_key key) kid
               ''/headlines.v1.EventService/RecordEventBatch''
               (\<lambda>dw subj. record_event_batch (ax_events (se_api e)) (ax_batch_max (se_api e)) (dw_tso dw) (dw_now dw)
                  (map (dw_event_ids dw) [0..<length reqs]) subj reqs) run
         in case r of
              Inl err \<Rightarrow> (Inl err, (g1, run1))
            | Inr (recorded, stored_count) \<Rightarrow>
                if i32_as_usize stored_count = 0 then (Inr (), (g1, run1))
                else user_events_loop e key kid raw_user arts target (emitted + i32_as_usize stored_count) (g1, run1))
      else (Inr (), gr))"
  by pat_completeness auto
termination
  by (relation "measure (\<lambda>(e, key, kid, raw_user, arts, target, emitted, gr). target - emitted)") auto

declare user_events_loop.simps [simp del]

definition seed_user_events ::
  "('c, 'k, 'g) seed_ext \<Rightarrow> 'k loaded_key list \<Rightarrow> string list \<Rightarrow> nat \<Rightarrow> string \<times> id_record \<Rightarrow> 'g \<times> 'c seed_run \<Rightarrow>
   (seed_error + unit) \<times> 'g \<times> 'c seed_run" where
  "seed_user_events e keys arts target entry gr =
     (let (user_name, rec) = entry
      in case find_key user_name keys of
           None \<Rightarrow> (Inr (), gr)
         | Some key \<Rightarrow>
             try_st (parse_id e (ir_key_id rec)) gr (\<lambda>kid. user_events_loop e key kid (ir_id rec) arts target 0 gr))"

definition seed_events ::
  "('c, 'k, 'g) seed_ext \<Rightarrow> 'k loaded_key list \<Rightarrow> u64 \<Rightarrow> 'c seed_run \<Rightarrow> (seed_error + unit) \<times> 'c seed_run" where
  "seed_events e keys rng_seed run =
     (let arts = map snd (st_articles (sr_state run)); us = st_users (sr_state run)
      in if arts = [] then (Inr (), run)
         else let (r, g, run1) = seed_each (seed_user_events e keys arts (3000 div max (length us) 1)) us
                (rg_seed (se_rng e) (rng_seed + 1), run)
              in (r, run1))"

subsection \<open>Reset\<close>

text \<open>
  A \<open>DELETE\<close> of all rows fails if a row of another table refers to one of them.
\<close>

definition delete_all ::
  "string \<Rightarrow> ('c seed_run \<Rightarrow> bool) \<Rightarrow> (db \<Rightarrow> db) \<Rightarrow> ('c seed_run \<Rightarrow> 'c seed_run) \<Rightarrow> 'c seed_run \<Rightarrow> (seed_error + unit) \<times> 'c seed_run" where
  "delete_all table referenced f h run =
     (if referenced run then (Inl (SqlFailed table), run) else (Inr (), h (set_db (f (sr_db run)) run)))"

definition no_ref :: "'c seed_run \<Rightarrow> bool" where
  "no_ref run = False"

definition refers :: "('r \<Rightarrow> uuid) \<Rightarrow> 'r list \<Rightarrow> uuid list \<Rightarrow> bool" where
  "refers fk rows ids = list_ex (\<lambda>r. fk r \<in> set ids) rows"

definition articles_referenced :: "'c seed_run \<Rightarrow> bool" where
  "articles_referenced run =
     (let d = sr_db run; ids = map ar_id (articles d)
      in refers av_article_id (article_versions d) ids \<or> refers al_article_id (articles_live d) ids \<or>
         refers at_article_id (articles_tombstone d) ids)"

definition accounts_referenced :: "'c seed_run \<Rightarrow> bool" where
  "accounts_referenced run =
     (let d = sr_db run; ids = map ac_id (accounts d)
      in refers kr_parent_id (account_keys d) ids \<or> refers ar_account_id (articles d) ids \<or>
         refers dr_account_id (drafts d) ids \<or> refers fo_account_id (follows d) ids)"

definition users_referenced :: "'c seed_run \<Rightarrow> bool" where
  "users_referenced run =
     (let d = sr_db run; ids = map us_id (users d)
      in refers kr_parent_id (user_keys d) ids \<or> refers fo_user_id (follows d) ids \<or>
         refers fr_user_id (feed_recommendation d) ids)"

definition systems_referenced :: "'c seed_run \<Rightarrow> bool" where
  "systems_referenced run =
     (let d = sr_db run; ids = map sy_id (sr_systems run)
      in refers kr_parent_id (system_keys d) ids \<or> refers sc_system_id (system_scopes d) ids)"

definition clear_statements :: "('c seed_run \<Rightarrow> (seed_error + unit) \<times> 'c seed_run) list" where
  "clear_statements =
     [delete_all ''events'' no_ref (\<lambda>d. d\<lparr>events := []\<rparr>) id,
      delete_all ''feed_recommendation'' no_ref (\<lambda>d. d\<lparr>feed_recommendation := []\<rparr>) id,
      delete_all ''follows'' no_ref (\<lambda>d. d\<lparr>follows := []\<rparr>) id,
      delete_all ''article_versions'' no_ref (\<lambda>d. d\<lparr>article_versions := []\<rparr>) id,
      delete_all ''articles_live'' no_ref (\<lambda>d. d\<lparr>articles_live := []\<rparr>) id,
      delete_all ''articles_tombstone'' no_ref (\<lambda>d. d\<lparr>articles_tombstone := []\<rparr>) id,
      delete_all ''articles'' articles_referenced (\<lambda>d. d\<lparr>articles := []\<rparr>) id,
      delete_all ''drafts'' no_ref (\<lambda>d. d\<lparr>drafts := []\<rparr>) id,
      delete_all ''account_keys'' no_ref (\<lambda>d. d\<lparr>account_keys := []\<rparr>) id,
      delete_all ''accounts'' accounts_referenced (\<lambda>d. d\<lparr>accounts := []\<rparr>) id,
      delete_all ''user_keys'' no_ref (\<lambda>d. d\<lparr>user_keys := []\<rparr>) id,
      delete_all ''users'' users_referenced (\<lambda>d. d\<lparr>users := []\<rparr>) id,
      delete_all ''system_keys'' no_ref (\<lambda>d. d\<lparr>system_keys := []\<rparr>) id,
      delete_all ''system_scopes'' no_ref (\<lambda>d. d\<lparr>system_scopes := []\<rparr>) id,
      delete_all ''systems'' systems_referenced id (\<lambda>run. run\<lparr>sr_systems := []\<rparr>)]"

definition clear_demo_data :: "'c seed_run \<Rightarrow> (seed_error + unit) \<times> 'c seed_run" where
  "clear_demo_data run = seed_each (\<lambda>stmt run. stmt run) clear_statements run"

subsection \<open>The whole run\<close>

definition load_state :: "'c seed_run \<Rightarrow> (seed_error + unit) \<times> 'c seed_run" where
  "load_state run =
     (case sr_file run of
        None \<Rightarrow> (Inr (), run\<lparr>sr_state := seed_state_default\<rparr>)
      | Some (Inl _) \<Rightarrow> (Inl (FileFailed ''seed-state.json''), run)
      | Some (Inr s) \<Rightarrow> (Inr (), run\<lparr>sr_state := s\<rparr>))"

definition save_state :: "'c seed_run \<Rightarrow> 'c seed_run" where
  "save_state run = run\<lparr>sr_file := Some (Inr (sr_state run))\<rparr>"

text \<open>A step, and after it the record is written to its file.\<close>

definition saved_step ::
  "('c seed_run \<Rightarrow> (seed_error + unit) \<times> 'c seed_run) \<Rightarrow> 'c seed_run \<Rightarrow> (seed_error + unit) \<times> 'c seed_run" where
  "saved_step step run = (let (r, run1) = step run in try_st r run1 (\<lambda>_. (Inr (), save_state run1)))"

definition seed_load_kind :: "('c, 'k, 'g) seed_ext \<Rightarrow> string \<Rightarrow> seed_error + 'k loaded_key list" where
  "seed_load_kind e kind = load_kind (se_text e) (se_from_bytes e) (se_dir e ''keys'' kind)"

definition run_steps ::
  "('c, 'k, 'g) seed_ext \<Rightarrow> 'k loaded_key list \<Rightarrow> 'k loaded_key list \<Rightarrow> 'k loaded_key list \<Rightarrow> u64 \<Rightarrow> bool \<Rightarrow>
   ('c seed_run \<Rightarrow> (seed_error + unit) \<times> 'c seed_run) list" where
  "run_steps e system_ks account_ks user_ks rng_seed skip_articles =
     [saved_step (seed_each (seed_system e) system_ks),
      saved_step (seed_each (seed_account e) account_ks),
      saved_step (seed_each (seed_user e) user_ks)] @
     (if skip_articles then []
      else [saved_step (seed_each (seed_account_articles e) account_ks),
            seed_each (seed_user_follows e user_ks) FOLLOWS,
            saved_step (seed_each (seed_account_drafts e) account_ks),
            seed_recommendation_feeds e system_ks rng_seed,
            seed_events e user_ks rng_seed])"

definition run_seed ::
  "('c, 'k, 'g) seed_ext \<Rightarrow> u64 \<Rightarrow> bool \<Rightarrow> bool \<Rightarrow> 'c seed_run \<Rightarrow> (seed_error + unit) \<times> 'c seed_run" where
  "run_seed e rng_seed skip_articles reset run =
     (let (r0, run0) = (if reset then clear_demo_data run else (Inr (), run))
      in try_st r0 run0 (\<lambda>_.
         let (r1, run1) = load_state (if reset then run0\<lparr>sr_file := None\<rparr> else run0)
         in try_st r1 run1 (\<lambda>_.
            try_st (seed_load_kind e ''system'') run1 (\<lambda>system_ks.
            try_st (seed_load_kind e ''account'') run1 (\<lambda>account_ks.
            try_st (seed_load_kind e ''user'') run1 (\<lambda>user_ks.
            seed_each (\<lambda>step run. step run) (run_steps e system_ks account_ks user_ks rng_seed skip_articles) run1))))))"

text \<open>Where the boot-time seeding looks for the demo files; the argument is \<open>HEADLINES_DEMO_PATH\<close>.\<close>

definition default_demo_path :: "string option \<Rightarrow> string" where
  "default_demo_path env = (case env of Some p \<Rightarrow> p | None \<Rightarrow> ''demo'')"

end
