(* ===== verification/Seed_Rerun.thy ===== *)
theory Seed_Rerun
  imports Seed_Runner
begin

text \<open>
  The seeding command, its properties: resetting empties every table, a step that was completed
  does nothing when it is run again, and the events that are generated are ones that the service
  accepts.
\<close>

subsection \<open>Steps that are guarded by the record\<close>

text \<open>What is recorded stays recorded, with the same ids.\<close>

definition grows :: "seed_state \<Rightarrow> seed_state \<Rightarrow> bool" where
  "grows s s' \<longleftrightarrow> map_of (st_accounts s) \<subseteq>\<^sub>m map_of (st_accounts s') \<and> map_of (st_users s) \<subseteq>\<^sub>m map_of (st_users s') \<and>
     map_of (st_systems s) \<subseteq>\<^sub>m map_of (st_systems s') \<and> map_of (st_articles s) \<subseteq>\<^sub>m map_of (st_articles s') \<and>
     map_of (st_drafts s) \<subseteq>\<^sub>m map_of (st_drafts s')"

lemma grows_refl [simp]: "grows s s"
  by (simp add: grows_def)

lemma grows_trans: "grows s t \<Longrightarrow> grows t u \<Longrightarrow> grows s u"
  by (auto simp: grows_def intro: map_le_trans)

lemma grows_insert:
  "map_of (st_accounts s) k = None \<Longrightarrow> grows s (s\<lparr>st_accounts := bt_insert k r (st_accounts s)\<rparr>)"
  "map_of (st_users s) k = None \<Longrightarrow> grows s (s\<lparr>st_users := bt_insert k r (st_users s)\<rparr>)"
  "map_of (st_systems s) k = None \<Longrightarrow> grows s (s\<lparr>st_systems := bt_insert k r (st_systems s)\<rparr>)"
  "map_of (st_articles s) k = None \<Longrightarrow> grows s (s\<lparr>st_articles := bt_insert k a (st_articles s)\<rparr>)"
  "map_of (st_drafts s) k = None \<Longrightarrow> grows s (s\<lparr>st_drafts := bt_insert k a (st_drafts s)\<rparr>)"
  by (auto simp: grows_def map_le_def)

lemma map_le_Some: "m \<subseteq>\<^sub>m m' \<Longrightarrow> m k = Some v \<Longrightarrow> m' k = Some v"
  by (metis domI map_le_def)

lemma map_le_None: "m \<subseteq>\<^sub>m m' \<Longrightarrow> m k \<noteq> None \<Longrightarrow> m' k \<noteq> None"
  by (metis domIff map_le_def)

text \<open>
  The interface of the guarded steps: the body for one element skips what is finished, finishes
  what it completes when it was ready for it, and only adds to the record, on which being ready
  and being finished depend.
\<close>

locale guarded_step =
  fixes body :: "'a \<Rightarrow> 'c seed_run \<Rightarrow> (seed_error + unit) \<times> 'c seed_run" and
    ready :: "'a \<Rightarrow> seed_state \<Rightarrow> bool" and finished :: "'a \<Rightarrow> seed_state \<Rightarrow> bool"
  assumes skip: "finished x (sr_state run) \<Longrightarrow> body x run = (Inr (), run)"
    and finishes: "ready x (sr_state run) \<Longrightarrow> body x run = (Inr (), run') \<Longrightarrow> finished x (sr_state run')"
    and body_grows: "grows (sr_state run) (sr_state (snd (body x run)))"
    and finished_mono: "finished x s \<Longrightarrow> grows s s' \<Longrightarrow> finished x s'"
    and ready_mono: "ready x s \<Longrightarrow> grows s s' \<Longrightarrow> ready x s'"
begin

lemma each_grows: "grows (sr_state run) (sr_state (snd (seed_each body xs run)))"
proof (induction xs arbitrary: run)
  case (Cons x xs)
  obtain r run1 where b: "body x run = (r, run1)"
    by fastforce
  with body_grows [of run x] have "grows (sr_state run) (sr_state run1)"
    by simp
  with b Cons.IH [of run1] show ?case
    by (cases r) (auto intro: grows_trans)
qed simp

lemma each_finishes:
  "seed_each body xs run = (Inr (), run') \<Longrightarrow> x \<in> set xs \<Longrightarrow> ready x (sr_state run) \<Longrightarrow> finished x (sr_state run')"
proof (induction xs arbitrary: run)
  case (Cons y xs)
  obtain r run1 where b: "body y run = (r, run1)"
    by fastforce
  with Cons.prems have r: "r = Inr ()" and rest: "seed_each body xs run1 = (Inr (), run')"
    by (cases r; simp)+
  have grown: "grows (sr_state run) (sr_state run1)"
    using body_grows [of run y] b by simp
  show ?case
  proof (cases "x \<in> set xs")
    case True
    then show ?thesis
      using Cons.IH [OF rest] Cons.prems(3) grown ready_mono by blast
  next
    case False
    with Cons.prems b r have "finished x (sr_state run1)"
      using finishes by auto
    then show ?thesis
      using finished_mono each_grows [of run1 xs] by (simp add: rest)
  qed
qed simp

lemma each_skips: "(\<And>x. x \<in> set xs \<Longrightarrow> finished x (sr_state run)) \<Longrightarrow> seed_each body xs run = (Inr (), run)"
  by (induction xs) (simp_all add: skip)

lemma rerun:
  assumes "seed_each body xs run = (Inr (), run')" "\<forall>x \<in> set xs. ready x (sr_state run)"
    "grows (sr_state run') (sr_state run2)"
  shows "seed_each body xs run2 = (Inr (), run2)"
  using assms each_finishes finished_mono by (blast intro: each_skips)

end

lemma send_state [simp]: "sr_state (snd (send e req handler run)) = sr_state run" "sr_file (snd (send e req handler run)) = sr_file run"
  by (simp_all add: send_def split_def Let_def)

lemma rpc_state [simp]:
  "sr_state (snd (anonymous_rpc e ctx msg handler run)) = sr_state run"
  "sr_state (snd (signed_rpc e ctx msg sk kid path handler run)) = sr_state run"
proof -
  show "sr_state (snd (anonymous_rpc e ctx msg handler run)) = sr_state run"
    by (simp add: anonymous_rpc_def split_def Let_def)
  show "sr_state (snd (signed_rpc e ctx msg sk kid path handler run)) = sr_state run"
    by (simp add: signed_rpc_def split_def Let_def try_st_def split: sum.split)
qed

lemma set_db_state [simp]: "sr_state (set_db d run) = sr_state run"
  by (simp add: set_db_def)

lemma rpc_stateD:
  "anonymous_rpc e ctx msg handler run = (r, run1) \<Longrightarrow> sr_state run1 = sr_state run"
  by (metis rpc_state(1) snd_conv)

lemma signed_rpc_stateD:
  "signed_rpc e ctx msg sk kid path handler run = (r, run1) \<Longrightarrow> sr_state run1 = sr_state run"
  by (metis rpc_state(2) snd_conv)

lemma grows_recorded:
  "grows s s' \<Longrightarrow> map_of (st_accounts s) k \<noteq> None \<Longrightarrow> map_of (st_accounts s') k \<noteq> None"
  "grows s s' \<Longrightarrow> map_of (st_users s) k \<noteq> None \<Longrightarrow> map_of (st_users s') k \<noteq> None"
  "grows s s' \<Longrightarrow> map_of (st_systems s) k \<noteq> None \<Longrightarrow> map_of (st_systems s') k \<noteq> None"
  "grows s s' \<Longrightarrow> map_of (st_articles s) k \<noteq> None \<Longrightarrow> map_of (st_articles s') k \<noteq> None"
  "grows s s' \<Longrightarrow> map_of (st_drafts s) k \<noteq> None \<Longrightarrow> map_of (st_drafts s') k \<noteq> None"
  unfolding grows_def by (metis map_le_None)+

lemma grows_account: "grows s s' \<Longrightarrow> map_of (st_accounts s) k = Some r \<Longrightarrow> map_of (st_accounts s') k = Some r"
  unfolding grows_def by (metis map_le_Some)

interpretation account_step: guarded_step "seed_account e" "\<lambda>_ _. True" "\<lambda>key s. map_of (st_accounts s) (lk_name key) \<noteq> None" for e
proof (unfold_locales, goal_cases)
  case (1 key run)
  then show ?case
    by (simp add: seed_account_def Let_def)
next
  case (2 key run run')
  then show ?case
    by (auto simp: seed_account_def Let_def split_def try_st_Inr split: if_splits)
next
  case (3 run key)
  then show ?case
    by (auto simp: seed_account_def Let_def try_st_def grows_insert rpc_stateD split: prod.split sum.split)
next
  case (4 key s s')
  then show ?case
    by (metis grows_recorded)
qed simp_all

interpretation user_step: guarded_step "seed_user e" "\<lambda>_ _. True" "\<lambda>key s. map_of (st_users s) (lk_name key) \<noteq> None" for e
proof (unfold_locales, goal_cases)
  case (1 key run)
  then show ?case
    by (simp add: seed_user_def Let_def)
next
  case (2 key run run')
  then show ?case
    by (auto simp: seed_user_def Let_def split_def try_st_Inr split: if_splits)
next
  case (3 run key)
  then show ?case
    by (auto simp: seed_user_def Let_def try_st_def grows_insert rpc_stateD split: prod.split sum.split)
next
  case (4 key s s')
  then show ?case
    by (metis grows_recorded)
qed simp_all

lemma seed_each_state:
  assumes "\<And>x s. P (snd (f x s)) = P s"
  shows "P (snd (seed_each f xs s)) = P s"
proof (induction xs arbitrary: s)
  case (Cons x xs)
  obtain r s' where b: "f x s = (r, s')"
    by fastforce
  with assms [of x s] Cons.IH [of s'] show ?case
    by (cases r) auto
qed simp

lemma insert_system_state [simp]:
  "sr_state (snd (insert_system row run)) = sr_state run"
  "sr_state (snd (insert_system_key krow run)) = sr_state run"
  "sr_state (snd (insert_system_scope sid scope run)) = sr_state run"
  "sr_state (snd (seed_each (insert_system_scope sid) scs run)) = sr_state run"
proof -
  show scope: "sr_state (snd (insert_system_scope sid scope run)) = sr_state run" for scope and run
    by (simp add: insert_system_scope_def try_st_def split: sum.split)
  show "sr_state (snd (seed_each (insert_system_scope sid) scs run)) = sr_state run"
    by (rule seed_each_state [where P = sr_state]) (rule scope)
qed (simp_all add: insert_system_def insert_system_key_def try_st_def split: sum.split)

lemma insert_system_stateD:
  "insert_system row run = (r, run1) \<Longrightarrow> sr_state run1 = sr_state run"
  "insert_system_key krow run = (r, run1) \<Longrightarrow> sr_state run1 = sr_state run"
  "seed_each (insert_system_scope sid) scs run = (r, run1) \<Longrightarrow> sr_state run1 = sr_state run"
  by (metis insert_system_state snd_conv)+

lemma record_system_grows: "map_of (st_systems (sr_state run)) name = None \<Longrightarrow> grows (sr_state run) (sr_state (record_system name sid kid run))"
  by (simp add: record_system_def grows_insert)

lemma record_system_recorded [simp]: "map_of (st_systems (sr_state (record_system name sid kid run))) name \<noteq> None"
  by (simp add: record_system_def)

interpretation system_step: guarded_step "seed_system e" "\<lambda>_ _. True" "\<lambda>key s. map_of (st_systems s) (lk_name key) \<noteq> None" for e
proof (unfold_locales, goal_cases)
  case (1 key run)
  then show ?case
    by (simp add: seed_system_def Let_def)
next
  case (2 key run run')
  then show ?case
    by (cases "find (\<lambda>r. sy_name r = lk_name key) (sr_systems run)")
      (auto simp: seed_system_def Let_def split_def try_st_Inr record_system_def split: if_splits)
next
  case (3 run key)
  then show ?case
    by (auto simp: seed_system_def Let_def try_st_def record_system_def grows_insert insert_system_stateD
        split: prod.split sum.split option.split)
next
  case (4 key s s')
  then show ?case
    by (metis grows_recorded)
qed simp_all

lemma created_at_state [simp]:
  "sr_state (override_created_at aid t run) = sr_state run"
  "sr_state (redact_first_version aid t rsn run) = sr_state run"
  by (simp_all add: override_created_at_def redact_first_version_def)

lemma apply_article_state_state [simp]:
  "sr_state (snd (apply_article_state e kid sk fm raw aid mk run)) = sr_state run"
  by (simp add: apply_article_state_def Let_def split_def try_st_def split: sum.split)

lemma apply_article_stateD:
  "apply_article_state e kid sk fm raw aid mk run = (r, run1) \<Longrightarrow> sr_state run1 = sr_state run"
  by (metis apply_article_state_state snd_conv)

lemma publish_one_recorded:
  assumes "publish_one e account kid sk la mk run = (Inr (), run')"
  shows "map_of (st_articles (sr_state run')) mk \<noteq> None"
  using assms by (auto simp: publish_one_def Let_def split_def try_st_Inr dest!: apply_article_stateD split: option.splits)

lemma publish_one_grows:
  assumes "map_of (st_articles (sr_state run)) mk = None"
  shows "grows (sr_state run) (sr_state (snd (publish_one e account kid sk la mk run)))"
  using assms by (auto simp: publish_one_def Let_def try_st_def grows_insert signed_rpc_stateD
      split: prod.split sum.split option.split)

interpretation article_step: guarded_step "seed_article e account kid key" "\<lambda>_ _. True"
  "\<lambda>la s. map_of (st_articles s) (map_key_of key la) \<noteq> None" for e account kid key
proof (unfold_locales, goal_cases)
  case (2 la run run')
  then show ?case
    using publish_one_recorded by (fastforce simp: seed_article_def Let_def split: if_splits)
next
  case (3 run la)
  then show ?case
    by (simp add: seed_article_def Let_def publish_one_grows)
qed (simp add: seed_article_def Let_def, metis grows_recorded(4), simp)

interpretation draft_step: guarded_step "seed_draft e account kid key" "\<lambda>_ _. True"
  "\<lambda>la s. map_of (st_drafts s) (map_key_of key la) \<noteq> None" for e account kid key
proof (unfold_locales, goal_cases)
  case (2 la run run')
  then show ?case
    by (auto simp: seed_draft_def Let_def split_def try_st_Inr split: if_splits)
next
  case (3 run la)
  then show ?case
    by (auto simp: seed_draft_def Let_def try_st_def grows_insert signed_rpc_stateD split: prod.split sum.split)
qed (simp add: seed_draft_def Let_def, metis grows_recorded(5), simp)

text \<open>All the articles, or drafts, of an account.\<close>

definition articles_done :: "('c, 'k, 'g) seed_ext \<Rightarrow> 'k loaded_key \<Rightarrow> seed_state \<Rightarrow> bool" where
  "articles_done e key s \<longleftrightarrow>
     (\<exists>las rec account kid. load_account_articles (se_dir e ''articles'' (lk_name key)) (lk_name key) = Inr las \<and>
        map_of (st_accounts s) (lk_name key) = Some rec \<and> parse_id e (ir_id rec) = Inr account \<and>
        parse_id e (ir_key_id rec) = Inr kid \<and> (\<forall>la \<in> set las. map_of (st_articles s) (map_key_of key la) \<noteq> None))"

definition drafts_done :: "('c, 'k, 'g) seed_ext \<Rightarrow> 'k loaded_key \<Rightarrow> seed_state \<Rightarrow> bool" where
  "drafts_done e key s \<longleftrightarrow>
     (\<exists>las. load_account_articles (se_dir e ''drafts'' (lk_name key)) (lk_name key) = Inr las \<and>
        (\<exists>rec account kid. map_of (st_accounts s) (lk_name key) = Some rec \<and> parse_id e (ir_id rec) = Inr account \<and>
           parse_id e (ir_key_id rec) = Inr kid \<and> (\<forall>la \<in> set las. map_of (st_drafts s) (map_key_of key la) \<noteq> None)))"

interpretation articles_step: guarded_step "seed_account_articles e" "\<lambda>_ _. True" "articles_done e" for e
proof (unfold_locales, goal_cases)
  case (1 key run)
  then show ?case
    by (auto simp: articles_done_def seed_account_articles_def intro!: article_step.each_skips)
next
  case (2 key run run')
  then obtain las rec account kid where *:
    "load_account_articles (se_dir e ''articles'' (lk_name key)) (lk_name key) = Inr las"
    "map_of (st_accounts (sr_state run)) (lk_name key) = Some rec" "parse_id e (ir_id rec) = Inr account"
    "parse_id e (ir_key_id rec) = Inr kid" "seed_each (seed_article e account kid key) las run = (Inr (), run')"
    by (auto simp: seed_account_articles_def res_invert)
  moreover have "map_of (st_accounts (sr_state run')) (lk_name key) = Some rec"
    using article_step.each_grows [of run e account kid key las] * by (auto intro: grows_account)
  ultimately show ?case
    unfolding articles_done_def using article_step.each_finishes by blast
next
  case (3 run key)
  show ?case
    by (auto simp: seed_account_articles_def try_st_def intro: article_step.each_grows split: sum.split)
next
  case (4 key s s')
  then show ?case
    unfolding articles_done_def by (meson grows_account grows_recorded(4))
qed simp

interpretation drafts_step: guarded_step "seed_account_drafts e" "\<lambda>key s. map_of (st_accounts s) (lk_name key) \<noteq> None"
  "drafts_done e" for e
proof (unfold_locales, goal_cases)
  case (1 key run)
  then show ?case
    by (auto simp: drafts_done_def seed_account_drafts_def intro!: draft_step.each_skips)
next
  case (2 key run run')
  then obtain las rec account kid where *:
    "load_account_articles (se_dir e ''drafts'' (lk_name key)) (lk_name key) = Inr las"
    "map_of (st_accounts (sr_state run)) (lk_name key) = Some rec" "parse_id e (ir_id rec) = Inr account"
    "parse_id e (ir_key_id rec) = Inr kid" "seed_each (seed_draft e account kid key) las run = (Inr (), run')"
    by (auto simp: seed_account_drafts_def res_invert)
  moreover have "map_of (st_accounts (sr_state run')) (lk_name key) = Some rec"
    using draft_step.each_grows [of run e account kid key las] * by (auto intro: grows_account)
  ultimately show ?case
    unfolding drafts_done_def using draft_step.each_finishes by blast
next
  case (3 run key)
  show ?case
    by (auto simp: seed_account_drafts_def try_st_def intro: draft_step.each_grows split: sum.split option.split)
next
  case (4 key s s')
  then show ?case
    unfolding drafts_done_def by (meson grows_account grows_recorded(5))
next
  case (5 key s s')
  then show ?case
    by (metis grows_recorded(1))
qed

subsection \<open>Running the command again\<close>

text \<open>What follows, feeds and events leave as it was: the record, in memory and in its file.\<close>

definition run_record :: "'c seed_run \<Rightarrow> seed_state \<times> (string + seed_state) option" where
  "run_record run = (sr_state run, sr_file run)"

lemma rpc_record [simp]:
  "run_record (snd (signed_rpc e ctx msg sk kid path handler run)) = run_record run"
  by (simp add: run_record_def signed_rpc_def split_def Let_def try_st_def split: sum.split)

lemma rpc_recordD: "signed_rpc e ctx msg sk kid path handler run = (r, run1) \<Longrightarrow> run_record run1 = run_record run"
  by (metis rpc_record snd_conv)

lemma follow_record [simp]: "run_record (snd (seed_follow e name user kid key acct run)) = run_record run"
  by (auto simp: seed_follow_def Let_def dest: rpc_recordD split: option.split prod.split sum.split seed_error.split)

lemma follows_record [simp]: "run_record (snd (seed_each (seed_user_follows e keys) xs run)) = run_record run"
  by (rule seed_each_state [where P = run_record])
    (auto simp: seed_user_follows_def seed_each_state [where P = run_record] split: prod.split option.split)

lemma feeds_record [simp]: "run_record (snd (seed_recommendation_feeds e ks rng run)) = run_record run"
proof -
  have "run_record (snd (snd (seed_user_feed e ranker kid pool x gr))) = run_record (snd gr)" for ranker kid pool x gr
    by (simp add: seed_user_feed_def split_def Let_def try_st_def split: sum.split)
  note seed_each_state [where P = "\<lambda>gr. run_record (snd gr)", OF this]
  then show ?thesis
    by (auto simp: seed_recommendation_feeds_def split_def Let_def try_st_def split: sum.split)
qed

lemma user_events_record: "run_record (snd (snd (user_events_loop e key kid raw arts target emitted gr))) = run_record (snd gr)"
proof (induction "target - emitted" arbitrary: emitted gr rule: less_induct)
  case less
  then have "emitted < target \<Longrightarrow> 0 < n \<Longrightarrow>
      run_record (snd (snd (user_events_loop e key kid raw arts target (emitted + n) gr'))) = run_record (snd gr')" for n gr'
    by simp
  then show ?case
    by (subst user_events_loop.simps) (auto simp: split_def Let_def split: sum.split)
qed

lemma events_record [simp]: "run_record (snd (seed_events e ks rng run)) = run_record run"
proof -
  have "run_record (snd (snd (seed_user_events e ks arts target x gr))) = run_record (snd gr)" for arts target x gr
    by (auto simp: seed_user_events_def split_def try_st_def user_events_record split: sum.split option.split)
  note seed_each_state [where P = "\<lambda>gr. run_record (snd gr)", OF this]
  then show ?thesis
    by (auto simp: seed_events_def split_def Let_def)
qed

lemma saved_step_Inr:
  "saved_step step run = (Inr (), run') \<longleftrightarrow> (\<exists>run1. step run = (Inr (), run1) \<and> run' = save_state run1)"
  by (cases "step run") (auto simp: saved_step_def try_st_Inr)

lemma save_state_same [simp]: "sr_state (save_state run) = sr_state run" "sr_file (save_state run) = Some (Inr (sr_state run))"
  by (simp_all add: save_state_def)

text \<open>A run whose record is in its file; loading and saving change nothing.\<close>

definition saved :: "'c seed_run \<Rightarrow> bool" where
  "saved run \<longleftrightarrow> sr_file run = Some (Inr (sr_state run))"

lemma saved_same: "saved run \<Longrightarrow> load_state run = (Inr (), run)" "saved run \<Longrightarrow> save_state run = run"
  by (simp_all add: saved_def load_state_def save_state_def)

lemma saved_step_skips: "step run = (Inr (), run) \<Longrightarrow> saved run \<Longrightarrow> saved_step step run = (Inr (), run)"
  by (simp add: saved_step_Inr saved_same)

text \<open>A list of steps, run one after the other.\<close>

abbreviation run_list :: "('c seed_run \<Rightarrow> (seed_error + unit) \<times> 'c seed_run) list \<Rightarrow> 'c seed_run \<Rightarrow> (seed_error + unit) \<times> 'c seed_run" where
  "run_list \<equiv> seed_each (\<lambda>step run. step run)"

lemma seed_each_append:
  "seed_each f (xs @ ys) s = (let (r, s') = seed_each f xs s in try_st r s' (\<lambda>_. seed_each f ys s'))"
  by (induction xs arbitrary: s) (simp_all add: split_def Let_def try_st_def split: sum.split)

lemma seed_each_Cons_Inr:
  "seed_each f (x # xs) s = (Inr (), s') \<longleftrightarrow> (\<exists>s1. f x s = (Inr (), s1) \<and> seed_each f xs s1 = (Inr (), s'))"
  by (cases "f x s") (auto simp: try_st_Inr)

lemma seed_each_append_Inr:
  "seed_each f (xs @ ys) s = (Inr (), s') \<longleftrightarrow> (\<exists>s1. seed_each f xs s = (Inr (), s1) \<and> seed_each f ys s1 = (Inr (), s'))"
  by (cases "seed_each f xs s") (auto simp: seed_each_append try_st_Inr)

definition known :: "('c, 'k, 'g) seed_ext \<Rightarrow> 'k loaded_key list \<Rightarrow> 'k loaded_key list \<Rightarrow> 'k loaded_key list \<Rightarrow> seed_state \<Rightarrow> bool" where
  "known e system_ks account_ks user_ks s \<longleftrightarrow>
     (\<forall>k \<in> set system_ks. map_of (st_systems s) (lk_name k) \<noteq> None) \<and>
     (\<forall>k \<in> set account_ks. map_of (st_accounts s) (lk_name k) \<noteq> None) \<and>
     (\<forall>k \<in> set user_ks. map_of (st_users s) (lk_name k) \<noteq> None)"

definition identity_steps ::
  "('c, 'k, 'g) seed_ext \<Rightarrow> 'k loaded_key list \<Rightarrow> 'k loaded_key list \<Rightarrow> 'k loaded_key list \<Rightarrow>
   ('c seed_run \<Rightarrow> (seed_error + unit) \<times> 'c seed_run) list" where
  "identity_steps e system_ks account_ks user_ks =
     [saved_step (seed_each (seed_system e) system_ks), saved_step (seed_each (seed_account e) account_ks),
      saved_step (seed_each (seed_user e) user_ks)]"

lemma identity_steps_known:
  assumes "run_list (identity_steps e system_ks account_ks user_ks) run = (Inr (), run')"
  shows "known e system_ks account_ks user_ks (sr_state run')" "saved run'"
proof -
  from assms obtain run1 run2 run3 where *: "seed_each (seed_system e) system_ks run = (Inr (), run1)"
    "seed_each (seed_account e) account_ks (save_state run1) = (Inr (), run2)"
    "seed_each (seed_user e) user_ks (save_state run2) = (Inr (), run3)" "run' = save_state run3"
    by (auto simp: identity_steps_def seed_each_Cons_Inr saved_step_Inr simp del: seed_each.simps(2))
  have g: "grows (sr_state run1) (sr_state run2)" "grows (sr_state run2) (sr_state run3)"
    using account_step.each_grows [of "save_state run1" e account_ks] user_step.each_grows [of "save_state run2" e user_ks] *
    by simp_all
  show "known e system_ks account_ks user_ks (sr_state run')"
    unfolding known_def
    using system_step.each_finishes [OF *(1)] account_step.each_finishes [OF *(2)] user_step.each_finishes [OF *(3)] g
    by (simp add: *(4) del: not_None_eq) (meson grows_recorded grows_trans)
  show "saved run'"
    by (simp add: *(4) saved_def)
qed

lemma identity_steps_skip:
  assumes "known e system_ks account_ks user_ks (sr_state run)" "saved run"
  shows "run_list (identity_steps e system_ks account_ks user_ks) run = (Inr (), run)"
  using assms by (simp add: identity_steps_def known_def saved_step_skips system_step.each_skips account_step.each_skips
      user_step.each_skips)

lemma known_mono: "known e system_ks account_ks user_ks s \<Longrightarrow> grows s s' \<Longrightarrow> known e system_ks account_ks user_ks s'"
  unfolding known_def by (meson grows_recorded)

lemma run_record_eq: "run_record run' = run_record run \<longleftrightarrow> sr_state run' = sr_state run \<and> sr_file run' = sr_file run"
  by (simp add: run_record_def)

lemma run_recordD: "f run = (r, run') \<Longrightarrow> run_record (snd (f run)) = run_record run \<Longrightarrow> run_record run' = run_record run"
  by simp

definition content_steps ::
  "('c, 'k, 'g) seed_ext \<Rightarrow> 'k loaded_key list \<Rightarrow> 'k loaded_key list \<Rightarrow> 'k loaded_key list \<Rightarrow> u64 \<Rightarrow>
   ('c seed_run \<Rightarrow> (seed_error + unit) \<times> 'c seed_run) list" where
  "content_steps e system_ks account_ks user_ks rng =
     [saved_step (seed_each (seed_account_articles e) account_ks), seed_each (seed_user_follows e user_ks) FOLLOWS,
      saved_step (seed_each (seed_account_drafts e) account_ks), seed_recommendation_feeds e system_ks rng,
      seed_events e user_ks rng]"

definition repeated_steps ::
  "('c, 'k, 'g) seed_ext \<Rightarrow> 'k loaded_key list \<Rightarrow> 'k loaded_key list \<Rightarrow> u64 \<Rightarrow>
   ('c seed_run \<Rightarrow> (seed_error + unit) \<times> 'c seed_run) list" where
  "repeated_steps e system_ks user_ks rng =
     [seed_each (seed_user_follows e user_ks) FOLLOWS, seed_recommendation_feeds e system_ks rng, seed_events e user_ks rng]"

lemma run_steps_split:
  "run_steps e system_ks account_ks user_ks rng skip = identity_steps e system_ks account_ks user_ks @
     (if skip then [] else content_steps e system_ks account_ks user_ks rng)"
  by (simp add: run_steps_def identity_steps_def content_steps_def)

lemma content_steps_done:
  assumes "run_list (content_steps e system_ks account_ks user_ks rng) run = (Inr (), run')"
    and k: "known e system_ks account_ks user_ks (sr_state run)"
  shows "grows (sr_state run) (sr_state run')" "saved run'"
    "\<forall>k \<in> set account_ks. articles_done e k (sr_state run') \<and> drafts_done e k (sr_state run')"
proof -
  from assms(1) obtain run1 run2 run3 run4 where *:
    "seed_each (seed_account_articles e) account_ks run = (Inr (), run1)"
    "seed_each (seed_user_follows e user_ks) FOLLOWS (save_state run1) = (Inr (), run2)"
    "seed_each (seed_account_drafts e) account_ks run2 = (Inr (), run3)"
    "seed_recommendation_feeds e system_ks rng (save_state run3) = (Inr (), run4)"
    "seed_events e user_ks rng run4 = (Inr (), run')"
    by (auto simp: content_steps_def seed_each_Cons_Inr saved_step_Inr simp del: seed_each.simps(2))
  have same: "run_record run2 = run_record (save_state run1)" "run_record run4 = run_record (save_state run3)"
    "run_record run' = run_record run4"
    using *(2,4,5) by (metis follows_record snd_conv, metis feeds_record snd_conv, metis events_record snd_conv)
  have states: "sr_state run2 = sr_state run1" "sr_state run' = sr_state run3" "sr_file run' = Some (Inr (sr_state run3))"
    using same by (simp_all add: run_record_eq)
  have g: "grows (sr_state run) (sr_state run1)" "grows (sr_state run1) (sr_state run3)"
    using articles_step.each_grows [of run e account_ks] drafts_step.each_grows [of run2 e account_ks] *(1,3) states(1)
    by simp_all
  show "grows (sr_state run) (sr_state run')"
    using g by (auto simp: states intro: grows_trans)
  show "saved run'"
    by (simp add: saved_def states)
  have "known e system_ks account_ks user_ks (sr_state run2)"
    using known_mono [OF k g(1)] by (simp add: states)
  then show "\<forall>k \<in> set account_ks. articles_done e k (sr_state run') \<and> drafts_done e k (sr_state run')"
    using articles_step.each_finishes [OF *(1)] drafts_step.each_finishes [OF *(3)] articles_step.finished_mono [OF _ g(2)]
    by (auto simp: known_def states(2))
qed

lemma content_steps_skip:
  assumes "saved run" "\<forall>k \<in> set account_ks. articles_done e k (sr_state run) \<and> drafts_done e k (sr_state run)"
  shows "run_list (content_steps e system_ks account_ks user_ks rng) run =
    run_list (repeated_steps e system_ks user_ks rng) run"
proof -
  have arts: "saved_step (seed_each (seed_account_articles e) account_ks) run = (Inr (), run)"
    using assms by (simp add: saved_step_skips articles_step.each_skips)
  have drafts: "saved_step (seed_each (seed_account_drafts e) account_ks) run1 = (Inr (), run1)"
    if "run_record run1 = run_record run" for run1
    using assms that by (simp add: run_record_eq saved_def saved_step_skips drafts_step.each_skips)
  obtain r run1 where f: "seed_each (seed_user_follows e user_ks) FOLLOWS run = (r, run1)"
    by fastforce
  then have "run_record run1 = run_record run"
    by (rule run_recordD) simp
  then show ?thesis
    by (cases r) (simp_all add: content_steps_def repeated_steps_def arts f drafts)
qed

lemma run_seed_cases:
  assumes "run_seed e rng skip reset run = (Inr (), run')"
  obtains system_ks account_ks user_ks run1 where "seed_load_kind e ''system'' = Inr system_ks"
    "seed_load_kind e ''account'' = Inr account_ks" "seed_load_kind e ''user'' = Inr user_ks"
    "run_list (run_steps e system_ks account_ks user_ks rng skip) run1 = (Inr (), run')"
  using assms by (auto simp: run_seed_def Let_def split_def try_st_Inr)

text \<open>C37. After a complete run of the seeding command, whatever its flags, a second run without
  articles and without a reset does nothing at all, with any seed of the generator; and after a
  complete run with articles a second one repeats the follows, the recommendation feeds and the
  events only: it creates no system, account, user, article or draft again.
\<close>

theorem seeding_resumes:
  assumes "run_seed e rng skip reset run = (Inr (), run')"
  shows "run_seed e rng' True False run' = (Inr (), run') \<and>
    (\<exists>system_ks user_ks. seed_load_kind e ''system'' = Inr system_ks \<and> seed_load_kind e ''user'' = Inr user_ks \<and>
      (skip \<or> run_seed e rng' False False run' = run_list (repeated_steps e system_ks user_ks rng') run'))"
proof -
  from assms obtain system_ks account_ks user_ks run1 where loads: "seed_load_kind e ''system'' = Inr system_ks"
    "seed_load_kind e ''account'' = Inr account_ks" "seed_load_kind e ''user'' = Inr user_ks"
    and steps: "run_list (run_steps e system_ks account_ks user_ks rng skip) run1 = (Inr (), run')"
    by (rule run_seed_cases)
  obtain run2 where ids: "run_list (identity_steps e system_ks account_ks user_ks) run1 = (Inr (), run2)"
    and rest: "run_list (if skip then [] else content_steps e system_ks account_ks user_ks rng) run2 = (Inr (), run')"
    using steps unfolding run_steps_split seed_each_append_Inr by blast
  note known = identity_steps_known [OF ids]
  have fin: "known e system_ks account_ks user_ks (sr_state run')" "saved run'"
    and contents: "skip \<or> (\<forall>k \<in> set account_ks. articles_done e k (sr_state run') \<and> drafts_done e k (sr_state run'))"
    using rest known content_steps_done [OF _ known(1), of rng run'] known_mono by (cases skip; fastforce)+
  have again: "run_seed e rng' b False run' = run_list (if b then [] else content_steps e system_ks account_ks user_ks rng') run'" for b
    using fin(2) identity_steps_skip [OF fin] by (simp add: run_seed_def loads saved_same run_steps_split seed_each_append)
  show ?thesis
    using contents content_steps_skip [OF fin(2)] loads by (simp add: again) blast
qed

subsection \<open>Reset\<close>

lemma refers_Nil [simp]: "refers fk [] ids \<longleftrightarrow> False" "refers fk rows [] \<longleftrightarrow> False"
  by (simp_all add: refers_def list_ex_iff)

text \<open>A reset always succeeds: the statements delete in an order in which no row that is left refers
  to one that is deleted, whatever the database holds, and every table is empty afterwards.
\<close>

theorem reset_empties:
  "clear_demo_data run = (Inr (), run\<lparr>sr_server := (sr_server run)\<lparr>ss_db := empty_db\<rparr>, sr_systems := []\<rparr>)"
  by (simp add: clear_demo_data_def clear_statements_def delete_all_def no_ref_def articles_referenced_def
      accounts_referenced_def users_referenced_def systems_referenced_def set_db_def empty_db_def Let_def)

subsection \<open>Generated events\<close>

text \<open>What \<open>rand\<close> documents: a number in a range is in it, the choice from a slice is an element of it.\<close>

definition rng_ok :: "'g rng_ext \<Rightarrow> bool" where
  "rng_ok rx \<longleftrightarrow>
     (\<forall>lo hi g. lo < hi \<longrightarrow> lo \<le> fst (rg_range rx lo hi g) \<and> fst (rg_range rx lo hi g) < hi) \<and>
     (\<forall>xs g. xs \<noteq> [] \<longrightarrow> (\<exists>x \<in> set xs. fst (rg_choose rx xs g) = Some x))"

lemma rng_range:
  assumes "rng_ok rx" "rg_range rx lo hi g = (n, g')" "lo < hi"
  shows "lo \<le> n" "n < hi"
  using assms unfolding rng_ok_def by (metis fst_conv)+

lemma pick_properties_valid:
  assumes "rng_ok rx" "pick_properties rx g = ((t, p), g')"
  shows "properties_valid p" "t = properties_type p" "props_i32 p"
proof -
  obtain pick g1 pos g2 base g3 amp g4 where *: "rg_range rx 0 100 g = (pick, g1)" "rg_range rx 0 20 g1 = (pos, g2)"
    "rg_range rx 500 5000 g1 = (base, g3)" "rg_range rx 0 10 g3 = (amp, g4)"
    by (metis surj_pair)
  have "0 \<le> pos" "pos < 20" "500 \<le> base" "base < 5000"
    using rng_range [OF assms(1) *(2)] rng_range [OF assms(1) *(3)] by simp_all
  with assms(2) show "properties_valid p" "t = properties_type p" "props_i32 p"
    by (auto simp: pick_properties_def lognormal_dwell_def Let_def * FEED_KINDS_def split: if_splits)
qed

text \<open>The clocks of the client and the server: a minute fast to eighteen hours slow is close enough.\<close>

definition clocks_close :: "event_ext \<Rightarrow> int \<times> int \<Rightarrow> instant \<Rightarrow> bool" where
  "clocks_close x utc srv \<longleftrightarrow> 0 \<le> snd utc \<and> snd utc < 10 ^ 9 \<and> utc \<le> (fst srv + 60, snd srv) \<and>
     fst srv - 18 * 60 * 60 \<le> fst utc \<and> (\<forall>j \<in> {0..<360}. ee_in_range x (fst utc - j * 60) (snd utc))"

lemma gen_event_accepted:
  assumes "rng_ok (se_rng e)" "arts \<noteq> []" "\<forall>a \<in> set arts. uuid_parse (se_text e) a \<noteq> None"
    and "uuid_parse (se_text e) raw_user = Some u" "clocks_close (ax_events (se_api e)) utc srv"
    and "gen_event e utc raw_user arts g = (req, g')"
  shows "is_ok (prepare_event (ax_events (se_api e)) req (User u k) srv)" "req_i32 req"
proof -
  obtain a g1 t p g2 j g3 sf g4 where *: "rg_choose (se_rng e) arts g = (a, g1)" "pick_properties (se_rng e) g1 = ((t, p), g2)"
    "rg_range (se_rng e) 0 (6 * 60) g2 = (j, g3)" "pick_surface (se_rng e) g3 = (sf, g4)"
    by (metis surj_pair)
  obtain art where art: "a = Some art" "art \<in> set arts"
    using assms(1,2) *(1) unfolding rng_ok_def by (metis fst_conv)
  then obtain au where au: "uuid_parse (se_text e) art = Some au"
    using assms(3) by auto
  note props = pick_properties_valid [OF assms(1) *(2)]
  have j: "0 \<le> j" "j < 360"
    using rng_range [OF assms(1) *(3)] by simp_all
  have sf: "surface_valid sf"
    using *(4) by (auto simp: pick_surface_def Let_def split_def surface_valid_def surface_char_def chars_count_def split: if_splits)
  have req: "req = \<lparr>eq_user_id = raw_user, eq_article_id = art, eq_type = t,
      eq_occurred_at = Some (fst utc - j * 60, snd utc), eq_surface = sf, eq_properties = Some p\<rparr>"
    using assms(6) *(1-4) by (simp add: gen_event_def now_minus_jitter_def art Let_def)
  have t: "proto_to_chrono (ax_events (se_api e)) (fst utc - j * 60, snd utc) = Some (fst utc - j * 60, snd utc)"
    using assms(5) j by (simp add: proto_to_chrono_def clocks_close_def)
  have "(fst srv - 24 * 60 * 60, snd srv) \<le> (fst utc - j * 60, snd utc)" "(fst utc - j * 60, snd utc) \<le> (fst srv + 60, snd srv)"
    using assms(5) j by (auto simp: clocks_close_def less_eq_prod_def)
  with t sf props au assms(4) show "is_ok (prepare_event (ax_events (se_api e)) req (User u k) srv)"
    unfolding is_ok_iff prepare_event_Inr by (auto simp: req own_event_def properties_type_string)
  show "req_i32 req"
    using props by (simp add: req_i32_def req)
qed

lemma gen_events_accepted:
  assumes "rng_ok (se_rng e)" "arts \<noteq> []" "\<forall>a \<in> set arts. uuid_parse (se_text e) a \<noteq> None"
    and "uuid_parse (se_text e) raw_user = Some u" "list_all (\<lambda>utc. clocks_close (ax_events (se_api e)) utc srv) utcs"
  shows "length (fst (gen_events e utcs raw_user arts g)) = length utcs \<and>
    list_all (\<lambda>req. is_ok (prepare_event (ax_events (se_api e)) req (User u k) srv)) (fst (gen_events e utcs raw_user arts g)) \<and>
    list_all req_i32 (fst (gen_events e utcs raw_user arts g))"
  using assms(5)
proof (induction utcs arbitrary: g)
  case (Cons utc utcs)
  obtain req g1 where r: "gen_event e utc raw_user arts g = (req, g1)"
    by fastforce
  with Cons.IH [of g1] Cons.prems gen_event_accepted [OF assms(1-4) _ r, of srv] show ?case
    by (simp add: split_def Let_def)
qed simp

text \<open>A batch that the command generates for a user whose id parses, over articles whose ids parse
  and with clocks that are close enough, is accepted by the service and stored whole: one row per
  event, in order, under the ids drawn for them.
\<close>

theorem generated_batch_stored:
  fixes max_items :: nat and t :: timestamp
  assumes "rng_ok (se_rng e)" "arts \<noteq> []" "\<forall>a \<in> set arts. uuid_parse (se_text e) a \<noteq> None"
    and "uuid_parse (se_text e) raw_user = Some u" "tso_now (ax_events (se_api e)) now = Inr srv"
    and "list_all (\<lambda>utc. clocks_close (ax_events (se_api e)) utc srv) utcs" "utcs \<noteq> []" "length utcs \<le> max_items"
    and "length ids = length utcs" "ids_fresh ids d"
  shows "\<exists>rows msgs. record_event_batch (ax_events (se_api e)) max_items now t ids (User u k)
      (fst (gen_events e utcs raw_user arts g)) d = (Inr (msgs, wrap_i32 (int (length utcs))), d\<lparr>events := events d @ rows\<rparr>) \<and>
    map ev_id rows = ids \<and> list_all2 (echoes (ax_events (se_api e)) t) (fst (gen_events e utcs raw_user arts g)) msgs"
proof -
  let ?reqs = "fst (gen_events e utcs raw_user arts g)"
  note g = gen_events_accepted [OF assms(1-4,6), where g = g and k = k]
  then have "?reqs \<noteq> []" "length ?reqs \<le> max_items" "length ids = length ?reqs"
    using assms(7-9) by auto
  then show ?thesis
    using batch_stored [of "User u k" ?reqs max_items "ax_events (se_api e)" now srv ids d t] g assms(5,10)
    by (auto simp: is_authorized_writer_def)
qed

subsection \<open>Witnesses\<close>

text \<open>A server to seed, where one system and one user have keys, and a generator that always draws the least.\<close>

definition demo_rng :: "nat rng_ext" where
  "demo_rng = \<lparr>rg_range = (\<lambda>lo hi g. (lo, Suc g)), rg_choose = (\<lambda>xs g. (if xs = [] then None else Some (hd xs), g)),
     rg_shuffle = (\<lambda>xs g. (xs, g)), rg_seed = unat\<rparr>"

definition demo_key_files :: "string \<Rightarrow> dir" where
  "demo_key_files name = [(name @ ''.private'', Some (hex_encode (replicate 32 7))), (name @ ''.public'', Some (hex_encode (replicate 32 7)))]"

definition seed_demo :: "((uuid \<times> u8 list) list, u8 list, nat) seed_ext" where
  "seed_demo = \<lparr>se_server = demo_server\<lparr>pv_table := [(''/headlines.v1.UserService/CreateUser'',
       \<lparr>allowed = [AnonymousClass], spec_scopes = []\<rparr>)]\<rparr>,
     se_draws = (\<lambda>n. \<lparr>dw_now = int n, dw_id = 3, dw_key_id = 4, dw_event_ids = of_nat, dw_tso = Inr (from_raw 0)\<rparr>),
     se_validate = (\<lambda>_. demo_validate), se_client = demo_client, se_encode = (\<lambda>_. []), se_now_ms = (\<lambda>_. 1000),
     se_nonce = (\<lambda>n. [of_nat n]), se_utc = (\<lambda>_ _. (1000, 0)), se_sys_ids = (\<lambda>_. (1, 2)),
     se_dir = (\<lambda>kind name. if kind = ''keys'' then
         Some (if name = ''system'' then demo_key_files ''demo-ranker''
               else if name = ''user'' then demo_key_files ''alice'' else [])
       else None),
     se_from_bytes = id, se_markdown = (\<lambda>_. []), se_rfc3339 = (\<lambda>_. None), se_rng = demo_rng\<rparr>"

definition seed_demo_run :: "(uuid \<times> u8 list) list seed_run" where
  "seed_demo_run = \<lparr>sr_state = seed_state_default, sr_file = None, sr_server = demo_server_state, sr_systems = [], sr_tick = 0\<rparr>"

lemma anonymous_call:
  assumes "table_lookup (pv_table s) path = Some spec" "is_allowed Anonymous spec"
  shows "public_call s validate (wire_request path [] bytes) handler st =
    (let (r, d) = handler Anonymous (ss_db st) in (map_err (rpc_tonic_status (pv_errors s)) r, st\<lparr>ss_db := d\<rparr>))"
  using assms
  by (simp add: public_call_def public_listener_def auth_interceptor_call_def wire_request_def get_header_def remove_header_def
        authorization_call_def Let_def split_def)

definition demo_key :: "string \<Rightarrow> u8 list loaded_key" where
  "demo_key name = \<lparr>lk_name = name, lk_signing_key = replicate 32 7, lk_public_b64 = hex_encode (replicate 32 7)\<rparr>"

lemma demo_key_name [simp]: "lk_name (demo_key name) = name"
  by (simp add: demo_key_def)

lemma seed_demo_load: "seed_load_kind seed_demo ''system'' = Inr [demo_key ''demo-ranker'']"
  "seed_load_kind seed_demo ''user'' = Inr [demo_key ''alice'']" "seed_load_kind seed_demo ''account'' = Inr []"
  by code_simp+

definition demo_run1 :: "(uuid \<times> u8 list) list seed_run" where
  "demo_run1 = save_state (snd (seed_system seed_demo (demo_key ''demo-ranker'') seed_demo_run))"

lemma demo_run1_ok: "saved_step (seed_each (seed_system seed_demo) [demo_key ''demo-ranker'']) seed_demo_run = (Inr (), demo_run1)"
proof -
  obtain r run where s: "seed_system seed_demo (demo_key ''demo-ranker'') seed_demo_run = (r, run)"
    by fastforce
  have "is_ok (fst (seed_system seed_demo (demo_key ''demo-ranker'') seed_demo_run))"
    by code_simp
  with s show ?thesis
    by (auto simp: saved_step_def demo_run1_def is_ok_iff)
qed

lemma demo_run1_state: "sr_state demo_run1 = seed_state_default\<lparr>st_systems := [(''demo-ranker'', \<lparr>ir_id = ''a'', ir_key_id = ''aa''\<rparr>)]\<rparr>"
  by code_simp

lemma demo_user_created:
  "is_ok (fst (create_user (se_svc seed_demo) (ax_algos (se_api seed_demo)) (ax_user_mode (se_api seed_demo)) 1 3 4 Anonymous ''Alice Reader''
     (Some \<lparr>pkm_algo = ''ed25519'', pkm_public_key = hex_encode (replicate 32 7)\<rparr>) (sr_db demo_run1)))"
  by code_simp

lemma demo_user_seeded: "\<exists>run r. seed_user seed_demo (demo_key ''alice'') demo_run1 = (Inr (), run) \<and>
    sr_state run = (sr_state demo_run1)\<lparr>st_users := [(''alice'', r)]\<rparr>"
proof -
  have tick: "sr_tick demo_run1 = Suc 0"
    by code_simp
  have table: "table_lookup (pv_table (se_server seed_demo)) ''/headlines.v1.UserService/CreateUser'' =
      Some \<lparr>allowed = [AnonymousClass], spec_scopes = []\<rparr>" "is_allowed Anonymous \<lparr>allowed = [AnonymousClass], spec_scopes = []\<rparr>"
    by (simp_all add: seed_demo_def table_lookup_def is_allowed_def class_matches_def)
  have draws: "dw_now (se_draws seed_demo (Suc 0)) = 1" "dw_id (se_draws seed_demo (Suc 0)) = 3" "dw_key_id (se_draws seed_demo (Suc 0)) = 4"
    by (simp_all add: seed_demo_def)
  have name: "map_of (st_users (sr_state demo_run1)) ''alice'' = None" "map_of USERS ''alice'' = Some ''Alice Reader''"
    by (simp_all add: demo_run1_state seed_state_default_def USERS_def)
  obtain u kid d where c: "create_user (se_svc seed_demo) (ax_algos (se_api seed_demo)) (ax_user_mode (se_api seed_demo)) 1 3 4
      Anonymous ''Alice Reader'' (Some \<lparr>pkm_algo = ''ed25519'', pkm_public_key = hex_encode (replicate 32 7)\<rparr>) (sr_db demo_run1) =
    (Inr (u, kid), d)"
    using demo_user_created by (metis is_ok_iff prod.collapse)
  show ?thesis
    by (simp add: seed_user_def demo_key_def name anonymous_rpc_def send_def tick anonymous_call [OF table] c draws Let_def
        respond_def demo_run1_state seed_state_default_def)
qed

lemma no_account_follows:
  assumes "st_accounts (sr_state run) = []"
  shows "seed_each (seed_user_follows e keys) xs run = (Inr (), run)"
proof -
  have "seed_each (seed_follow e name user kid key) as run = (Inr (), run)" for name user kid key as
    using assms by (induction as) (simp_all add: seed_follow_def)
  then show ?thesis
    by (induction xs) (auto simp: seed_user_follows_def split: option.split)
qed

lemma demo_run_ok: "\<exists>run. run_seed seed_demo 1 False False seed_demo_run = (Inr (), run)"
proof -
  obtain run r where u: "seed_user seed_demo (demo_key ''alice'') demo_run1 = (Inr (), run)"
    "sr_state run = (sr_state demo_run1)\<lparr>st_users := [(''alice'', r)]\<rparr>"
    using demo_user_seeded by blast
  have s: "load_state seed_demo_run = (Inr (), seed_demo_run)"
    by (simp add: load_state_def seed_demo_run_def)
  have same: "save_state demo_run1 = demo_run1"
    by (simp add: demo_run1_def save_state_def)
  have st: "st_accounts (sr_state run) = []" "st_articles (sr_state run) = []" "st_systems (sr_state run) = [(''demo-ranker'', \<lparr>ir_id = ''a'', ir_key_id = ''aa''\<rparr>)]"
    by (simp_all add: u(2) demo_run1_state seed_state_default_def)
  have p: "parse_id seed_demo x = Inr (of_nat (length x))" for x
    by (simp add: parse_id_def seed_demo_def demo_server_def demo_api_def Event.demo_events_def demo_svc_def demo_text_def)
  show ?thesis
    by (simp add: run_seed_def seed_demo_load s run_steps_def demo_run1_ok)
     (simp add: saved_step_def u(1) seed_recommendation_feeds_def seed_events_def no_account_follows st p same Let_def)
qed

theorem seeding_resumes_witness:
  "\<exists>run. run_seed seed_demo 1 False False seed_demo_run = (Inr (), run) \<and> run_seed seed_demo 2 True False run = (Inr (), run)"
  using demo_run_ok seeding_resumes [of seed_demo 1 False False seed_demo_run _ 2] by blast

lemma demo_clocks:
  "tso_now demo_events (Inr (from_parts 100000000 0)) = Inr (100000, 0)"
  "list_all (\<lambda>utc. clocks_close demo_events utc (100000, 0)) [(100000, 0), (99999, 7)]"
  by (simp_all add: tso_now_def demo_events_def physical_ms_from_parts clocks_close_def less_eq_prod_def)

theorem generated_batch_stored_witness:
  "\<exists>rows msgs. record_event_batch demo_events 500 (Inr (from_parts 100000000 0)) 7 [1, 2] (User 4 9)
      (fst (gen_events seed_demo [(100000, 0), (99999, 7)] ''xxxx'' [''xx''] 0)) empty_db = (Inr (msgs, 2), empty_db\<lparr>events := rows\<rparr>) \<and>
    map ev_id rows = [1, 2]"
proof -
  have x: "ax_events (se_api seed_demo) = demo_events"
    by (simp add: seed_demo_def demo_server_def demo_api_def)
  have rng: "rng_ok (se_rng seed_demo)"
    by (simp add: rng_ok_def seed_demo_def demo_rng_def)
  show ?thesis
    using generated_batch_stored [OF rng, of "[''xx'']" "''xxxx''" "of_nat 4" "Inr (from_parts 100000000 0)" "(100000, 0)"
        "[(100000, 0), (99999, 7)]" 500 "[1, 2]" empty_db 7 9 0, unfolded x] demo_clocks
    by (auto simp: demo_events_def demo_svc_def demo_text_def ids_fresh_def lookup_def empty_db_def wrap_i32_def)
qed

end
