(* ===== verification/Server_Config.thy ===== *)
theory Server_Config
  imports Signed_Client
begin

text \<open>
  The configuration of \<open>headlines-server\<close> (\<open>config.rs\<close>, \<open>cli.rs\<close>, \<open>tailscale.rs\<close>) and
  what \<open>main.rs\<close> builds from it: the registry of algorithms, the registration modes, the time
  source, the nonce store, the services and the addresses. \<open>clap\<close> and \<open>figment\<close> are
  third-party code; of \<open>figment\<close> it is relied on that merging overrides key by key. Shown: which
  layer a setting comes from, that no server starts without a database or without the one
  algorithm there is, and for which configurations requests cannot be replayed.
\<close>

subsection \<open>Configuration\<close>

type_synonym u16 = "16 word"

record server_config =
  sco_grpc_host :: string
  sco_grpc_port :: u16
  sco_rest_host :: string
  sco_rest_port :: u16
  sco_rest_gateway_target :: string

record database_config =
  dco_url :: string
  dco_max_connections :: nat

record auth_bootstrap_config =
  bco_user_registration :: string
  bco_account_registration :: string

record auth_time_config =
  tco_source :: string
  tco_horizon_seconds :: u64

record auth_config =
  aco_bootstrap :: auth_bootstrap_config
  aco_time :: auth_time_config
  aco_algorithms_enabled :: "string list"

record observability_config =
  oco_log_level :: string
  oco_log_format :: string
  oco_otlp_endpoint :: string
  oco_service_name :: string

record config =
  co_server :: server_config
  co_database :: database_config
  co_auth :: auth_config
  co_content_max_bytes :: nat
  co_replace_max_items :: nat
  co_batch_max_items :: nat
  co_observability :: observability_config

definition DATABASE_URL_REQUIRED_PLACEHOLDER :: string where
  "DATABASE_URL_REQUIRED_PLACEHOLDER = ''REQUIRED: set HEADLINES_DATABASE__URL or [database].url in config.toml''"

definition DEFAULT_CONTENT_MAX_BYTES :: nat where
  "DEFAULT_CONTENT_MAX_BYTES = 20 * 1024 * 1024"

definition DEFAULT_FEEDS_REPLACE_MAX_ITEMS :: nat where
  "DEFAULT_FEEDS_REPLACE_MAX_ITEMS = 5000"

definition DEFAULT_EVENTS_BATCH_MAX_ITEMS :: nat where
  "DEFAULT_EVENTS_BATCH_MAX_ITEMS = 500"

definition default_config :: config where
  "default_config = \<lparr>
     co_server = \<lparr>sco_grpc_host = ''0.0.0.0'', sco_grpc_port = 50051, sco_rest_host = ''0.0.0.0'',
       sco_rest_port = 8080, sco_rest_gateway_target = ''in_process''\<rparr>,
     co_database = \<lparr>dco_url = DATABASE_URL_REQUIRED_PLACEHOLDER, dco_max_connections = 16\<rparr>,
     co_auth = \<lparr>aco_bootstrap = \<lparr>bco_user_registration = ''open'', bco_account_registration = ''system_only''\<rparr>,
       aco_time = \<lparr>tco_source = ''in_process_tso'', tco_horizon_seconds = 30\<rparr>,
       aco_algorithms_enabled = [''ed25519'']\<rparr>,
     co_content_max_bytes = DEFAULT_CONTENT_MAX_BYTES, co_replace_max_items = DEFAULT_FEEDS_REPLACE_MAX_ITEMS,
     co_batch_max_items = DEFAULT_EVENTS_BATCH_MAX_ITEMS,
     co_observability = \<lparr>oco_log_level = ''info'', oco_log_format = ''json'',
       oco_otlp_endpoint = ''http://otel-collector.internal:4317'', oco_service_name = ''headlines''\<rparr>\<rparr>"

subsection \<open>The command line\<close>

datatype demo_cmd =
    SeedCmd bool string bool u64 "string option"
  | CurlExamples string string
  | InitKeys string

text \<open>\<open>SeedCmd\<close>: reset, path, skip articles, seed of the generator, endpoint.\<close>

record cli =
  cli_config :: "string option"
  cli_grpc_host :: "string option"
  cli_grpc_port :: "u16 option"
  cli_rest_host :: "string option"
  cli_rest_port :: "u16 option"
  cli_skip_migrations :: bool
  cli_command :: "demo_cmd option"

record cli_server_overrides =
  ov_grpc_host :: "string option"
  ov_grpc_port :: "u16 option"
  ov_rest_host :: "string option"
  ov_rest_port :: "u16 option"

definition build_cli_overrides :: "cli \<Rightarrow> cli_server_overrides option" where
  "build_cli_overrides c =
     (if cli_grpc_host c \<noteq> None \<or> cli_grpc_port c \<noteq> None \<or> cli_rest_host c \<noteq> None \<or> cli_rest_port c \<noteq> None
      then Some \<lparr>ov_grpc_host = cli_grpc_host c, ov_grpc_port = cli_grpc_port c,
                 ov_rest_host = cli_rest_host c, ov_rest_port = cli_rest_port c\<rparr>
      else None)"

subsection \<open>Loading\<close>

text \<open>
  The providers of \<open>figment\<close>: the defaults, a TOML file (a missing one fails when the figment is
  extracted), the environment, the flags; merging two of them; decoding.
\<close>

record 'f figment_ext =
  fg_defaults :: "config \<Rightarrow> 'f"
  fg_toml :: "string \<Rightarrow> 'f"
  fg_env :: 'f
  fg_overrides :: "cli_server_overrides \<Rightarrow> 'f"
  fg_merge :: "'f \<Rightarrow> 'f \<Rightarrow> 'f"
  fg_extract :: "'f \<Rightarrow> string + config"

datatype boot_error =
    DecodeConfig string
  | DatabaseUrlRequired
  | InvalidGrpcBind string u16
  | InvalidRestBind string u16
  | InvalidTimeSource string
  | NoAlgorithm
  | UnknownAlgorithm string
  | InvalidBootstrapMode string

definition validate_required_fields :: "config \<Rightarrow> boot_error + unit" where
  "validate_required_fields c =
     (let url = trim (dco_url (co_database c))
      in if url = [] \<or> url = DATABASE_URL_REQUIRED_PLACEHOLDER then Inl DatabaseUrlRequired else Inr ())"

definition config_layers :: "'f figment_ext \<Rightarrow> string option \<Rightarrow> cli \<Rightarrow> 'f" where
  "config_layers fg path c =
     (let f1 = fg_defaults fg default_config;
          f2 = (case path of None \<Rightarrow> f1 | Some p \<Rightarrow> fg_merge fg f1 (fg_toml fg p));
          f3 = fg_merge fg f2 (fg_env fg)
      in case build_cli_overrides c of None \<Rightarrow> f3 | Some ov \<Rightarrow> fg_merge fg f3 (fg_overrides fg ov))"

definition load_with_file :: "'f figment_ext \<Rightarrow> string option \<Rightarrow> cli \<Rightarrow> boot_error + config" where
  "load_with_file fg path c =
     try_res (map_err DecodeConfig (fg_extract fg (config_layers fg path c))) (\<lambda>config.
     try_res (validate_required_fields config) (\<lambda>_. Inr config))"

definition load_config :: "'f figment_ext \<Rightarrow> cli \<Rightarrow> boot_error + config" where
  "load_config fg c = load_with_file fg (cli_config c) c"

subsection \<open>Addresses\<close>

datatype bind_source = Tailscale | FromConfig

record 'a bind_addrs =
  ba_grpc_addr :: 'a
  ba_rest_addr :: 'a
  ba_grpc_host :: string
  ba_rest_host :: string
  ba_source :: bind_source

text \<open>\<open>parse\<close> is \<open>SocketAddr::from_str\<close>.\<close>

definition host_port :: "string \<Rightarrow> u16 \<Rightarrow> string" where
  "host_port host port = host @ '':'' @ show_nat (unat port)"

definition resolve_bind_from ::
  "(string \<Rightarrow> 'a option) \<Rightarrow> server_config \<Rightarrow> string option \<Rightarrow> boot_error + 'a bind_addrs" where
  "resolve_bind_from parse server tailscale_ip =
     (let (grpc_host, rest_host, source) =
            (case map_option trim tailscale_ip of
               Some ip \<Rightarrow> if ip \<noteq> [] then (ip, ip, Tailscale)
                          else (sco_grpc_host server, sco_rest_host server, FromConfig)
             | None \<Rightarrow> (sco_grpc_host server, sco_rest_host server, FromConfig))
      in try_res (ok_or (InvalidGrpcBind grpc_host (sco_grpc_port server))
             (parse (host_port grpc_host (sco_grpc_port server)))) (\<lambda>grpc_addr.
         try_res (ok_or (InvalidRestBind rest_host (sco_rest_port server))
             (parse (host_port rest_host (sco_rest_port server)))) (\<lambda>rest_addr.
         Inr \<lparr>ba_grpc_addr = grpc_addr, ba_rest_addr = rest_addr, ba_grpc_host = grpc_host,
              ba_rest_host = rest_host, ba_source = source\<rparr>)))"

text \<open>The endpoint that the gateway dials, the one of the seeding command, and when it runs at boot.\<close>

definition rest_endpoint :: "string \<Rightarrow> string \<Rightarrow> string" where
  "rest_endpoint trusted_addr target =
     (if target = ''in_process'' then ''http://'' @ trusted_addr
      else if prefix ''http://'' target \<or> prefix ''https://'' target then target
      else ''http://'' @ target)"

definition seed_endpoint :: "server_config \<Rightarrow> string option \<Rightarrow> string" where
  "seed_endpoint server given =
     unwrap_or (''http://'' @ host_port (if sco_grpc_host server = ''0.0.0.0'' then ''127.0.0.1'' else sco_grpc_host server)
       (sco_grpc_port server)) given"

definition seed_on_boot :: "string option \<Rightarrow> bool" where
  "seed_on_boot v = (case v of None \<Rightarrow> False | Some s \<Rightarrow> s \<in> {''1'', ''true'', ''yes''})"

definition accounts_table_empty :: "db \<Rightarrow> bool" where
  "accounts_table_empty d \<longleftrightarrow> length (accounts d) = 0"

subsection \<open>What main builds\<close>

definition saturating_mul :: "u64 \<Rightarrow> u64 \<Rightarrow> u64" where
  "saturating_mul a b = (if unat a * unat b < 2 ^ 64 then a * b else - 1)"

definition parse_bootstrap_mode :: "string \<Rightarrow> boot_error + bootstrap_mode" where
  "parse_bootstrap_mode s =
     (if s = ''open'' then Inr Open
      else if s = ''system_only'' then Inr SystemOnly
      else Inl (InvalidBootstrapMode s))"

fun register_algorithms :: "'k ed_ext \<Rightarrow> string list \<Rightarrow> registry \<Rightarrow> boot_error + registry" where
  "register_algorithms ed [] reg = Inr reg"
| "register_algorithms ed (name # names) reg =
     (if name = ''ed25519'' then register_algorithms ed names (with_algo ''ed25519'' (ed25519_verify ed) reg)
      else Inl (UnknownAlgorithm name))"

definition build_algorithm_registry :: "'k ed_ext \<Rightarrow> config \<Rightarrow> boot_error + registry" where
  "build_algorithm_registry ed cfg =
     (let enabled = aco_algorithms_enabled (co_auth cfg)
      in if enabled = [] then Inl NoAlgorithm else register_algorithms ed enabled registry_new)"

text \<open>
  The two time sources. The oracle reads its high-water row and waits for the clock: the result
  is \<open>None\<close> where that never ends, otherwise the source, the value it starts from and the row.
\<close>

datatype time_source = InProcessSource tso_config | LocalClockSource u64

definition build_time_source ::
  "config \<Rightarrow> int option \<Rightarrow> (nat \<Rightarrow> u64) \<Rightarrow> (boot_error + time_source \<times> u64 \<times> int option) option" where
  "build_time_source cfg row clk =
     (let tco = aco_time (co_auth cfg); source = tco_source tco
      in if source = ''in_process_tso'' then
           let tso_cfg = \<lparr>horizon_ms = saturating_mul (tco_horizon_seconds tco) 1000, flush_interval_ms = 1000\<rparr>;
               (stored, row') = pg_tso_read row
           in map_option (\<lambda>seed. Inr (InProcessSource tso_cfg, seed, row')) (new_with_clock stored tso_cfg clk)
         else if source = ''local_clock'' then Some (Inr (LocalClockSource 30000, 0, row))
         else Some (Inl (InvalidTimeSource source)))"

text \<open>\<open>TimeSourceArc\<close> passes each call on; \<open>wall\<close> and \<open>lst\<close> are the readings it makes.\<close>

fun source_validate :: "time_source \<Rightarrow> u64 \<times> u64 \<Rightarrow> tso \<Rightarrow> time_error + unit" where
  "source_validate (InProcessSource c) (wall, lst) ts = validate_sync (horizon_ms c) wall lst ts"
| "source_validate (LocalClockSource h) (wall, lst) ts = local_validate h wall ts"

fun source_now :: "time_source \<Rightarrow> u64 \<times> u64 \<Rightarrow> (time_error + tso) \<times> u64" where
  "source_now (InProcessSource c) (wall, lst) = issue wall lst"
| "source_now (LocalClockSource h) (wall, lst) = (local_now wall, lst)"

text \<open>\<open>InMemoryNonceStore::new\<close>: the capacity and the horizon in milliseconds.\<close>

definition NONCE_CAPACITY :: nat where
  "NONCE_CAPACITY = 100000"

definition NONCE_HORIZON_MS :: u64 where
  "NONCE_HORIZON_MS = 30000"

definition nonce_store_new :: "'c lru_ops \<Rightarrow> 'c option" where
  "nonce_store_new ops = with_config ops NONCE_CAPACITY"

text \<open>
  The strategy of the server over a run of requests, from the nonce store that \<open>main\<close> makes
  (\<open>None\<close> would be its panic).
\<close>

definition server_run ::
  "text_ext \<Rightarrow> 'c lru_ops \<Rightarrow> registry \<Rightarrow> time_source \<Rightarrow> ((u64 \<times> u64) \<times> resolver \<times> signed_request_parts) list \<Rightarrow>
   (auth_error + subject) list option" where
  "server_run x ops algos src calls =
     map_option (run_auth x algos (source_validate src) (record_nonce ops NONCE_HORIZON_MS) calls) (nonce_store_new ops)"

text \<open>
  The services and the public listener. The closures of \<open>main\<close> hand the same configuration to both
  listeners; \<open>evx\<close> stands for what the event service uses of its crates, \<open>recd\<close> for the store
  of nonces.
\<close>

definition build_services ::
  "event_ext \<Rightarrow> (json \<Rightarrow> string option) \<Rightarrow> registry \<Rightarrow> config \<Rightarrow> boot_error + api_ext" where
  "build_services evx ser algos cfg =
     (let bco = aco_bootstrap (co_auth cfg)
      in try_res (parse_bootstrap_mode (bco_account_registration bco)) (\<lambda>account_bootstrap.
         try_res (parse_bootstrap_mode (bco_user_registration bco)) (\<lambda>user_bootstrap.
         Inr \<lparr>ax_events = evx, ax_algos = (\<lambda>name. map_option (\<lambda>_. ()) (algos name)),
              ax_account_mode = account_bootstrap, ax_user_mode = user_bootstrap, ax_ser = ser,
              ax_content_max = co_content_max_bytes cfg, ax_feed_max = co_replace_max_items cfg,
              ax_batch_max = co_batch_max_items cfg\<rparr>)))"

definition build_public_server ::
  "'k ed_ext \<Rightarrow> event_ext \<Rightarrow> (json \<Rightarrow> string option) \<Rightarrow> http_ext \<Rightarrow> auth_table \<Rightarrow> error_ext \<Rightarrow> 'c lru_ops \<Rightarrow> config \<Rightarrow>
   boot_error + 'c public_server" where
  "build_public_server ed evx ser hx table errs ops cfg =
     try_res (build_algorithm_registry ed cfg) (\<lambda>algos.
     try_res (build_services evx ser algos cfg) (\<lambda>api.
     Inr \<lparr>pv_api = api, pv_http = hx, pv_table = table, pv_algos = algos,
          pv_record = record_nonce ops NONCE_HORIZON_MS, pv_errors = errs\<rparr>))"

subsection \<open>Keys of the configuration\<close>

text \<open>
  A configuration as the entries that its layers hold, and what is relied on of \<open>figment\<close>: a layer
  gives values to dotted keys, merging prefers the later layer key by key, the defaults hold every
  key and the flags those that were given, and decoding reads the keys.
\<close>

datatype fig_value = FStr string | FNum nat | FList "string list"

definition config_entries :: "config \<Rightarrow> (string \<times> fig_value) list" where
  "config_entries c =
     (let s = co_server c; db = co_database c; b = aco_bootstrap (co_auth c); t = aco_time (co_auth c); o1 = co_observability c
      in [(''server.grpc_host'', FStr (sco_grpc_host s)), (''server.grpc_port'', FNum (unat (sco_grpc_port s))),
          (''server.rest_host'', FStr (sco_rest_host s)), (''server.rest_port'', FNum (unat (sco_rest_port s))),
          (''server.rest_gateway_target'', FStr (sco_rest_gateway_target s)),
          (''database.url'', FStr (dco_url db)), (''database.max_connections'', FNum (dco_max_connections db)),
          (''auth.bootstrap.user_registration'', FStr (bco_user_registration b)),
          (''auth.bootstrap.account_registration'', FStr (bco_account_registration b)),
          (''auth.time.source'', FStr (tco_source t)), (''auth.time.horizon_seconds'', FNum (unat (tco_horizon_seconds t))),
          (''auth.algorithms.enabled'', FList (aco_algorithms_enabled (co_auth c))),
          (''articles.content_max_bytes'', FNum (co_content_max_bytes c)),
          (''feeds.replace_max_items'', FNum (co_replace_max_items c)),
          (''events.batch_max_items'', FNum (co_batch_max_items c)),
          (''observability.log_level'', FStr (oco_log_level o1)), (''observability.log_format'', FStr (oco_log_format o1)),
          (''observability.otlp_endpoint'', FStr (oco_otlp_endpoint o1)),
          (''observability.service_name'', FStr (oco_service_name o1))])"

definition override_entries :: "cli_server_overrides \<Rightarrow> string \<Rightarrow> fig_value option" where
  "override_entries ov k =
     (if k = ''server.grpc_host'' then map_option FStr (ov_grpc_host ov)
      else if k = ''server.grpc_port'' then map_option (\<lambda>p. FNum (unat p)) (ov_grpc_port ov)
      else if k = ''server.rest_host'' then map_option FStr (ov_rest_host ov)
      else if k = ''server.rest_port'' then map_option (\<lambda>p. FNum (unat p)) (ov_rest_port ov)
      else None)"

definition config_get :: "config \<Rightarrow> string \<Rightarrow> fig_value option" where
  "config_get c = map_of (config_entries c)"

definition CONFIG_KEYS :: "string list" where
  "CONFIG_KEYS = map fst (config_entries default_config)"

definition later :: "'v option \<Rightarrow> 'v option \<Rightarrow> 'v option" where
  "later a b = (case b of None \<Rightarrow> a | Some v \<Rightarrow> Some v)"

definition figment_laws :: "'f figment_ext \<Rightarrow> ('f \<Rightarrow> string \<Rightarrow> fig_value option) \<Rightarrow> bool" where
  "figment_laws fg get \<longleftrightarrow>
     (\<forall>k\<in>set CONFIG_KEYS.
        (\<forall>a b. get (fg_merge fg a b) k = later (get a k) (get b k)) \<and>
        (\<forall>c. get (fg_defaults fg c) k = config_get c k) \<and>
        (\<forall>ov. get (fg_overrides fg ov) k = override_entries ov k) \<and>
        (\<forall>f c. fg_extract fg f = Inr c \<longrightarrow> config_get c k = get f k))"

text \<open>The flags, as the same function of keys.\<close>

definition flag_get :: "cli \<Rightarrow> string \<Rightarrow> fig_value option" where
  "flag_get c = override_entries \<lparr>ov_grpc_host = cli_grpc_host c, ov_grpc_port = cli_grpc_port c,
     ov_rest_host = cli_rest_host c, ov_rest_port = cli_rest_port c\<rparr>"

lemma later_simps [simp]: "later a None = a" "later a (Some v) = Some v"
  by (simp_all add: later_def)

lemma figment_lawsD:
  assumes "figment_laws fg get" "k \<in> set CONFIG_KEYS"
  shows "get (fg_merge fg a b) k = later (get a k) (get b k)" "get (fg_defaults fg c) k = config_get c k"
    "get (fg_overrides fg ov) k = override_entries ov k" "fg_extract fg f = Inr c \<Longrightarrow> config_get c k = get f k"
proof -
  have "(\<forall>a b. get (fg_merge fg a b) k = later (get a k) (get b k)) \<and> (\<forall>c. get (fg_defaults fg c) k = config_get c k) \<and>
      (\<forall>ov. get (fg_overrides fg ov) k = override_entries ov k) \<and>
      (\<forall>f c. fg_extract fg f = Inr c \<longrightarrow> config_get c k = get f k)"
    using assms unfolding figment_laws_def by (rule bspec)
  then show "get (fg_merge fg a b) k = later (get a k) (get b k)" "get (fg_defaults fg c) k = config_get c k"
    "get (fg_overrides fg ov) k = override_entries ov k" "fg_extract fg f = Inr c \<Longrightarrow> config_get c k = get f k"
    by blast+
qed

lemma flags_merged:
  "build_cli_overrides c = None \<Longrightarrow> flag_get c k = None"
  "build_cli_overrides c = Some ov \<Longrightarrow> flag_get c k = override_entries ov k"
proof -
  show "build_cli_overrides c = None \<Longrightarrow> flag_get c k = None"
    by (simp add: build_cli_overrides_def flag_get_def override_entries_def split: if_splits)
  show "build_cli_overrides c = Some ov \<Longrightarrow> flag_get c k = override_entries ov k"
    unfolding build_cli_overrides_def flag_get_def by (metis option.distinct(1) option.inject)
qed

lemma config_layers_get:
  assumes "figment_laws fg get" "k \<in> set CONFIG_KEYS"
  shows "get (config_layers fg path c) k =
    later (later (later (config_get default_config k) (Option.bind path (\<lambda>p. get (fg_toml fg p) k)))
      (get (fg_env fg) k)) (flag_get c k)"
  by (cases "build_cli_overrides c"; cases path)
    (simp_all add: config_layers_def Let_def figment_lawsD [OF assms] flags_merged)

lemma load_with_file_Inr:
  "load_with_file fg path c = Inr cfg \<longleftrightarrow>
   fg_extract fg (config_layers fg path c) = Inr cfg \<and> trim (dco_url (co_database cfg)) \<noteq> [] \<and>
   trim (dco_url (co_database cfg)) \<noteq> DATABASE_URL_REQUIRED_PLACEHOLDER"
  by (auto simp: load_with_file_def validate_required_fields_def try_res_Inr Let_def)

lemma config_get_url: "config_get c ''database.url'' = Some (FStr (dco_url (co_database c)))"
  by (simp add: config_get_def config_entries_def Let_def)

lemma url_key: "''database.url'' \<in> set CONFIG_KEYS"
  by (simp add: CONFIG_KEYS_def config_entries_def Let_def)

subsection \<open>Properties of loading\<close>

text \<open>Each setting of a configuration that loads comes from the strongest layer that has it:
  the flags, then the environment, then the file, then the defaults; and its database URL is
  neither blank nor the placeholder of the defaults.
\<close>

theorem config_precedence:
  assumes "figment_laws fg get" "load_config fg c = Inr cfg" "k \<in> set CONFIG_KEYS"
  shows "config_get cfg k =
      later (later (later (config_get default_config k) (Option.bind (cli_config c) (\<lambda>p. get (fg_toml fg p) k)))
        (get (fg_env fg) k)) (flag_get c k) \<and>
    trim (dco_url (co_database cfg)) \<notin> {[], DATABASE_URL_REQUIRED_PLACEHOLDER}"
proof -
  have "fg_extract fg (config_layers fg (cli_config c) c) = Inr cfg"
    "trim (dco_url (co_database cfg)) \<notin> {[], DATABASE_URL_REQUIRED_PLACEHOLDER}"
    using assms(2) by (auto simp: load_config_def load_with_file_Inr)
  then show ?thesis
    using figment_lawsD(4) [OF assms(1,3)] config_layers_get [OF assms(1,3)] by simp
qed

text \<open>Without a database there is no server: when neither the file nor the environment sets the
  URL, loading fails, whatever the flags.
\<close>

theorem database_url_required:
  assumes "figment_laws fg get" "Option.bind (cli_config c) (\<lambda>p. get (fg_toml fg p) ''database.url'') = None"
    and "get (fg_env fg) ''database.url'' = None"
  shows "\<exists>e. load_config fg c = Inl e"
proof (cases "load_config fg c")
  case (Inr cfg)
  then have x: "fg_extract fg (config_layers fg (cli_config c) c) = Inr cfg"
    and url: "trim (dco_url (co_database cfg)) \<noteq> DATABASE_URL_REQUIRED_PLACEHOLDER"
    by (auto simp: load_config_def load_with_file_Inr)
  have "config_get cfg ''database.url'' = get (config_layers fg (cli_config c) c) ''database.url''"
    by (rule figment_lawsD(4) [OF assms(1) url_key x])
  also have "\<dots> = config_get default_config ''database.url''"
    using assms(2,3) by (simp add: config_layers_get [OF assms(1) url_key] flag_get_def override_entries_def)
  finally have "dco_url (co_database cfg) = DATABASE_URL_REQUIRED_PLACEHOLDER"
    by (simp add: config_get_url default_config_def)
  moreover have "trim DATABASE_URL_REQUIRED_PLACEHOLDER = DATABASE_URL_REQUIRED_PLACEHOLDER"
    by code_simp
  ultimately show ?thesis
    using url by simp
qed blast

subsection \<open>What starts\<close>

lemma register_algorithms_Inr:
  "register_algorithms ed names reg = Inr reg' \<longleftrightarrow> set names \<subseteq> {''ed25519''} \<and>
   reg' = (if names = [] then reg else reg(''ed25519'' \<mapsto> ed25519_verify ed))"
  by (induction names arbitrary: reg) (auto simp: with_algo_def)

lemma build_algorithm_registry_Inr:
  "build_algorithm_registry ed cfg = Inr reg \<longleftrightarrow> set (aco_algorithms_enabled (co_auth cfg)) = {''ed25519''} \<and>
   reg = [''ed25519'' \<mapsto> ed25519_verify ed]"
  by (cases "aco_algorithms_enabled (co_auth cfg)")
    (auto simp: build_algorithm_registry_def Let_def register_algorithms_Inr registry_new_def simp del: register_algorithms.simps)

text \<open>What a server that starts is able to do: it verifies \<open>ed25519\<close> and nothing else, its two
  registration modes are the configured ones and its limits are the configured ones; and unless
  the configuration names exactly this algorithm and known modes, it does not start.
\<close>

theorem server_starts_iff:
  "build_public_server ed evx ser hx table errs ops cfg = Inr s \<longleftrightarrow>
   set (aco_algorithms_enabled (co_auth cfg)) = {''ed25519''} \<and>
   (\<exists>am um. parse_bootstrap_mode (bco_account_registration (aco_bootstrap (co_auth cfg))) = Inr am \<and>
      parse_bootstrap_mode (bco_user_registration (aco_bootstrap (co_auth cfg))) = Inr um \<and>
      s = \<lparr>pv_api = \<lparr>ax_events = evx, ax_algos = (\<lambda>name. if name = ''ed25519'' then Some () else None),
            ax_account_mode = am, ax_user_mode = um, ax_ser = ser, ax_content_max = co_content_max_bytes cfg,
            ax_feed_max = co_replace_max_items cfg, ax_batch_max = co_batch_max_items cfg\<rparr>,
          pv_http = hx, pv_table = table, pv_algos = [''ed25519'' \<mapsto> ed25519_verify ed],
          pv_record = record_nonce ops NONCE_HORIZON_MS, pv_errors = errs\<rparr>)"
proof -
  have "(\<lambda>name. map_option (\<lambda>_. ()) ([''ed25519'' \<mapsto> ed25519_verify ed] name)) =
      (\<lambda>name. if name = ''ed25519'' then Some () else None)"
    by auto
  then show ?thesis
    by (auto simp: build_public_server_def build_services_def try_res_Inr build_algorithm_registry_Inr Let_def)
qed

text \<open>
  The timestamps that the in-process source accepts lie in the horizon of the nonce store as long
  as its own is no longer.
\<close>

lemma configured_window:
  assumes "unat (tco_horizon_seconds (aco_time (co_auth cfg))) \<le> 30" "tco_source (aco_time (co_auth cfg)) = ''in_process_tso''"
    and "build_time_source cfg row clk = Some (Inr (src, seed, row'))"
  shows "replay_window (source_validate src) in_process_now NONCE_HORIZON_MS"
proof
  fix t ts
  let ?h = "saturating_mul (tco_horizon_seconds (aco_time (co_auth cfg))) 1000"
  have src: "source_validate src t ts = validate_sync ?h (fst t) (snd t) ts"
    using assms(2,3) by (cases t) (auto simp: build_time_source_def Let_def split: prod.splits)
  have "unat ?h \<le> unat NONCE_HORIZON_MS"
    using assms(1) by (simp add: saturating_mul_def NONCE_HORIZON_MS_def unat_word_ariths)
  moreover assume "source_validate src t ts = Inr ()"
  ultimately show "unat (physical_ms ts) \<le> in_process_now t \<and>
      in_process_now t \<le> unat (physical_ms ts) + unat NONCE_HORIZON_MS"
    using in_process.window [of ?h t ts] by (simp add: src)
qed


text \<open>Some run of the server accepts the same request twice.\<close>

definition replays :: "time_source \<Rightarrow> bool" where
  "replays src \<longleftrightarrow>
     (\<exists>calls answers i j t t' rs rs' p s s'. sorted (map (in_process_now \<circ> fst) calls) \<and>
        server_run demo_text list_lru_ops demo_algos src calls = Some answers \<and> i < j \<and> j < length calls \<and>
        calls ! i = (t, rs, p) \<and> calls ! j = (t', rs', p) \<and> answers ! i = Inr s \<and> answers ! j = Inr s')"

definition with_time :: "string \<Rightarrow> u64 \<Rightarrow> config" where
  "with_time source horizon = default_config\<lparr>co_auth := (co_auth default_config)\<lparr>aco_time :=
     \<lparr>tco_source = source, tco_horizon_seconds = horizon\<rparr>\<rparr>\<rparr>"

text \<open>The captured request, another one, the captured one again; and the clock at each.\<close>

definition replay_calls :: "u64 \<Rightarrow> u64 \<Rightarrow> u64 \<Rightarrow> ((u64 \<times> u64) \<times> resolver \<times> signed_request_parts) list" where
  "replay_calls later_ts wall1 wall2 =
     [((1000, 0), demo_resolver, demo_parts),
      ((wall1, 0), demo_resolver, demo_parts\<lparr>srp_ts := from_parts later_ts 0, srp_nonce := [2]\<rparr>),
      ((wall2, 0), demo_resolver, demo_parts)]"

lemmas replay_eval = server_run_def nonce_store_new_def with_config_def NONCE_CAPACITY_def NONCE_HORIZON_MS_def replay_calls_def
  authenticate_inner_def demo_resolver_def demo_algos_def in_memory_resolve_def insert_key_def with_algo_def registry_new_def
  demo_parts_def validate_sync_def local_validate_def saturating_sub_def saturating_add_def physical_ms_from_parts take_bit_u64_id
  Let_def record_nonce_def evict_expired_def expired_def list_lru_ops_def from_raw_def physical_ms_alt [of "Tso 0"]

lemma long_horizon_run:
  "server_run demo_text list_lru_ops demo_algos (InProcessSource \<lparr>horizon_ms = 60000, flush_interval_ms = 1000\<rparr>)
     (replay_calls 32000 32000 33000) = Some [Inr (Account 5 3), Inr (Account 5 3), Inr (Account 5 3)]"
  by (simp add: replay_eval)

lemma local_clock_run:
  "server_run demo_text list_lru_ops demo_algos (LocalClockSource 30000) (replay_calls 31500 2000 3000) =
     Some [Inr (Account 5 3), Inr (Account 5 3), Inr (Account 5 3)]"
  by (simp add: replay_eval)

lemma replaysI:
  assumes "server_run demo_text list_lru_ops demo_algos src (replay_calls l w1 w2) = Some [Inr s, r, Inr s']"
    and "1000 \<le> unat w1" "unat w1 \<le> unat w2"
  shows "replays src"
proof -
  have "sorted (map (in_process_now \<circ> fst) (replay_calls l w1 w2))"
    using assms(2,3) by (simp add: replay_calls_def in_process_now_def from_raw_def physical_ms_alt)
  with assms(1) show ?thesis
    unfolding replays_def
    by (intro exI [of _ "replay_calls l w1 w2"] exI [of _ "[Inr s, r, Inr s']"] exI [of _ 0] exI [of _ "2 :: nat"]
        exI [of _ "(1000, 0)"] exI [of _ "(w2, 0)"] exI [of _ demo_resolver] exI [of _ demo_parts] exI [of _ s] exI [of _ s'])
      (simp add: replay_calls_def)
qed


subsection \<open>Witnesses\<close>

definition demo_cli :: cli where
  "demo_cli = \<lparr>cli_config = Some ''c'', cli_grpc_host = None, cli_grpc_port = Some 60063, cli_rest_host = None,
     cli_rest_port = None, cli_skip_migrations = False, cli_command = None\<rparr>"

definition demo_config :: config where
  "demo_config = default_config\<lparr>co_server := (co_server default_config)\<lparr>sco_grpc_port := 60063\<rparr>,
     co_database := \<lparr>dco_url = ''pg'', dco_max_connections = 32\<rparr>\<rparr>"

definition demo_matches :: "(string \<Rightarrow> fig_value option) \<Rightarrow> bool" where
  "demo_matches m \<longleftrightarrow> list_all (\<lambda>k. config_get demo_config k = m k) CONFIG_KEYS"

definition demo_figment :: "(string \<Rightarrow> fig_value option) figment_ext" where
  "demo_figment = \<lparr>fg_defaults = config_get,
     fg_toml = (\<lambda>_. [''server.grpc_port'' \<mapsto> FNum 60061, ''database.url'' \<mapsto> FStr ''pg'', ''database.max_connections'' \<mapsto> FNum 8]),
     fg_env = [''server.grpc_port'' \<mapsto> FNum 60062, ''database.max_connections'' \<mapsto> FNum 32],
     fg_overrides = override_entries, fg_merge = (\<lambda>a b k. later (a k) (b k)),
     fg_extract = (\<lambda>m. if demo_matches m then Inr demo_config else Inl ''invalid'')\<rparr>"

lemma demo_figment_laws: "figment_laws demo_figment (\<lambda>f. f)"
  unfolding figment_laws_def
proof (intro ballI conjI allI impI)
  fix k f c
  assume "k \<in> set CONFIG_KEYS" "fg_extract demo_figment f = Inr c"
  then have "demo_matches f" "c = demo_config"
    by (simp_all add: demo_figment_def split: if_splits)
  with \<open>k \<in> _\<close> show "config_get c k = f k"
    unfolding demo_matches_def list_all_iff by blast
qed (simp_all add: demo_figment_def)

lemma demo_load: "load_config demo_figment demo_cli = Inr demo_config"
proof -
  have "demo_matches (config_layers demo_figment (cli_config demo_cli) demo_cli)"
    by (simp add: demo_matches_def CONFIG_KEYS_def config_entries_def Let_def config_get_def config_layers_def
        build_cli_overrides_def demo_cli_def demo_figment_def override_entries_def demo_config_def default_config_def)
  moreover have "dco_url (co_database demo_config) = ''pg''"
    by (simp add: demo_config_def)
  moreover have "trim ''pg'' = ''pg''"
    by (rule trim_tokens) (auto simp: token_char_def)
  ultimately show ?thesis
    unfolding load_config_def load_with_file_Inr
    by (simp add: demo_figment_def DATABASE_URL_REQUIRED_PLACEHOLDER_def)
qed

theorem config_precedence_witness:
  "load_config demo_figment demo_cli = Inr demo_config \<and>
   config_get demo_config ''server.grpc_port'' = Some (FNum 60063) \<and>
   config_get demo_config ''database.max_connections'' = Some (FNum 32)"
proof -
  have "''server.grpc_port'' \<in> set CONFIG_KEYS" "''database.max_connections'' \<in> set CONFIG_KEYS"
    by (simp_all add: CONFIG_KEYS_def config_entries_def Let_def)
  from this [THEN config_precedence [OF demo_figment_laws demo_load]] demo_load show ?thesis
    by (simp add: flag_get_def override_entries_def demo_cli_def demo_figment_def)
qed

theorem database_url_required_witness:
  "\<exists>e. load_config demo_figment (demo_cli\<lparr>cli_config := None\<rparr>) = Inl e"
  by (rule database_url_required [OF demo_figment_laws]) (simp_all add: demo_figment_def)


end
