(* ===== verification/Seed_Command.thy ===== *)
theory Seed_Command
  imports Seed_Rerun Server_Config
begin

text \<open>
  The commands around the seeding: generating the key files (\<open>ensure_keys\<close> of \<open>keys.rs\<close>), the
  \<open>demo\<close> subcommand and the seeding at boot (\<open>main.rs\<close>). Shown: the key files that are generated
  load again, in order and with the keys that were drawn, and generating them again changes nothing.
\<close>

subsection \<open>Key files\<close>

text \<open>The random key pairs, counted, with the bytes of their two halves.\<close>

record 'k keygen_ext =
  kg_draw :: "nat \<Rightarrow> 'k"
  kg_bytes :: "'k \<Rightarrow> u8 list"
  kg_public :: "'k \<Rightarrow> u8 list"

definition path_exists :: "string \<Rightarrow> dir \<Rightarrow> bool" where
  "path_exists f d \<longleftrightarrow> f \<in> fst ` set d"

definition write_file :: "string \<Rightarrow> string \<Rightarrow> dir \<Rightarrow> dir" where
  "write_file f c d = AList.update f (Some c) d"

definition key_file :: "text_ext \<Rightarrow> u8 list \<Rightarrow> string" where
  "key_file x bytes = b64_encode x bytes @ [CHR 0x0A]"

definition ensure_key :: "text_ext \<Rightarrow> 'k keygen_ext \<Rightarrow> string \<Rightarrow> nat \<times> dir \<Rightarrow> nat \<times> dir" where
  "ensure_key x kg name nd =
     (let (n, d) = nd; priv_path = name @ ''.private''; pub_path = name @ ''.public''
      in if path_exists priv_path d \<and> path_exists pub_path d then (n, d)
         else let sk = kg_draw kg n
              in (Suc n, write_file pub_path (key_file x (kg_public kg sk)) (write_file priv_path (key_file x (kg_bytes kg sk)) d)))"

text \<open>The directory is made if it is missing.\<close>

definition ensure_keys :: "text_ext \<Rightarrow> 'k keygen_ext \<Rightarrow> string list \<Rightarrow> nat \<Rightarrow> dir option \<Rightarrow> nat \<times> dir" where
  "ensure_keys x kg names n dir = fold (ensure_key x kg) names (n, unwrap_or [] dir)"

definition SYSTEM_NAMES :: "string list" where
  "SYSTEM_NAMES = [''demo-ranker'', ''demo-admin'']"

definition ACCOUNT_NAMES :: "string list" where
  "ACCOUNT_NAMES = [''techblog'', ''worldnews'', ''tutorials'', ''opinion'', ''videos'']"

definition USER_NAMES :: "string list" where
  "USER_NAMES = [''alice'', ''bob'', ''carol'', ''dave'', ''eve'', ''frank'', ''grace'']"

definition ensure_canonical_keys ::
  "text_ext \<Rightarrow> 'k keygen_ext \<Rightarrow> (string \<Rightarrow> dir option) \<Rightarrow> nat \<Rightarrow> nat \<times> (string \<Rightarrow> dir option)" where
  "ensure_canonical_keys x kg dirs n =
     (let (n1, systems) = ensure_keys x kg SYSTEM_NAMES n (dirs ''system'');
          (n2, accts) = ensure_keys x kg ACCOUNT_NAMES n1 (dirs ''account'');
          (n3, usrs) = ensure_keys x kg USER_NAMES n2 (dirs ''user'')
      in (n3, dirs(''system'' \<mapsto> systems, ''account'' \<mapsto> accts, ''user'' \<mapsto> usrs)))"

subsection \<open>Examples to print\<close>

definition curl_lines :: "string \<Rightarrow> string \<Rightarrow> seed_state \<Rightarrow> string list" where
  "curl_lines path base_url s =
     [''# headlines demo '' @ [CHR 0xE2, CHR 0x80, CHR 0x94] @ '' copy-pasteable curl examples'',
      ''# All read endpoints below are anonymous-readable. Signed'',
      ''# endpoints would require a fresh signature each call; we'',
      ''# print only the unsigned readable surface here.'', []] @
     (case map_of (st_users s) ''alice'' of None \<Rightarrow> []
      | Some alice \<Rightarrow> [''# Alice'' @ [CHR 0x27] @ ''s user record'', ''curl '' @ base_url @ ''/v1/users/'' @ ir_id alice, []]) @
     (case map_of (st_accounts s) ''techblog'' of None \<Rightarrow> []
      | Some techblog \<Rightarrow>
          [''# techblog account'', ''curl '' @ base_url @ ''/v1/accounts/'' @ ir_id techblog, [],
           ''# techblog articles (anonymous-readable list)'',
           ''curl '' @ base_url @ ''/v1/accounts/'' @ ir_id techblog @ ''/articles'', []]) @
     (case st_articles s of [] \<Rightarrow> []
      | (_, art_id) # _ \<Rightarrow> [''# A single article (anonymous-readable)'', ''curl '' @ base_url @ ''/v1/articles/'' @ art_id, []]) @
     [''# Full grpcurl example: list accounts via gRPC'',
      ''grpcurl -plaintext localhost:50051 list headlines.v1.AccountService'', [],
      ''# To run authenticated requests, use the keypairs in'',
      ''# '' @ path @ ''/keys and the canonical signing format documented'',
      ''# in docs/design/auth.md.'']"

definition print_curl_examples :: "string \<Rightarrow> string \<Rightarrow> 'c seed_run \<Rightarrow> seed_error + string list" where
  "print_curl_examples path base_url run =
     (let (r, run1) = load_state run
      in try_res r (\<lambda>_. Inr
        (if st_accounts (sr_state run1) = []
         then [''No seed-state.json found at '' @ path @ ''/seed-state.json.'', ''Run: headlines-server demo seed'']
         else curl_lines path base_url (sr_state run1))))"

subsection \<open>The commands\<close>

datatype demo_error = BootFailed boot_error | SeedFailed seed_error

datatype demo_output = KeysPresent "string \<Rightarrow> dir option" | Printed "string list" | Seeded

text \<open>
  \<open>demo\<close>: generate keys, print examples, or seed the server at the given endpoint from the files
  at the given path; \<open>env\<close> stands for both, and for the database that the configuration names.
\<close>

definition run_demo_subcommand ::
  "'f figment_ext \<Rightarrow> text_ext \<Rightarrow> 'k keygen_ext \<Rightarrow> (string \<Rightarrow> string \<Rightarrow> dir option) \<Rightarrow>
   (string \<Rightarrow> string \<Rightarrow> string \<Rightarrow> ('c, 'k, 'g) seed_ext) \<Rightarrow> demo_cmd \<Rightarrow> cli \<Rightarrow> 'c seed_run \<Rightarrow>
   (demo_error + demo_output) \<times> 'c seed_run" where
  "run_demo_subcommand fg x kg files env cmd c run =
     (case cmd of
        InitKeys path \<Rightarrow> (Inr (KeysPresent (snd (ensure_canonical_keys x kg (files path) 0))), run)
      | CurlExamples path base_url \<Rightarrow>
          (map_err SeedFailed (try_res (print_curl_examples path base_url run) (\<lambda>ls. Inr (Printed ls))), run)
      | SeedCmd reset path skip_articles rng_seed given \<Rightarrow>
          try_st (map_err BootFailed (load_config fg c)) run (\<lambda>config.
          let endpoint = seed_endpoint (co_server config) given;
              (r, run1) = run_seed (env (dco_url (co_database config)) endpoint path) rng_seed skip_articles reset run
          in try_st (map_err SeedFailed r) run1 (\<lambda>_. (Inr Seeded, run1))))"

text \<open>
  The task at boot: it seeds when the variable asks for it and there is no account yet. A failure
  is only logged; \<open>None\<close> stands for a seeding that was not started.
\<close>

definition boot_seed ::
  "string option \<Rightarrow> ('c, 'k, 'g) seed_ext \<Rightarrow> 'c seed_run \<Rightarrow> (seed_error + unit) option \<times> 'c seed_run" where
  "boot_seed var e run =
     (if seed_on_boot var \<and> accounts_table_empty (sr_db run)
      then let (r, run1) = run_seed e 42 False False run in (Some r, run1)
      else (None, run))"

subsection \<open>Generated keys load again\<close>

lemma trim_newline:
  assumes "\<And>c. c \<in> set s \<Longrightarrow> token_char c"
  shows "trim (s @ [CHR 0x0A]) = s"
proof (cases "s = []")
  case True
  then show ?thesis
    by (simp add: trim_def strip_all.simps ws_encodings_def)
next
  case False
  then have "s @ [CHR 0x0A] = [] \<or> token_char (hd (s @ [CHR 0x0A]))" "rev s = [] \<or> token_char (hd (rev s))"
    using assms [of "hd s"] assms [of "List.last s"] by (simp_all add: hd_rev)
  then have "strip_all ws_encodings (s @ [CHR 0x0A]) = s @ [CHR 0x0A]" "strip_all (map rev ws_encodings) (rev s) = rev s"
    by (simp_all only: strip_all_head ws_not_token not_False_eq_True)
  moreover have "strip_all (map rev ws_encodings) (CHR 0x0A # rev s) = strip_all (map rev ws_encodings) (rev s)"
    by (subst strip_all.simps) (simp add: ws_encodings_def)
  ultimately show ?thesis
    by (simp add: trim_def)
qed

lemma update_new: "k \<notin> fst ` set al \<Longrightarrow> AList.update k v al = al @ [(k, v)]"
  by (induction al) auto

lemma private_not_public [simp]: "a @ ''.private'' \<noteq> b @ ''.public''" "b @ ''.public'' \<noteq> a @ ''.private''"
  by (auto dest: arg_cong [where f = List.last])

definition key_files :: "text_ext \<Rightarrow> 'k keygen_ext \<Rightarrow> string \<times> nat \<Rightarrow> dir" where
  "key_files x kg e = [(fst e @ ''.private'', Some (key_file x (kg_bytes kg (kg_draw kg (snd e))))),
     (fst e @ ''.public'', Some (key_file x (kg_public kg (kg_draw kg (snd e)))))]"

definition generated_key :: "text_ext \<Rightarrow> 'k keygen_ext \<Rightarrow> string \<times> nat \<Rightarrow> 'k loaded_key" where
  "generated_key x kg e = \<lparr>lk_name = fst e, lk_signing_key = kg_draw kg (snd e),
     lk_public_b64 = b64_encode x (kg_public kg (kg_draw kg (snd e)))\<rparr>"

lemma ensure_keys_new:
  assumes "distinct names" "\<forall>name \<in> set names. \<not> path_exists (name @ ''.private'') d \<and> \<not> path_exists (name @ ''.public'') d"
  shows "fold (ensure_key x kg) names (n, d) =
    (n + length names, d @ concat (map (key_files x kg) (zip names [n..<n + length names])))"
  using assms
proof (induction names arbitrary: n d)
  case (Cons name names)
  let ?d = "d @ key_files x kg (name, n)"
  have "ensure_key x kg name (n, d) = (Suc n, ?d)"
    using Cons.prems(2) by (simp add: ensure_key_def path_exists_def write_file_def key_files_def update_new Let_def)
  moreover have "\<forall>nm \<in> set names. \<not> path_exists (nm @ ''.private'') ?d \<and> \<not> path_exists (nm @ ''.public'') ?d"
    using Cons.prems by (auto simp: path_exists_def key_files_def)
  moreover have "[n..<n + length (name # names)] = n # [Suc n..<Suc n + length names]"
    by (simp add: upt_conv_Cons del: upt_Suc)
  ultimately show ?case
    using Cons.IH [of ?d "Suc n"] Cons.prems(1) by (simp del: upt_Suc)
qed simp

lemma has_ext_key: "has_ext ''private'' (name @ ''.private'') \<longleftrightarrow> name \<noteq> []" "\<not> has_ext ''private'' (name @ ''.public'')"
  by (auto simp: has_ext_def suffix_def)

lemma key_names:
  assumes "[] \<notin> fst ` set es"
  shows "map (\<lambda>f. take (length (fst f) - length ''.private'') (fst f))
      (filter (\<lambda>f. has_ext ''private'' (fst f)) (concat (map (key_files x kg) es))) = map fst es"
  using assms by (induction es) (auto simp: key_files_def has_ext_key)

lemma key_files_read:
  assumes "distinct (map fst es)" "e \<in> set es"
  shows "map_of (concat (map (key_files x kg) es)) (fst e @ ''.private'') = Some (Some (key_file x (kg_bytes kg (kg_draw kg (snd e)))))"
    "map_of (concat (map (key_files x kg) es)) (fst e @ ''.public'') = Some (Some (key_file x (kg_public kg (kg_draw kg (snd e)))))"
  using assms
  by (induction es) (auto simp: key_files_def map_add_def split: option.split dest!: map_of_SomeD)

lemma sort_names: "sort (map fst es) = map fst (sort_key fst es)"
  by (rule properties_for_sort) (simp_all only: mset_map mset_sort sorted_sort_key)

lemma map_res_map: "map_res f (map g xs) = map_res (\<lambda>x. f (g x)) xs"
  by (induction xs) auto

lemma key_file_tokens:
  assumes "text_ext_ok x"
  shows "trim (key_file x bs) = b64_encode x bs" "b64_decode x (b64_encode x bs) = Some bs"
proof -
  have b: "token_codec (b64_encode x) (b64_decode x)"
    using assms by (simp add: text_ext_ok_def)
  show "trim (key_file x bs) = b64_encode x bs"
    unfolding key_file_def by (rule trim_newline) (rule token_codec.enc_chars [OF b])
  show "b64_decode x (b64_encode x bs) = Some bs"
    by (rule token_codec.dec_enc [OF b])
qed

lemma keys_present_skipped:
  assumes "\<forall>name \<in> set names. path_exists (name @ ''.private'') d \<and> path_exists (name @ ''.public'') d"
  shows "fold (ensure_key x kg) names (n, d) = (n, d)"
  using assms by (induction names) (simp_all add: ensure_key_def)

text \<open>Generated key files load again: in a directory that was missing, files are made for all
  names, loading them gives the keys that were drawn, in the order of their names, each with its
  public half; and generating them again draws nothing and changes nothing.
\<close>

theorem ensured_keys_load:
  fixes names :: "string list" and n m :: nat
  assumes "text_ext_ok x" "distinct names" "[] \<notin> set names"
    and "\<forall>i. length (kg_bytes kg (kg_draw kg i)) = 32 \<and> from_bytes (kg_bytes kg (kg_draw kg i)) = kg_draw kg i"
  defines "d \<equiv> snd (ensure_keys x kg names n None)"
  shows "load_kind x from_bytes (Some d) =
      Inr (map (generated_key x kg) (sort_key fst (zip names [n..<n + length names]))) \<and>
    ensure_keys x kg names m (Some d) = (m, d)"
proof -
  let ?es = "zip names [n..<n + length names]"
  have names: "map fst ?es = names" "distinct (map fst ?es)" "[] \<notin> fst ` set ?es"
    using assms(2,3) by (simp_all flip: set_map)
  have d: "d = concat (map (key_files x kg) ?es)"
    using ensure_keys_new [OF assms(2), of "[]" x kg n] by (simp add: d_def ensure_keys_def path_exists_def)
  have "load_pair x from_bytes (\<lambda>f. Option.bind (map_of d f) (\<lambda>c. c)) (fst e) = Inr (generated_key x kg e)" if "e \<in> set ?es" for e
    using key_files_read [OF names(2) that, of x kg] assms(4) key_file_tokens [OF assms(1)]
    by (simp add: d load_pair_def generated_key_def Let_def)
  then have "map_res (\<lambda>e. load_pair x from_bytes (\<lambda>f. Option.bind (map_of d f) (\<lambda>c. c)) (fst e)) (sort_key fst ?es) =
      Inr (map (generated_key x kg) (sort_key fst ?es))"
    by (intro map_res_total) simp
  then have "load_kind x from_bytes (Some d) = Inr (map (generated_key x kg) (sort_key fst ?es))"
    by (simp only: load_kind_def option.case Let_def d key_names [OF names(3)] sort_names map_res_map)
  moreover have "\<forall>name \<in> set names. path_exists (name @ ''.private'') d \<and> path_exists (name @ ''.public'') d"
  proof
    fix name
    assume "name \<in> set names"
    then obtain e where "e \<in> set ?es" "fst e = name"
      using names(1) by (metis imageE image_set)
    then show "path_exists (name @ ''.private'') d \<and> path_exists (name @ ''.public'') d"
      unfolding path_exists_def d using key_files_read [OF names(2), of e x kg] by (metis map_of_eq_None_iff option.distinct(1))
  qed
  ultimately show ?thesis
    using keys_present_skipped by (simp add: ensure_keys_def)
qed

definition demo_keygen :: "u8 list keygen_ext" where
  "demo_keygen = \<lparr>kg_draw = (\<lambda>i. replicate 32 (of_nat i)), kg_bytes = id, kg_public = rev\<rparr>"

theorem ensured_keys_load_witness:
  "load_kind demo_text id (Some (snd (ensure_keys demo_text demo_keygen SYSTEM_NAMES 5 None))) =
     Inr (map (generated_key demo_text demo_keygen) [(''demo-admin'', 6), (''demo-ranker'', 5)])"
proof -
  have "sort_key fst (zip SYSTEM_NAMES [5..<5 + length SYSTEM_NAMES]) = [(''demo-admin'', 6), (''demo-ranker'', 5)]"
    by code_simp
  then show ?thesis
    using ensured_keys_load [of demo_text SYSTEM_NAMES demo_keygen id 5 0] demo_text_ok
    by (simp add: SYSTEM_NAMES_def demo_keygen_def)
qed

end
