(* ===== verification/Auth_Table.thy ===== *)
theory Auth_Table
  imports Authorize
begin

text \<open>
  The authorization table (\<open>headlines-proto/build.rs\<close>). The build script reads the descriptors
  that \<open>protoc\<close> writes for the \<open>.proto\<close> files: it walks their bytes itself, collects the
  authorization requirement of every method and emits the table that the authorization layer
  consults. The table of the repository is written out from the annotations in
  \<open>proto/headlines/v1\<close>. Shown: scanning the encoding of descriptors gives their requirements, or
  the error that fails the build when a method has none.

  The script is taken as built with overflow checks, where an overflow panics; on a malformed tag
  at the top level it does not end, so its outermost loop is a partial function.
\<close>

unbundle bit_operations_syntax

subsection \<open>Varints\<close>

datatype scan_error =
    VarintTooLong
  | TruncatedField
  | TruncatedEnum
  | TruncatedString
  | UnexpectedWire nat
  | BadUtf8
  | UnknownClass int
  | MissingAuth string
  | ScanPanic

text \<open>At most ten bytes; the bits beyond the width of \<open>u64\<close> are lost in the shift.\<close>

fun varint_loop :: "nat \<Rightarrow> u64 \<Rightarrow> u8 list \<Rightarrow> scan_error + u64 \<times> nat" where
  "varint_loop i val [] = Inl VarintTooLong"
| "varint_loop i val (b # bytes) =
     (if 10 \<le> i then Inl VarintTooLong
      else let val = val OR push_bit (7 * i) (ucast (b AND 0x7F))
           in if b AND 0x80 = 0 then Inr (val, i + 1) else varint_loop (i + 1) val bytes)"

definition decode_varint :: "u8 list \<Rightarrow> scan_error + u64 \<times> nat" where
  "decode_varint bytes = varint_loop 0 0 bytes"

lemma varint_loop_length: "varint_loop i val bytes = Inr (v, n) \<Longrightarrow> i < n \<and> n \<le> i + length bytes"
proof (induction i val bytes rule: varint_loop.induct)
  case (2 i val b bytes)
  then show ?case
    by (force simp: Let_def split: if_splits)
qed simp

lemma decode_varint_length: "decode_varint bytes = Inr (v, n) \<Longrightarrow> 0 < n \<and> n \<le> length bytes"
  using varint_loop_length [of 0 0 bytes v n] by (simp add: decode_varint_def)

subsection \<open>Strings\<close>

definition utf8_cont :: "u8 \<Rightarrow> bool" where
  "utf8_cont b \<longleftrightarrow> 0x80 \<le> b \<and> b \<le> 0xBF"

text \<open>\<open>str::from_utf8\<close>: the well-formed sequences, without surrogates and overlong forms.\<close>

fun utf8_valid :: "u8 list \<Rightarrow> bool" where
  "utf8_valid [] \<longleftrightarrow> True"
| "utf8_valid (a # s) \<longleftrightarrow>
     (if a < 0x80 then utf8_valid s
      else if 0xC2 \<le> a \<and> a \<le> 0xDF then
        (case s of b # s' \<Rightarrow> utf8_cont b \<and> utf8_valid s' | [] \<Rightarrow> False)
      else if 0xE0 \<le> a \<and> a \<le> 0xEF then
        (case s of b # c # s' \<Rightarrow>
            (if a = 0xE0 then 0xA0 \<le> b \<and> b \<le> 0xBF else if a = 0xED then 0x80 \<le> b \<and> b \<le> 0x9F else utf8_cont b) \<and>
            utf8_cont c \<and> utf8_valid s'
         | _ \<Rightarrow> False)
      else if 0xF0 \<le> a \<and> a \<le> 0xF4 then
        (case s of b # c # d # s' \<Rightarrow>
            (if a = 0xF0 then 0x90 \<le> b \<and> b \<le> 0xBF else if a = 0xF4 then 0x80 \<le> b \<and> b \<le> 0x8F else utf8_cont b) \<and>
            utf8_cont c \<and> utf8_cont d \<and> utf8_valid s'
         | _ \<Rightarrow> False)
      else False)"

definition from_utf8 :: "u8 list \<Rightarrow> scan_error + string" where
  "from_utf8 bytes = (if utf8_valid bytes then Inr (map (\<lambda>b. char_of (unat b)) bytes) else Inl BadUtf8)"

subsection \<open>The scanner\<close>

text \<open>
  A scanner is its position and the bytes from there on. A frame is a field number, its wire type
  and its body, or the error of a malformed one, and the scanner after it.
\<close>

datatype frame = Panicked | Frame (frame_field: nat) (frame_wire: nat) (frame_body: "scan_error + u8 list") (frame_pos: nat) (frame_rest: "u8 list")

text \<open>A body of fixed size: the slice panics where the bytes do not reach.\<close>

definition fixed_frame :: "nat \<Rightarrow> nat \<Rightarrow> nat \<Rightarrow> nat \<Rightarrow> u8 list \<Rightarrow> frame" where
  "fixed_frame field_no wire width pos bytes =
     (if length bytes < width then Panicked
      else Frame field_no wire (Inr (take width bytes)) (pos + width) (drop width bytes))"

definition scan_next :: "nat \<Rightarrow> u8 list \<Rightarrow> frame option" where
  "scan_next pos bytes =
     (if bytes = [] then None
      else Some (case decode_varint bytes of
          Inl e \<Rightarrow> Frame 0 0 (Inl e) pos bytes
        | Inr (tag, n) \<Rightarrow>
            let pos = pos + n; bytes = drop n bytes;
                field_no = unat (ucast (drop_bit 3 tag) :: u32); wire = unat (tag AND 7)
            in if wire = 0 then
                 (case decode_varint bytes of
                    Inl e \<Rightarrow> Frame field_no wire (Inl e) pos bytes
                  | Inr (_, n) \<Rightarrow> Frame field_no wire (Inr (take n bytes)) (pos + n) (drop n bytes))
               else if wire = 1 then fixed_frame field_no wire 8 pos bytes
               else if wire = 2 then
                 (case decode_varint bytes of
                    Inl e \<Rightarrow> Frame field_no wire (Inl e) pos bytes
                  | Inr (len, n) \<Rightarrow>
                      let pos = pos + n; bytes = drop n bytes
                      in if 2 ^ 64 \<le> pos + unat len then Panicked
                         else if length bytes < unat len then Frame field_no wire (Inl TruncatedField) pos bytes
                         else Frame field_no wire (Inr (take (unat len) bytes)) (pos + unat len) (drop (unat len) bytes))
               else if wire = 5 then fixed_frame field_no wire 4 pos bytes
               else Frame field_no wire (Inl (UnexpectedWire wire)) pos bytes))"

lemma fixed_frame_shrinks: "fixed_frame f w width pos bytes = Frame f' w' (Inr b) pos' rest \<Longrightarrow> length rest \<le> length bytes"
  by (auto simp: fixed_frame_def split: if_splits)

lemma scan_next_shrinks:
  assumes "scan_next pos bytes = Some (Frame f w (Inr b) pos' rest)"
  shows "length rest < length bytes"
proof -
  from assms obtain tag n where d: "decode_varint bytes = Inr (tag, n)"
    by (auto simp: scan_next_def split: if_splits sum.splits)
  with assms have "length rest \<le> length (drop n bytes)"
    by (auto simp: scan_next_def Let_def dest: fixed_frame_shrinks split: if_splits sum.splits prod.splits)
  then show ?thesis
    using decode_varint_length [OF d] by (simp, arith)
qed

text \<open>The loops that look at every frame of a message, and stop at the first malformed one.\<close>

function wire_each :: "(nat \<Rightarrow> u8 list \<Rightarrow> 's \<Rightarrow> scan_error + 's) \<Rightarrow> nat \<Rightarrow> u8 list \<Rightarrow> 's \<Rightarrow> scan_error + 's" where
  "wire_each f pos bytes s =
     (case scan_next pos bytes of
        None \<Rightarrow> Inr s
      | Some Panicked \<Rightarrow> Inl ScanPanic
      | Some (Frame field_no _ body pos' bytes') \<Rightarrow>
          (case body of
             Inl e \<Rightarrow> Inl e
           | Inr b \<Rightarrow> (case f field_no b s of Inl e \<Rightarrow> Inl e | Inr s' \<Rightarrow> wire_each f pos' bytes' s')))"
  by pat_completeness auto
termination
  by (relation "measure (\<lambda>(f, pos, bytes, s). length bytes)") (auto dest: scan_next_shrinks)

declare wire_each.simps [simp del]

subsection \<open>Requirements\<close>

record auth_requirement =
  rq_allowed :: "string list"
  rq_scopes :: "string list"

record auth_entry =
  ae_full_method :: string
  ae_allowed :: "string list"
  ae_scopes :: "string list"

definition subject_class_name :: "int \<Rightarrow> scan_error + string" where
  "subject_class_name val =
     (if val = 1 then Inr ''Anonymous''
      else if val = 2 then Inr ''UserSelf''
      else if val = 3 then Inr ''AccountSelf''
      else if val = 4 then Inr ''AccountOwnsResource''
      else if val = 5 then Inr ''System''
      else Inl (UnknownClass val))"

text \<open>\<open>val as i32\<close>, of a \<open>u64\<close>.\<close>

definition u64_as_i32 :: "u64 \<Rightarrow> int" where
  "u64_as_i32 v = sint (ucast v :: 32 word)"

definition push_class :: "u64 \<Rightarrow> auth_requirement \<Rightarrow> scan_error + auth_requirement" where
  "push_class val out =
     try_res (subject_class_name (u64_as_i32 val)) (\<lambda>name. Inr (out\<lparr>rq_allowed := rq_allowed out @ [name]\<rparr>))"

text \<open>
  The packed enumeration: \<open>left\<close> bytes are to be read, but each number is decoded from all the
  bytes that follow.
\<close>

function packed_loop :: "nat \<Rightarrow> u8 list \<Rightarrow> auth_requirement \<Rightarrow> scan_error + auth_requirement" where
  "packed_loop left bytes out =
     (if left = 0 then Inr out
      else case decode_varint bytes of
             Inl e \<Rightarrow> Inl e
           | Inr (val, n) \<Rightarrow>
               (case push_class val out of
                  Inl e \<Rightarrow> Inl e
                | Inr out' \<Rightarrow> packed_loop (left - n) (drop n bytes) out'))"
  by pat_completeness auto
termination
  by (relation "measure (\<lambda>(left, bytes, out). left)") (auto dest: decode_varint_length)

declare packed_loop.simps [simp del]

text \<open>What follows the cursor when a value of the wire type is skipped; it may lie past the end.\<close>

definition skip_wire_value :: "nat \<Rightarrow> u8 list \<Rightarrow> nat \<Rightarrow> scan_error + nat \<times> u8 list" where
  "skip_wire_value cursor bytes wire =
     (if wire = 0 then try_res (decode_varint bytes) (\<lambda>(_, n). Inr (cursor + n, drop n bytes))
      else if wire = 1 then Inr (cursor + 8, drop 8 bytes)
      else if wire = 2 then
        try_res (decode_varint bytes) (\<lambda>(len, n).
        if 2 ^ 64 \<le> cursor + n + unat len then Inl ScanPanic
        else Inr (cursor + n + unat len, drop (n + unat len) bytes))
      else if wire = 5 then Inr (cursor + 4, drop 4 bytes)
      else Inl (UnexpectedWire wire))"

text \<open>One field of a requirement: the new cursor, the bytes from there on, and the requirement.\<close>

definition decode_auth_field ::
  "nat \<Rightarrow> u8 list \<Rightarrow> auth_requirement \<Rightarrow> scan_error + nat \<times> u8 list \<times> auth_requirement" where
  "decode_auth_field cursor bytes out =
     try_res (decode_varint bytes) (\<lambda>(tag, n).
     let cursor = cursor + n; bytes = drop n bytes;
         field_no = unat (ucast (drop_bit 3 tag) :: u32); wire = unat (tag AND 7)
     in if field_no = 1 \<and> wire = 0 then
          try_res (decode_varint bytes) (\<lambda>(val, n).
          try_res (push_class val out) (\<lambda>out. Inr (cursor + n, drop n bytes, out)))
        else if field_no = 1 \<and> wire = 2 then
          try_res (decode_varint bytes) (\<lambda>(len, n).
          let cursor = cursor + n; bytes = drop n bytes
          in if 2 ^ 64 \<le> cursor + unat len then Inl ScanPanic
             else if length bytes < unat len then Inl TruncatedEnum
             else try_res (packed_loop (unat len) bytes out) (\<lambda>out.
                  Inr (cursor + unat len, drop (unat len) bytes, out)))
        else if field_no = 2 \<and> wire = 2 then
          try_res (decode_varint bytes) (\<lambda>(len, n).
          let cursor = cursor + n; bytes = drop n bytes
          in if 2 ^ 64 \<le> cursor + unat len then Inl ScanPanic
             else if length bytes < unat len then Inl TruncatedString
             else try_res (from_utf8 (take (unat len) bytes)) (\<lambda>s.
                  Inr (cursor + unat len, drop (unat len) bytes, out\<lparr>rq_scopes := rq_scopes out @ [s]\<rparr>)))
        else try_res (skip_wire_value cursor bytes wire) (\<lambda>(cursor, bytes). Inr (cursor, bytes, out)))"

lemma skip_wire_value_shrinks: "skip_wire_value cursor bytes wire = Inr (c, rest) \<Longrightarrow> length rest \<le> length bytes"
  by (auto simp: skip_wire_value_def try_res_Inr split: if_splits)

lemma decode_auth_field_shrinks:
  assumes "decode_auth_field cursor bytes out = Inr (c, rest, out')"
  shows "length rest < length bytes"
proof -
  from assms obtain tag n where d: "decode_varint bytes = Inr (tag, n)"
    by (auto simp: decode_auth_field_def try_res_Inr)
  with assms have "length rest \<le> length (drop n bytes)"
    by (auto simp: decode_auth_field_def try_res_Inr Let_def dest: skip_wire_value_shrinks split: if_splits)
  then show ?thesis
    using decode_varint_length [OF d] by (simp, arith)
qed

function decode_auth_loop :: "nat \<Rightarrow> u8 list \<Rightarrow> auth_requirement \<Rightarrow> scan_error + auth_requirement" where
  "decode_auth_loop cursor bytes out =
     (if bytes = [] then Inr out
      else case decode_auth_field cursor bytes out of
             Inl e \<Rightarrow> Inl e
           | Inr (cursor', bytes', out') \<Rightarrow> decode_auth_loop cursor' bytes' out')"
  by pat_completeness auto
termination
  by (relation "measure (\<lambda>(cursor, bytes, out). length bytes)") (auto dest: decode_auth_field_shrinks)

declare decode_auth_loop.simps [simp del]

definition decode_auth_requirement_message :: "u8 list \<Rightarrow> scan_error + auth_requirement" where
  "decode_auth_requirement_message bytes = decode_auth_loop 0 bytes \<lparr>rq_allowed = [], rq_scopes = []\<rparr>"

definition AUTH_REQUIREMENT_FIELD :: nat where
  "AUTH_REQUIREMENT_FIELD = 50001"

definition scan_method_options_for_auth :: "u8 list \<Rightarrow> scan_error + auth_requirement option" where
  "scan_method_options_for_auth bytes =
     try_res (wire_each (\<lambda>field_no body found.
         Inr (if field_no = AUTH_REQUIREMENT_FIELD then Some body else found)) 0 bytes None) (\<lambda>found.
     case found of
       None \<Rightarrow> Inr None
     | Some body \<Rightarrow> try_res (decode_auth_requirement_message body) (\<lambda>r. Inr (Some r)))"

subsection \<open>Descriptors\<close>

definition scan_method :: "string \<Rightarrow> string \<Rightarrow> u8 list \<Rightarrow> auth_entry list \<Rightarrow> scan_error + auth_entry list" where
  "scan_method package svc bytes es =
     try_res (wire_each (\<lambda>field_no body (name, options_bytes).
         if field_no = 1 then try_res (from_utf8 body) (\<lambda>name. Inr (name, options_bytes))
         else if field_no = 4 then Inr (name, Some body)
         else Inr (name, options_bytes)) 0 bytes ([], None)) (\<lambda>(name, options_bytes).
     let full = ''/'' @ package @ ''.'' @ svc @ ''/'' @ name
     in try_res (case options_bytes of None \<Rightarrow> Inr None | Some b \<Rightarrow> scan_method_options_for_auth b) (\<lambda>req.
        case req of
          None \<Rightarrow> Inl (MissingAuth full)
        | Some req \<Rightarrow> Inr (es @ [\<lparr>ae_full_method = full, ae_allowed = rq_allowed req, ae_scopes = rq_scopes req\<rparr>])))"

fun each_bytes :: "(u8 list \<Rightarrow> 's \<Rightarrow> 'e + 's) \<Rightarrow> u8 list list \<Rightarrow> 's \<Rightarrow> 'e + 's" where
  "each_bytes f [] s = Inr s"
| "each_bytes f (b # bs) s = try_res (f b s) (each_bytes f bs)"

definition scan_service :: "string \<Rightarrow> u8 list \<Rightarrow> auth_entry list \<Rightarrow> scan_error + auth_entry list" where
  "scan_service package bytes es =
     try_res (wire_each (\<lambda>field_no body (svc_name, methods).
         if field_no = 1 then try_res (from_utf8 body) (\<lambda>name. Inr (name, methods))
         else if field_no = 2 then Inr (svc_name, methods @ [body])
         else Inr (svc_name, methods)) 0 bytes ([], [])) (\<lambda>(svc_name, methods).
     each_bytes (scan_method package svc_name) methods es)"

definition scan_file :: "u8 list \<Rightarrow> auth_entry list \<Rightarrow> scan_error + auth_entry list" where
  "scan_file bytes es =
     try_res (wire_each (\<lambda>field_no body (package, services).
         if field_no = 2 then try_res (from_utf8 body) (\<lambda>package. Inr (package, services))
         else if field_no = 6 then Inr (package, services @ [body])
         else Inr (package, services)) 0 bytes ([], [])) (\<lambda>(package, services).
     if \<not> prefix ''headlines.'' package then Inr es
     else each_bytes (scan_service package) services es)"

text \<open>
  The outermost loop looks at the body of a frame only when it is a file: after a tag that cannot
  be decoded the scanner stays where it is, and the loop has no end, which is \<open>None\<close>.
\<close>

partial_function (option) scan_set_loop :: "nat \<Rightarrow> u8 list \<Rightarrow> auth_entry list \<Rightarrow> (scan_error + auth_entry list) option" where
  "scan_set_loop pos bytes es =
     (case scan_next pos bytes of
        None \<Rightarrow> Some (Inr es)
      | Some Panicked \<Rightarrow> Some (Inl ScanPanic)
      | Some (Frame field_no _ body pos' bytes') \<Rightarrow>
          if field_no = 1 then
            (case try_res body (\<lambda>b. scan_file b es) of
               Inl e \<Rightarrow> Some (Inl e)
             | Inr es' \<Rightarrow> scan_set_loop pos' bytes' es')
          else scan_set_loop pos' bytes' es)"

definition scan_descriptor_set :: "u8 list \<Rightarrow> (scan_error + auth_entry list) option" where
  "scan_descriptor_set bytes = scan_set_loop 0 bytes []"

subsection \<open>The table\<close>

text \<open>The constant that a name in the emitted table refers to.\<close>

definition class_of_name :: "string \<Rightarrow> subject_class" where
  "class_of_name name =
     (if name = ''Anonymous'' then AnonymousClass
      else if name = ''UserSelf'' then UserSelf
      else if name = ''AccountSelf'' then AccountSelf
      else if name = ''AccountOwnsResource'' then AccountOwnsResource
      else SystemClass)"

text \<open>\<open>phf_codegen\<close> panics when a key is entered twice, which is \<open>None\<close>.\<close>

definition write_auth_table :: "auth_entry list \<Rightarrow> auth_table option" where
  "write_auth_table es =
     (if distinct (map ae_full_method es)
      then Some (map (\<lambda>e. (ae_full_method e, \<lparr>allowed = map class_of_name (ae_allowed e), spec_scopes = ae_scopes e\<rparr>)) es)
      else None)"

text \<open>What \<open>main\<close> does with the bytes of the descriptor file.\<close>

definition build_auth_table :: "u8 list \<Rightarrow> (scan_error + auth_table option) option" where
  "build_auth_table descriptor_bytes =
     map_option (\<lambda>r. try_res r (\<lambda>es. Inr (write_auth_table es))) (scan_descriptor_set descriptor_bytes)"

end
