(* ===== verification/Auth_Descriptor.thy ===== *)
theory Auth_Descriptor
  imports Auth_Table
begin

text \<open>
  What the scan of the authorization annotations (\<open>Auth_Table\<close>) promises. The descriptors are data
  here, with an encoder that writes them in the wire format; scanning the encoding is looking up
  the requirement of every method in order. On bytes that begin with a tag that cannot be decoded
  the scan does not end.
\<close>

unbundle bit_operations_syntax

subsection \<open>Varints\<close>

text \<open>The encoder: seven bits a byte, the lowest first.\<close>

function encode_varint :: "nat \<Rightarrow> u8 list" where
  "encode_varint n =
     (if n < 128 then [of_nat n] else of_nat (128 + n mod 128) # encode_varint (n div 128))"
  by pat_completeness auto
termination
  by (relation "measure (\<lambda>n. n)") auto

declare encode_varint.simps [simp del]

lemma continued_byte:
  fixes k :: nat
  assumes "k < 128"
  shows "(of_nat (128 + k) :: u8) AND 0x7F = of_nat k" and "(of_nat (128 + k) :: u8) AND 0x80 \<noteq> 0"
proof -
  have "\<forall>k<128. (of_nat (128 + k) :: u8) AND 0x7F = of_nat k \<and> (of_nat (128 + k) :: u8) AND 0x80 \<noteq> 0"
    by code_simp
  with assms show "(of_nat (128 + k) :: u8) AND 0x7F = of_nat k" and "(of_nat (128 + k) :: u8) AND 0x80 \<noteq> 0"
    by auto
qed

lemma final_byte:
  fixes k :: nat
  assumes "k < 128"
  shows "(of_nat k :: u8) AND 0x7F = of_nat k" and "(of_nat k :: u8) AND 0x80 = 0"
proof -
  have "\<forall>k<128. (of_nat k :: u8) AND 0x7F = of_nat k \<and> (of_nat k :: u8) AND 0x80 = 0"
    by code_simp
  with assms show "(of_nat k :: u8) AND 0x7F = of_nat k" and "(of_nat k :: u8) AND 0x80 = 0"
    by auto
qed

lemma ucast_byte: "k < 256 \<Longrightarrow> (ucast (of_nat k :: u8) :: u64) = of_nat k"
  by (simp add: unsigned_of_nat take_bit_nat_eq_self)

lemma unat_u64: "n < 2 ^ 64 \<Longrightarrow> unat (of_nat n :: u64) = n"
  by (simp add: unsigned_of_nat take_bit_nat_eq_self)

lemma of_nat_split_7: "(of_nat n :: u64) = of_nat (n mod 128) OR push_bit 7 (of_nat (n div 128))"
proof -
  have "n = take_bit 7 n OR push_bit 7 (drop_bit 7 n)"
    by (rule bit_eqI) (auto simp: bit_simps, metis le_add_diff_inverse not_less)
  moreover have "of_nat (a OR b) = (of_nat a OR of_nat b :: u64)" for a b :: nat
    by (rule bit_eqI) (auto simp: bit_simps)
  moreover have "of_nat (push_bit 7 a) = (push_bit 7 (of_nat a) :: u64)" for a :: nat
    by (simp add: push_bit_eq_mult)
  ultimately have "(of_nat n :: u64) = of_nat (take_bit 7 n) OR push_bit 7 (of_nat (drop_bit 7 n))"
    by metis
  then show ?thesis
    by (simp add: take_bit_eq_mod drop_bit_eq_div)
qed

lemma numeral_pow_7: "(2::nat) ^ 7 = 128"
  by simp

lemma varint_loop_encode:
  assumes "n < 2 ^ (64 - 7 * i)" "i \<le> 9"
  shows "varint_loop i v (encode_varint n @ rest) = Inr (v OR push_bit (7 * i) (of_nat n), i + length (encode_varint n))"
  using assms
proof (induction n arbitrary: i v rule: encode_varint.induct)
  case (1 n)
  show ?case
  proof (cases "n < 128")
    case True
    then have "encode_varint n = [of_nat n]"
      by (simp add: encode_varint.simps [of n])
    with True "1.prems" show ?thesis
      by (simp add: final_byte ucast_byte)
  next
    case False
    have i: "i < 9"
    proof (rule ccontr)
      assume "\<not> i < 9"
      with "1.prems" have "i = 9" by simp
      with "1.prems" False show False by simp
    qed
    have "64 - 7 * i = (64 - 7 * Suc i) + 7"
      using i by simp
    then have "n < 2 ^ (64 - 7 * Suc i) * 128"
      using "1.prems"(1) by (metis power_add numeral_pow_7)
    then have "n div 128 < 2 ^ (64 - 7 * Suc i)"
      by (rule less_mult_imp_div_less)
    note IH = "1.IH" [OF False this, of "v OR push_bit (7 * i) (of_nat (n mod 128))"]
    have step: "encode_varint n = of_nat (128 + n mod 128) # encode_varint (n div 128)"
      using False by (simp only: encode_varint.simps [of n] if_False)
    have v: "(v OR push_bit (7 * i) (of_nat (n mod 128))) OR push_bit (7 * Suc i) (of_nat (n div 128)) =
      v OR push_bit (7 * i) (of_nat n)"
      by (subst (3) of_nat_split_7) (simp only: push_bit_or or.assoc push_bit_push_bit mult_Suc_right add.commute)
    have b: "(of_nat (128 + n mod 128) :: u8) AND 0x7F = of_nat (n mod 128)"
      "((of_nat (128 + n mod 128) :: u8) AND 0x80 = 0) = False"
      by (simp_all only: continued_byte [of "n mod 128"] pos_mod_bound zero_less_numeral mod_less_divisor simp_thms)
    have c: "ucast (of_nat (n mod 128) :: u8) = (of_nat (n mod 128) :: u64)"
      by (rule ucast_byte) (simp add: less_trans [OF mod_less_divisor])
    have "varint_loop i v (encode_varint n @ rest) =
      varint_loop (Suc i) (v OR push_bit (7 * i) (of_nat (n mod 128))) (encode_varint (n div 128) @ rest)"
      using i by (simp only: step append_Cons varint_loop.simps b c Let_def if_False) simp
    with IH i show ?thesis
      by (simp only: step list.size v) simp
  qed
qed

lemma decode_varint_encode:
  "n < 2 ^ 64 \<Longrightarrow> decode_varint (encode_varint n @ rest) = Inr (of_nat n, length (encode_varint n))"
  using varint_loop_encode [of n 0 0 rest] by (simp add: decode_varint_def)

lemma encode_varint_not_Nil [simp]: "encode_varint n \<noteq> []"
  by (simp add: encode_varint.simps [of n])

subsection \<open>Frames\<close>

text \<open>A length-delimited field, and the message of a list of them.\<close>

definition encode_field :: "nat \<times> u8 list \<Rightarrow> u8 list" where
  "encode_field = (\<lambda>(field_no, body). encode_varint (8 * field_no + 2) @ encode_varint (length body) @ body)"

definition encode_message :: "(nat \<times> u8 list) list \<Rightarrow> u8 list" where
  "encode_message fs = concat (map encode_field fs)"

lemma encode_message_Nil [simp]: "encode_message [] = []"
  by (simp add: encode_message_def)

lemma encode_message_Cons [simp]: "encode_message (f # fs) = encode_field f @ encode_message fs"
  by (simp add: encode_message_def)

lemma encode_message_append [simp]: "encode_message (fs @ gs) = encode_message fs @ encode_message gs"
  by (simp add: encode_message_def)

lemma tag_of_field:
  assumes "f < 2 ^ 32"
  shows "unat (ucast (drop_bit 3 (of_nat (8 * f + 2) :: u64)) :: u32) = f"
    and "unat ((of_nat (8 * f + 2) :: u64) AND 7) = 2"
proof -
  have tag: "unat (of_nat (8 * f + 2) :: u64) = 8 * f + 2"
    by (rule unat_u64) (use assms in simp)
  have "unat (drop_bit 3 (of_nat (8 * f + 2) :: u64)) = f"
    by (simp only: unat_drop_bit_eq tag) (simp add: drop_bit_eq_div)
  then show "unat (ucast (drop_bit 3 (of_nat (8 * f + 2) :: u64)) :: u32) = f"
    using assms by (simp add: unsigned_ucast_eq take_bit_nat_eq_self)
  have "take_bit 3 (8 * f + 2) = 2"
    by (simp add: take_bit_eq_mod, presburger)
  moreover have "(of_nat (8 * f + 2) :: u64) AND 7 = take_bit 3 (of_nat (8 * f + 2))"
    by (simp add: take_bit_eq_mask mask_eq_exp_minus_1)
  then have "unat ((of_nat (8 * f + 2) :: u64) AND 7) = take_bit 3 (8 * f + 2)"
    by (simp only: unsigned_take_bit_eq tag)
  ultimately show "unat ((of_nat (8 * f + 2) :: u64) AND 7) = 2"
    by simp
qed

lemma length_encode_field: "length body < length (encode_field (f, body))"
  by (simp add: encode_field_def)

lemma scan_next_encode:
  assumes "f < 2 ^ 32" "pos + length (encode_field (f, body)) < 2 ^ 64"
  shows "scan_next pos (encode_field (f, body) @ rest) =
    Some (Frame f 2 (Inr body) (pos + length (encode_field (f, body))) rest)"
proof -
  define t where "t = 8 * f + 2"
  have t: "t < 2 ^ 64" "unat (ucast (drop_bit 3 (of_nat t :: u64)) :: u32) = f" "unat ((of_nat t :: u64) AND 7) = 2"
    using assms(1) tag_of_field [OF assms(1)] by (simp_all only: t_def) simp
  have l: "length body < 2 ^ 64"
    using assms(2) length_encode_field [of body f] by simp
  then have ul: "unat (of_nat (length body) :: u64) = length body"
    by (rule unat_u64)
  have e: "encode_field (f, body) = encode_varint t @ encode_varint (length body) @ body"
    by (simp add: encode_field_def t_def)
  show ?thesis
    using assms(2) by (simp add: scan_next_def e decode_varint_encode [OF t(1)] decode_varint_encode [OF l] t(2,3) ul Let_def)
qed

text \<open>Looking at every frame of a message is a fold over its fields.\<close>

fun fold_fields :: "(nat \<Rightarrow> u8 list \<Rightarrow> 's \<Rightarrow> 'e + 's) \<Rightarrow> (nat \<times> u8 list) list \<Rightarrow> 's \<Rightarrow> 'e + 's" where
  "fold_fields f [] s = Inr s"
| "fold_fields f ((n, b) # fs) s = try_res (f n b s) (fold_fields f fs)"

lemma fold_fields_append: "fold_fields f (fs @ gs) s = try_res (fold_fields f fs s) (fold_fields f gs)"
  by (induction fs arbitrary: s) (auto simp: try_res_def split: sum.splits)

lemma wire_each_encode:
  assumes "\<forall>(n, b) \<in> set fs. n < 2 ^ 32" "pos + length (encode_message fs) < 2 ^ 64"
  shows "wire_each f pos (encode_message fs) s = fold_fields f fs s"
  using assms
proof (induction fs arbitrary: pos s)
  case Nil
  show ?case
    by (simp add: wire_each.simps scan_next_def)
next
  case (Cons x fs)
  obtain n b where x: "x = (n, b)"
    by force
  from Cons.prems have n: "n < 2 ^ 32" "pos + length (encode_field (n, b)) < 2 ^ 64"
    by (auto simp: x)
  with Cons show ?case
    by (subst wire_each.simps) (auto simp: x scan_next_encode [OF n] try_res_def add.assoc split: sum.splits)
qed

subsection \<open>Requirements\<close>

text \<open>ASCII text, as identifiers and scopes are.\<close>

definition ascii :: "string \<Rightarrow> bool" where
  "ascii s \<longleftrightarrow> (\<forall>c \<in> set s. of_char c < (128 :: nat))"

definition string_bytes :: "string \<Rightarrow> u8 list" where
  "string_bytes s = map (\<lambda>c. of_nat (of_char c)) s"

lemma byte_of_ascii: "of_char c < (128 :: nat) \<Longrightarrow> unat (of_nat (of_char c) :: u8) = of_char c"
  by (simp add: unsigned_of_nat take_bit_nat_eq_self)

lemma utf8_valid_ascii: "\<forall>b \<in> set bs. b < 0x80 \<Longrightarrow> utf8_valid bs"
  by (induction bs rule: utf8_valid.induct) auto

lemma from_utf8_ascii:
  assumes "ascii s"
  shows "from_utf8 (string_bytes s) = Inr s"
proof -
  have "unat (of_nat (of_char c) :: u8) = of_char c" if "c \<in> set s" for c
    using assms that by (intro byte_of_ascii) (auto simp: ascii_def)
  moreover from this have "utf8_valid (string_bytes s)"
    using assms by (intro utf8_valid_ascii) (auto simp: string_bytes_def ascii_def word_less_nat_alt)
  ultimately show ?thesis
    by (auto simp: from_utf8_def string_bytes_def intro!: map_idI)
qed

definition class_number :: "subject_class \<Rightarrow> nat" where
  "class_number k = (case k of AnonymousClass \<Rightarrow> 1 | UserSelf \<Rightarrow> 2 | AccountSelf \<Rightarrow> 3 | AccountOwnsResource \<Rightarrow> 4 | SystemClass \<Rightarrow> 5)"

definition class_name :: "subject_class \<Rightarrow> string" where
  "class_name k = (case k of AnonymousClass \<Rightarrow> ''Anonymous'' | UserSelf \<Rightarrow> ''UserSelf'' | AccountSelf \<Rightarrow> ''AccountSelf''
     | AccountOwnsResource \<Rightarrow> ''AccountOwnsResource'' | SystemClass \<Rightarrow> ''System'')"

lemma class_of_class_name [simp]: "class_of_name (class_name k) = k"
  by (cases k) (simp_all add: class_of_name_def class_name_def)

text \<open>The repeated enumeration is packed, as \<open>protoc\<close> writes it for proto3; each scope is a field.\<close>

definition encode_requirement :: "auth_spec \<Rightarrow> (nat \<times> u8 list) list" where
  "encode_requirement sp =
     (if allowed sp = [] then [] else [(1, concat (map (\<lambda>k. encode_varint (class_number k)) (allowed sp)))]) @
     map (\<lambda>s. (2, string_bytes s)) (spec_scopes sp)"

lemma encode_class: "encode_varint (class_number k) = [of_nat (class_number k)]"
  by (cases k) (simp_all add: class_number_def encode_varint.simps)

lemma push_class_number:
  "push_class (of_nat (class_number k)) out = Inr (out\<lparr>rq_allowed := rq_allowed out @ [class_name k]\<rparr>)"
  by (cases k) (simp_all add: push_class_def class_number_def class_name_def u64_as_i32_def subject_class_name_def)

lemma packed_loop_classes:
  "packed_loop (length ks) (concat (map (\<lambda>k. encode_varint (class_number k)) ks) @ rest) out =
    Inr (out\<lparr>rq_allowed := rq_allowed out @ map class_name ks\<rparr>)"
proof (induction ks arbitrary: out)
  case Nil
  show ?case
    by (simp add: packed_loop.simps)
next
  case (Cons k ks)
  have "class_number k < 2 ^ 64"
    by (cases k) (simp_all add: class_number_def)
  note decode_varint_encode [OF this]
  with Cons show ?case
    by (subst packed_loop.simps) (simp add: push_class_number encode_class)
qed

lemma encode_classes_length: "length (concat (map (\<lambda>k. encode_varint (class_number k)) ks)) = length ks"
  by (simp add: encode_class comp_def length_concat)

lemma decode_auth_field_classes:
  fixes ks :: "subject_class list" and cursor :: nat
  defines "b \<equiv> concat (map (\<lambda>k. encode_varint (class_number k)) ks)"
  assumes "cursor + length (encode_field (1, b)) < 2 ^ 64"
  shows "decode_auth_field cursor (encode_field (1, b) @ rest) out =
    Inr (cursor + length (encode_field (1, b)), rest, out\<lparr>rq_allowed := rq_allowed out @ map class_name ks\<rparr>)"
proof -
  define t :: nat where "t = 8 * 1 + 2"
  have t: "t < 2 ^ 64" "unat (ucast (drop_bit 3 (of_nat t :: u64)) :: u32) = 1" "unat ((of_nat t :: u64) AND 7) = 2"
    using tag_of_field [of 1] by (simp_all only: t_def) simp_all
  have l: "length b < 2 ^ 64"
    using assms(2) length_encode_field [of b 1] by simp
  then have ul: "unat (of_nat (length b) :: u64) = length b"
    by (rule unat_u64)
  have e: "encode_field (1, b) = encode_varint t @ encode_varint (length b) @ b"
    by (simp add: encode_field_def t_def)
  have "packed_loop (length b) (b @ rest) out = Inr (out\<lparr>rq_allowed := rq_allowed out @ map class_name ks\<rparr>)"
    using packed_loop_classes [of ks rest out] by (simp only: b_def encode_classes_length)
  then show ?thesis
    using assms(2)
    by (simp add: decode_auth_field_def e decode_varint_encode [OF t(1)] decode_varint_encode [OF l] t(2,3) ul Let_def
        del: One_nat_def)
qed

lemma decode_auth_field_scope:
  assumes "cursor + length (encode_field (2, string_bytes s)) < 2 ^ 64" "ascii s"
  shows "decode_auth_field cursor (encode_field (2, string_bytes s) @ rest) out =
    Inr (cursor + length (encode_field (2, string_bytes s)), rest, out\<lparr>rq_scopes := rq_scopes out @ [s]\<rparr>)"
proof -
  define t :: nat where "t = 8 * 2 + 2"
  have t: "t < 2 ^ 64" "unat (ucast (drop_bit 3 (of_nat t :: u64)) :: u32) = 2" "unat ((of_nat t :: u64) AND 7) = 2"
    using tag_of_field [of 2] by (simp_all only: t_def) simp_all
  have l: "length (string_bytes s) < 2 ^ 64"
    using assms(1) length_encode_field [of "string_bytes s" 2] by simp
  then have ul: "unat (of_nat (length (string_bytes s)) :: u64) = length (string_bytes s)"
    by (rule unat_u64)
  have e: "encode_field (2, string_bytes s) = encode_varint t @ encode_varint (length (string_bytes s)) @ string_bytes s"
    by (simp add: encode_field_def t_def)
  show ?thesis
    using assms(1)
    by (simp add: decode_auth_field_def e decode_varint_encode [OF t(1)] decode_varint_encode [OF l] t(2,3) ul Let_def
        from_utf8_ascii [OF assms(2)])
qed

lemma encode_field_not_Nil [simp]: "encode_field f \<noteq> []"
  by (cases f) (simp add: encode_field_def)

lemma decode_scopes:
  assumes "\<forall>s \<in> set ss. ascii s" "cursor + length (encode_message (map (\<lambda>s. (2, string_bytes s)) ss)) < 2 ^ 64"
  shows "decode_auth_loop cursor (encode_message (map (\<lambda>s. (2, string_bytes s)) ss)) out =
    Inr (out\<lparr>rq_scopes := rq_scopes out @ ss\<rparr>)"
  using assms
proof (induction ss arbitrary: cursor out)
  case Nil
  show ?case
    by (simp add: decode_auth_loop.simps)
next
  case (Cons s ss)
  then have s: "cursor + length (encode_field (2, string_bytes s)) < 2 ^ 64" "ascii s"
    by simp_all
  from Cons show ?case
    by (subst decode_auth_loop.simps) (simp add: decode_auth_field_scope [OF s])
qed

lemma decode_requirement:
  assumes "\<forall>s \<in> set (spec_scopes sp). ascii s" "length (encode_message (encode_requirement sp)) < 2 ^ 64"
  shows "decode_auth_requirement_message (encode_message (encode_requirement sp)) =
    Inr \<lparr>rq_allowed = map class_name (allowed sp), rq_scopes = spec_scopes sp\<rparr>"
proof (cases "allowed sp = []")
  case True
  with assms show ?thesis
    using decode_scopes [of "spec_scopes sp" 0]
    by (simp add: decode_auth_requirement_message_def encode_requirement_def)
next
  case False
  define b where "b = concat (map (\<lambda>k. encode_varint (class_number k)) (allowed sp))"
  have r: "encode_requirement sp = (1, b) # map (\<lambda>s. (2, string_bytes s)) (spec_scopes sp)"
    using False by (simp add: encode_requirement_def b_def)
  have l: "0 + length (encode_field (1, b)) < 2 ^ 64"
    using assms(2) by (simp add: r)
  note f = decode_auth_field_classes [of 0 "allowed sp", folded b_def, OF l]
  show ?thesis
    using assms decode_scopes [of "spec_scopes sp" "length (encode_field (1, b))"]
    by (simp add: decode_auth_requirement_message_def r del: One_nat_def, subst decode_auth_loop.simps) (simp add: f del: One_nat_def)
qed

subsection \<open>Descriptors\<close>

text \<open>
  The fields of the descriptors that \<open>protoc\<close> writes, in the order of their numbers. What the scan
  does not look at is kept as bytes: the message types, and the options of a method before and
  after its requirement.
\<close>

record method_descriptor =
  md_name :: string
  md_input :: "u8 list"
  md_output :: "u8 list"
  md_before :: "(nat \<times> u8 list) list"
  md_requirement :: "auth_spec option"
  md_after :: "(nat \<times> u8 list) list"

record service_descriptor =
  sd_name :: string
  sd_methods :: "method_descriptor list"

record file_descriptor =
  fd_name :: "u8 list"
  fd_package :: string
  fd_dependencies :: "u8 list list"
  fd_messages :: "u8 list list"
  fd_services :: "service_descriptor list"

definition options_fields :: "method_descriptor \<Rightarrow> (nat \<times> u8 list) list" where
  "options_fields m =
     md_before m @
     (case md_requirement m of None \<Rightarrow> [] | Some sp \<Rightarrow> [(AUTH_REQUIREMENT_FIELD, encode_message (encode_requirement sp))]) @
     md_after m"

definition method_fields :: "method_descriptor \<Rightarrow> (nat \<times> u8 list) list" where
  "method_fields m =
     [(1, string_bytes (md_name m)), (2, md_input m), (3, md_output m)] @
     (if options_fields m = [] then [] else [(4, encode_message (options_fields m))])"

definition service_fields :: "service_descriptor \<Rightarrow> (nat \<times> u8 list) list" where
  "service_fields s =
     (1, string_bytes (sd_name s)) # map (\<lambda>m. (2, encode_message (method_fields m))) (sd_methods s)"

definition file_fields :: "file_descriptor \<Rightarrow> (nat \<times> u8 list) list" where
  "file_fields f =
     [(1, fd_name f), (2, string_bytes (fd_package f))] @
     map (\<lambda>d. (3, d)) (fd_dependencies f) @
     map (\<lambda>m. (4, m)) (fd_messages f) @
     map (\<lambda>s. (6, encode_message (service_fields s))) (fd_services f) @
     [(12, string_bytes ''proto3'')]"

definition set_fields :: "file_descriptor list \<Rightarrow> (nat \<times> u8 list) list" where
  "set_fields fs = map (\<lambda>f. (1, encode_message (file_fields f))) fs"

text \<open>Names and scopes in ASCII, and other options under other numbers.\<close>

definition plain_option :: "nat \<times> u8 list \<Rightarrow> bool" where
  "plain_option = (\<lambda>(n, b). n < 2 ^ 32 \<and> n \<noteq> AUTH_REQUIREMENT_FIELD)"

definition plain_method :: "method_descriptor \<Rightarrow> bool" where
  "plain_method m \<longleftrightarrow>
     ascii (md_name m) \<and> list_all plain_option (md_before m) \<and> list_all plain_option (md_after m) \<and>
     (case md_requirement m of None \<Rightarrow> True | Some sp \<Rightarrow> list_all ascii (spec_scopes sp))"

definition plain_service :: "service_descriptor \<Rightarrow> bool" where
  "plain_service s \<longleftrightarrow> ascii (sd_name s) \<and> list_all plain_method (sd_methods s)"

definition plain_file :: "file_descriptor \<Rightarrow> bool" where
  "plain_file f \<longleftrightarrow> ascii (fd_package f) \<and> list_all plain_service (fd_services f)"

text \<open>What is to be found: the path of every method of the program's packages, with its requirement.\<close>

definition rpc_rows :: "file_descriptor \<Rightarrow> (string \<times> auth_spec option) list" where
  "rpc_rows f =
     (if prefix ''headlines.'' (fd_package f)
      then concat (map (\<lambda>s. map (\<lambda>m. (''/'' @ fd_package f @ ''.'' @ sd_name s @ ''/'' @ md_name m, md_requirement m))
        (sd_methods s)) (fd_services f))
      else [])"

definition row_entry :: "string \<Rightarrow> auth_spec \<Rightarrow> auth_entry" where
  "row_entry full sp = \<lparr>ae_full_method = full, ae_allowed = map class_name (allowed sp), ae_scopes = spec_scopes sp\<rparr>"

definition rows_result :: "(string \<times> auth_spec option) list \<Rightarrow> scan_error + auth_entry list" where
  "rows_result rows =
     (case find (\<lambda>(full, req). req = None) rows of
        Some (full, _) \<Rightarrow> Inl (MissingAuth full)
      | None \<Rightarrow> Inr (map (\<lambda>(full, req). row_entry full (the req)) rows))"

lemma rows_result_Nil [simp]: "rows_result [] = Inr []"
  by (simp add: rows_result_def)

lemma rows_result_Cons:
  "rows_result ((full, req) # rows) =
    (case req of None \<Rightarrow> Inl (MissingAuth full)
     | Some sp \<Rightarrow> try_res (rows_result rows) (\<lambda>es. Inr (row_entry full sp # es)))"
  by (auto simp: rows_result_def split: option.splits)

lemma rows_result_append:
  "rows_result (rows @ rows') = try_res (rows_result rows) (\<lambda>es. try_res (rows_result rows') (\<lambda>es'. Inr (es @ es')))"
proof (induction rows)
  case (Cons r rows)
  then show ?case
    by (cases r) (auto simp: rows_result_Cons try_res_def split: option.splits sum.splits)
qed (simp add: try_res_def split: sum.splits)

definition add_rows :: "(string \<times> auth_spec option) list \<Rightarrow> auth_entry list \<Rightarrow> scan_error + auth_entry list" where
  "add_rows rows es = try_res (rows_result rows) (\<lambda>new. Inr (es @ new))"

lemma add_rows_append: "add_rows (rows @ rows') es = try_res (add_rows rows es) (add_rows rows')"
  by (auto simp: add_rows_def rows_result_append try_res_def split: sum.splits)

lemma add_rows_Nil [simp]: "add_rows [] es = Inr es"
  by (simp add: add_rows_def)

text \<open>Nested messages are shorter than what holds them.\<close>

lemma field_fits: "(n, b) \<in> set fs \<Longrightarrow> length b < length (encode_message fs)"
proof (induction fs)
  case (Cons x fs)
  then show ?case
    using length_encode_field [of b n] by fastforce
qed simp

subsection \<open>The scan of descriptors\<close>

lemma fold_fields_unchanged:
  assumes "\<And>n b. (n, b) \<in> set fs \<Longrightarrow> f n b s = Inr s"
  shows "fold_fields f fs s = Inr s"
  using assms by (induction fs) auto

lemma message_scanned:
  assumes "\<forall>(n, b) \<in> set fs. n < 2 ^ 32" "length (encode_message fs) < 2 ^ 64"
  shows "wire_each f 0 (encode_message fs) s = fold_fields f fs s"
  using wire_each_encode [of fs 0 f s] assms by simp

lemma options_scanned:
  assumes "plain_method m" "length (encode_message (options_fields m)) < 2 ^ 64"
  shows "scan_method_options_for_auth (encode_message (options_fields m)) =
    Inr (map_option (\<lambda>sp. \<lparr>rq_allowed = map class_name (allowed sp), rq_scopes = spec_scopes sp\<rparr>) (md_requirement m))"
proof -
  let ?f = "\<lambda>field_no body found. Inr (if field_no = AUTH_REQUIREMENT_FIELD then Some body else found)"
  have other: "fold_fields ?f fs found = (Inr found :: scan_error + u8 list option)" if "list_all plain_option fs" for fs and found :: "u8 list option"
    using that by (intro fold_fields_unchanged) (auto simp: list_all_iff plain_option_def)
  have "\<forall>(n, b) \<in> set (options_fields m). n < 2 ^ 32"
    using assms(1)
    by (auto simp: options_fields_def plain_method_def list_all_iff plain_option_def AUTH_REQUIREMENT_FIELD_def split: option.splits)
  note w' = message_scanned [OF this assms(2)]
  have w: "wire_each ?f 0 (encode_message (options_fields m)) None =
      Inr (map_option (\<lambda>sp. encode_message (encode_requirement sp)) (md_requirement m))"
    unfolding w' using assms(1) other by (auto simp: options_fields_def fold_fields_append plain_method_def split: option.splits)
  show ?thesis
  proof (cases "md_requirement m")
    case None
    with w show ?thesis
      by (simp add: scan_method_options_for_auth_def)
  next
    case (Some sp)
    have "length (encode_message (encode_requirement sp)) < 2 ^ 64"
      using assms(2) field_fits [of AUTH_REQUIREMENT_FIELD "encode_message (encode_requirement sp)" "options_fields m"] Some
      by (simp add: options_fields_def)
    moreover have "\<forall>s \<in> set (spec_scopes sp). ascii s"
      using assms(1) Some by (simp add: plain_method_def list_all_iff)
    ultimately show ?thesis
      using w Some by (simp add: scan_method_options_for_auth_def decode_requirement)
  qed
qed

lemma method_scanned:
  assumes "plain_method m" "length (encode_message (method_fields m)) < 2 ^ 64"
  shows "scan_method package svc (encode_message (method_fields m)) es =
    add_rows [(''/'' @ package @ ''.'' @ svc @ ''/'' @ md_name m, md_requirement m)] es"
proof -
  have name: "from_utf8 (string_bytes (md_name m)) = Inr (md_name m)"
    using assms(1) by (simp add: from_utf8_ascii plain_method_def)
  have "\<forall>(n, b) \<in> set (method_fields m). n < 2 ^ 32"
    by (auto simp: method_fields_def)
  note w = message_scanned [OF this assms(2)]
  show ?thesis
  proof (cases "options_fields m = []")
    case True
    then have "md_requirement m = None"
      by (simp add: options_fields_def split: option.splits)
    with True show ?thesis
      unfolding scan_method_def w by (simp add: method_fields_def name add_rows_def rows_result_Cons)
  next
    case False
    then have "length (encode_message (options_fields m)) < 2 ^ 64"
      using assms(2) field_fits [of 4 "encode_message (options_fields m)" "method_fields m"]
      by (simp add: method_fields_def)
    note o = options_scanned [OF assms(1) this]
    show ?thesis
      using False unfolding scan_method_def w
      by (cases "md_requirement m")
        (simp_all add: method_fields_def name o add_rows_def rows_result_Cons row_entry_def)
  qed
qed

lemma each_bytes_rows:
  assumes "\<And>x es. x \<in> set xs \<Longrightarrow> f (enc x) es = add_rows (rows x) es"
  shows "each_bytes f (map enc xs) es = add_rows (concat (map rows xs)) es"
  using assms by (induction xs arbitrary: es) (auto simp: add_rows_append try_res_def split: sum.splits)

lemma fold_fields_collect:
  assumes "\<And>b p xs. f n b (p, xs) = Inr (p, xs @ [b])"
  shows "fold_fields f (map (\<lambda>x. (n, g x)) ys) (p, xs) = Inr (p, xs @ map g ys)"
  by (induction ys arbitrary: xs) (simp_all add: assms)

lemma service_scanned:
  assumes "plain_service s" "length (encode_message (service_fields s)) < 2 ^ 64"
  shows "scan_service package (encode_message (service_fields s)) es =
    add_rows (map (\<lambda>m. (''/'' @ package @ ''.'' @ sd_name s @ ''/'' @ md_name m, md_requirement m)) (sd_methods s)) es"
proof -
  have name: "from_utf8 (string_bytes (sd_name s)) = Inr (sd_name s)"
    using assms(1) by (simp add: from_utf8_ascii plain_service_def)
  have "\<forall>(n, b) \<in> set (service_fields s). n < 2 ^ 32"
    by (auto simp: service_fields_def)
  note w = message_scanned [OF this assms(2)]
  have "scan_method package svc (encode_message (method_fields m)) es =
      add_rows [(''/'' @ package @ ''.'' @ svc @ ''/'' @ md_name m, md_requirement m)] es"
    if "m \<in> set (sd_methods s)" for m es svc
  proof (rule method_scanned)
    show "plain_method m"
      using assms(1) that by (auto simp: plain_service_def list_all_iff)
    show "length (encode_message (method_fields m)) < 2 ^ 64"
      using assms(2) field_fits [of 2 "encode_message (method_fields m)" "service_fields s"] that
      by (auto simp: service_fields_def)
  qed
  then have each: "each_bytes (scan_method package (sd_name s)) (map (\<lambda>m. encode_message (method_fields m)) (sd_methods s)) es =
      add_rows (concat (map (\<lambda>m. [(''/'' @ package @ ''.'' @ sd_name s @ ''/'' @ md_name m, md_requirement m)]) (sd_methods s))) es"
    by (rule each_bytes_rows)
  show ?thesis
    unfolding scan_service_def w by (simp add: service_fields_def name fold_fields_collect each)
qed

lemma file_scanned:
  assumes "plain_file f" "length (encode_message (file_fields f)) < 2 ^ 64"
  shows "scan_file (encode_message (file_fields f)) es = add_rows (rpc_rows f) es"
proof -
  have package: "from_utf8 (string_bytes (fd_package f)) = Inr (fd_package f)"
    using assms(1) by (simp add: from_utf8_ascii plain_file_def)
  have "\<forall>(n, b) \<in> set (file_fields f). n < 2 ^ 32"
    by (auto simp: file_fields_def)
  note w = message_scanned [OF this assms(2)]
  have "scan_service package (encode_message (service_fields s)) es =
      add_rows (map (\<lambda>m. (''/'' @ package @ ''.'' @ sd_name s @ ''/'' @ md_name m, md_requirement m)) (sd_methods s)) es"
    if "s \<in> set (fd_services f)" for s es package
  proof (rule service_scanned)
    show "plain_service s"
      using assms(1) that by (auto simp: plain_file_def list_all_iff)
    show "length (encode_message (service_fields s)) < 2 ^ 64"
      using assms(2) field_fits [of 6 "encode_message (service_fields s)" "file_fields f"] that
      by (auto simp: file_fields_def)
  qed
  then have each: "each_bytes (scan_service package) (map (\<lambda>s. encode_message (service_fields s)) (fd_services f)) es =
      add_rows (concat (map (\<lambda>s. map (\<lambda>m. (''/'' @ package @ ''.'' @ sd_name s @ ''/'' @ md_name m, md_requirement m))
        (sd_methods s)) (fd_services f))) es" for package
    by (rule each_bytes_rows)
  let ?f = "\<lambda>field_no body (package, services).
         if field_no = 2 then try_res (from_utf8 body) (\<lambda>package. Inr (package, services))
         else if field_no = 6 then Inr (package, services @ [body])
         else Inr (package, services)"
  have skip: "fold_fields ?f (map (\<lambda>x. (n, x)) xs) s = Inr s" if "n \<noteq> 2" "n \<noteq> 6" for n xs and s :: "string \<times> u8 list list"
    using that by (intro fold_fields_unchanged) auto
  have "wire_each ?f 0 (encode_message (file_fields f)) ([], []) =
      Inr (fd_package f, map (\<lambda>s. encode_message (service_fields s)) (fd_services f))"
    unfolding w by (simp add: file_fields_def fold_fields_append skip package fold_fields_collect)
  then show ?thesis
    by (simp add: scan_file_def rpc_rows_def each)
qed

lemma set_scanned:
  assumes "list_all plain_file fs" "pos + length (encode_message (set_fields fs)) < 2 ^ 64"
  shows "scan_set_loop pos (encode_message (set_fields fs) @ rest) es =
    (case add_rows (concat (map rpc_rows fs)) es of
       Inl e \<Rightarrow> Some (Inl e)
     | Inr es' \<Rightarrow> scan_set_loop (pos + length (encode_message (set_fields fs))) rest es')"
  using assms
proof (induction fs arbitrary: pos es)
  case Nil
  show ?case
    by (simp add: set_fields_def)
next
  case (Cons f fs)
  let ?b = "encode_message (file_fields f)"
  have enc: "encode_message (set_fields (f # fs)) = encode_field (1, ?b) @ encode_message (set_fields fs)"
    by (simp add: set_fields_def)
  have b: "pos + length (encode_field (1, ?b)) < 2 ^ 64"
    using Cons.prems(2) by (simp add: enc)
  have "length ?b < 2 ^ 64"
    using b length_encode_field [of ?b 1] by simp
  then have scanned: "scan_file ?b es = add_rows (rpc_rows f) es"
    using Cons.prems(1) by (simp add: file_scanned)
  have nxt: "scan_next pos (encode_field (1, ?b) @ tl) = Some (Frame 1 2 (Inr ?b) (pos + length (encode_field (1, ?b))) tl)" for tl
    by (rule scan_next_encode [OF _ b]) simp
  show ?case
    using Cons.IH [of "pos + length (encode_field (1, ?b))"] Cons.prems
    by (subst scan_set_loop.simps)
      (auto simp: enc nxt scanned add_rows_append try_res_def add.assoc simp del: One_nat_def split: sum.splits)
qed

lemma encoded_set_scanned:
  assumes "list_all plain_file fs" "length (encode_message (set_fields fs)) < 2 ^ 64"
  shows "scan_descriptor_set (encode_message (set_fields fs)) = Some (rows_result (concat (map rpc_rows fs)))"
proof -
  have e: "scan_set_loop pos [] es = Some (Inr es)" for pos es
    by (simp add: scan_set_loop.simps scan_next_def)
  show ?thesis
    using set_scanned [of fs 0 "[]" "[]"] assms
    by (simp add: scan_descriptor_set_def e add_rows_def try_res_def split: sum.splits)
qed

lemma varint_loop_unfinished:
  "\<forall>b \<in> set (take (10 - i) bytes). b AND 0x80 \<noteq> 0 \<Longrightarrow> varint_loop i v bytes = Inl VarintTooLong"
proof (induction i v bytes rule: varint_loop.induct)
  case (2 i v b bytes)
  show ?case
  proof (cases "10 \<le> i")
    case False
    then have "10 - i = Suc (10 - (i + 1))"
      by simp
    with 2 False show ?thesis
      by (simp add: Let_def)
  qed simp
qed simp

lemma scan_set_loop_stuck:
  assumes "bytes \<noteq> []" "decode_varint bytes = Inl e"
  shows "scan_set_loop pos bytes es = None"
proof -
  have "\<not> (bytes \<noteq> [] \<and> (\<exists>e. decode_varint bytes = Inl e))" if "scan_set_loop pos bytes es = Some r" for pos bytes es r
  proof (rule scan_set_loop.raw_induct [OF _ that])
    fix loop pos bytes es r
    assume "\<And>pos bytes es r. loop pos bytes es = Some r \<Longrightarrow> \<not> (bytes \<noteq> [] \<and> (\<exists>e. decode_varint bytes = Inl e))"
      and "(case scan_next pos bytes of
          None \<Rightarrow> Some (Inr es)
        | Some Panicked \<Rightarrow> Some (Inl ScanPanic)
        | Some (Frame field_no _ body pos' bytes') \<Rightarrow>
            if field_no = 1 then
              (case try_res body (\<lambda>b. scan_file b es) of Inl e \<Rightarrow> Some (Inl e) | Inr es' \<Rightarrow> loop pos' bytes' es')
            else loop pos' bytes' es) = Some r"
    then show "\<not> (bytes \<noteq> [] \<and> (\<exists>e. decode_varint bytes = Inl e))"
      by (force simp: scan_next_def)
  qed
  with assms show ?thesis
    by (cases "scan_set_loop pos bytes es") blast+
qed



subsection \<open>Witnesses\<close>

text \<open>A rough bound on the length of an encoding.\<close>

lemma encode_varint_length: "length (encode_varint n) \<le> Suc n"
proof (induction n rule: encode_varint.induct)
  case (1 n)
  then show ?case
    by (subst encode_varint.simps) auto
qed

lemma encode_field_length: "length (encode_field (n, b)) \<le> 8 * n + 4 + 2 * length b"
  using encode_varint_length [of "8 * n + 2"] encode_varint_length [of "length b"] by (simp add: encode_field_def)

lemma encode_message_length: "length (encode_message fs) \<le> (\<Sum>(n, b)\<leftarrow>fs. 8 * n + 4 + 2 * length b)"
  by (induction fs) (auto intro: add_mono encode_field_length)

lemma sum_list_bound: "\<forall>x \<in> set xs. f x \<le> k \<Longrightarrow> sum_list (map f xs) \<le> length xs * (k :: nat)"
  by (induction xs) auto

definition small_method :: "method_descriptor \<Rightarrow> bool" where
  "small_method m \<longleftrightarrow> length (md_name m) \<le> 100 \<and> length (md_input m) \<le> 100 \<and> length (md_output m) \<le> 100 \<and>
     md_before m = [] \<and> md_after m = [] \<and>
     (case md_requirement m of None \<Rightarrow> True
      | Some sp \<Rightarrow> length (allowed sp) \<le> 10 \<and> length (spec_scopes sp) \<le> 1 \<and> list_all (\<lambda>s. length s \<le> 100) (spec_scopes sp))"

definition small_service :: "service_descriptor \<Rightarrow> bool" where
  "small_service s \<longleftrightarrow> length (sd_name s) \<le> 100 \<and> length (sd_methods s) \<le> 10 \<and> list_all small_method (sd_methods s)"

definition small_file :: "file_descriptor \<Rightarrow> bool" where
  "small_file f \<longleftrightarrow> length (fd_name f) \<le> 100 \<and> length (fd_package f) \<le> 100 \<and> fd_dependencies f = [] \<and> fd_messages f = [] \<and>
     length (fd_services f) \<le> 10 \<and> list_all small_service (fd_services f)"

lemma small_requirement_length:
  assumes "length (allowed sp) \<le> 10" "length (spec_scopes sp) \<le> 1" "list_all (\<lambda>s. length s \<le> 100) (spec_scopes sp)"
  shows "length (encode_message (encode_requirement sp)) \<le> 300"
proof -
  have "(\<Sum>(n, b)\<leftarrow>encode_requirement sp. 8 * n + 4 + 2 * length b) \<le> 300"
    using assms by (cases "spec_scopes sp") (auto simp: encode_requirement_def encode_classes_length string_bytes_def)
  then show ?thesis
    using encode_message_length [of "encode_requirement sp"] by simp
qed

lemma small_options_length:
  assumes "small_method m"
  shows "length (encode_message (options_fields m)) \<le> 500000"
proof (cases "md_requirement m")
  case (Some sp)
  then have "length (encode_message (encode_requirement sp)) \<le> 300"
    using assms by (intro small_requirement_length) (simp_all add: small_method_def)
  then show ?thesis
    using encode_message_length [of "options_fields m"] Some assms
    by (simp add: options_fields_def AUTH_REQUIREMENT_FIELD_def small_method_def)
qed (use assms in \<open>simp add: options_fields_def small_method_def\<close>)

lemma small_method_length: "small_method m \<Longrightarrow> length (encode_message (method_fields m)) \<le> 2000000"
  using encode_message_length [of "method_fields m"] small_options_length [of m]
  by (simp add: method_fields_def small_method_def string_bytes_def split: if_splits)

lemma small_service_length:
  assumes "small_service s"
  shows "length (encode_message (service_fields s)) \<le> 100000000"
proof -
  have "(\<Sum>m\<leftarrow>sd_methods s. 20 + 2 * length (encode_message (method_fields m))) \<le> length (sd_methods s) * 5000000"
    using assms by (intro sum_list_bound) (auto simp: small_service_def list_all_iff dest!: small_method_length)
  also have "\<dots> \<le> 50000000"
    using assms by (simp add: small_service_def)
  finally show ?thesis
    using encode_message_length [of "service_fields s"] assms
    by (simp add: service_fields_def string_bytes_def comp_def small_service_def)
qed

lemma small_set_length:
  assumes "small_file f"
  shows "length (encode_message (set_fields [f])) < 2 ^ 64"
proof -
  have "(\<Sum>s\<leftarrow>fd_services f. 52 + 2 * length (encode_message (service_fields s))) \<le> length (fd_services f) * 300000000"
    using assms by (intro sum_list_bound) (auto simp: small_file_def list_all_iff dest!: small_service_length)
  also have "\<dots> \<le> 3000000000"
    using assms by (simp add: small_file_def)
  finally have "length (encode_message (file_fields f)) \<le> 4000000000"
    using encode_message_length [of "file_fields f"] assms
    by (simp add: file_fields_def string_bytes_def comp_def small_file_def)
  then show ?thesis
    using encode_message_length [of "set_fields [f]"] by (simp add: set_fields_def)
qed

text \<open>A service of which one method has a requirement, and one with no other method.\<close>

definition demo_method :: "string \<Rightarrow> auth_spec option \<Rightarrow> method_descriptor" where
  "demo_method name req = \<lparr>md_name = name, md_input = [], md_output = [], md_before = [], md_requirement = req, md_after = []\<rparr>"

definition demo_file :: "method_descriptor list \<Rightarrow> file_descriptor" where
  "demo_file ms = \<lparr>fd_name = [], fd_package = ''headlines.v1'', fd_dependencies = [], fd_messages = [],
     fd_services = [\<lparr>sd_name = ''S'', sd_methods = ms\<rparr>]\<rparr>"

definition demo_get :: method_descriptor where
  "demo_get = demo_method ''Get'' (Some \<lparr>allowed = [AnonymousClass, SystemClass], spec_scopes = [''a.read'']\<rparr>)"

lemma demo_file_plain: "list_all plain_file [demo_file [demo_get]]" "list_all plain_file [demo_file [demo_get, demo_method ''Put'' None]]"
  by (simp_all add: demo_file_def demo_get_def demo_method_def plain_file_def plain_service_def plain_method_def ascii_def)

lemma demo_file_length: "length (encode_message (set_fields [demo_file [demo_get]])) < 2 ^ 64"
  "length (encode_message (set_fields [demo_file [demo_get, demo_method ''Put'' None]])) < 2 ^ 64"
  by (rule small_set_length, simp add: small_file_def small_service_def small_method_def demo_file_def demo_get_def demo_method_def)+



end
