(* ===== verification/Auth_Surface.thy ===== *)
theory Auth_Surface
  imports Auth_Descriptor Rest_Safety Seed_Command
begin

text \<open>
  The authorization table of this repository: the annotations of \<open>proto/headlines/v1\<close>, one
  definition per service, and the table that the build script makes of them. Shown: the build
  script gives exactly this table; every RPC is in it; what it opens to callers without a
  credential, and what such a caller can do to the database over REST; and that the subjects of
  the demo seeding are allowed every call that the seeding makes.
\<close>

subsection \<open>The annotations\<close>

text \<open>
  A method with its requirement. The HTTP rules, which the script passes over, are a parameter;
  their option has the number 72295728.
\<close>

definition rpc_method ::
  "(string \<Rightarrow> u8 list option) \<Rightarrow> string \<Rightarrow> string \<Rightarrow> string \<Rightarrow> subject_class list \<Rightarrow> string list \<Rightarrow> method_descriptor" where
  "rpc_method http name input output classes scps =
     \<lparr>md_name = name, md_input = string_bytes input, md_output = string_bytes output, md_before = [],
      md_requirement = Some \<lparr>allowed = classes, spec_scopes = scps\<rparr>,
      md_after = (case http name of None \<Rightarrow> [] | Some rule \<Rightarrow> [(72295728, rule)])\<rparr>"

definition account_service :: "(string \<Rightarrow> u8 list option) \<Rightarrow> service_descriptor" where
  "account_service http = \<lparr>sd_name = ''AccountService'', sd_methods = [
     rpc_method http ''CreateAccount'' ''.headlines.v1.CreateAccountRequest'' ''.headlines.v1.CreateAccountResponse''
       [AnonymousClass, SystemClass] [''accounts.write''],
     rpc_method http ''GetAccount'' ''.headlines.v1.GetAccountRequest'' ''.headlines.v1.Account''
       [AnonymousClass, UserSelf, AccountSelf, SystemClass] [],
     rpc_method http ''UpdateAccount'' ''.headlines.v1.UpdateAccountRequest'' ''.headlines.v1.Account''
       [AccountOwnsResource, SystemClass] [''accounts.admin''],
     rpc_method http ''DeleteAccount'' ''.headlines.v1.DeleteAccountRequest'' ''.headlines.v1.Account''
       [AccountSelf, SystemClass] [''accounts.delete''],
     rpc_method http ''AddAccountKey'' ''.headlines.v1.AddAccountKeyRequest'' ''.headlines.v1.AccountKey''
       [AccountOwnsResource, SystemClass] [''accounts.admin''],
     rpc_method http ''RevokeAccountKey'' ''.headlines.v1.RevokeAccountKeyRequest'' ''.headlines.v1.AccountKey''
       [AccountOwnsResource, SystemClass] [''accounts.admin'']]\<rparr>"

definition account_stream_service :: "(string \<Rightarrow> u8 list option) \<Rightarrow> service_descriptor" where
  "account_stream_service http = \<lparr>sd_name = ''AccountStreamService'', sd_methods = [
     rpc_method http ''StreamAccountArticles'' ''.headlines.v1.StreamAccountArticlesRequest'' ''.headlines.v1.StreamAccountArticlesResponse''
       [SystemClass] [''articles.stream'']]\<rparr>"

definition article_service :: "(string \<Rightarrow> u8 list option) \<Rightarrow> service_descriptor" where
  "article_service http = \<lparr>sd_name = ''ArticleService'', sd_methods = [
     rpc_method http ''PublishArticle'' ''.headlines.v1.PublishArticleRequest'' ''.headlines.v1.Article''
       [AccountOwnsResource, SystemClass] [''articles.write''],
     rpc_method http ''GetArticle'' ''.headlines.v1.GetArticleRequest'' ''.headlines.v1.Article''
       [AnonymousClass, UserSelf, AccountSelf, SystemClass] [],
     rpc_method http ''ListAccountArticles'' ''.headlines.v1.ListAccountArticlesRequest'' ''.headlines.v1.ListAccountArticlesResponse''
       [AnonymousClass, UserSelf, AccountSelf, SystemClass] [],
     rpc_method http ''EditArticle'' ''.headlines.v1.EditArticleRequest'' ''.headlines.v1.Article''
       [AccountOwnsResource, SystemClass] [''articles.write''],
     rpc_method http ''TombstoneArticle'' ''.headlines.v1.TombstoneArticleRequest'' ''.headlines.v1.Article''
       [AccountOwnsResource, SystemClass] [''articles.tombstone''],
     rpc_method http ''RedactArticleVersion'' ''.headlines.v1.RedactArticleVersionRequest'' ''.google.protobuf.Empty''
       [SystemClass] [''articles.redact'']]\<rparr>"

definition draft_service :: "(string \<Rightarrow> u8 list option) \<Rightarrow> service_descriptor" where
  "draft_service http = \<lparr>sd_name = ''DraftService'', sd_methods = [
     rpc_method http ''CreateDraft'' ''.headlines.v1.CreateDraftRequest'' ''.headlines.v1.Draft''
       [AccountOwnsResource, SystemClass] [''drafts.write''],
     rpc_method http ''GetDraft'' ''.headlines.v1.GetDraftRequest'' ''.headlines.v1.Draft''
       [AccountOwnsResource, SystemClass] [''drafts.read''],
     rpc_method http ''UpdateDraft'' ''.headlines.v1.UpdateDraftRequest'' ''.headlines.v1.Draft''
       [AccountOwnsResource, SystemClass] [''drafts.write''],
     rpc_method http ''DeleteDraft'' ''.headlines.v1.DeleteDraftRequest'' ''.google.protobuf.Empty''
       [AccountOwnsResource, SystemClass] [''drafts.write''],
     rpc_method http ''ListAccountDrafts'' ''.headlines.v1.ListAccountDraftsRequest'' ''.headlines.v1.ListAccountDraftsResponse''
       [AccountOwnsResource, SystemClass] [''drafts.read''],
     rpc_method http ''PublishDraft'' ''.headlines.v1.PublishDraftRequest'' ''.headlines.v1.Article''
       [AccountOwnsResource, SystemClass] [''articles.write'']]\<rparr>"

definition event_service :: "(string \<Rightarrow> u8 list option) \<Rightarrow> service_descriptor" where
  "event_service http = \<lparr>sd_name = ''EventService'', sd_methods = [
     rpc_method http ''RecordEvent'' ''.headlines.v1.RecordEventRequest'' ''.headlines.v1.Event''
       [UserSelf, SystemClass] [''events.write''],
     rpc_method http ''RecordEventBatch'' ''.headlines.v1.RecordEventBatchRequest'' ''.headlines.v1.RecordEventBatchResponse''
       [UserSelf, SystemClass] [''events.write''],
     rpc_method http ''ListEvents'' ''.headlines.v1.ListEventsRequest'' ''.headlines.v1.ListEventsResponse''
       [SystemClass] [''events.read'']]\<rparr>"

definition feed_follow_service :: "(string \<Rightarrow> u8 list option) \<Rightarrow> service_descriptor" where
  "feed_follow_service http = \<lparr>sd_name = ''FeedFollowService'', sd_methods = [
     rpc_method http ''GetFollowFeed'' ''.headlines.v1.GetFollowFeedRequest'' ''.headlines.v1.GetFollowFeedResponse''
       [UserSelf, SystemClass] [''feeds.follow.read'']]\<rparr>"

definition feed_recommendation_service :: "(string \<Rightarrow> u8 list option) \<Rightarrow> service_descriptor" where
  "feed_recommendation_service http = \<lparr>sd_name = ''FeedRecommendationService'', sd_methods = [
     rpc_method http ''ReplaceRecommendationFeed'' ''.headlines.v1.ReplaceRecommendationFeedRequest'' ''.headlines.v1.ReplaceRecommendationFeedResponse''
       [SystemClass] [''feeds.recommendation.write''],
     rpc_method http ''GetRecommendationFeed'' ''.headlines.v1.GetRecommendationFeedRequest'' ''.headlines.v1.GetRecommendationFeedResponse''
       [UserSelf, SystemClass] [''feeds.recommendation.read'']]\<rparr>"

definition follow_service :: "(string \<Rightarrow> u8 list option) \<Rightarrow> service_descriptor" where
  "follow_service http = \<lparr>sd_name = ''FollowService'', sd_methods = [
     rpc_method http ''Follow'' ''.headlines.v1.FollowRequest'' ''.headlines.v1.Follow''
       [UserSelf, SystemClass] [''follows.write''],
     rpc_method http ''Unfollow'' ''.headlines.v1.UnfollowRequest'' ''.headlines.v1.Follow''
       [UserSelf, SystemClass] [''follows.write''],
     rpc_method http ''GetFollow'' ''.headlines.v1.GetFollowRequest'' ''.headlines.v1.Follow''
       [UserSelf, SystemClass] [''follows.read''],
     rpc_method http ''ListUserFollows'' ''.headlines.v1.ListUserFollowsRequest'' ''.headlines.v1.ListUserFollowsResponse''
       [UserSelf, SystemClass] [''follows.read''],
     rpc_method http ''ListAccountFollowers'' ''.headlines.v1.ListAccountFollowersRequest'' ''.headlines.v1.ListAccountFollowersResponse''
       [AccountSelf, SystemClass] [''follows.read'']]\<rparr>"

definition notification_service :: "(string \<Rightarrow> u8 list option) \<Rightarrow> service_descriptor" where
  "notification_service http = \<lparr>sd_name = ''NotificationService'', sd_methods = [
     rpc_method http ''SendNotification'' ''.headlines.v1.SendNotificationRequest'' ''.headlines.v1.Notification''
       [SystemClass] [''notifications.send''],
     rpc_method http ''SendNotificationBatch'' ''.headlines.v1.SendNotificationBatchRequest'' ''.headlines.v1.SendNotificationBatchResponse''
       [SystemClass] [''notifications.send''],
     rpc_method http ''ListUserNotifications'' ''.headlines.v1.ListUserNotificationsRequest'' ''.headlines.v1.ListUserNotificationsResponse''
       [UserSelf, SystemClass] [''notifications.read''],
     rpc_method http ''MarkNotificationRead'' ''.headlines.v1.MarkNotificationReadRequest'' ''.headlines.v1.Notification''
       [UserSelf] [],
     rpc_method http ''MarkAllUserNotificationsRead'' ''.headlines.v1.MarkAllUserNotificationsReadRequest'' ''.headlines.v1.MarkAllUserNotificationsReadResponse''
       [UserSelf, SystemClass] [''notifications.admin''],
     rpc_method http ''GetUserNotificationPreferences'' ''.headlines.v1.GetUserNotificationPreferencesRequest'' ''.headlines.v1.NotificationPreferences''
       [UserSelf, SystemClass] [''notifications.read''],
     rpc_method http ''UpdateUserNotificationPreferences'' ''.headlines.v1.UpdateUserNotificationPreferencesRequest'' ''.headlines.v1.NotificationPreferences''
       [UserSelf, SystemClass] [''notifications.admin'']]\<rparr>"

definition user_service :: "(string \<Rightarrow> u8 list option) \<Rightarrow> service_descriptor" where
  "user_service http = \<lparr>sd_name = ''UserService'', sd_methods = [
     rpc_method http ''CreateUser'' ''.headlines.v1.CreateUserRequest'' ''.headlines.v1.CreateUserResponse''
       [AnonymousClass, SystemClass] [''users.write''],
     rpc_method http ''GetUser'' ''.headlines.v1.GetUserRequest'' ''.headlines.v1.User''
       [AnonymousClass, UserSelf, SystemClass] [''users.read''],
     rpc_method http ''UpdateUser'' ''.headlines.v1.UpdateUserRequest'' ''.headlines.v1.User''
       [UserSelf, SystemClass] [''users.admin''],
     rpc_method http ''DeleteUser'' ''.headlines.v1.DeleteUserRequest'' ''.headlines.v1.User''
       [UserSelf, SystemClass] [''users.delete''],
     rpc_method http ''AddUserKey'' ''.headlines.v1.AddUserKeyRequest'' ''.headlines.v1.UserKey''
       [UserSelf, SystemClass] [''users.admin''],
     rpc_method http ''RevokeUserKey'' ''.headlines.v1.RevokeUserKeyRequest'' ''.headlines.v1.UserKey''
       [UserSelf, SystemClass] [''users.admin'']]\<rparr>"

definition headlines_services :: "(string \<Rightarrow> u8 list option) \<Rightarrow> service_descriptor list" where
  "headlines_services http =
     [account_service http, account_stream_service http, article_service http, draft_service http, event_service http,
      feed_follow_service http, feed_recommendation_service http, follow_service http, notification_service http,
      user_service http]"

lemmas service_defs = account_service_def account_stream_service_def article_service_def draft_service_def
  event_service_def feed_follow_service_def feed_recommendation_service_def follow_service_def
  notification_service_def user_service_def

definition service_rows :: "service_descriptor \<Rightarrow> (string \<times> auth_spec option) list" where
  "service_rows s = map (\<lambda>m. (''/headlines.v1.'' @ sd_name s @ ''/'' @ md_name m, md_requirement m)) (sd_methods s)"

text \<open>The table: the rows of all services.\<close>

definition AUTH_TABLE :: auth_table where
  "AUTH_TABLE = map (\<lambda>(full, req). (full, the req)) (concat (map service_rows (headlines_services (\<lambda>_. None))))"

text \<open>
  The files that \<open>protoc\<close> is given: those of the program hold its services, in this order, and those
  of the two vendored packages hold none.
\<close>

definition repository_files :: "(string \<Rightarrow> u8 list option) \<Rightarrow> file_descriptor list \<Rightarrow> bool" where
  "repository_files http fs \<longleftrightarrow>
     concat (map fd_services fs) = headlines_services http \<and>
     (\<forall>f \<in> set fs. fd_package f = ''headlines.v1'' \<or>
        fd_package f \<in> {''google.protobuf'', ''google.api''} \<and> fd_services f = [])"

subsection \<open>The files\<close>

text \<open>
  The search for the proto files below a directory, with the entries in the order in which the
  file system lists them; a path is the list of its components. Links and the like are neither
  directories nor files here.
\<close>

datatype tree_entry = TreeDir "(string \<times> tree_entry) list" | TreeFile | TreeOther

fun walk_protos :: "string list \<Rightarrow> tree_entry \<Rightarrow> string list list" where
  "walk_protos dir (TreeDir es) =
     concat (map (\<lambda>(name, e). case e of
         TreeDir _ \<Rightarrow> walk_protos (dir @ [name]) e
       | TreeFile \<Rightarrow> if has_ext ''proto'' name then [dir @ [name]] else []
       | TreeOther \<Rightarrow> []) es)"
| "walk_protos dir _ = []"

definition discover_proto_files :: "string list \<Rightarrow> tree_entry \<Rightarrow> string list list" where
  "discover_proto_files root t = sort (walk_protos root t)"

text \<open>What is compiled; without any proto file the build fails.\<close>

definition compile_targets :: "string list \<Rightarrow> tree_entry \<Rightarrow> string list list option" where
  "compile_targets proto_root t =
     (let all_protos = discover_proto_files proto_root t
      in if all_protos = [] then None else Some (filter (prefix (proto_root @ [''headlines''])) all_protos))"

text \<open>The file at a path.\<close>

fun file_at :: "tree_entry \<Rightarrow> string list \<Rightarrow> bool" where
  "file_at (TreeDir es) (name # p) \<longleftrightarrow>
     list_ex (\<lambda>(n, e). n = name \<and> (case e of TreeDir _ \<Rightarrow> file_at e p | TreeFile \<Rightarrow> p = [] | TreeOther \<Rightarrow> False)) es"
| "file_at _ _ \<longleftrightarrow> False"

lemma walk_finds_files:
  "path \<in> set (walk_protos dir t) \<longleftrightarrow> (\<exists>p. path = dir @ p \<and> file_at t p \<and> has_ext ''proto'' (List.last p))"
proof (induction dir t arbitrary: path rule: walk_protos.induct)
  case (1 dir es)
  have step: "path \<in> set (case e of TreeDir _ \<Rightarrow> walk_protos (dir @ [name]) e
       | TreeFile \<Rightarrow> if has_ext ''proto'' name then [dir @ [name]] else [] | TreeOther \<Rightarrow> []) \<longleftrightarrow>
      (\<exists>p. path = dir @ name # p \<and>
        (case e of TreeDir _ \<Rightarrow> file_at e p | TreeFile \<Rightarrow> p = [] | TreeOther \<Rightarrow> False) \<and> has_ext ''proto'' (List.last (name # p)))"
    if "(name, e) \<in> set es" for name e
  proof (cases e)
    case (TreeDir es')
    have ne: "p \<noteq> []" if "file_at e p" for p
      using that by (cases p) (simp_all add: TreeDir)
    show ?thesis
      using "1.IH" [OF that refl TreeDir, of path] ne by (auto simp: TreeDir)
  qed auto
  have "path \<in> set (walk_protos dir (TreeDir es)) \<longleftrightarrow>
    (\<exists>(name, e) \<in> set es. \<exists>p. path = dir @ name # p \<and>
        (case e of TreeDir _ \<Rightarrow> file_at e p | TreeFile \<Rightarrow> p = [] | TreeOther \<Rightarrow> False) \<and> has_ext ''proto'' (List.last (name # p)))"
    using step by (simp add: split_def)
  also have "\<dots> \<longleftrightarrow> (\<exists>p. path = dir @ p \<and> file_at (TreeDir es) p \<and> has_ext ''proto'' (List.last p))"
  proof
    assume "\<exists>p. path = dir @ p \<and> file_at (TreeDir es) p \<and> has_ext ''proto'' (List.last p)"
    then obtain p where p: "path = dir @ p" "file_at (TreeDir es) p" "has_ext ''proto'' (List.last p)"
      by blast
    then obtain name q where "p = name # q"
      by (cases p) auto
    with p show "\<exists>(name, e) \<in> set es. \<exists>p. path = dir @ name # p \<and>
        (case e of TreeDir _ \<Rightarrow> file_at e p | TreeFile \<Rightarrow> p = [] | TreeOther \<Rightarrow> False) \<and> has_ext ''proto'' (List.last (name # p))"
      by (auto simp: list_ex_iff)
  next
    assume "\<exists>(name, e) \<in> set es. \<exists>p. path = dir @ name # p \<and>
        (case e of TreeDir _ \<Rightarrow> file_at e p | TreeFile \<Rightarrow> p = [] | TreeOther \<Rightarrow> False) \<and> has_ext ''proto'' (List.last (name # p))"
    then obtain name e p where "(name, e) \<in> set es" "path = dir @ name # p"
      "case e of TreeDir _ \<Rightarrow> file_at e p | TreeFile \<Rightarrow> p = [] | TreeOther \<Rightarrow> False" "has_ext ''proto'' (List.last (name # p))"
      by blast
    then show "\<exists>p. path = dir @ p \<and> file_at (TreeDir es) p \<and> has_ext ''proto'' (List.last p)"
      by (intro exI [of _ "name # p"]) (force simp: list_ex_iff)
  qed
  finally show ?case .
qed simp_all

text \<open>Every proto file below \<open>headlines\<close> is compiled, in order, and nothing else.\<close>

lemma compile_targets_exact:
  assumes "compile_targets root t = Some paths"
  shows "sorted paths" "path \<in> set paths \<longleftrightarrow>
    (\<exists>p. path = root @ p \<and> prefix [''headlines''] p \<and> file_at t p \<and> has_ext ''proto'' (List.last p))"
  using assms
  by (auto simp: compile_targets_def discover_proto_files_def Let_def sorted_wrt_filter walk_finds_files split: if_splits)

subsection \<open>The table of the build script\<close>

lemma rpc_plain: "ascii name \<Longrightarrow> list_all ascii scps \<Longrightarrow> plain_method (rpc_method http name i out cs scps)"
  by (simp add: plain_method_def rpc_method_def plain_option_def AUTH_REQUIREMENT_FIELD_def split: option.split)

lemma rpc_row [simp]: "md_name (rpc_method http name i out cs scps) = name"
  "md_requirement (rpc_method http name i out cs scps) = Some \<lparr>allowed = cs, spec_scopes = scps\<rparr>"
  by (simp_all add: rpc_method_def)

lemma services_plain: "list_all plain_service (headlines_services http)"
  by (simp add: headlines_services_def service_defs plain_service_def rpc_plain ascii_def)

lemma services_rows: "map service_rows (headlines_services http) = map service_rows (headlines_services (\<lambda>_. None))"
  by (simp add: headlines_services_def service_defs service_rows_def)

lemma services_annotated: "row \<in> set (concat (map service_rows (headlines_services http))) \<Longrightarrow> snd row \<noteq> None"
  unfolding services_rows [of http] by (auto simp: headlines_services_def service_defs service_rows_def)

lemma repository_plain:
  assumes "repository_files http fs"
  shows "list_all plain_file fs"
proof -
  have "plain_file f" if f: "f \<in> set fs" for f
  proof -
    have "fd_package f \<in> {''headlines.v1'', ''google.protobuf'', ''google.api''}"
      using assms f unfolding repository_files_def by blast
    then have "ascii (fd_package f)"
      by (elim insertE) (simp_all add: ascii_def)
    moreover have "set (headlines_services http) = (\<Union>f \<in> set fs. set (fd_services f))"
      using assms by (metis repository_files_def set_concat set_map image_image)
    ultimately show ?thesis
      using services_plain [of http] f by (auto simp: plain_file_def list_all_iff)
  qed
  then show ?thesis
    by (simp add: list_all_iff)
qed

lemma repository_rows:
  assumes "repository_files http fs"
  shows "concat (map rpc_rows fs) = concat (map service_rows (headlines_services http))"
proof -
  have "rpc_rows f = concat (map service_rows (fd_services f))" if f: "f \<in> set fs" for f
    using assms f by (auto simp: repository_files_def rpc_rows_def service_rows_def [abs_def])
  then have "concat (map rpc_rows fs) = concat (map service_rows (concat (map fd_services fs)))"
    by (induction fs) auto
  with assms show ?thesis
    by (simp add: repository_files_def)
qed

lemma table_distinct: "distinct (map fst AUTH_TABLE)"
  by (simp add: AUTH_TABLE_def headlines_services_def service_defs service_rows_def)

lemma write_row_entries:
  assumes "distinct (map fst rows)"
  shows "write_auth_table (map (\<lambda>(full, sp). row_entry full sp) rows) = Some rows"
proof -
  have "map (\<lambda>e. (ae_full_method e, \<lparr>allowed = map class_of_name (ae_allowed e), spec_scopes = ae_scopes e\<rparr>))
      (map (\<lambda>(full, sp). row_entry full sp) rows) = rows"
    by (induction rows) (auto simp: row_entry_def comp_def)
  moreover have "map ae_full_method (map (\<lambda>(full, sp). row_entry full sp) rows) = map fst rows"
    by (induction rows) (auto simp: row_entry_def)
  ultimately show ?thesis
    using assms unfolding write_auth_table_def by (simp only: if_True)
qed


subsection \<open>What the table opens\<close>

lemma lookup_in_table: "table_lookup table p = Some spec \<Longrightarrow> (p, spec) \<in> set table"
  by (force simp: table_lookup_def find_Some_iff in_set_conv_nth)

lemma table_lookup_None: "table_lookup table p = None \<longleftrightarrow> p \<notin> fst ` set table"
  by (force simp: table_lookup_def find_None_iff)

definition ANONYMOUS_RPCS :: "string list" where
  "ANONYMOUS_RPCS =
     [''/headlines.v1.AccountService/CreateAccount'', ''/headlines.v1.AccountService/GetAccount'',
      ''/headlines.v1.ArticleService/GetArticle'', ''/headlines.v1.ArticleService/ListAccountArticles'',
      ''/headlines.v1.UserService/CreateUser'', ''/headlines.v1.UserService/GetUser'']"

lemma anonymous_rows: "map fst (filter (\<lambda>(_, spec). is_allowed Anonymous spec) AUTH_TABLE) = ANONYMOUS_RPCS"
  by (simp add: AUTH_TABLE_def headlines_services_def service_defs service_rows_def is_allowed_def class_matches_def ANONYMOUS_RPCS_def)

lemma anonymous_allowed:
  assumes "table_lookup AUTH_TABLE p = Some spec" "is_allowed Anonymous spec"
  shows "p \<in> set ANONYMOUS_RPCS"
  unfolding anonymous_rows [symmetric] using lookup_in_table [OF assms(1)] assms(2) by force

lemma table_paths: "map fst AUTH_TABLE = map fst (concat (map service_rows (headlines_services (\<lambda>_. None))))"
  by (simp add: AUTH_TABLE_def split_def comp_def)

lemma rpc_listed: "rpc_path msg \<in> set (map fst AUTH_TABLE)"
  unfolding table_paths
  by (cases msg) (simp_all add: headlines_services_def service_defs service_rows_def)

lemma anonymous_msg_call:
  assumes "rpc_path msg \<in> set ANONYMOUS_RPCS"
  shows "(case msg_call x dw msg of
      None \<Rightarrow> True
    | Some (CreateAccount _ _ _) \<Rightarrow> True
    | Some (CreateUser _ _ _ _) \<Rightarrow> True
    | _ \<Rightarrow> False)"
  using assms by (cases msg) (simp_all add: ANONYMOUS_RPCS_def)

text \<open>A system without scopes can read what is public, and every other RPC asks for one.\<close>

lemma unscoped_system_rows:
  "map fst (filter (\<lambda>(_, spec). is_allowed (System i k []) spec) AUTH_TABLE) =
    [''/headlines.v1.AccountService/GetAccount'', ''/headlines.v1.ArticleService/GetArticle'',
     ''/headlines.v1.ArticleService/ListAccountArticles'']"
  by (simp add: AUTH_TABLE_def headlines_services_def service_defs service_rows_def is_allowed_def class_matches_def)

lemma in_auth_table: "(p, spec) \<in> set AUTH_TABLE \<Longrightarrow> table_lookup AUTH_TABLE p = Some spec"
proof -
  have "table_lookup t p = Some spec" if "distinct (map fst t)" "(p, spec) \<in> set t" for t
    using that by (induction t) (force simp: table_lookup_def)+
  then show "(p, spec) \<in> set AUTH_TABLE \<Longrightarrow> table_lookup AUTH_TABLE p = Some spec"
    using table_distinct by blast
qed

text \<open>The subjects of the demo seeding are allowed the calls it makes.\<close>

lemma seeding_calls_allowed:
  "list_all (\<lambda>(p, subj). case table_lookup AUTH_TABLE p of None \<Rightarrow> False | Some spec \<Rightarrow> is_allowed subj spec)
    [(''/headlines.v1.AccountService/CreateAccount'', Anonymous), (''/headlines.v1.UserService/CreateUser'', Anonymous),
     (''/headlines.v1.ArticleService/PublishArticle'', Account i k), (''/headlines.v1.ArticleService/TombstoneArticle'', Account i k),
     (''/headlines.v1.DraftService/CreateDraft'', Account i k), (''/headlines.v1.FollowService/Follow'', User i k),
     (''/headlines.v1.EventService/RecordEventBatch'', User i k),
     (''/headlines.v1.FeedRecommendationService/ReplaceRecommendationFeed'', System i k (the (map_of SYSTEMS ''demo-ranker'')))]"
proof -
  have l: "table_lookup AUTH_TABLE ''/headlines.v1.AccountService/CreateAccount'' =
      Some \<lparr>allowed = [AnonymousClass, SystemClass], spec_scopes = [''accounts.write'']\<rparr>"
    "table_lookup AUTH_TABLE ''/headlines.v1.UserService/CreateUser'' =
      Some \<lparr>allowed = [AnonymousClass, SystemClass], spec_scopes = [''users.write'']\<rparr>"
    "table_lookup AUTH_TABLE ''/headlines.v1.ArticleService/PublishArticle'' =
      Some \<lparr>allowed = [AccountOwnsResource, SystemClass], spec_scopes = [''articles.write'']\<rparr>"
    "table_lookup AUTH_TABLE ''/headlines.v1.ArticleService/TombstoneArticle'' =
      Some \<lparr>allowed = [AccountOwnsResource, SystemClass], spec_scopes = [''articles.tombstone'']\<rparr>"
    "table_lookup AUTH_TABLE ''/headlines.v1.DraftService/CreateDraft'' =
      Some \<lparr>allowed = [AccountOwnsResource, SystemClass], spec_scopes = [''drafts.write'']\<rparr>"
    "table_lookup AUTH_TABLE ''/headlines.v1.FollowService/Follow'' =
      Some \<lparr>allowed = [UserSelf, SystemClass], spec_scopes = [''follows.write'']\<rparr>"
    "table_lookup AUTH_TABLE ''/headlines.v1.EventService/RecordEventBatch'' =
      Some \<lparr>allowed = [UserSelf, SystemClass], spec_scopes = [''events.write'']\<rparr>"
    "table_lookup AUTH_TABLE ''/headlines.v1.FeedRecommendationService/ReplaceRecommendationFeed'' =
      Some \<lparr>allowed = [SystemClass], spec_scopes = [''feeds.recommendation.write'']\<rparr>"
    by (rule in_auth_table, simp add: AUTH_TABLE_def headlines_services_def service_defs service_rows_def)+
  have "scope_matches ''feeds.recommendation.write'' ''feeds.recommendation.write''"
    by code_simp
  then show ?thesis
    by (simp add: l is_allowed_def class_matches_def SYSTEMS_def)
qed

text \<open>Signing up: rows are added for accounts, users and their keys, and nothing else happens.\<close>

definition signup_only :: "db \<Rightarrow> db \<Rightarrow> bool" where
  "signup_only d d' \<longleftrightarrow>
     d'\<lparr>accounts := accounts d, account_keys := account_keys d, users := users d, user_keys := user_keys d\<rparr> = d \<and>
     set (accounts d) \<subseteq> set (accounts d') \<and> set (account_keys d) \<subseteq> set (account_keys d') \<and>
     set (users d) \<subseteq> set (users d') \<and> set (user_keys d) \<subseteq> set (user_keys d')"

lemma signup_only_refl [simp]: "signup_only d d"
  by (simp add: signup_only_def)

lemma signup_only_trans: "signup_only d d1 \<Longrightarrow> signup_only d1 d2 \<Longrightarrow> signup_only d d2"
  by (cases d; cases d1; cases d2) (auto simp: signup_only_def)

lemma signup_account_create: "account_create now new d = (r, d') \<Longrightarrow> signup_only d d'"
  by (auto simp: account_create_def Let_def try_st_def insert_row_def signup_only_def split: if_splits)

lemma signup_user_create: "user_create now i name d = (r, d') \<Longrightarrow> signup_only d d'"
  by (auto simp: user_create_def Let_def try_st_def insert_row_def signup_only_def split: if_splits)

lemma signup_key_create: "key_create now new d = (r, d') \<Longrightarrow> signup_only d d'"
  by (auto simp: key_create_def try_st_def insert_checked_def insert_row_def signup_only_def split: if_splits key_kind.splits)

lemma respond_state: "snd (respond f g out) = snd out"
  by (cases out; cases "fst out") (simp_all add: respond_def)

lemma signup_try_st: "signup_only d s \<Longrightarrow> (\<And>v. signup_only d (snd (k v))) \<Longrightarrow> signup_only d (snd (try_st r s k))"
  by (cases r) (simp_all add: try_st_def)

lemma signup_create_account: "signup_only d (snd (create_account x algos mode now i k subj req d))"
  unfolding create_account_def Let_def
  by (auto split: prod.splits intro!: signup_try_st; meson signup_account_create signup_key_create signup_only_trans)

lemma signup_create_user: "signup_only d (snd (create_user x algos mode now i k subj name key d))"
  unfolding create_user_def Let_def
  by (auto split: prod.splits intro!: signup_try_st; meson signup_user_create signup_key_create signup_only_trans)

text \<open>C5. A request without a credential can do nothing but sign up. With the table of the repository,
  a REST request without an authorization header leaves all articles, versions, drafts, follows,
  feeds, events and system rows as they are, and keeps every account, user and key row; whatever
  it adds is what creating one account or one user as Anonymous adds.
\<close>

theorem anonymous_only_signs_up:
  assumes "subject_codec_ok g" "gx_table g = AUTH_TABLE"
    and "map_of (rr_headers rq) ''authorization'' = None" "rest_app g dw rq st = (r, st')"
  shows "signup_only (gs_db st) (gs_db st') \<and>
    (gs_db st' = gs_db st \<or>
     (\<exists>req. gs_db st' = snd (serve (gx_api g) (dw_now dw) Anonymous (CreateAccount (dw_id dw) (dw_key_id dw) req) (gs_db st))) \<or>
     (\<exists>n k. gs_db st' = snd (serve (gx_api g) (dw_now dw) Anonymous (CreateUser (dw_id dw) (dw_key_id dw) n k) (gs_db st))))"
proof (cases "gs_db st' = gs_db st")
  case False
  then have "handled g dw rq st (r, st')"
    using rest_app_ok [OF assms(1), of dw rq st] assms(4) by (auto simp: rest_ok_def refused_def)
  then obtain msg subj and ans :: "unit rpc" where adm: "admitted g rq msg (gs_nonces st) subj (gs_nonces st')"
    and s: "serves (gx_api g) dw msg subj (gs_db st) (ans, gs_db st')"
    by (auto simp: handled_def)
  have subj: "subj = Anonymous" and listed: "rpc_path msg \<in> set ANONYMOUS_RPCS"
    using adm assms(2,3) by (auto simp: admitted_def intro: anonymous_allowed)
  obtain c where c: "msg_call (gx_api g) dw msg = Some c"
    and d': "gs_db st' = snd (serve (gx_api g) (dw_now dw) Anonymous c (gs_db st))"
    using s False by (auto simp: serves_def respond_state subj split: option.splits)
  with anonymous_msg_call [OF listed, of "gx_api g" dw]
  consider (account) req where "c = CreateAccount (dw_id dw) (dw_key_id dw) req"
    | (user) n k where "c = CreateUser (dw_id dw) (dw_key_id dw) n k"
    by (cases msg) (auto split: if_splits)
  then show ?thesis
  proof cases
    case account
    with d' show ?thesis
      using signup_create_account by (auto simp: respond_state)
  next
    case user
    with d' show ?thesis
      using signup_create_user by (auto simp: respond_state)
  qed
qed simp

subsection \<open>Witnesses\<close>

definition demo_files :: "file_descriptor list" where
  "demo_files = [\<lparr>fd_name = string_bytes ''headlines/v1/all.proto'', fd_package = ''headlines.v1'', fd_dependencies = [],
     fd_messages = [], fd_services = headlines_services (\<lambda>_. None)\<rparr>]"

lemma rpc_small: "small_method (rpc_method (\<lambda>_. None) name i out cs scps) \<longleftrightarrow> length name \<le> 100 \<and> length i \<le> 100 \<and> length out \<le> 100 \<and>
  length cs \<le> 10 \<and> length scps \<le> 1 \<and> list_all (\<lambda>s. length s \<le> 100) scps"
  by (simp add: small_method_def rpc_method_def string_bytes_def)

lemma demo_files_length: "length (encode_message (set_fields demo_files)) < 2 ^ 64"
proof -
  have "small_file (hd demo_files)"
    by (simp add: demo_files_def small_file_def string_bytes_def headlines_services_def small_service_def service_defs rpc_small)
  from small_set_length [OF this] show ?thesis
    by (simp add: demo_files_def)
qed


text \<open>The gateway of the other witnesses, with the table of the repository: an anonymous sign-up.\<close>

definition repository_gateway :: "unit gateway_ext" where
  "repository_gateway = demo_gateway\<lparr>gx_table := AUTH_TABLE\<rparr>"

lemma repository_codec: "subject_codec_ok repository_gateway"
  using demo_subject_codec by (simp add: subject_codec_ok_def repository_gateway_def)

lemma repository_signup_public: "public_request repository_gateway demo_signup (CreateUserMsg n k)"
proof -
  have "(case table_lookup AUTH_TABLE ''/headlines.v1.UserService/CreateUser'' of None \<Rightarrow> False | Some spec \<Rightarrow> is_allowed Anonymous spec)"
    by code_simp
  then show ?thesis
    by (simp add: public_request_def repository_gateway_def demo_gateway_def demo_signup_def demo_rest_def)
qed

lemma repository_signup_app:
  "\<exists>j st'. rest_app repository_gateway demo_draws demo_signup (demo_state empty_db) = (Inr j, st') \<and>
     map us_id (users (gs_db st')) = [10]"
proof -
  obtain ans d where c: "create_user (ax_svc demo_api) (ax_algos demo_api) (ax_user_mode demo_api) 5 10 11 Anonymous []
     (Some \<lparr>pkm_algo = ''k'', pkm_public_key = []\<rparr>) empty_db = (Inr ans, d)" "map us_id (users d) = [10]"
    using demo_signup_create by (metis is_ok_iff prod.collapse)
  have route: "rest_app repository_gateway dw demo_signup st = rest_create_user repository_gateway dw demo_signup st" for dw st
    by (simp add: rest_app_def find_route_def routes_def repository_gateway_def demo_gateway_def demo_signup_def demo_rest_def
        find_method_def)
  have "rest_app repository_gateway demo_draws demo_signup (demo_state empty_db) =
    (Inr ((\<lambda>(u, k). json_obj [(''user'', user_to_json (gx_time repository_gateway) u), (''key_id'', JStr k)]) ans),
     (demo_state empty_db)\<lparr>gs_db := d\<rparr>)"
    unfolding route rest_create_user_def
    by (simp add: envelope_json_def demo_signup_def demo_rest_def Let_def)
      (rule forward_public [OF repository_codec repository_signup_public [unfolded demo_signup_def demo_rest_def]],
       simp add: c repository_gateway_def demo_gateway_def demo_draws_def demo_state_def str_field_def parse_public_key_def
         respond_def unwrap_or_def)
  with c(2) show ?thesis
    by auto
qed

theorem anonymous_only_signs_up_witness:
  "\<exists>st'. st' = snd (rest_app repository_gateway demo_draws demo_signup (demo_state empty_db)) \<and>
     signup_only empty_db (gs_db st') \<and> map us_id (users (gs_db st')) = [10]"
proof -
  obtain j st' where a: "rest_app repository_gateway demo_draws demo_signup (demo_state empty_db) = (Inr j, st')"
    and u: "map us_id (users (gs_db st')) = [10]"
    using repository_signup_app by (elim exE conjE)
  have "signup_only (gs_db (demo_state empty_db)) (gs_db st')"
    using anonymous_only_signs_up [OF repository_codec _ _ a]
    by (simp add: repository_gateway_def demo_signup_def demo_rest_def)
  with a u show ?thesis
    by (simp add: demo_state_def)
qed

end
