(* ===== verification/Metrics.thy ===== *)
theory Metrics
  imports Signed_Client Rest_Gateway
begin

text \<open>
  Metrics (\<open>headlines-server/src/metrics.rs\<close>, \<open>headlines-api/src/metrics.rs\<close>). The layer that counts
  RPCs stands in front of the interceptors of both listeners; the services count what they have
  done. Shown: the layer passes every answer through and counts each call once, always under the
  subject class \<open>none\<close> since it looks before the interceptor has run; and the counters of the
  services agree with the tables.

  The registration and the export of instruments belong to the OpenTelemetry crates: a counter
  is the list of the labels it was incremented with, or a number where it has no labels.
\<close>

subsection \<open>Labels\<close>

text \<open>\<open>trim_start_matches('/')\<close>, then \<open>splitn(2, '/')\<close>.\<close>

definition split_grpc_path :: "string \<Rightarrow> string \<times> string" where
  "split_grpc_path path =
     (let trimmed = dropWhile (\<lambda>c. c = CHR ''/'') path;
          service = takeWhile (\<lambda>c. c \<noteq> CHR ''/'') trimmed;
          mthd = drop (Suc (length service)) trimmed
      in if service = [] \<and> mthd = [] then (''unknown'', path)
         else if mthd = [] then (''unknown'', service)
         else (service, mthd))"

definition subject_class_from_extensions :: "request \<Rightarrow> string" where
  "subject_class_from_extensions req =
     (case req_subject req of
        Some Anonymous \<Rightarrow> ''anonymous''
      | Some (User _ _) \<Rightarrow> ''user''
      | Some (Account _ _) \<Rightarrow> ''account''
      | Some (System _ _ _) \<Rightarrow> ''system''
      | None \<Rightarrow> ''none'')"

definition grpc_code_label :: "int \<Rightarrow> string" where
  "grpc_code_label c =
     (if c = 0 then ''ok''
      else if c = 1 then ''cancelled''
      else if c = 2 then ''unknown''
      else if c = 3 then ''invalid_argument''
      else if c = 4 then ''deadline_exceeded''
      else if c = 5 then ''not_found''
      else if c = 6 then ''already_exists''
      else if c = 7 then ''permission_denied''
      else if c = 8 then ''resource_exhausted''
      else if c = 9 then ''failed_precondition''
      else if c = 10 then ''aborted''
      else if c = 11 then ''out_of_range''
      else if c = 12 then ''unimplemented''
      else if c = 13 then ''internal''
      else if c = 14 then ''unavailable''
      else if c = 15 then ''data_loss''
      else if c = 16 then ''unauthenticated''
      else ''unknown'')"

text \<open>The header, if there is one, as text, if it is text.\<close>

definition grpc_status_from_response :: "string option option \<Rightarrow> string" where
  "grpc_status_from_response header =
     (case header of
        None \<Rightarrow> ''ok''
      | Some v \<Rightarrow> grpc_code_label (unwrap_or (- 1) (parse_i32 (unwrap_or [] v))))"

text \<open>An error has its code in the header of the response; an answer has it in the trailers.\<close>

definition grpc_status_header :: "tonic_status + 'r \<Rightarrow> string option option" where
  "grpc_status_header resp =
     (case resp of Inl s \<Rightarrow> Some (Some (show_int (code_number (ts_code s)))) | Inr _ \<Rightarrow> None)"

subsection \<open>The layer\<close>

record rpc_labels =
  rl_service :: string
  rl_method :: string
  rl_subject_class :: string
  rl_status :: string

record rpc_metrics =
  rm_calls :: "rpc_labels list"
  rm_latency :: "((string \<times> string) \<times> nat) list"

text \<open>The inner service answers a response or fails in transport; \<open>elapsed\<close> is the time it took.\<close>

definition metrics_call ::
  "('p \<Rightarrow> string option option) \<Rightarrow> nat \<Rightarrow> (request \<Rightarrow> 's \<Rightarrow> ('e + 'p) \<times> 's) \<Rightarrow> request \<Rightarrow> 's \<times> rpc_metrics \<Rightarrow>
   ('e + 'p) \<times> 's \<times> rpc_metrics" where
  "metrics_call status_header elapsed inner req = (\<lambda>(st, m).
     let (service, mthd) = split_grpc_path (req_path req);
         class_label = subject_class_from_extensions req;
         (result, st') = inner req st;
         status_label = (case result of
             Inr resp \<Rightarrow> grpc_status_from_response (status_header resp)
           | Inl _ \<Rightarrow> ''transport_error'')
     in (result, st', m\<lparr>rm_calls := rm_calls m @
             [\<lparr>rl_service = service, rl_method = mthd, rl_subject_class = class_label, rl_status = status_label\<rparr>],
           rm_latency := rm_latency m @ [((service, mthd), elapsed)]\<rparr>))"

text \<open>The public listener with the layer where \<open>main\<close> puts it: before the interceptor.\<close>

definition metered_public_call ::
  "'c public_server \<Rightarrow> (tso \<Rightarrow> time_error + unit) \<Rightarrow> nat \<Rightarrow> request \<Rightarrow> (subject \<Rightarrow> db \<Rightarrow> 'r rpc \<times> db) \<Rightarrow>
   'c server_state \<times> rpc_metrics \<Rightarrow> (unit + (tonic_status + 'r)) \<times> 'c server_state \<times> rpc_metrics" where
  "metered_public_call s validate elapsed req handler =
     metrics_call grpc_status_header elapsed
       (\<lambda>req st. let (r, st') = public_call s validate req handler st in (Inr r, st')) req"

text \<open>The status of an answer as it is counted.\<close>

definition status_label :: "tonic_status + 'r \<Rightarrow> string" where
  "status_label resp = (case resp of Inl s \<Rightarrow> grpc_code_label (code_number (ts_code s)) | Inr _ \<Rightarrow> ''ok'')"

lemma code_number_shown: "parse_i32 (show_int (code_number c)) = Some (code_number c)"
  by (cases c; simp only:; code_simp)

lemma counted_status: "grpc_status_from_response (grpc_status_header resp) = status_label resp"
  by (auto simp: grpc_status_from_response_def grpc_status_header_def status_label_def code_number_shown unwrap_or_def
      split: sum.splits)

subsection \<open>The counters of the services\<close>

record domain_metrics =
  dm_articles_published :: nat
  dm_drafts_created :: nat
  dm_events_recorded :: nat
  dm_feeds_replaced :: nat

definition no_counts :: domain_metrics where
  "no_counts = \<lparr>dm_articles_published = 0, dm_drafts_created = 0, dm_events_recorded = 0, dm_feeds_replaced = 0\<rparr>"

text \<open>A handler that counts right before it answers.\<close>

definition counted :: "(domain_metrics \<Rightarrow> domain_metrics) \<Rightarrow> 'a rpc \<times> db \<Rightarrow> domain_metrics \<Rightarrow> 'a rpc \<times> db \<times> domain_metrics" where
  "counted add out m = (let (r, d) = out in case r of Inl _ \<Rightarrow> (r, d, m) | Inr _ \<Rightarrow> (r, d, add m))"

definition count_published :: "domain_metrics \<Rightarrow> domain_metrics" where
  "count_published m = m\<lparr>dm_articles_published := dm_articles_published m + 1\<rparr>"

definition count_created :: "domain_metrics \<Rightarrow> domain_metrics" where
  "count_created m = m\<lparr>dm_drafts_created := dm_drafts_created m + 1\<rparr>"

definition count_replaced :: "domain_metrics \<Rightarrow> domain_metrics" where
  "count_replaced m = m\<lparr>dm_feeds_replaced := dm_feeds_replaced m + 1\<rparr>"

text \<open>\<open>add(stored_count as u64)\<close>, of the \<open>i32\<close> that is answered.\<close>

definition count_recorded :: "int \<Rightarrow> domain_metrics \<Rightarrow> domain_metrics" where
  "count_recorded n m = m\<lparr>dm_events_recorded := dm_events_recorded m + unat (of_int n :: u64)\<rparr>"

text \<open>A batch is counted when it is stored, before the rows are turned into the answer.\<close>

definition record_event_batch_metered ::
  "event_ext \<Rightarrow> nat \<Rightarrow> string + tso \<Rightarrow> timestamp \<Rightarrow> uuid list \<Rightarrow> subject \<Rightarrow> event_req list \<Rightarrow> db \<times> domain_metrics \<Rightarrow>
   (event_msg list \<times> int) rpc \<times> db \<times> domain_metrics" where
  "record_event_batch_metered x batch_max_items now received_at ids subj reqs = (\<lambda>(d, m).
     (if \<not> is_authorized_writer subj then (Inl (Denied ''events.write required''), d, m)
      else if reqs = [] then
        (Inl (Domain (InvalidArgument ''events'' ''must contain at least one event'')), d, m)
      else if length reqs > batch_max_items then
        (Inl (Domain (BatchTooLarge (length reqs) batch_max_items)), d, m)
      else try_st (dom_res (tso_now x now)) (d, m) (\<lambda>now_chrono.
      try_st (dom_res (map_res (\<lambda>req. prepare_event x req subj now_chrono) reqs)) (d, m) (\<lambda>prepared.
      let (r, d') = record_batch x received_at ids prepared d
      in try_st (dom_res r) (d', m) (\<lambda>stored.
         let stored_count = wrap_i32 (int (length stored)); m' = count_recorded stored_count m
         in try_st (dom_res (map_res (event_to_proto (ee_svc x)) stored)) (d', m') (\<lambda>recorded.
            (Inr (recorded, stored_count), d', m')))))))"

text \<open>The writing RPCs with their counters; the other handlers count nothing.\<close>

fun serve_metered ::
  "api_ext \<Rightarrow> timestamp \<Rightarrow> subject \<Rightarrow> api_call \<Rightarrow> db \<times> domain_metrics \<Rightarrow> unit rpc \<times> db \<times> domain_metrics" where
  "serve_metered x now subj (PublishArticle i req) (d, m) =
     counted count_published (serve x now subj (PublishArticle i req) d) m"
| "serve_metered x now subj (PublishDraft raw) (d, m) =
     counted count_published (serve x now subj (PublishDraft raw) d) m"
| "serve_metered x now subj (CreateDraft i req) (d, m) =
     counted count_created (serve x now subj (CreateDraft i req) d) m"
| "serve_metered x now subj (ReplaceRecommendationFeed raw ids) (d, m) =
     counted count_replaced (serve x now subj (ReplaceRecommendationFeed raw ids) d) m"
| "serve_metered x now subj (RecordEvent i req tso) (d, m) =
     counted (count_recorded 1) (serve x now subj (RecordEvent i req tso) d) m"
| "serve_metered x now subj (RecordEventBatch ids reqs tso) (d, m) =
     respond (\<lambda>e. e) (\<lambda>_. ()) (record_event_batch_metered (ax_events x) (ax_batch_max x) tso now ids subj reqs (d, m))"
| "serve_metered x now subj c (d, m) = (let (r, d') = serve x now subj c d in (r, d', m))"

text \<open>What a process has counted since it was started on a database that the services can reach.\<close>

inductive metered_reach :: "api_ext \<Rightarrow> db \<Rightarrow> db \<times> domain_metrics \<Rightarrow> bool" for x d0 where
  start: "api_reach x d0 \<Longrightarrow> metered_reach x d0 (d0, no_counts)"
| call: "metered_reach x d0 (d, m) \<Longrightarrow> call_fresh c d \<Longrightarrow> metered_reach x d0 (snd (serve_metered x now subj c (d, m)))"

subsection \<open>What operations add to the tables\<close>

definition adds :: "nat \<Rightarrow> nat \<Rightarrow> nat \<Rightarrow> db \<Rightarrow> ('e + 'a) \<times> db \<Rightarrow> bool" where
  "adds a e f d out \<longleftrightarrow> is_ok (fst out) \<longrightarrow>
     length (articles (snd out)) = length (articles d) + a \<and> length (events (snd out)) = length (events d) + e \<and>
     length (drafts (snd out)) \<le> length (drafts d) + f"

named_theorems adds_intros \<open>what operations add, under guards\<close>

lemma adds_error [adds_intros]: "adds a e f d (Inl x, d')"
  by (simp add: adds_def is_ok_def)

lemma adds_same [adds_intros]: "adds 0 0 0 d (Inr v, d)"
  by (simp add: adds_def)

lemma adds_try_st [adds_intros]: "(\<And>v. adds a e f d (k v)) \<Longrightarrow> adds a e f d (try_st r s k)"
  by (cases r) (simp_all add: adds_error)

lemma adds_if [adds_intros]: "(b \<Longrightarrow> adds a e f d p) \<Longrightarrow> (\<not> b \<Longrightarrow> adds a e f d q) \<Longrightarrow> adds a e f d (if b then p else q)"
  by simp

lemma adds_case_prod [adds_intros]:
  "(\<And>v w. p = (v, w) \<Longrightarrow> adds a e f d (g v w)) \<Longrightarrow> adds a e f d (case p of (v, w) \<Rightarrow> g v w)"
  by (cases p) simp

lemma adds_tail [adds_intros]:
  "adds a e f d out \<Longrightarrow> adds a e f d (let (r, d') = out in try_st r d' (\<lambda>v. (Inr (g v), d')))"
  by (cases out; cases "fst out") (auto simp: adds_def is_ok_def)

lemma adds_respond [adds_intros]: "adds a e f d out \<Longrightarrow> adds a e f d (respond g h out)"
  by (cases out; cases "fst out") (auto simp: adds_def respond_def is_ok_def)

lemma adds_transaction:
  assumes "\<And>v d'. tx d = Inr (v, d') \<Longrightarrow> length (articles d') = length (articles d) + a \<and>
      length (events d') = length (events d) + e \<and> length (drafts d') \<le> length (drafts d) + f"
    and "\<And>v d'. snd (k v d') = d'"
  shows "adds a e f d (transaction tx d k)"
proof (cases "tx d")
  case (Inr p)
  obtain v d' where p: "p = (v, d')"
    by fastforce
  show ?thesis
    using assms(1) [of v d'] assms(2) [of v d'] by (simp add: adds_def transaction_def Inr p)
qed (simp add: transaction_def adds_error)

lemma length_update_row [simp]: "length (update_row key k f t) = length t"
  by (simp add: update_row_def)

lemma adds_identity [adds_intros]:
  "adds 0 0 0 d (account_create now new d)" "adds 0 0 0 d (account_update_op now i upd d)"
  "adds 0 0 0 d (account_soft_delete now i d)" "adds 0 0 0 d (user_create now i name d)"
  "adds 0 0 0 d (user_update_op i new_name d)" "adds 0 0 0 d (user_soft_delete now i d)"
  "adds 0 0 0 d (key_create now nk d)" "adds 0 0 0 d (key_revoke now kind p kid d)"
  by (auto simp: adds_def account_create_def account_update_op_def account_soft_delete_def user_create_def user_update_op_def
      user_soft_delete_def key_create_def key_revoke_def Let_def try_st_def is_ok_def
      split: sum.splits option.splits key_kind.splits if_splits)

lemma adds_two_steps:
  assumes "adds 0 0 0 d out" "\<And>d1. adds 0 0 0 d1 (op2 d1)"
  shows "adds 0 0 0 d (let (r, d1) = out in try_st r d1 (\<lambda>v. let (r2, d2) = op2 d1 in try_st r2 d2 (\<lambda>_. (Inr (g v), d2))))"
proof -
  obtain r d1 where o: "out = (r, d1)"
    by fastforce
  obtain r2 d2 where p: "op2 d1 = (r2, d2)"
    by fastforce
  show ?thesis
    using assms(1) assms(2) [of d1] by (cases r; cases r2) (auto simp: adds_def o p is_ok_def)
qed

lemma adds_identity_handlers:
  "adds 0 0 0 d (create_account x algos mode now i k subj req d)"
  "adds 0 0 0 d (update_account x now subj msg umask d)" "adds 0 0 0 d (delete_account x now subj raw d)"
  "adds 0 0 0 d (add_account_key x algos now k subj raw key d)" "adds 0 0 0 d (revoke_account_key x now subj raw raw2 d)"
  "adds 0 0 0 d (create_user x algos mode now i k subj name key d)"
  "adds 0 0 0 d (update_user x subj umsg umask d)" "adds 0 0 0 d (delete_user x now subj raw d)"
  "adds 0 0 0 d (add_user_key x algos now k subj raw key d)" "adds 0 0 0 d (revoke_user_key x now subj raw raw2 d)"
  unfolding create_account_def update_account_def delete_account_def add_account_key_def revoke_account_key_def
    create_user_def update_user_def delete_user_def add_user_key_def revoke_user_key_def
  by (intro adds_two_steps adds_intros)+

lemma adds_follows [adds_intros]: "adds 0 0 0 d (follow_op now u a d)" "adds 0 0 0 d (unfollow_op now u a d)"
  using follow_op_table [of now u a d] unfollow_op_table [of now u a d] by (auto simp: adds_def)

lemma adds_follow_handlers:
  "adds 0 0 0 d (follow_rpc x now subj raw raw2 d)" "adds 0 0 0 d (unfollow_rpc x now subj raw raw2 d)"
  unfolding follow_rpc_def unfollow_rpc_def by (intro adds_intros)+

lemma adds_article_publish [adds_intros]: "adds 1 0 0 d (article_publish now new d)"
  unfolding article_publish_def by (rule adds_transaction) (auto simp: publish_tx_Inr)

lemma adds_article_ops [adds_intros]:
  assumes "articles_ok d"
  shows "adds 0 0 0 d (article_edit_op now i edit d)" "adds 0 0 0 d (article_tombstone_op now i rsn d)"
    "adds 0 0 0 d (article_redact_version now i v rsn' d)"
  unfolding article_edit_op_def article_tombstone_op_def article_redact_version_def
  by (rule adds_transaction; auto simp: edit_tx_Inr [OF articles_okD [OF assms]] tombstone_tx_Inr [OF articles_okD [OF assms]]
      redact_tx_Inr [OF articles_okD [OF assms]])+

lemma length_set_draft [simp]: "length (set_draft i m f t) = length t"
  by (simp add: set_draft_def split: option.split)

lemma length_delete_row: "length (delete_row key k t) \<le> length t"
  by (simp add: delete_row_def)

lemma adds_draft_ops [adds_intros]:
  "adds 0 0 1 d (draft_create now new d)" "adds 0 0 0 d (draft_update_op now i upd d)" "adds 0 0 0 d (draft_delete i d)"
  "adds 1 0 0 d (draft_publish now i d)"
proof -
  show "adds 0 0 1 d (draft_create now new d)"
    by (auto simp: adds_def draft_create_def Let_def try_st_def insert_checked_Inr is_ok_def split: sum.splits)
  show "adds 0 0 0 d (draft_update_op now i upd d)"
    unfolding draft_update_op_def by (rule adds_transaction) (auto simp: draft_update_tx_def Let_def try_res_Inr split: if_splits)
  show "adds 0 0 0 d (draft_delete i d)"
    by (simp add: adds_def draft_delete_def length_delete_row)
  show "adds 1 0 0 d (draft_publish now i d)"
    unfolding draft_publish_def
    by (rule adds_transaction)
      (auto simp: draft_publish_tx_def try_res_Inr insert_article_Inr insert_article_live_def insert_article_version_def
        insert_checked_Inr length_delete_row)
qed

lemma adds_content_handlers:
  assumes "articles_ok d"
  shows "adds 1 0 0 d (publish_article x ser n now i subj req d)"
    "adds 0 0 0 d (edit_article x ser n now subj raw edit umask d)"
    "adds 0 0 0 d (tombstone_article x now subj raw rsn d)"
    "adds 0 0 0 d (redact_article_version x now raw v rsn d)"
    "adds 0 0 1 d (create_draft x ser n now i subj req d)"
    "adds 0 0 0 d (update_draft x ser n now subj draft umask d)"
    "adds 0 0 0 d (delete_draft x subj raw d)"
    "adds 1 0 0 d (publish_draft x ser n now subj raw d)"
  unfolding publish_article_def edit_article_def tombstone_article_def redact_article_version_def create_draft_def
    update_draft_def delete_draft_def publish_draft_def respond_let Let_def [of "unwrap_or _ _"] Let_def [of "as_account_id _"]
    Let_def [of "df_account_id _"]
  by (intro adds_intros assms)+

lemma adds_feed_replace [adds_intros]: "adds 0 0 0 d (feed_replace u ids d)"
  unfolding feed_replace_def
  by (rule adds_transaction) (auto simp: feed_replace_tx_def insert_feed_rows_def Let_def try_res_Inr split: if_splits)

lemma adds_replace_feed: "adds 0 0 0 d (replace_recommendation_feed x n subj raw ids d)"
  unfolding replace_recommendation_feed_def respond_let by (intro adds_intros)

lemma adds_record_event: "adds 0 1 0 d (record_event x now t i subj req d)"
proof -
  have "adds 0 1 0 d (let (r, d') = event_record_op x t i p d
      in try_st (dom_res r) d' (\<lambda>stored. try_st (dom_res (event_to_proto (ee_svc x) stored)) d' (\<lambda>proto. (Inr proto, d'))))" for p
  proof (cases "insert_events ''insert event'' [new_event_row x t i p] d")
    case (Inr d')
    then have "d' = d\<lparr>events := events d @ [new_event_row x t i p]\<rparr>"
      by (auto simp: insert_events_def split: if_splits)
    with Inr show ?thesis
      by (cases "event_to_proto (ee_svc x) (new_event_row x t i p)") (simp_all add: event_record_op_def adds_def is_ok_def Let_def)
  qed (simp add: event_record_op_def adds_error)
  then show ?thesis
    unfolding record_event_def by (intro adds_intros)
qed

text \<open>What each call adds when it succeeds; batches are looked at below.\<close>

fun call_adds :: "api_call \<Rightarrow> nat \<times> nat \<times> nat" where
  "call_adds (PublishArticle _ _) = (1, 0, 0)"
| "call_adds (PublishDraft _) = (1, 0, 0)"
| "call_adds (CreateDraft _ _) = (0, 0, 1)"
| "call_adds (RecordEvent _ _ _) = (0, 1, 0)"
| "call_adds _ = (0, 0, 0)"

lemma serve_adds:
  assumes "articles_ok d" "\<And>ids reqs tso. c \<noteq> RecordEventBatch ids reqs tso" "call_adds c = (a, e, f)"
  shows "adds a e f d (serve x now subj c d)"
  using assms(2,3)
  by (cases c) (auto intro!: adds_respond adds_identity_handlers adds_follow_handlers adds_content_handlers [OF assms(1)]
      adds_replace_feed adds_record_event simp del: One_nat_def)

text \<open>The metered handler of batches is the handler, and it counts what it stores.\<close>

lemma batch_metered_answer:
  "record_event_batch_metered x n now t ids subj reqs (d, m) = (r, d', m') \<Longrightarrow>
    record_event_batch x n now t ids subj reqs d = (r, d')"
  by (auto simp: record_event_batch_metered_def record_event_batch_def Let_def try_st_def
      split: if_splits sum.splits prod.splits)

lemma batch_metered_counts:
  assumes "record_event_batch_metered x n now t ids subj reqs (d, m) = (r, d', m')" "n < 2 ^ 31"
  shows "\<exists>rows. d' = d\<lparr>events := events d @ rows\<rparr> \<and> m' = m\<lparr>dm_events_recorded := dm_events_recorded m + length rows\<rparr>"
proof (cases "d' = d \<and> m' = m")
  case True
  then show ?thesis
    by (intro exI [of _ "[]"]) simp
next
  case False
  have len: "length p = length reqs" if "map_res (\<lambda>req. prepare_event x req subj k) reqs = Inr p" for k p
    using that by (auto simp: map_res_list_all2 dest: list_all2_lengthD)
  from assms(1) False obtain k p stored where
    g: "length reqs \<le> n" "map_res (\<lambda>req. prepare_event x req subj k) reqs = Inr p"
      "record_batch x t ids p d = (Inr stored, d')" "m' = count_recorded (wrap_i32 (int (length stored))) m"
    by (auto simp: record_event_batch_metered_def Let_def try_st_def map_err_def record_batch_def
        split: if_splits sum.splits prod.splits)
  from g(3) have d': "d' = d\<lparr>events := events d @ stored\<rparr>" and "length stored \<le> length p"
    by (auto simp: record_batch_def insert_events_def Let_def split: if_splits)
  with g(1) len [OF g(2)] assms(2) have "length stored < 2 ^ 31"
    by simp
  then have "unat (of_int (wrap_i32 (int (length stored))) :: u64) = length stored"
    by (simp add: wrap_i32_id unsigned_of_nat take_bit_nat_eq_self)
  with d' g(4) show ?thesis
    by (intro exI [of _ stored]) (simp add: count_recorded_def)
qed

lemma counted_state: "counted add out m = (r, d', m') \<Longrightarrow> out = (r, d') \<and> m' = (if is_ok r then add m else m)"
  by (auto simp: counted_def is_ok_def Let_def split: prod.splits sum.splits)

text \<open>Metering changes no answer and no effect.\<close>

lemma serve_metered_serve: "serve_metered x now subj c (d, m) = (r, d', m') \<Longrightarrow> serve x now subj c d = (r, d')"
proof (cases c)
  case (RecordEventBatch ids reqs tso)
  assume "serve_metered x now subj c (d, m) = (r, d', m')"
  then obtain r0 where "record_event_batch_metered (ax_events x) (ax_batch_max x) tso now ids subj reqs (d, m) = (r0, d', m')"
    and r: "r = map_sum (\<lambda>e. e) (\<lambda>_. ()) r0"
    by (cases "record_event_batch_metered (ax_events x) (ax_batch_max x) tso now ids subj reqs (d, m)"; cases "fst (record_event_batch_metered (ax_events x) (ax_batch_max x) tso now ids subj reqs (d, m))")
      (auto simp: RecordEventBatch respond_def)
  from batch_metered_answer [OF this(1)] r show ?thesis
    by (cases r0) (simp_all add: RecordEventBatch respond_def)
qed (auto split: prod.splits dest: counted_state)

definition counts_agree :: "db \<Rightarrow> db \<times> domain_metrics \<Rightarrow> bool" where
  "counts_agree d0 = (\<lambda>(d, m).
     length (articles d) = length (articles d0) + dm_articles_published m \<and>
     length (events d) = length (events d0) + dm_events_recorded m \<and>
     length (drafts d) \<le> length (drafts d0) + dm_drafts_created m)"

lemma serve_metered_agrees:
  assumes reach: "api_reach x d" and fresh: "call_fresh c d" and small: "ax_batch_max x < 2 ^ 31"
    and run: "serve_metered x now subj c (d, m) = (r, d', m')" and agree: "counts_agree d0 (d, m)"
  shows "counts_agree d0 (d', m')"
proof (cases "\<exists>ids reqs tso. c = RecordEventBatch ids reqs tso")
  case True
  then obtain ids reqs tso where c: "c = RecordEventBatch ids reqs tso"
    by blast
  from run obtain r0 where "record_event_batch_metered (ax_events x) (ax_batch_max x) tso now ids subj reqs (d, m) = (r0, d', m')"
    by (cases "record_event_batch_metered (ax_events x) (ax_batch_max x) tso now ids subj reqs (d, m)"; cases "fst (record_event_batch_metered (ax_events x) (ax_batch_max x) tso now ids subj reqs (d, m))")
      (auto simp: c respond_def)
  from batch_metered_counts [OF this small] agree show ?thesis
    by (auto simp: counts_agree_def)
next
  case False
  obtain a e f where w: "call_adds c = (a, e, f)"
    by (cases "call_adds c") auto
  have s: "serve x now subj c d = (r, d')"
    by (rule serve_metered_serve [OF run])
  have ok: "store_ok (ax_svc x) d"
    by (rule reach_store_ok [OF reach])
  have "adds a e f d (r, d')"
    using serve_adds [OF store_okD(6) [OF ok] _ w, of x now subj] False by (auto simp: s)
  moreover have "m' = (if is_ok r then m\<lparr>dm_articles_published := dm_articles_published m + a,
      dm_events_recorded := dm_events_recorded m + e, dm_drafts_created := dm_drafts_created m + f\<rparr> else m)
      \<or> a = 0 \<and> e = 0 \<and> f = 0 \<and> (m' = m \<or> m' = count_replaced m)"
    using run w False
    by (cases c) (auto dest!: counted_state simp: count_published_def count_created_def count_recorded_def split: prod.splits)
  moreover have "d' = d" if "\<not> is_ok r"
    using keeps_error [OF serve_keeps [OF ok fresh], of now subj] that by (cases r) (auto simp: s is_ok_def)
  ultimately show ?thesis
    using agree by (cases "is_ok r") (auto simp: adds_def counts_agree_def count_replaced_def)
qed

lemma metered_reach_agrees:
  assumes "metered_reach x d0 st" "ax_batch_max x < 2 ^ 31"
  shows "api_reach x (fst st) \<and> counts_agree d0 st"
  using assms(1)
proof (induction rule: metered_reach.induct)
  case start
  then show ?case
    by (simp add: counts_agree_def no_counts_def)
next
  case (call d m c now subj)
  obtain r d' m' where run: "serve_metered x now subj c (d, m) = (r, d', m')"
    by (metis prod_cases3)
  have "api_reach x (snd (serve x now subj c d))"
    using call by (intro api_reach.call) simp_all
  with serve_metered_serve [OF run] serve_metered_agrees [OF _ call.hyps(2) assms(2) run] call.IH show ?case
    by (simp add: run)
qed

subsection \<open>Runs of the public listener\<close>

text \<open>A call: the clock's answer to its timestamp, the time it takes, the request and its handler.\<close>

type_synonym 'r listener_call = "(tso \<Rightarrow> time_error + unit) \<times> nat \<times> request \<times> (subject \<Rightarrow> db \<Rightarrow> 'r rpc \<times> db)"

fun public_run :: "'c public_server \<Rightarrow> 'r listener_call list \<Rightarrow> 'c server_state \<Rightarrow> (tonic_status + 'r) list \<times> 'c server_state" where
  "public_run s [] st = ([], st)"
| "public_run s ((validate, elapsed, req, handler) # calls) st =
     (let (r, st1) = public_call s validate req handler st; (rs, st2) = public_run s calls st1 in (r # rs, st2))"

fun metered_run ::
  "'c public_server \<Rightarrow> 'r listener_call list \<Rightarrow> 'c server_state \<times> rpc_metrics \<Rightarrow>
   (unit + (tonic_status + 'r)) list \<times> 'c server_state \<times> rpc_metrics" where
  "metered_run s [] st = ([], st)"
| "metered_run s ((validate, elapsed, req, handler) # calls) st =
     (let (r, st1) = metered_public_call s validate elapsed req handler st; (rs, st2) = metered_run s calls st1 in (r # rs, st2))"

definition call_labels :: "string \<Rightarrow> 'r listener_call \<Rightarrow> tonic_status + 'r \<Rightarrow> rpc_labels" where
  "call_labels class_label = (\<lambda>(_, _, req, _) answer.
     \<lparr>rl_service = fst (split_grpc_path (req_path req)), rl_method = snd (split_grpc_path (req_path req)),
      rl_subject_class = class_label, rl_status = status_label answer\<rparr>)"

lemma metered_public_call_eq:
  assumes "req_subject req = None"
  shows "metered_public_call s validate elapsed req handler (st, m) =
    (let (r, st') = public_call s validate req handler st
     in (Inr r, st', m\<lparr>rm_calls := rm_calls m @ [call_labels ''none'' (validate, elapsed, req, handler) r],
          rm_latency := rm_latency m @ [(split_grpc_path (req_path req), elapsed)]\<rparr>))"
  using assms
  by (simp add: metered_public_call_def metrics_call_def call_labels_def counted_status subject_class_from_extensions_def
      Let_def split_def)

text \<open>C40. The layer is transparent, and it never sees a subject: over any sequence of calls that come
  in on the public listener, every answer and every effect is as without the layer; each call is
  counted once, under its service and method and the code of its answer; and the subject class
  it is counted under is always \<open>none\<close>, whoever signed it, because the layer reads the class
  before the interceptor has set the subject.
\<close>

theorem calls_counted_without_class:
  assumes "\<forall>(validate, elapsed, req, handler) \<in> set calls. req_subject req = None"
    and "public_run s calls st = (answers, st')"
  shows "\<exists>m'. metered_run s calls (st, m) = (map Inr answers, st', m') \<and>
    rm_calls m' = rm_calls m @ map2 (call_labels ''none'') calls answers \<and> length answers = length calls"
  using assms
proof (induction calls arbitrary: st m answers)
  case (Cons call calls)
  obtain validate elapsed req handler where call: "call = (validate, elapsed, req, handler)"
    by (metis prod_cases4)
  obtain r st1 where r: "public_call s validate req handler st = (r, st1)"
    by fastforce
  obtain rs where rs: "public_run s calls st1 = (rs, st')" "answers = r # rs"
    using Cons.prems(2) by (auto simp: call r Let_def split: prod.splits)
  let ?m1 = "m\<lparr>rm_calls := rm_calls m @ [call_labels ''none'' call r],
          rm_latency := rm_latency m @ [(split_grpc_path (req_path req), elapsed)]\<rparr>"
  have one: "metered_public_call s validate elapsed req handler (st, m) = (Inr r, st1, ?m1)"
    using Cons.prems(1) by (simp add: metered_public_call_eq call r)
  have "\<forall>(validate, elapsed, req, handler) \<in> set calls. req_subject req = None"
    using Cons.prems(1) by simp
  from Cons.IH [OF this rs(1), of ?m1] show ?case
    by (auto simp: call one rs(2))
qed simp


subsection \<open>Witnesses\<close>

text \<open>A publication signed by an account reaches its handler as that account, and is counted as nobody's.\<close>

lemma demo_signed_publication:
  "\<exists>req st'. req_subject req = None \<and> req_path req = ''/headlines.v1.ArticleService/PublishArticle'' \<and>
    public_call demo_server demo_validate req (\<lambda>subj d. (Inr subj, d)) (demo_server_state\<lparr>ss_db := demo_keys_db\<rparr>) =
      (Inr (Account 1 2), st')"
proof -
  let ?st = "demo_server_state\<lparr>ss_db := demo_keys_db\<rparr>" and ?path = "''/headlines.v1.ArticleService/PublishArticle''"
  have p: "pv_text demo_server = demo_text" "sha256 (pv_http demo_server) = take 32"
    by (simp_all add: demo_server_def demo_api_def Event.demo_events_def demo_svc_def)
  have r: "postgres_resolve (b64_decode (pv_text demo_server)) (ss_db ?st) 2 =
     Inr \<lparr>rk_algo = ''ed25519'', rk_public_key = [], rk_subject = Account 1 2\<rparr>"
    by (simp add: p postgres_resolve_def probe_def active_key_def any_key_def ACTIVE_STATUS_def
        demo_keys_db_def empty_db_def Let_def demo_text_def)
  have t: "call_timely demo_server demo_validate 1000 [1] 2 ?st [(2, [1])]"
    by (rule demo_timely) (simp add: demo_server_state_def)
  have table: "table_lookup (pv_table demo_server) ?path = Some \<lparr>allowed = [AccountSelf], spec_scopes = []\<rparr>"
    "is_allowed (Account 1 2) \<lparr>allowed = [AccountSelf], spec_scopes = []\<rparr>"
    by (simp_all add: demo_server_def table_lookup_def is_allowed_def class_matches_def)
  obtain v where req: "signed_request (pv_text demo_server) (sha256 (pv_http demo_server)) demo_client 1000 [1] [9] [] 2 ?path =
      Some (wire_request ?path [(''authorization'', v)] [9])"
    using signed_request_Some [OF demo_server_ok(1,2), of "sha256 (pv_http demo_server)" 1000 "[1]" "[9]" "[]" 2 ?path] by metis
  from signed_request_admitted [OF demo_server_ok(1,2) r _ _ t table(1) _ req, of "\<lambda>subj d. (Inr subj, d)"]
    demo_server_ok(3) [of "[]"] table(2)
  show ?thesis
    by (intro exI [of _ "wire_request ?path [(''authorization'', v)] [9]"]) (auto simp: wire_request_def)
qed

theorem calls_counted_without_class_witness:
  "\<exists>req m'. fst (metered_run demo_server [(demo_validate, 7, req, \<lambda>subj d. (Inr subj, d))]
      (demo_server_state\<lparr>ss_db := demo_keys_db\<rparr>, \<lparr>rm_calls = [], rm_latency = []\<rparr>)) = [Inr (Inr (Account 1 2))] \<and>
    snd (snd (metered_run demo_server [(demo_validate, 7, req, \<lambda>subj d. (Inr subj, d))]
      (demo_server_state\<lparr>ss_db := demo_keys_db\<rparr>, \<lparr>rm_calls = [], rm_latency = []\<rparr>))) = m' \<and>
    rm_calls m' = [\<lparr>rl_service = ''headlines.v1.ArticleService'', rl_method = ''PublishArticle'',
      rl_subject_class = ''none'', rl_status = ''ok''\<rparr>]"
proof -
  obtain req st' where req: "req_subject req = None" "req_path req = ''/headlines.v1.ArticleService/PublishArticle''"
    and call: "public_call demo_server demo_validate req (\<lambda>subj d. (Inr subj, d)) (demo_server_state\<lparr>ss_db := demo_keys_db\<rparr>) =
      (Inr (Account 1 2), st')"
    using demo_signed_publication by blast
  let ?calls = "[(demo_validate, 7, req, \<lambda>subj d. (Inr subj, d))] :: subject listener_call list"
  have run: "public_run demo_server ?calls (demo_server_state\<lparr>ss_db := demo_keys_db\<rparr>) = ([Inr (Account 1 2)], st')"
    by (simp add: call)
  have "split_grpc_path ''/headlines.v1.ArticleService/PublishArticle'' = (''headlines.v1.ArticleService'', ''PublishArticle'')"
    by code_simp
  moreover from calls_counted_without_class [OF _ run, of "\<lparr>rm_calls = [], rm_latency = []\<rparr>"] req(1)
  obtain m' where "metered_run demo_server ?calls (demo_server_state\<lparr>ss_db := demo_keys_db\<rparr>, \<lparr>rm_calls = [], rm_latency = []\<rparr>) =
      (map Inr [Inr (Account 1 2)], st', m')"
    and "rm_calls m' = [] @ map2 (call_labels ''none'') ?calls [Inr (Account 1 2)]"
    by auto
  ultimately show ?thesis
    using req(2) by (intro exI [of _ req] exI [of _ m']) (simp add: call_labels_def status_label_def)
qed

definition demo_metered :: "db \<times> domain_metrics" where
  "demo_metered = snd (serve_metered demo_api 6 (Account 1 2) (PublishArticle 10 demo_req)
     (snd (serve_metered demo_api 5 Anonymous (CreateAccount 1 2 demo_careq) (empty_db, no_counts))))"

lemma demo_metered_reach: "metered_reach demo_api empty_db (fst demo_metered, snd demo_metered)"
proof -
  obtain d m where s: "snd (serve_metered demo_api 5 Anonymous (CreateAccount 1 2 demo_careq) (empty_db, no_counts)) = (d, m)"
    by fastforce
  have "metered_reach demo_api empty_db (d, m)"
    unfolding s [symmetric] by (rule metered_reach.call [OF metered_reach.start [OF api_reach.start]]) (simp add: call_fresh_def)
  moreover have "drafts d = []"
  proof -
    have "drafts (fst (snd (serve_metered demo_api 5 Anonymous (CreateAccount 1 2 demo_careq) (empty_db, no_counts)))) = []"
      by code_simp
    then show ?thesis
      by (simp only: s fst_conv)
  qed
  ultimately show ?thesis
    unfolding demo_metered_def s prod.collapse by (intro metered_reach.call) (simp_all add: call_fresh_def lookup_def)
qed


end
