(* ===== verification/Spec2Isabelle.thy ===== *)
theory Spec2Isabelle
  imports Authorize Resolver Rest_Safety Seed_Command Auth_Surface Metrics
begin

text \<open>
  A verification development for \<open>headlines\<close>, a publishing backend in Rust: gRPC services
  (\<open>headlines-api\<close>) over Postgres repositories (\<open>headlines-store\<close>), behind signed-request
  authentication and table-driven authorization (\<open>headlines-auth\<close>), with the shared types in
  \<open>headlines-core\<close>, a REST gateway (\<open>headlines-rest-gateway\<close>) and the server that puts them
  together, configures them and seeds a demo (\<open>headlines-server\<close>).

  \<^bold>\<open>How the parts interact.\<close> A request reaches a listener. The public one runs
  \<open>AuthInterceptor\<close>: it parses the authorization header, rebuilds the canonical string,
  resolves the key in Postgres, checks the signature, the timestamp (against the timestamp
  oracle) and the nonce, and attaches the subject. \<open>AuthorizationLayer\<close> then looks the method
  up in the authorization table. A service handler validates the request, checks ownership and
  calls one repository operation; the repository runs SQL on the tables. The REST gateway
  authenticates a request itself, translates it to a message and sends it, with the subject in a
  header, to the trusted listener, which believes that header; it translates the answer back. The
  seeding command is a client of the public listener that signs its calls.

  \<^bold>\<open>Theories.\<close>
  \<^item> \<open>Prelude\<close>: Rust's results with \<open>?\<close>, machine integers, UTF-8 strings as byte lists,
    tables as lists of rows with primary keys, the collections of simplification rules.
  \<^item> \<open>Tso_Value\<close> (\<open>core/tso.rs\<close>), \<open>Subject\<close> (\<open>core/subject.rs\<close>, \<open>core/auth.rs\<close>), \<open>Errors\<close>
    (\<open>core/error.rs\<close>): the shared types, timestamps as \<open>64 word\<close>.
  \<^item> \<open>Time_Source\<close> (\<open>auth/time\<close>): the oracle. Issuing is a loop of load and compare-and-swap;
    the step relation \<open>issue_step\<close> interleaves any number of threads, so what is shown of the
    issued timestamps holds for every schedule. Crash and reboot go through the flushed
    high-water mark.
  \<^item> \<open>Nonce\<close> (\<open>auth/nonce.rs\<close>), \<open>Canonical\<close> and \<open>Strategy\<close> (\<open>auth/strategy.rs\<close>,
    \<open>auth/algo\<close>), \<open>Authorize\<close> (\<open>auth/interceptor.rs\<close>, \<open>auth/authorize.rs\<close>), \<open>Resolver\<close>
    (\<open>auth/postgres_resolver.rs\<close>): authentication and authorization. The LRU cache of the nonce
    store is a locale, interpreted by a list; verification of signatures, base64, SHA-256 and
    the authorization table are parameters.
  \<^item> \<open>Database\<close> (\<open>store/schema.rs\<close>, \<open>db/schema.sql\<close>): the tables as one record, inserts with
    keys, references and checks, transactions that undo on error.
  \<^item> \<open>Article_Store\<close>, \<open>Article_Refinement\<close>, \<open>Article_Listing\<close>, \<open>Draft_Store\<close>,
    \<open>Identity_Store\<close> (\<open>store/repo\<close>): the repositories. The article tables refine an abstract
    article, which is a list of versions and perhaps a tombstone.
  \<^item> \<open>Pagination\<close>: keyset pages for any ordering, as the locale \<open>keyset_order\<close>; walking the
    pages is shown once and used by every listing. Walks take fuel, and one more than the number
    of rows is enough since every page but the last is not empty.
  \<^item> \<open>Atomic\<close>: the contract of an operation that succeeds or changes nothing, as the locale
    \<open>store_op\<close>, and its closure under the guards that handlers put in front of it.
  \<^item> \<open>Content\<close>, \<open>Article_Service\<close>, \<open>Draft_Service\<close>, \<open>Identity_Service\<close>, \<open>Follow\<close>, \<open>Feed\<close>,
    \<open>Event\<close> (\<open>api/services\<close> with the remaining repositories): the handlers, each in full, on
    every branch. \<open>Feed\<close> has the joins behind the recommendation feed, the follow feed and the
    account stream; \<open>Event\<close> the behavioural events.
  \<^item> \<open>Store_Invariant\<close>: all writing handlers on one database, the reachable databases, and the
    invariant of all tables.
  \<^item> \<open>Rest_Json\<close>, \<open>Rest_Error\<close>, \<open>Rest_Gateway\<close>, \<open>Rest_Safety\<close> (\<open>headlines-rest-gateway\<close>,
    \<open>api/services/notification.rs\<close>): the converters between messages and JSON, the error
    envelope, every handler and the table of routes, and what a REST request can bring about.
    A route is found among the patterns by their segments; decoding of URLs is a parameter.
  \<^item> \<open>Signed_Client\<close> (\<open>signed_request\<close> of \<open>server/seed/runner.rs\<close>, the public listener of
    \<open>server/main.rs\<close>): a client that signs, and the whole stack of the public listener over the
    database in which it resolves keys.
  \<^item> \<open>Server_Config\<close> (\<open>server/config.rs\<close>, \<open>cli.rs\<close>, \<open>tailscale.rs\<close>, the builders of
    \<open>main.rs\<close>): the layers of the configuration, the addresses, and the strategy and services that
    a configuration yields. The crate \<open>figment\<close> is a parameter, with its laws as hypotheses.
  \<^item> \<open>Seed_Content\<close> (\<open>server/seed/frontmatter.rs\<close>, \<open>content_md.rs\<close>): front matter, and the
    translation of Markdown events to nodes on a stack, which refines the tree of the events.
  \<^item> \<open>Seed_Runner\<close>, \<open>Seed_Rerun\<close>, \<open>Seed_Command\<close> (\<open>server/seed\<close>, the subcommands of
    \<open>main.rs\<close>): the seeding steps as loops over calls to the public listener and statements on
    the database, their contract as the locale \<open>guarded_step\<close> with an interpretation for each
    step that consults the record of the run, and the commands around them. The loop over batches
    of events ends because every batch either stores events or is the last.
  \<^item> \<open>Auth_Table\<close>, \<open>Auth_Descriptor\<close>, \<open>Auth_Surface\<close> (\<open>headlines-proto/build.rs\<close>,
    \<open>proto/headlines/v1\<close>): the build script's scan of the descriptors that \<open>protoc\<close> writes, byte by
    byte; what it promises, against an encoder of descriptors; and the annotations of the
    repository, one definition per service, with the table they give. The outermost loop of the
    scan need not end, so it is a partial function, and not ending is \<open>None\<close>.
  \<^item> \<open>Metrics\<close> (\<open>server/metrics.rs\<close>, \<open>api/metrics.rs\<close>): the layer that counts RPCs in front
    of the interceptor, and the counters of the services around the writing handlers.

  \<^bold>\<open>What is shown.\<close> Timestamps never repeat, in any interleaving and across reboots; no
  signed request is accepted twice; a request reaches a service only as Anonymous or as the
  subject whose key signed it, and only if the table allows it. Publishing, editing,
  tombstoning and redacting do exactly what the abstract article says; drafts are private and
  publish into exactly one article; follows are a set; every listing and feed gives each row
  that it should exactly once and in order; batches of events are all or nothing; in every
  reachable database all tables are in order, every row loads, and failed calls change nothing.
  Over REST, only what a key of its subject signed, or what the table allows Anonymous, has an
  effect, and a request succeeds or is answered with an error and changes nothing. A call signed
  by the client reaches its handler as the owner of the key, also right after signing up. Which
  listener a configuration builds is characterised, and with a horizon within that of the nonce
  store none of its requests is accepted twice. Seeding again after a complete run
  repeats only follows, feeds and events. The build script turns the annotations of all RPCs into
  the authorization table, or fails and names the first RPC without one; with the table of the
  repository a REST request without a credential can sign up and do nothing else. Counting
  changes no answer, and the counters of the services agree with the tables.

  \<^bold>\<open>Conventions.\<close> Handlers take as arguments what they draw from outside: the time, fresh
  UUIDs, the answers of the time source. Error texts of libraries are left out where a message
  embeds them. Timestamps of the database are integers in microseconds. Strings with a NUL
  character, which Postgres refuses to store, are out of scope. Concurrent transactions are
  taken one after the other; the interleaving that matters in the code, issuing timestamps, is
  modelled step by step.

  \<^bold>\<open>Not modelled.\<close> Sockets, dialling and its retries, signals and shutdown, applying migrations;
  tracing and the export of metrics (calls into OpenTelemetry, without influence on behaviour);
  failures of the file system when the seeding command writes or the build script reads; the
  protobuf code that is generated; CORS, decompression and path decoding of the HTTP libraries. The
  crates \<open>figment\<close>, \<open>clap\<close>, \<open>pulldown_cmark\<close>, \<open>rand\<close>, \<open>ed25519_dalek\<close>, \<open>sha2\<close>, \<open>base64\<close>,
  \<open>uuid\<close>, \<open>chrono\<close> and \<open>serde_json\<close> are arguments of the definitions that use them.
\<close>

end
